(* ===== verification/Prelude.thy ===== *)
theory Prelude
  imports Main "HOL-Library.Word"
begin

text \<open>
  Shared vocabulary of the development: the machine integers of the sources, the outcome of a
  procedure that may fail, be cancelled or hit a Nim \<open>Defect\<close>, the state-passing procedures
  built from such outcomes, and the small Hoare calculus with which the component theories
  prove invariants of them.
\<close>

section \<open>Machine integers\<close>

type_synonym byte = "8 word"
type_synonym u32 = "32 word"
type_synonym u64 = "64 word"
type_synonym u256 = "256 word"
type_synonym hash32 = "256 word"
type_synonym address = "160 word"

lemma sint_eq_uint_small:
  fixes x :: "'a::len word"
  assumes "uint x < 2 ^ (LENGTH('a) - 1)"
  shows "sint x = uint x"
proof -
  have "- (2 ^ (LENGTH('a) - 1)) \<le> uint x"
    by (rule order_trans [of _ 0]) simp_all
  with assms show ?thesis
    by (simp add: sint_uint signed_take_bit_int_eq_self)
qed

lemma uint_add_small:
  fixes x y :: "'a::len word"
  assumes "uint x + uint y < 2 ^ LENGTH('a)"
  shows "uint (x + y) = uint x + uint y"
  using assms by (simp add: uint_word_ariths)

lemma uint_diff_small:
  fixes x y :: "'a::len word"
  assumes "uint y \<le> uint x"
  shows "uint (x - y) = uint x - uint y"
proof -
  have "uint x - uint y < 2 ^ LENGTH('a)"
    using uint_lt2p [of x] by (rule le_less_trans [rotated]) simp
  with assms show ?thesis by (simp add: uint_word_ariths)
qed

text \<open>Adding a signed offset to an address that stays in range.\<close>

lemma uint_add_signed:
  fixes p n :: "'a::len word"
  assumes "0 \<le> uint p + sint n" and "uint p + sint n < 2 ^ LENGTH('a)"
  shows "uint (p + n) = uint p + sint n"
proof -
  have "uint (p + n) = (uint p + uint n) mod 2 ^ LENGTH('a)"
    by (simp add: uint_word_ariths)
  also have "\<dots> = (uint p + sint n) mod 2 ^ LENGTH('a)"
  proof -
    have "uint n mod 2 ^ LENGTH('a) = sint n mod 2 ^ LENGTH('a)"
      using uint_sint [of n] by (simp add: take_bit_eq_mod)
    then show ?thesis by (metis mod_add_right_eq)
  qed
  also have "\<dots> = uint p + sint n"
    using assms by (rule mod_pos_pos_trivial)
  finally show ?thesis .
qed

section \<open>Numbers as text\<close>

fun decimal :: "nat \<Rightarrow> string" where
  "decimal n =
     (if n < 10 then [char_of (48 + n)] else decimal (n div 10) @ [char_of (48 + n mod 10)])"

definition decimal_int :: "int \<Rightarrow> string" where
  "decimal_int i = (if i < 0 then CHR ''-'' # decimal (nat (- i)) else decimal (nat i))"

text \<open>Nim's \<open>toLowerAscii\<close> and \<open>split\<close>: a text has one part more than it has separators.\<close>

definition toLowerAscii :: "string \<Rightarrow> string" where
  "toLowerAscii = map (\<lambda>c. let n = of_char c :: nat in if 65 \<le> n \<and> n \<le> 90 then char_of (n + 32) else c)"

fun split_on :: "char \<Rightarrow> string \<Rightarrow> string list" where
  "split_on sep [] = [[]]"
| "split_on sep (c # cs) =
     (if c = sep then [] # split_on sep cs
      else case split_on sep cs of
             [] \<Rightarrow> [[c]]
           | part # parts \<Rightarrow> (c # part) # parts)"

fun join_with :: "char \<Rightarrow> string list \<Rightarrow> string" where
  "join_with sep [] = []"
| "join_with sep [part] = part"
| "join_with sep (part # parts) = part @ sep # join_with sep parts"

lemma split_on_part: "sep \<notin> set part \<Longrightarrow> split_on sep part = [part]"
  by (induction part) auto

lemma split_on_append:
  "sep \<notin> set part \<Longrightarrow> split_on sep (part @ sep # rest) = part # split_on sep rest"
  by (induction part) auto

lemma split_on_join:
  assumes "parts \<noteq> []" and "\<forall>part \<in> set parts. sep \<notin> set part"
  shows "split_on sep (join_with sep parts) = parts"
  using assms
  by (induction sep parts rule: join_with.induct) (simp_all add: split_on_part split_on_append)

section \<open>Outcomes and procedures\<close>

text \<open>
  What a call of a source procedure comes to. \<open>Done\<close> is a normal return, \<open>Fail\<close> an error
  value (a \<open>Result.err\<close>), \<open>Cancelled\<close> a chronos \<open>CancelledError\<close> that unwinds the
  procedure, and \<open>Defect\<close> a Nim \<open>Defect\<close> (an index out of range, a nil access): it is
  not catchable and takes the process down. \<open>Stuck\<close> stands for a loop that has used up its
  fuel, that is, for not returning; the calculus below never admits it.
\<close>

datatype ('e, 'a) outcome = Done 'a | Fail 'e | Cancelled | Defect | Stuck

type_synonym ('s, 'e, 'a) proc = "'s \<Rightarrow> ('e, 'a) outcome \<times> 's"

named_theorems proc_simps \<comment> \<open>unfolding of the procedure combinators\<close>
named_theorems hoare_rules \<comment> \<open>introduction rules of the Hoare calculus\<close>

definition ret :: "'a \<Rightarrow> ('s, 'e, 'a) proc" where
  [proc_simps]: "ret x = (\<lambda>s. (Done x, s))"

definition fail :: "'e \<Rightarrow> ('s, 'e, 'a) proc" where
  [proc_simps]: "fail e = (\<lambda>s. (Fail e, s))"

definition defect :: "('s, 'e, 'a) proc" where
  [proc_simps]: "defect = (\<lambda>s. (Defect, s))"

text \<open>Sequencing: the rest runs only after a normal return (Nim's \<open>?\<close> and \<open>await\<close>).\<close>

definition andThen :: "('s, 'e, 'a) proc \<Rightarrow> ('a \<Rightarrow> ('s, 'e, 'b) proc) \<Rightarrow> ('s, 'e, 'b) proc" where
  [proc_simps]: "andThen m f =
     (\<lambda>s. case m s of
            (Done x, s') \<Rightarrow> f x s'
          | (Fail e, s') \<Rightarrow> (Fail e, s')
          | (Cancelled, s') \<Rightarrow> (Cancelled, s')
          | (Defect, s') \<Rightarrow> (Defect, s')
          | (Stuck, s') \<Rightarrow> (Stuck, s'))"

text \<open>\<open>valueOr\<close>: the handler sees the error, the state is the one the failed call left.\<close>

definition valueOr :: "('s, 'e, 'a) proc \<Rightarrow> ('e \<Rightarrow> ('s, 'e, 'a) proc) \<Rightarrow> ('s, 'e, 'a) proc" where
  [proc_simps]: "valueOr m h =
     (\<lambda>s. case m s of
            (Fail e, s') \<Rightarrow> h e s'
          | r \<Rightarrow> r)"

definition stuck :: "('s, 'e, 'a) proc" where
  [proc_simps]: "stuck = (\<lambda>s. (Stuck, s))"

text \<open>A step that only looks at its arguments.\<close>

definition ofOutcome :: "('e, 'a) outcome \<Rightarrow> ('s, 'e, 'a) proc" where
  [proc_simps]: "ofOutcome out = (\<lambda>s. (out, s))"

definition gets :: "('s \<Rightarrow> 'a) \<Rightarrow> ('s, 'e, 'a) proc" where
  [proc_simps]: "gets f = (\<lambda>s. (Done (f s), s))"

definition update :: "('s \<Rightarrow> 's) \<Rightarrow> ('s, 'e, unit) proc" where
  [proc_simps]: "update f = (\<lambda>s. (Done (), f s))"

definition ofResult :: "'e + 'a \<Rightarrow> ('s, 'e, 'a) proc" where
  [proc_simps]: "ofResult r = (case r of Inl e \<Rightarrow> fail e | Inr x \<Rightarrow> ret x)"

text \<open>Sequencing of outcomes, for procedures that only look at their arguments.\<close>

fun bind_outcome :: "('e, 'a) outcome \<Rightarrow> ('a \<Rightarrow> ('e, 'c) outcome) \<Rightarrow> ('e, 'c) outcome" where
  "bind_outcome (Done x) f = f x"
| "bind_outcome (Fail e) f = Fail e"
| "bind_outcome Cancelled f = Cancelled"
| "bind_outcome Defect f = Defect"
| "bind_outcome Stuck f = Stuck"

lemma bind_outcome_Done:
  "bind_outcome r f = Done y \<longleftrightarrow> (\<exists>x. r = Done x \<and> f x = Done y)"
  by (cases r) auto

lemma bind_outcome_Stuck:
  "r \<noteq> Stuck \<Longrightarrow> (\<And>x. r = Done x \<Longrightarrow> f x \<noteq> Stuck) \<Longrightarrow> bind_outcome r f \<noteq> Stuck"
  by (cases r) auto

lemma bind_outcome_Cancelled:
  "bind_outcome r f = Cancelled \<longleftrightarrow> r = Cancelled \<or> (\<exists>x. r = Done x \<and> f x = Cancelled)"
  by (cases r) auto

lemma bind_outcome_Defect:
  "bind_outcome r f = Defect \<longleftrightarrow> r = Defect \<or> (\<exists>x. r = Done x \<and> f x = Defect)"
  by (cases r) auto

section \<open>A Hoare calculus for procedures\<close>

text \<open>
  \<open>hoare P m Q E\<close>: started where \<open>P\<close> holds, \<open>m\<close> ends in \<open>Q\<close> after a normal return
  and in \<open>E\<close> after any other outcome. \<open>E\<close> is usually the invariant of the component.
\<close>

fun ends :: "('a \<Rightarrow> 's \<Rightarrow> bool) \<Rightarrow> ('s \<Rightarrow> bool) \<Rightarrow> ('e, 'a) outcome \<times> 's \<Rightarrow> bool" where
  "ends Q E (Done x, s) = Q x s"
| "ends Q E (Fail e, s) = E s"
| "ends Q E (Cancelled, s) = E s"
| "ends Q E (Defect, s) = E s"
| "ends Q E (Stuck, s) = False"

definition hoare ::
    "('s \<Rightarrow> bool) \<Rightarrow> ('s, 'e, 'a) proc \<Rightarrow> ('a \<Rightarrow> 's \<Rightarrow> bool) \<Rightarrow> ('s \<Rightarrow> bool) \<Rightarrow> bool" where
  "hoare P m Q E \<longleftrightarrow> (\<forall>s. P s \<longrightarrow> ends Q E (m s))"

lemma ends_mono:
  assumes "ends Q' E' r" and "\<And>x s. Q' x s \<Longrightarrow> Q x s" and "\<And>s. E' s \<Longrightarrow> E s"
  shows "ends Q E r"
proof (cases r)
  case (Pair out s)
  with assms show ?thesis by (cases out) auto
qed

lemma hoareI: "(\<And>s. P s \<Longrightarrow> ends Q E (m s)) \<Longrightarrow> hoare P m Q E"
  by (simp add: hoare_def)

lemma hoareD: "hoare P m Q E \<Longrightarrow> P s \<Longrightarrow> ends Q E (m s)"
  by (simp add: hoare_def)

lemma hoare_ret [hoare_rules]: "(\<And>s. P s \<Longrightarrow> Q x s) \<Longrightarrow> hoare P (ret x) Q E"
  by (simp add: hoare_def ret_def)

lemma hoare_fail [hoare_rules]: "(\<And>s. P s \<Longrightarrow> E s) \<Longrightarrow> hoare P (fail e) Q E"
  by (simp add: hoare_def fail_def)

lemma hoare_defect [hoare_rules]: "(\<And>s. P s \<Longrightarrow> E s) \<Longrightarrow> hoare P defect Q E"
  by (simp add: hoare_def defect_def)

lemma hoare_gets: "(\<And>s. P s \<Longrightarrow> Q (f s) s) \<Longrightarrow> hoare P (gets f) Q E"
  by (simp add: hoare_def gets_def)

lemma hoare_update: "(\<And>s. P s \<Longrightarrow> Q () (f s)) \<Longrightarrow> hoare P (update f) Q E"
  by (simp add: hoare_def update_def)

lemma hoare_ofResult:
  assumes "\<And>s e. P s \<Longrightarrow> r = Inl e \<Longrightarrow> E s" and "\<And>s x. P s \<Longrightarrow> r = Inr x \<Longrightarrow> Q x s"
  shows "hoare P (ofResult r) Q E"
  using assms by (cases r) (auto simp: hoare_def ofResult_def fail_def ret_def)

lemma hoare_ofOutcome:
  assumes "out \<noteq> Stuck" and "\<And>s. P s \<Longrightarrow> E s" and "\<And>s x. P s \<Longrightarrow> out = Done x \<Longrightarrow> Q x s"
  shows "hoare P (ofOutcome out) Q E"
  using assms by (cases out) (auto simp: hoare_def ofOutcome_def)

lemma hoare_andThen:
  assumes m: "hoare P m R E" and f: "\<And>x. hoare (R x) (f x) Q E"
  shows "hoare P (andThen m f) Q E"
proof (rule hoareI)
  fix s assume "P s"
  then have r: "ends R E (m s)" by (rule hoareD [OF m])
  obtain out s' where ms: "m s = (out, s')" by (cases "m s")
  show "ends Q E (andThen m f s)"
    using r ms hoareD [OF f] by (cases out) (auto simp: andThen_def)
qed

lemma hoare_valueOr:
  assumes m: "hoare P m Q E" and h: "\<And>e. hoare E (h e) Q E"
  shows "hoare P (valueOr m h) Q E"
proof (rule hoareI)
  fix s assume "P s"
  then have r: "ends Q E (m s)" by (rule hoareD [OF m])
  obtain out s' where ms: "m s = (out, s')" by (cases "m s")
  show "ends Q E (valueOr m h s)"
    using r ms hoareD [OF h] by (cases out) (auto simp: valueOr_def)
qed

lemma hoare_if [hoare_rules]:
  assumes "b \<Longrightarrow> hoare P m Q E" and "\<not> b \<Longrightarrow> hoare P n Q E"
  shows "hoare P (if b then m else n) Q E"
  using assms by auto

lemma hoare_case_option [hoare_rules]:
  assumes "x = None \<Longrightarrow> hoare P m Q E" and "\<And>y. x = Some y \<Longrightarrow> hoare P (f y) Q E"
  shows "hoare P (case x of None \<Rightarrow> m | Some y \<Rightarrow> f y) Q E"
  using assms by (cases x) auto

lemma hoare_conseq:
  assumes m: "hoare P' m Q' E'" and "\<And>s. P s \<Longrightarrow> P' s"
    and "\<And>x s. Q' x s \<Longrightarrow> Q x s" and "\<And>s. E' s \<Longrightarrow> E s"
  shows "hoare P m Q E"
proof (rule hoareI)
  fix s assume "P s"
  then have "ends Q' E' (m s)" using assms(2) hoareD [OF m] by blast
  then show "ends Q E (m s)" using assms(3,4) by (rule ends_mono)
qed

lemma hoare_pre: "hoare P' m Q E \<Longrightarrow> (\<And>s. P s \<Longrightarrow> P' s) \<Longrightarrow> hoare P m Q E"
  by (simp add: hoare_def)

lemma hoare_post:
  "hoare P m Q' E \<Longrightarrow> (\<And>x s. Q' x s \<Longrightarrow> Q x s) \<Longrightarrow> hoare P m Q E"
  by (erule hoare_conseq)

lemma hoare_pure:
  assumes "\<And>s. P s \<Longrightarrow> b" and "b \<Longrightarrow> hoare P m Q E"
  shows "hoare P m Q E"
  using assms by (auto simp: hoare_def)

text \<open>Sequencing when a step keeps an invariant, and possibly establishes a fact on its result.\<close>

lemma hoare_bind:
  "hoare P m (\<lambda>_. I) E \<Longrightarrow> (\<And>x. hoare I (f x) Q E) \<Longrightarrow> hoare P (andThen m f) Q E"
  by (rule hoare_andThen)

lemma hoare_bind_fact:
  assumes "hoare P m (\<lambda>x s. I s \<and> B x) E" and "\<And>x. B x \<Longrightarrow> hoare I (f x) Q E"
  shows "hoare P (andThen m f) Q E"
  using assms(1)
  by (rule hoare_andThen) (use assms(2) in \<open>auto simp: hoare_def\<close>)

lemma hoare_done: "hoare P m Q E \<Longrightarrow> P s \<Longrightarrow> m s = (Done x, s') \<Longrightarrow> Q x s'"
  by (drule (1) hoareD) simp

lemma hoare_keeps:
  assumes "hoare P m (\<lambda>_. I) I" and "P s"
  shows "I (snd (m s))"
proof -
  obtain out s' where ms: "m s = (out, s')" by (cases "m s")
  with hoareD [OF assms] show ?thesis by (cases out) auto
qed

text \<open>
  The most common triple: the procedure keeps an invariant and returns only values with a
  certain property. A value once returned keeps it, whatever happens to the state.
\<close>

named_theorems yields_rules \<comment> \<open>introduction rules for \<open>yields\<close>\<close>

definition yields :: "('s \<Rightarrow> bool) \<Rightarrow> ('s, 'e, 'a) proc \<Rightarrow> ('a \<Rightarrow> bool) \<Rightarrow> bool" where
  "yields I m B \<longleftrightarrow> hoare I m (\<lambda>x s. I s \<and> B x) I"

lemma yields_keeping: "hoare I m (\<lambda>_. I) I \<Longrightarrow> yields I m (\<lambda>_. True)"
  by (simp add: yields_def)

lemma yields_basic [yields_rules]:
  "B x \<Longrightarrow> yields I (ret x) B" "yields I (fail e) B" "yields I defect B"
  by (auto simp: yields_def intro!: hoare_rules)

lemma yields_gets: "(\<And>s. I s \<Longrightarrow> B (f s)) \<Longrightarrow> yields I (gets f) B"
  by (simp add: yields_def hoare_gets)

lemma yields_update: "(\<And>s. I s \<Longrightarrow> I (f s)) \<Longrightarrow> yields I (update f) (\<lambda>_. True)"
  by (simp add: yields_def hoare_update)

lemma yields_bind:
  "yields I m A \<Longrightarrow> (\<And>x. A x \<Longrightarrow> yields I (f x) B) \<Longrightarrow> yields I (andThen m f) B"
  unfolding yields_def by (rule hoare_bind_fact)

lemma yields_valueOr:
  "yields I m B \<Longrightarrow> (\<And>e. yields I (h e) B) \<Longrightarrow> yields I (valueOr m h) B"
  unfolding yields_def by (rule hoare_valueOr)

lemma yields_if [yields_rules]:
  "(b \<Longrightarrow> yields I m B) \<Longrightarrow> (\<not> b \<Longrightarrow> yields I n B) \<Longrightarrow> yields I (if b then m else n) B"
  by simp

lemma yields_case_option [yields_rules]:
  "(x = None \<Longrightarrow> yields I m B) \<Longrightarrow> (\<And>y. x = Some y \<Longrightarrow> yields I (f y) B) \<Longrightarrow>
   yields I (case x of None \<Rightarrow> m | Some y \<Rightarrow> f y) B"
  by (cases x) simp_all

lemma yields_case_prod [yields_rules]:
  "(\<And>a b. x = (a, b) \<Longrightarrow> yields I (f a b) B) \<Longrightarrow> yields I (case x of (a, b) \<Rightarrow> f a b) B"
  by (cases x) simp

lemma yields_Let [yields_rules]: "yields I (f x) B \<Longrightarrow> yields I (let y = x in f y) B"
  by simp

lemma yields_ofOutcome:
  "out \<noteq> Stuck \<Longrightarrow> (\<And>x. out = Done x \<Longrightarrow> B x) \<Longrightarrow> yields I (ofOutcome out) B"
  unfolding yields_def by (rule hoare_ofOutcome) auto

lemma yields_ofResult: "(\<And>x. r = Inr x \<Longrightarrow> B x) \<Longrightarrow> yields I (ofResult r) B"
  unfolding yields_def by (rule hoare_ofResult) auto

lemma yields_mono: "yields I m A \<Longrightarrow> (\<And>x. A x \<Longrightarrow> B x) \<Longrightarrow> yields I m B"
  unfolding yields_def by (erule hoare_post) auto

lemma yields_conj: "yields I m A \<Longrightarrow> yields I m B \<Longrightarrow> yields I m (\<lambda>x. A x \<and> B x)"
  unfolding yields_def hoare_def
proof (intro allI impI)
  fix s
  assume "\<forall>s. I s \<longrightarrow> ends (\<lambda>x s. I s \<and> A x) I (m s)" "\<forall>s. I s \<longrightarrow> ends (\<lambda>x s. I s \<and> B x) I (m s)" "I s"
  then have "ends (\<lambda>x s. I s \<and> A x) I (m s)" "ends (\<lambda>x s. I s \<and> B x) I (m s)" by blast+
  then show "ends (\<lambda>x s. I s \<and> A x \<and> B x) I (m s)"
    by (cases "m s"; cases "fst (m s)") auto
qed

text \<open>What a triple says of a run.\<close>

lemma yieldsD:
  assumes "yields I m B" and "I s"
  shows "I (snd (m s))" "fst (m s) \<noteq> Stuck" "m s = (Done x, s') \<Longrightarrow> B x"
proof -
  have "ends (\<lambda>x s. I s \<and> B x) I (m s)" using assms by (simp add: yields_def hoare_def)
  then show "I (snd (m s))" "fst (m s) \<noteq> Stuck" "m s = (Done x, s') \<Longrightarrow> B x"
    by (cases "m s"; cases "fst (m s)"; auto)+
qed

text \<open>Procedures that never raise a \<open>Defect\<close>, wherever they start.\<close>

named_theorems crash_free_rules \<comment> \<open>introduction rules for freedom from defects\<close>

definition crash_free :: "('s, 'e, 'a) proc \<Rightarrow> bool" where
  "crash_free m \<longleftrightarrow> (\<forall>s. fst (m s) \<noteq> Defect)"

lemma crash_freeD: "crash_free m \<Longrightarrow> fst (m s) \<noteq> Defect"
  by (simp add: crash_free_def)

lemma crash_free_basic [crash_free_rules]:
  "crash_free (ret x)" "crash_free (fail e)" "crash_free (gets f)" "crash_free (update g)"
  by (simp_all add: crash_free_def proc_simps)

lemma crash_free_ofResult [crash_free_rules]: "crash_free (ofResult r)"
  by (cases r) (simp_all add: crash_free_def proc_simps)

lemma crash_free_andThen [crash_free_rules]:
  assumes "crash_free m" and "\<And>x. crash_free (f x)"
  shows "crash_free (andThen m f)"
proof (unfold crash_free_def, rule allI)
  fix s
  obtain out s' where m: "m s = (out, s')" by (cases "m s")
  with crash_freeD [OF assms(1), of s] crash_freeD [OF assms(2)]
  show "fst (andThen m f s) \<noteq> Defect" by (cases out) (auto simp: andThen_def)
qed

lemma crash_free_if [crash_free_rules]:
  "(b \<Longrightarrow> crash_free m) \<Longrightarrow> (\<not> b \<Longrightarrow> crash_free n) \<Longrightarrow> crash_free (if b then m else n)"
  by simp

lemma crash_free_case_option [crash_free_rules]:
  "(x = None \<Longrightarrow> crash_free m) \<Longrightarrow> (\<And>y. x = Some y \<Longrightarrow> crash_free (f y)) \<Longrightarrow>
   crash_free (case x of None \<Rightarrow> m | Some y \<Rightarrow> f y)"
  by (cases x) simp_all

lemma crash_free_stuck [crash_free_rules]: "crash_free stuck"
  by (simp add: crash_free_def stuck_def)

lemma crash_free_case_prod [crash_free_rules]:
  "(\<And>a b. x = (a, b) \<Longrightarrow> crash_free (f a b)) \<Longrightarrow> crash_free (case x of (a, b) \<Rightarrow> f a b)"
  by (cases x) simp

lemma crash_free_Let [crash_free_rules]: "crash_free (f x) \<Longrightarrow> crash_free (let y = x in f y)"
  by simp

lemma crash_free_valueOr [crash_free_rules]:
  assumes "crash_free m" and "\<And>e. crash_free (h e)"
  shows "crash_free (valueOr m h)"
proof (unfold crash_free_def, rule allI)
  fix s
  obtain out s' where m: "m s = (out, s')" by (cases "m s")
  with crash_freeD [OF assms(1), of s] crash_freeD [OF assms(2)]
  show "fst (valueOr m h s) \<noteq> Defect" by (cases out) (auto simp: valueOr_def)
qed

text \<open>What a procedure returns, wherever it starts.\<close>

named_theorems returns_rules \<comment> \<open>introduction rules for \<open>returns\<close>\<close>

definition returns :: "('s, 'e, 'a) proc \<Rightarrow> ('a \<Rightarrow> bool) \<Rightarrow> bool" where
  "returns m B \<longleftrightarrow> (\<forall>s x s'. m s = (Done x, s') \<longrightarrow> B x)"

lemma returns_basic [returns_rules]:
  "B x \<Longrightarrow> returns (ret x) B" "returns (fail e) B" "returns defect B"
  "(\<And>s. B (f s)) \<Longrightarrow> returns (gets f) B"
  by (auto simp: returns_def proc_simps)

lemma returns_bind:
  assumes "returns m A" and "\<And>x. A x \<Longrightarrow> returns (f x) B"
  shows "returns (andThen m f) B"
  unfolding returns_def
proof (intro allI impI)
  fix s y s'
  assume r: "andThen m f s = (Done y, s')"
  then obtain x s1 where "m s = (Done x, s1)" "f x s1 = (Done y, s')"
    by (cases "m s"; cases "fst (m s)") (auto simp: andThen_def)
  with assms show "B y" unfolding returns_def by metis
qed

lemma returns_any: "returns m (\<lambda>_. True)"
  by (simp add: returns_def)

lemmas returns_andThen = returns_bind [OF returns_any]

lemma crash_free_bind:
  assumes "crash_free m" and "returns m A" and "\<And>x. A x \<Longrightarrow> crash_free (f x)"
  shows "crash_free (andThen m f)"
proof (unfold crash_free_def, rule allI)
  fix s
  obtain out s' where m: "m s = (out, s')" by (cases "m s")
  with crash_freeD [OF assms(1), of s] assms(2) crash_freeD [OF assms(3)]
  show "fst (andThen m f s) \<noteq> Defect" by (cases out) (auto simp: andThen_def returns_def)
qed

end
