(* ===== verification/Zkvm_Platform.thy ===== *)
theory Zkvm_Platform
  imports Prelude
begin

text \<open>
  The C platform layers under newlib for the two zkVMs: \<open>zisk/newlib_glue.c\<close> and
  \<open>sp1/newlib_glue.c\<close> of \<open>src/execution_chain/stateless/zkvm\<close>. Both supply \<open>_sbrk\<close>,
  \<open>_write\<close>, \<open>__atomic_fetch_add_8\<close> and the pthread mutex stubs; ZisK also supplies the
  termination calls. The contract newlib's \<open>malloc\<close> relies on is the locale
  \<open>program_break\<close>, which both \<open>_sbrk\<close> interpret.
\<close>

section \<open>The program break\<close>

datatype errno = ENOMEM

text \<open>\<open>(void *)-1\<close>, sbrk's failure value.\<close>

definition sbrk_failed :: u64 where
  "sbrk_failed = - 1"

subsection \<open>ZisK\<close>

text \<open>
  The static \<open>heap_pos\<close> and newlib's \<open>errno\<close>. The linker symbols \<open>_heap_start\<close> and
  \<open>_heap_end\<close> are parameters. Pointer differences are \<open>ptrdiff_t\<close>, so they are compared
  as signed words.
\<close>

record zisk_heap =
  zisk_pos :: u64
  zisk_errno :: "errno option"

definition zisk_heap_init :: "u64 \<Rightarrow> zisk_heap" where
  "zisk_heap_init heap_start = \<lparr>zisk_pos = heap_start, zisk_errno = None\<rparr>"

definition zisk_sbrk :: "u64 \<Rightarrow> u64 \<Rightarrow> zisk_heap \<Rightarrow> u64 \<times> zisk_heap" where
  "zisk_sbrk heap_end incr h =
     (if 0 < sint incr \<and> sint (heap_end - zisk_pos h) < sint incr
      then (sbrk_failed, h\<lparr>zisk_errno := Some ENOMEM\<rparr>)
      else (let base = zisk_pos h in (base, h\<lparr>zisk_pos := zisk_pos h + incr\<rparr>)))"

subsection \<open>SP1\<close>

text \<open>
  \<open>sp1_pos\<close> is 0 (\<open>NULL\<close>) until the first call reserves half of the region between the
  linker symbols from libzkevm's allocator. That allocator, \<open>sys_alloc_aligned\<close>, is in the
  vendor's archive: it is the parameter \<open>alloc\<close>, and returns 0 when it has no room.
\<close>

record sp1_heap =
  sp1_pos :: u64
  sp1_limit :: u64
  sp1_errno :: "errno option"

definition sp1_heap_init :: sp1_heap where
  "sp1_heap_init = \<lparr>sp1_pos = 0, sp1_limit = 0, sp1_errno = None\<rparr>"

definition sp1_sbrk ::
    "(u64 \<Rightarrow> u64 \<Rightarrow> u64) \<Rightarrow> u64 \<Rightarrow> u64 \<Rightarrow> u64 \<Rightarrow> sp1_heap \<Rightarrow> u64 \<times> sp1_heap" where
  "sp1_sbrk alloc heap_start heap_end incr h =
     (let size = (heap_end - heap_start) div 2;
          p = alloc size 16;
          h1 = (if sp1_pos h = 0 then
                  (if p = 0 then None else Some (h\<lparr>sp1_pos := p, sp1_limit := p + size\<rparr>))
                else Some h)
      in case h1 of
           None \<Rightarrow> (sbrk_failed, h\<lparr>sp1_errno := Some ENOMEM\<rparr>)
         | Some g \<Rightarrow>
             (if 0 < sint incr \<and> sint (sp1_limit g - sp1_pos g) < sint incr
              then (sbrk_failed, g\<lparr>sp1_errno := Some ENOMEM\<rparr>)
              else (let base = sp1_pos g in (base, g\<lparr>sp1_pos := sp1_pos g + incr\<rparr>))))"

subsection \<open>What newlib's malloc relies on\<close>

text \<open>
  A run of requests, and the blocks it was granted: the address a growing call returned and
  the size it asked for.
\<close>

fun sbrk_run :: "(u64 \<Rightarrow> 's \<Rightarrow> u64 \<times> 's) \<Rightarrow> u64 list \<Rightarrow> 's \<Rightarrow> (u64 \<times> u64) list \<times> 's" where
  "sbrk_run sbrk [] s = ([], s)"
| "sbrk_run sbrk (n # ns) s =
     (let (a, s1) = sbrk n s; (bs, s2) = sbrk_run sbrk ns s1
      in (if a = sbrk_failed then bs else (a, n) # bs, s2))"

fun block_bytes :: "u64 \<times> u64 \<Rightarrow> int set" where
  "block_bytes (a, n) = {uint a ..< uint a + sint n}"

fun disjoint_blocks :: "(u64 \<times> u64) list \<Rightarrow> bool" where
  "disjoint_blocks [] = True"
| "disjoint_blocks (b # bs) =
     ((\<forall>c \<in> set bs. block_bytes b \<inter> block_bytes c = {}) \<and> disjoint_blocks bs)"

text \<open>
  The contract of sbrk: \<open>base\<close> and \<open>limit\<close> bound the region, \<open>top\<close> is the break, all as plain
  numbers; a request that stays in the region, growing or shrinking, moves the break by exactly
  what was asked and returns the old break, one that does not fit fails and moves nothing.
\<close>

locale program_break =
  fixes sbrk :: "u64 \<Rightarrow> 's \<Rightarrow> u64 \<times> 's"
    and base :: "'s \<Rightarrow> int"
    and top :: "'s \<Rightarrow> int"
    and limit :: "'s \<Rightarrow> int"
    and ready :: "'s \<Rightarrow> bool"
  assumes region: "ready s \<Longrightarrow> base s \<le> top s \<and> top s \<le> limit s \<and> limit s < 2 ^ 63"
    and sbrk_grant: "ready s \<Longrightarrow> sint n \<le> limit s - top s \<Longrightarrow> base s \<le> top s + sint n \<Longrightarrow>
      sbrk n s = (a, s') \<Longrightarrow>
      uint a = top s \<and> ready s' \<and> top s' = top s + sint n \<and> base s' = base s \<and> limit s' = limit s"
    and sbrk_refuse: "ready s \<Longrightarrow> limit s - top s < sint n \<Longrightarrow> sbrk n s = (a, s') \<Longrightarrow>
      a = sbrk_failed \<and> ready s' \<and> top s' = top s \<and> base s' = base s \<and> limit s' = limit s"
begin

lemma address_not_failed:
  assumes "ready s" and "uint a = top s"
  shows "a \<noteq> sbrk_failed"
proof
  assume "a = sbrk_failed"
  then have "uint a = 2 ^ 64 - 1"
    by (simp add: sbrk_failed_def unsigned_minus_1_eq_mask mask_eq_exp_minus_1)
  with assms(2) region [OF assms(1)] show False by auto
qed

text \<open>One request, whatever its outcome, keeps the region and only moves the break up.\<close>

lemma sbrk_step:
  assumes "ready s" and "0 \<le> sint n" and "sbrk n s = (a, s')"
  shows "ready s' \<and> limit s' = limit s \<and> top s \<le> top s' \<and>
    (if a = sbrk_failed then top s' = top s
     else block_bytes (a, n) = {top s ..< top s'})"
proof (cases "sint n \<le> limit s - top s")
  case True
  with assms(2) region [OF assms(1)]
  have "uint a = top s \<and> ready s' \<and> top s' = top s + sint n \<and> base s' = base s \<and>
      limit s' = limit s"
    by (intro sbrk_grant [OF assms(1) _ _ assms(3)]) simp_all
  with assms(2) address_not_failed [OF assms(1)] show ?thesis by auto
next
  case False
  with sbrk_refuse [OF assms(1) _ assms(3)] show ?thesis by simp
qed

lemma sbrk_run_inside:
  assumes "ready s" and "\<forall>n \<in> set ns. 0 \<le> sint n" and "sbrk_run sbrk ns s = (bs, s')"
  shows "ready s' \<and> limit s' = limit s \<and> top s \<le> top s' \<and>
    (\<forall>b \<in> set bs. block_bytes b \<subseteq> {top s ..< top s'})"
  using assms
proof (induction ns arbitrary: s bs)
  case Nil
  then show ?case by auto
next
  case (Cons n ns)
  obtain a s1 where step: "sbrk n s = (a, s1)" by (cases "sbrk n s")
  obtain cs where rest: "sbrk_run sbrk ns s1 = (cs, s')"
    and bs: "bs = (if a = sbrk_failed then cs else (a, n) # cs)"
    using Cons.prems(3) step by (auto split: prod.splits)
  from Cons.prems(2) have n: "0 \<le> sint n" by simp
  note st = sbrk_step [OF Cons.prems(1) n step]
  then have "ready s' \<and> limit s' = limit s1 \<and> top s1 \<le> top s' \<and>
    (\<forall>b \<in> set cs. block_bytes b \<subseteq> {top s1 ..< top s'})"
    using Cons.IH [OF _ _ rest] Cons.prems(2) by simp
  with st show ?case by (force simp: bs simp del: block_bytes.simps split: if_splits)
qed

lemma sbrk_run_disjoint:
  assumes "ready s" and "\<forall>n \<in> set ns. 0 \<le> sint n" and "sbrk_run sbrk ns s = (bs, s')"
  shows "disjoint_blocks bs"
  using assms
proof (induction ns arbitrary: s bs)
  case Nil
  then show ?case by simp
next
  case (Cons n ns)
  obtain a s1 where step: "sbrk n s = (a, s1)" by (cases "sbrk n s")
  obtain cs where rest: "sbrk_run sbrk ns s1 = (cs, s')"
    and bs: "bs = (if a = sbrk_failed then cs else (a, n) # cs)"
    using Cons.prems(3) step by (auto split: prod.splits)
  from Cons.prems(2) have n: "0 \<le> sint n" by simp
  note st = sbrk_step [OF Cons.prems(1) n step]
  then have "disjoint_blocks cs" and "\<forall>b \<in> set cs. block_bytes b \<subseteq> {top s1 ..< top s'}"
    using Cons.IH [OF _ _ rest] sbrk_run_inside [OF _ _ rest] Cons.prems(2) by auto
  with st show ?case by (fastforce simp: bs simp del: block_bytes.simps split: if_splits)
qed

text \<open>The break moves by exactly what was granted: nothing leaks between the blocks.\<close>

lemma sbrk_run_footprint:
  assumes "ready s" and "\<forall>n \<in> set ns. 0 \<le> sint n" and "sbrk_run sbrk ns s = (bs, s')"
  shows "top s' = top s + sum_list (map (\<lambda>b. sint (snd b)) bs)"
  using assms
proof (induction ns arbitrary: s bs)
  case Nil
  then show ?case by simp
next
  case (Cons n ns)
  obtain a s1 where step: "sbrk n s = (a, s1)" by (cases "sbrk n s")
  obtain cs where rest: "sbrk_run sbrk ns s1 = (cs, s')"
    and bs: "bs = (if a = sbrk_failed then cs else (a, n) # cs)"
    using Cons.prems(3) step by (auto split: prod.splits)
  from Cons.prems(2) have n: "0 \<le> sint n" by simp
  have st: "ready s1 \<and> top s1 = top s + (if a = sbrk_failed then 0 else sint n)"
  proof (cases "sint n \<le> limit s - top s")
    case True
    with n region [OF Cons.prems(1)]
    have "uint a = top s \<and> ready s1 \<and> top s1 = top s + sint n"
      using sbrk_grant [OF Cons.prems(1) _ _ step] by simp
    with address_not_failed [OF Cons.prems(1)] show ?thesis by auto
  next
    case False
    then show ?thesis using sbrk_refuse [OF Cons.prems(1) _ step] by simp
  qed
  then have "top s' = top s1 + sum_list (map (\<lambda>b. sint (snd b)) cs)"
    using Cons.IH [OF _ _ rest] Cons.prems(2) by simp
  with st show ?case by (simp add: bs)
qed

end

subsection \<open>Both platforms keep the contract\<close>

lemma region_diff:
  fixes e p :: u64
  assumes "uint p \<le> uint e" and "uint e < 2 ^ 63"
  shows "sint (e - p) = uint e - uint p"
proof -
  have d: "uint (e - p) = uint e - uint p" using assms(1) by (rule uint_diff_small)
  moreover have "uint e - uint p < 2 ^ 63"
    using assms(2) by (rule le_less_trans [rotated]) simp
  ultimately have "sint (e - p) = uint (e - p)"
    by (intro sint_eq_uint_small) simp
  with d show ?thesis by simp
qed

lemma region_add:
  fixes e p n :: u64
  assumes "uint e < 2 ^ 63" and "sint n \<le> uint e - uint p" and "0 \<le> uint p + sint n"
  shows "uint (p + n) = uint p + sint n"
  using assms by (intro uint_add_signed) simp_all

definition zisk_ready :: "u64 \<Rightarrow> u64 \<Rightarrow> zisk_heap \<Rightarrow> bool" where
  "zisk_ready heap_start heap_end h \<longleftrightarrow>
     uint heap_start \<le> uint (zisk_pos h) \<and> uint (zisk_pos h) \<le> uint heap_end \<and>
     uint heap_end < 2 ^ 63"

interpretation zisk: program_break
  "zisk_sbrk heap_end" "\<lambda>_. uint heap_start" "\<lambda>h. uint (zisk_pos h)" "\<lambda>_. uint heap_end"
  "zisk_ready heap_start heap_end"
  for heap_start heap_end
proof (unfold_locales, goal_cases)
  case (1 s)
  then show ?case by (simp add: zisk_ready_def)
next
  case (2 s n a s')
  moreover from this have "0 \<le> uint (zisk_pos s) + sint n"
    by (auto intro: order_trans [of 0 "uint heap_start"])
  ultimately have "uint (zisk_pos s + n) = uint (zisk_pos s) + sint n"
    by (intro region_add [of heap_end]) (simp_all add: zisk_ready_def)
  with 2 show ?case
    by (auto simp: zisk_sbrk_def zisk_ready_def region_diff Let_def split: if_splits)
next
  case (3 s n a s')
  then show ?case
    by (auto simp: zisk_sbrk_def zisk_ready_def region_diff split: if_splits)
qed

text \<open>SP1 after the reservation: the region is the half libzkevm's allocator handed over.\<close>

definition sp1_half :: "u64 \<Rightarrow> u64 \<Rightarrow> u64" where
  "sp1_half heap_start heap_end = (heap_end - heap_start) div 2"

definition sp1_ready :: "u64 \<Rightarrow> u64 \<Rightarrow> sp1_heap \<Rightarrow> bool" where
  "sp1_ready heap_start heap_end h \<longleftrightarrow>
     uint (sp1_half heap_start heap_end) < uint (sp1_limit h) \<and>
     uint (sp1_limit h) - uint (sp1_half heap_start heap_end) \<le> uint (sp1_pos h) \<and>
     uint (sp1_pos h) \<le> uint (sp1_limit h) \<and> uint (sp1_limit h) < 2 ^ 63"

lemma sp1_ready_not_null: "sp1_ready heap_start heap_end h \<Longrightarrow> sp1_pos h \<noteq> 0"
  by (auto simp: sp1_ready_def)

interpretation sp1: program_break
  "sp1_sbrk alloc heap_start heap_end"
  "\<lambda>h. uint (sp1_limit h) - uint (sp1_half heap_start heap_end)"
  "\<lambda>h. uint (sp1_pos h)" "\<lambda>h. uint (sp1_limit h)" "sp1_ready heap_start heap_end"
  for alloc heap_start heap_end
proof (unfold_locales, goal_cases)
  case (1 s)
  then show ?case by (simp add: sp1_ready_def)
next
  case (2 s n a s')
  then have "uint (sp1_pos s + n) = uint (sp1_pos s) + sint n"
    by (intro region_add [of "sp1_limit s"]) (simp_all add: sp1_ready_def)
  with 2 sp1_ready_not_null [OF 2(1)] show ?case
    by (auto simp: sp1_sbrk_def sp1_ready_def region_diff Let_def split: if_splits)
next
  case (3 s n a s')
  with sp1_ready_not_null [OF 3(1)] show ?case
    by (auto simp: sp1_sbrk_def sp1_ready_def region_diff Let_def split: if_splits)
qed

text \<open>
  The first call reserves: what \<open>sys_alloc_aligned\<close> documents is that a block it returns is
  not null and does not run past the end of the address space.
\<close>

definition alloc_ok :: "(u64 \<Rightarrow> u64 \<Rightarrow> u64) \<Rightarrow> bool" where
  "alloc_ok alloc \<longleftrightarrow>
     (\<forall>n align. alloc n align \<noteq> 0 \<longrightarrow> uint (alloc n align) + uint n < 2 ^ 63)"

lemma sp1_reserve:
  assumes "alloc_ok alloc" and "alloc (sp1_half heap_start heap_end) 16 \<noteq> 0" and "sp1_pos h = 0"
  shows "sp1_ready heap_start heap_end
      (h\<lparr>sp1_pos := alloc (sp1_half heap_start heap_end) 16,
         sp1_limit := alloc (sp1_half heap_start heap_end) 16 + sp1_half heap_start heap_end\<rparr>)"
proof -
  let ?n = "sp1_half heap_start heap_end"
  let ?p = "alloc ?n 16"
  have bound: "uint ?p + uint ?n < 2 ^ 63"
    using assms(1,2) by (simp add: alloc_ok_def)
  then have "uint (?p + ?n) = uint ?p + uint ?n"
    by (intro uint_add_small) simp
  moreover have "0 < uint ?p"
    using assms(2) by (simp add: word_less_def [symmetric] uint_0_iff order_less_le)
  ultimately show ?thesis using bound by (simp add: sp1_ready_def)
qed

text \<open>The first call from the initial state behaves as a call in the reserved state.\<close>

definition sp1_reserved :: "(u64 \<Rightarrow> u64 \<Rightarrow> u64) \<Rightarrow> u64 \<Rightarrow> u64 \<Rightarrow> sp1_heap" where
  "sp1_reserved alloc heap_start heap_end =
     (let p = alloc (sp1_half heap_start heap_end) 16
      in sp1_heap_init\<lparr>sp1_pos := p, sp1_limit := p + sp1_half heap_start heap_end\<rparr>)"

lemma sp1_first_call:
  assumes "alloc (sp1_half heap_start heap_end) 16 \<noteq> 0"
  shows "sp1_sbrk alloc heap_start heap_end n sp1_heap_init =
    sp1_sbrk alloc heap_start heap_end n (sp1_reserved alloc heap_start heap_end)"
  using assms
  by (simp add: sp1_sbrk_def sp1_reserved_def sp1_heap_init_def Let_def flip: sp1_half_def)

lemma sp1_no_room:
  assumes "alloc (sp1_half heap_start heap_end) 16 = 0" and "sp1_pos h = 0"
  shows "sp1_sbrk alloc heap_start heap_end n h = (sbrk_failed, h\<lparr>sp1_errno := Some ENOMEM\<rparr>)"
  using assms by (simp add: sp1_sbrk_def Let_def flip: sp1_half_def)

lemma sp1_no_room_run:
  assumes "alloc (sp1_half heap_start heap_end) 16 = 0" and "sp1_pos h = 0"
  shows "fst (sbrk_run (sp1_sbrk alloc heap_start heap_end) ns h) = []"
  using assms(2)
proof (induction ns arbitrary: h)
  case Nil
  then show ?case by simp
next
  case (Cons n ns)
  from assms(1) Cons.prems have
    "sp1_sbrk alloc heap_start heap_end n h = (sbrk_failed, h\<lparr>sp1_errno := Some ENOMEM\<rparr>)"
    by (rule sp1_no_room)
  then show ?case using Cons.IH [of "h\<lparr>sp1_errno := Some ENOMEM\<rparr>"] Cons.prems
    by (simp split: prod.splits)
qed

section \<open>Output, termination, atomics and mutexes\<close>

text \<open>
  What a guest does to its environment: prints through the vendor's \<open>sys_write\<close> (ZisK) or
  the WRITE syscall (SP1), or halts the machine with an exit code.
\<close>

datatype guest_event = Sys_write u32 "byte list" | Halt byte

type_synonym guest_trace = "guest_event list"

definition zisk_write :: "u32 \<Rightarrow> byte list \<Rightarrow> guest_trace \<Rightarrow> nat \<times> guest_trace" where
  "zisk_write fd buf tr =
     (let count = length buf
      in (count, if 0 < count then tr @ [Sys_write fd buf] else tr))"

definition sp1_write :: "u32 \<Rightarrow> byte list \<Rightarrow> guest_trace \<Rightarrow> nat \<times> guest_trace" where
  "sp1_write fd buf tr =
     (let count = length buf
      in (count, if (fd = 1 \<or> fd = 2) \<and> 0 < count then tr @ [Sys_write fd buf] else tr))"

text \<open>\<open>exit\<close> and \<open>_exit\<close> halt with the low byte of the status; handlers are discarded.\<close>

definition zkvm_halt :: "byte \<Rightarrow> guest_trace \<Rightarrow> guest_trace" where
  "zkvm_halt code tr = tr @ [Halt code]"

definition zisk_atexit :: "(guest_trace \<Rightarrow> guest_trace) \<Rightarrow> guest_trace \<Rightarrow> int \<times> guest_trace" where
  "zisk_atexit fn tr = (0, tr)"

definition zisk_exit :: "32 word \<Rightarrow> guest_trace \<Rightarrow> guest_trace" where
  "zisk_exit status tr = zkvm_halt (ucast status) tr"

definition zisk__exit :: "32 word \<Rightarrow> guest_trace \<Rightarrow> guest_trace" where
  "zisk__exit status tr = zkvm_halt (ucast status) tr"

text \<open>The read-modify-write that stands for the missing A extension: memory is a map of cells.\<close>

definition zisk_atomic_fetch_add_8 :: "u64 \<Rightarrow> u64 \<Rightarrow> (u64 \<Rightarrow> u64) \<Rightarrow> u64 \<times> (u64 \<Rightarrow> u64)" where
  "zisk_atomic_fetch_add_8 ptr val mem = (let old = mem ptr in (old, mem(ptr := old + val)))"

definition sp1_atomic_fetch_add_8 :: "u64 \<Rightarrow> u64 \<Rightarrow> (u64 \<Rightarrow> u64) \<Rightarrow> u64 \<times> (u64 \<Rightarrow> u64)" where
  "sp1_atomic_fetch_add_8 ptr val mem = (let old = mem ptr in (old, mem(ptr := old + val)))"

datatype mutex_call = Mutex_init | Mutex_destroy | Mutex_lock | Mutex_unlock

definition zisk_pthread_mutex :: "mutex_call \<Rightarrow> 'm \<Rightarrow> int \<times> 'm" where
  "zisk_pthread_mutex c m = (0, m)"

definition sp1_pthread_mutex :: "mutex_call \<Rightarrow> 'm \<Rightarrow> int \<times> 'm" where
  "sp1_pthread_mutex c m = (0, m)"

text \<open>A sequence of fetch-adds by one thread is a counter: every call reads the running total.\<close>

fun fetch_adds ::
    "(u64 \<Rightarrow> u64 \<Rightarrow> (u64 \<Rightarrow> u64) \<Rightarrow> u64 \<times> (u64 \<Rightarrow> u64)) \<Rightarrow> u64 \<Rightarrow> u64 list \<Rightarrow> (u64 \<Rightarrow> u64) \<Rightarrow>
     u64 list \<times> (u64 \<Rightarrow> u64)" where
  "fetch_adds f p [] mem = ([], mem)"
| "fetch_adds f p (v # vs) mem =
     (let (old, mem1) = f p v mem; (olds, mem2) = fetch_adds f p vs mem1 in (old # olds, mem2))"

lemma fetch_adds_total:
  "fetch_adds zisk_atomic_fetch_add_8 p vs mem = (olds, mem') \<Longrightarrow>
   mem' p = mem p + sum_list vs \<and> (\<forall>q. q \<noteq> p \<longrightarrow> mem' q = mem q) \<and>
   (\<forall>i < length vs. olds ! i = mem p + sum_list (take i vs))"
proof (induction vs arbitrary: mem olds)
  case Nil
  then show ?case by simp
next
  case (Cons v vs)
  then obtain olds' where olds: "olds = mem p # olds'"
    and rest: "fetch_adds zisk_atomic_fetch_add_8 p vs (mem(p := mem p + v)) = (olds', mem')"
    by (auto simp: zisk_atomic_fetch_add_8_def [of p v mem] Let_def split: prod.splits)
  from Cons.IH [OF rest] show ?case
    by (auto simp: olds add.assoc nth_Cons split: nat.splits)
qed

section \<open>Properties\<close>

text \<open>
  C38: on ZisK, however newlib's malloc grows the heap, every block \<open>_sbrk\<close> hands out lies
  between the linker's \<open>_heap_start\<close> and \<open>_heap_end\<close>, no two blocks overlap, and the break has
  moved by exactly the bytes granted.
\<close>

theorem zisk_heap_blocks:
  assumes "uint heap_start \<le> uint heap_end" and "uint heap_end < 2 ^ 63"
    and "\<forall>n \<in> set ns. 0 \<le> sint n"
    and "sbrk_run (zisk_sbrk heap_end) ns (zisk_heap_init heap_start) = (bs, h)"
  shows "disjoint_blocks bs \<and>
    (\<forall>b \<in> set bs. block_bytes b \<subseteq> {uint heap_start ..< uint heap_end}) \<and>
    uint (zisk_pos h) = uint heap_start + sum_list (map (\<lambda>b. sint (snd b)) bs)"
proof -
  have ready: "zisk_ready heap_start heap_end (zisk_heap_init heap_start)"
    using assms(1,2) by (simp add: zisk_ready_def zisk_heap_init_def)
  note run = this assms(3,4)
  have "zisk_ready heap_start heap_end h \<and>
      (\<forall>b \<in> set bs. block_bytes b \<subseteq> {uint heap_start ..< uint (zisk_pos h)})"
    using zisk.sbrk_run_inside [OF run] by (simp add: zisk_heap_init_def)
  then have "\<forall>b \<in> set bs. block_bytes b \<subseteq> {uint heap_start ..< uint heap_end}"
    using zisk.region [of heap_start heap_end h] by fastforce
  with zisk.sbrk_run_disjoint [OF run] zisk.sbrk_run_footprint [OF run] show ?thesis
    by (simp add: zisk_heap_init_def)
qed

theorem zisk_heap_blocks_witness:
  "sbrk_run (zisk_sbrk 4096) [100, 5000, 16] (zisk_heap_init 1024) =
     ([(1024, 100), (1124, 16)], \<lparr>zisk_pos = 1140, zisk_errno = Some ENOMEM\<rparr>) \<and>
   disjoint_blocks [(1024, 100), (1124, 16)]"
proof -
  have run: "sbrk_run (zisk_sbrk 4096) [100, 5000, 16] (zisk_heap_init 1024) =
      ([(1024, 100), (1124, 16)], \<lparr>zisk_pos = 1140, zisk_errno = Some ENOMEM\<rparr>)"
    by (simp add: zisk_sbrk_def zisk_heap_init_def sbrk_failed_def Let_def)
  have "disjoint_blocks [(1024, 100), (1124, 16)]"
    using zisk_heap_blocks [OF _ _ _ run] by simp
  with run show ?thesis by simp
qed

text \<open>
  C39: on SP1, \<open>_sbrk\<close> takes its memory from one reservation made at the first call, half of the
  region the linker describes: every block lies inside it, no two overlap and nothing leaks;
  when libzkevm's allocator has no room, every request is refused.
\<close>

theorem sp1_heap_blocks:
  assumes "alloc_ok alloc" and "\<forall>n \<in> set ns. 0 \<le> sint n"
    and "sbrk_run (sp1_sbrk alloc heap_start heap_end) ns sp1_heap_init = (bs, h)"
  shows "(if alloc (sp1_half heap_start heap_end) 16 = 0 then bs = []
    else disjoint_blocks bs \<and>
      (\<forall>b \<in> set bs. block_bytes b \<subseteq>
        {uint (alloc (sp1_half heap_start heap_end) 16) ..<
         uint (alloc (sp1_half heap_start heap_end) 16) + uint (sp1_half heap_start heap_end)}))"
proof (cases "alloc (sp1_half heap_start heap_end) 16 = 0")
  case True
  then have "fst (sbrk_run (sp1_sbrk alloc heap_start heap_end) ns sp1_heap_init) = []"
    by (rule sp1_no_room_run) (simp add: sp1_heap_init_def)
  with True assms(3) show ?thesis by simp
next
  case False
  let ?n = "sp1_half heap_start heap_end"
  let ?p = "alloc ?n 16"
  let ?r = "sp1_reserved alloc heap_start heap_end"
  have ready: "sp1_ready heap_start heap_end ?r"
    using sp1_reserve [OF assms(1) False, of sp1_heap_init]
    by (simp add: sp1_reserved_def sp1_heap_init_def Let_def)
  have limit: "uint (?p + ?n) = uint ?p + uint ?n"
  proof (rule uint_add_small)
    have "uint ?p + uint ?n < 2 ^ 63" using assms(1) False by (simp add: alloc_ok_def)
    then show "uint ?p + uint ?n < 2 ^ LENGTH(64)" by simp
  qed
  show ?thesis
  proof (cases ns)
    case Nil
    with assms(3) False show ?thesis by simp
  next
    case (Cons n ms)
    then have run: "sbrk_run (sp1_sbrk alloc heap_start heap_end) ns ?r = (bs, h)"
      using assms(3) False sp1_first_call [of alloc heap_start heap_end] by simp
    have "sp1_ready heap_start heap_end h \<and> uint (sp1_limit h) = uint (sp1_limit ?r) \<and>
        (\<forall>b \<in> set bs. block_bytes b \<subseteq> {uint (sp1_pos ?r) ..< uint (sp1_pos h)})"
      using sp1.sbrk_run_inside [OF ready assms(2) run] by simp
    then have "\<forall>b \<in> set bs. block_bytes b \<subseteq> {uint ?p ..< uint (?p + ?n)}"
      by (fastforce simp: sp1_ready_def sp1_reserved_def Let_def)
    with sp1.sbrk_run_disjoint [OF ready assms(2) run] False limit show ?thesis by simp
  qed
qed

theorem sp1_heap_blocks_witness:
  "fst (sbrk_run (sp1_sbrk (\<lambda>n a. if n \<le> 4096 then 65536 else 0) 1024 3072) [100, 5000, 16]
     sp1_heap_init) = [(65536, 100), (65636, 16)] \<and>
   disjoint_blocks [(65536, 100), (65636, 16)]"
proof -
  let ?alloc = "\<lambda>n a. if n \<le> 4096 then 65536 else (0 :: u64)"
  have ok: "alloc_ok ?alloc"
    by (auto simp: alloc_ok_def word_le_def)
  have run: "sbrk_run (sp1_sbrk ?alloc 1024 3072) [100, 5000, 16] sp1_heap_init =
      ([(65536, 100), (65636, 16)],
       \<lparr>sp1_pos = 65652, sp1_limit = 66560, sp1_errno = Some ENOMEM\<rparr>)"
    by (simp add: sp1_sbrk_def sp1_heap_init_def sbrk_failed_def Let_def)
  have "disjoint_blocks [(65536, 100), (65636, 16)]"
    using sp1_heap_blocks [OF ok _ run] by (simp add: sp1_half_def)
  with run show ?thesis by simp
qed

end
