(* ===== verification/Zkvm_Io.thy ===== *)
theory Zkvm_Io
  imports Prelude
begin

text \<open>
  The zkVM input/output interface: its stdio-backed C implementation
  \<open>zkvm/native/zkvm_io_stdio.c\<close>, the Nim binding \<open>zkvm/zkvm_io.nim\<close>, and the guest program
  \<open>stateless_guest.nim\<close> that runs on it. The standard's contract for \<open>read_input\<close> and
  \<open>write_output\<close> is the locale \<open>zkvm_io\<close>; the guest is proved against it and the stdio
  implementation interprets it.
\<close>

section \<open>stdin, stdout and the input buffer\<close>

text \<open>
  The three statics of the C file and the C library's two streams. \<open>g_input\<close> is the buffer
  \<open>g_input\<close> points to, \<open>None\<close> for \<open>NULL\<close>. \<open>stdin_data\<close> is what the stream still delivers;
  \<open>stdin_fails\<close> says that it then reports a read error rather than the end of the file, and
  \<open>stdin_error\<close> is the stream's error indicator.
\<close>

record stdio =
  g_input :: "byte list option"
  g_input_size :: nat
  g_input_loaded :: bool
  stdin_data :: "byte list"
  stdin_fails :: bool
  stdin_error :: bool
  stdout_data :: "byte list"

definition stdio_start :: "byte list \<Rightarrow> bool \<Rightarrow> stdio" where
  "stdio_start inp fails =
     \<lparr>g_input = None, g_input_size = 0, g_input_loaded = False, stdin_data = inp,
      stdin_fails = fails, stdin_error = False, stdout_data = []\<rparr>"

text \<open>
  The process environment: which sizes \<open>malloc\<close> and \<open>realloc\<close> grant, how many of the bytes
  offered \<open>fwrite\<close> takes and whether \<open>fflush\<close> succeeds, both given what was written before.
\<close>

record host =
  heap_grants :: "nat \<Rightarrow> bool"
  fwrite_takes :: "byte list \<Rightarrow> byte list \<Rightarrow> nat"
  fflush_ok :: "byte list \<Rightarrow> bool"

text \<open>\<open>die\<close>: a message on stderr, then \<open>exit(EXIT_FAILURE)\<close>.\<close>

type_synonym 'a stdio_proc = "(stdio, string, 'a) proc"

definition die :: "string \<Rightarrow> 'a stdio_proc" where
  "die what = fail what"

text \<open>
  \<open>fread(_, 1, k, stdin)\<close> delivers the bytes there are, up to \<open>k\<close>; asked for more, it meets the
  end of the stream or the read error.
\<close>

definition fread :: "nat \<Rightarrow> stdio \<Rightarrow> byte list \<times> stdio" where
  "fread k s =
     (take k (stdin_data s),
      s\<lparr>stdin_data := drop k (stdin_data s),
        stdin_error := (stdin_error s \<or> (stdin_fails s \<and> length (stdin_data s) < k))\<rparr>)"

text \<open>\<open>size_t\<close> arithmetic, with its wrap-around.\<close>

definition size_mul2 :: "nat \<Rightarrow> nat" where
  "size_mul2 n = (n * 2) mod 2 ^ 64"

definition size_sub :: "nat \<Rightarrow> nat \<Rightarrow> nat" where
  "size_sub a b = (a + 2 ^ 64 - b) mod 2 ^ 64"

text \<open>The loop of \<open>load_input\<close>: \<open>buf\<close> holds the \<open>len\<close> bytes read so far.\<close>

function load_loop :: "host \<Rightarrow> nat \<Rightarrow> byte list \<Rightarrow> byte list stdio_proc" where
  "load_loop host cap buf s =
     (if length buf = cap \<and> \<not> heap_grants host (size_mul2 cap)
      then die ''out of memory reading stdin'' s
      else
        let cap' = (if length buf = cap then size_mul2 cap else cap);
            (chunk, s') = fread (size_sub cap' (length buf)) s
        in if chunk = [] then
             (if stdin_error s' then die ''error reading stdin'' s' else (Done buf, s'))
           else load_loop host cap' (buf @ chunk) s')"
  by pat_completeness auto
termination
  by (relation "measure (\<lambda>(_, _, _, s). length (stdin_data s))") (auto simp: fread_def)

declare load_loop.simps [simp del]

definition initial_cap :: nat where
  "initial_cap = 65536"

definition load_input :: "host \<Rightarrow> unit stdio_proc" where
  "load_input host s =
     (if g_input_loaded s then (Done (), s)
      else let s1 = s\<lparr>g_input_loaded := True\<rparr> in
        if \<not> heap_grants host initial_cap then die ''out of memory reading stdin'' s1
        else andThen (load_loop host initial_cap [])
               (\<lambda>buf. update (\<lambda>s. s\<lparr>g_input := Some buf, g_input_size := length buf\<rparr>)) s1)"

definition read_input :: "host \<Rightarrow> (byte list option \<times> nat) stdio_proc" where
  "read_input host = andThen (load_input host) (\<lambda>_. gets (\<lambda>s. (g_input s, g_input_size s)))"

definition write_output :: "host \<Rightarrow> byte list \<Rightarrow> unit stdio_proc" where
  "write_output host output s =
     (let size = length output;
          n = fwrite_takes host (stdout_data s) output;
          s1 = (if 0 < size then s\<lparr>stdout_data := stdout_data s @ take n output\<rparr> else s)
      in if 0 < size \<and> n \<noteq> size then die ''error writing stdout'' s1
         else if \<not> fflush_ok host (stdout_data s1) then die ''error flushing stdout'' s1
         else (Done (), s1))"

section \<open>The Nim binding and the guest program\<close>

text \<open>
  \<open>readInput\<close> never passes on the pointer of an empty input, \<open>writeOutput\<close> skips empty writes.
  Borrowing \<open>size\<close> bytes of a null pointer would be a crash.
\<close>

definition readInput :: "host \<Rightarrow> byte list stdio_proc" where
  "readInput host =
     andThen (read_input host)
       (\<lambda>(buf, size). if size = 0 then ret []
          else (case buf of None \<Rightarrow> defect | Some bytes \<Rightarrow> ret (take size bytes)))"

definition writeOutput :: "host \<Rightarrow> byte list \<Rightarrow> unit stdio_proc" where
  "writeOutput host data = (if 0 < length data then write_output host data else ret ())"

text \<open>
  The guest. SSZ coding and \<open>verify_stateless_new_payload\<close> are arguments; the verification may
  crash. The schema id is two big-endian bytes.
\<close>

definition STATELESS_INPUT_SCHEMA_ID :: "16 word" where
  "STATELESS_INPUT_SCHEMA_ID = or (push_bit 8 0x15) 0x01"

definition STATELESS_INPUT_SCHEMA_ID_SIZE :: nat where
  "STATELESS_INPUT_SCHEMA_ID_SIZE = 2"

definition uint16_fromBytesBE :: "byte \<Rightarrow> byte \<Rightarrow> 16 word" where
  "uint16_fromBytesBE hi lo = or (push_bit 8 (ucast hi)) (ucast lo)"

definition deserialize_stateless_input ::
    "(byte list \<Rightarrow> string + 'input) \<Rightarrow> byte list \<Rightarrow> string + 'input" where
  "deserialize_stateless_input ssz_decode data =
     (if length data < STATELESS_INPUT_SCHEMA_ID_SIZE
      then Inl ''Stateless input is missing schema id''
      else if uint16_fromBytesBE (data ! 0) (data ! 1) \<noteq> STATELESS_INPUT_SCHEMA_ID
      then Inl ''Unsupported stateless input schema id''
      else (case ssz_decode (drop STATELESS_INPUT_SCHEMA_ID_SIZE data) of
              Inl msg \<Rightarrow> Inl (''Failed to deserialize StatelessInput: '' @ msg)
            | Inr input \<Rightarrow> Inr input))"

record stateless_validation_result =
  new_payload_request_root :: hash32
  successful_validation :: bool
  chain_id :: u64
  schema_id :: "16 word"

definition FAILED_STATELESS_OUTPUT :: stateless_validation_result where
  "FAILED_STATELESS_OUTPUT =
     \<lparr>new_payload_request_root = 0, successful_validation = False, chain_id = 0, schema_id = 0\<rparr>"

definition run_stateless_guest ::
    "(byte list \<Rightarrow> string + 'input) \<Rightarrow> (stateless_validation_result \<Rightarrow> byte list) \<Rightarrow>
     ('input \<Rightarrow> ('e, stateless_validation_result) outcome) \<Rightarrow> byte list \<Rightarrow> ('e, byte list) outcome" where
  "run_stateless_guest ssz_decode ssz_encode verify data =
     (case deserialize_stateless_input ssz_decode data of
        Inl _ \<Rightarrow> Done (ssz_encode FAILED_STATELESS_OUTPUT)
      | Inr input \<Rightarrow> bind_outcome (verify input) (\<lambda>res. Done (ssz_encode res)))"

text \<open>The guest's \<open>main\<close>, over any implementation of the two calls.\<close>

definition guest_main ::
    "('s, 'e, byte list) proc \<Rightarrow> (byte list \<Rightarrow> ('s, 'e, unit) proc) \<Rightarrow>
     (byte list \<Rightarrow> ('e, byte list) outcome) \<Rightarrow> ('s, 'e, unit) proc" where
  "guest_main rd wr run = andThen rd (\<lambda>data. andThen (ofOutcome (run data)) wr)"

section \<open>The interface the standard promises\<close>

locale zkvm_io =
  fixes rd :: "('s, 'e, byte list) proc"
    and wr :: "byte list \<Rightarrow> ('s, 'e, unit) proc"
    and private_input :: "'s \<Rightarrow> byte list"
    and public_output :: "'s \<Rightarrow> byte list"
    and healthy :: "'s \<Rightarrow> bool"
  assumes rd_spec: "healthy s \<Longrightarrow>
      ends (\<lambda>bs s'. bs = private_input s \<and> healthy s' \<and> private_input s' = private_input s \<and>
                    public_output s' = public_output s)
           (\<lambda>s'. public_output s' = public_output s) (rd s)"
    and wr_spec: "healthy s \<Longrightarrow>
      ends (\<lambda>_ s'. healthy s' \<and> private_input s' = private_input s \<and>
                   public_output s' = public_output s @ out)
           (\<lambda>s'. \<exists>n. public_output s' = public_output s @ take n out) (wr out s)"
begin

text \<open>Reading is idempotent: a second read gives the same bytes.\<close>

lemma rd_twice:
  assumes "healthy s" and "rd s = (Done bs, s1)" and "rd s1 = (Done bs', s2)"
  shows "bs' = bs"
proof -
  have "bs = private_input s \<and> healthy s1 \<and> private_input s1 = private_input s"
    using rd_spec [OF assms(1)] assms(2) by simp
  moreover from this have "bs' = private_input s1"
    using rd_spec [of s1] assms(3) by simp
  ultimately show ?thesis by simp
qed

text \<open>
  The guest writes the result for the whole input, or dies having written a prefix of it; where
  its own run gives no result, nothing is written.
\<close>

lemma guest_main_spec:
  assumes "healthy s" and "run (private_input s) \<noteq> Stuck"
  shows "ends
    (\<lambda>_ s'. \<exists>out. run (private_input s) = Done out \<and> public_output s' = public_output s @ out)
    (\<lambda>s'. public_output s' = public_output s \<or>
       (\<exists>out n. run (private_input s) = Done out \<and> public_output s' = public_output s @ take n out))
    (guest_main rd wr run s)"
proof -
  obtain got s1 where r: "rd s = (got, s1)" by (cases "rd s")
  show ?thesis
  proof (cases got)
    case (Done bs)
    with rd_spec [OF assms(1)] r have s1: "bs = private_input s" "healthy s1"
      "public_output s1 = public_output s" by auto
    show ?thesis
    proof (cases "run bs")
      case out: (Done out)
      from wr_spec [OF s1(2), of out] s1 out have
        "ends (\<lambda>_ s'. \<exists>out. run (private_input s) = Done out \<and> public_output s' = public_output s @ out)
          (\<lambda>s'. public_output s' = public_output s \<or>
             (\<exists>out n. run (private_input s) = Done out \<and> public_output s' = public_output s @ take n out))
          (wr out s1)"
        by (auto elim: ends_mono)
      with r Done out show ?thesis by (simp add: guest_main_def andThen_def ofOutcome_def)
    qed (use r Done s1 assms(2) in \<open>simp_all add: guest_main_def andThen_def ofOutcome_def\<close>)
  qed (use rd_spec [OF assms(1)] r in \<open>auto simp: guest_main_def andThen_def\<close>)
qed

end

section \<open>The stdio implementation keeps the promise\<close>

text \<open>
  What is assumed of the host: an allocation that succeeds is not empty and below half the
  address space (C's \<open>PTRDIFF_MAX\<close> limit, which the comment in the loop relies on).
\<close>

definition heap_sane :: "host \<Rightarrow> bool" where
  "heap_sane host \<longleftrightarrow> (\<forall>n. heap_grants host n \<longrightarrow> n < 2 ^ 63)"

text \<open>The cap the next round of the loop reads into.\<close>

definition next_cap :: "nat \<Rightarrow> byte list \<Rightarrow> nat" where
  "next_cap cap buf = (if length buf = cap then size_mul2 cap else cap)"

lemma next_cap_bounds:
  assumes "0 < cap" and "cap < 2 ^ 63" and "length buf \<le> cap"
    and "length buf = cap \<Longrightarrow> size_mul2 cap < 2 ^ 63"
  shows "length buf < next_cap cap buf \<and> next_cap cap buf < 2 ^ 63"
proof (cases "length buf = cap")
  case True
  have "size_mul2 cap = 2 * cap" using assms(2) by (simp add: size_mul2_def)
  with True assms show ?thesis by (simp add: next_cap_def)
next
  case False
  with assms show ?thesis by (simp add: next_cap_def)
qed

lemma size_sub_less:
  assumes "b < a" and "a < 2 ^ 63"
  shows "size_sub a b = a - b"
proof -
  have "size_sub a b = ((a - b) + 2 ^ 64) mod 2 ^ 64"
    unfolding size_sub_def using assms(1) by (intro arg_cong [where f = "\<lambda>x. x mod 2 ^ 64"]) simp
  also have "\<dots> = (a - b) mod 2 ^ 64" by (rule mod_add_self2)
  also have "\<dots> = a - b" using assms by (intro mod_less) simp
  finally show ?thesis .
qed

text \<open>One round, with the arithmetic out of the way.\<close>

definition room :: "nat \<Rightarrow> byte list \<Rightarrow> nat" where
  "room cap buf = next_cap cap buf - length buf"

lemma load_loop_round:
  assumes "heap_sane host" and "0 < cap" and "cap < 2 ^ 63" and "length buf \<le> cap"
    and "\<not> (length buf = cap \<and> \<not> heap_grants host (size_mul2 cap))"
  shows "0 < room cap buf"
    and "length buf < next_cap cap buf" and "next_cap cap buf < 2 ^ 63"
    and "load_loop host cap buf s =
      (if stdin_data s = []
       then (if stdin_error (snd (fread (room cap buf) s))
             then (Fail ''error reading stdin'', snd (fread (room cap buf) s))
             else (Done buf, snd (fread (room cap buf) s)))
       else load_loop host (next_cap cap buf) (buf @ take (room cap buf) (stdin_data s))
              (snd (fread (room cap buf) s)))"
proof -
  have caps: "length buf < next_cap cap buf \<and> next_cap cap buf < 2 ^ 63"
    using assms by (intro next_cap_bounds) (auto simp: heap_sane_def)
  then show "0 < room cap buf" "length buf < next_cap cap buf" "next_cap cap buf < 2 ^ 63"
    by (simp_all add: room_def)
  from caps have "size_sub (next_cap cap buf) (length buf) = room cap buf"
    by (auto simp: room_def intro: size_sub_less)
  then have "load_loop host cap buf s =
      (let (chunk, s') = fread (room cap buf) s
       in if chunk = [] then
            (if stdin_error s' then die ''error reading stdin'' s' else (Done buf, s'))
          else load_loop host (next_cap cap buf) (buf @ chunk) s')"
    unfolding load_loop.simps [of host cap buf s] next_cap_def [symmetric]
    using assms(5) by (auto simp: Let_def)
  with \<open>0 < room cap buf\<close> show "load_loop host cap buf s =
      (if stdin_data s = []
       then (if stdin_error (snd (fread (room cap buf) s))
             then (Fail ''error reading stdin'', snd (fread (room cap buf) s))
             else (Done buf, snd (fread (room cap buf) s)))
       else load_loop host (next_cap cap buf) (buf @ take (room cap buf) (stdin_data s))
              (snd (fread (room cap buf) s)))"
    by (auto simp: fread_def die_def fail_def)
qed

lemma load_loop_no_memory:
  "length buf = cap \<Longrightarrow> \<not> heap_grants host (size_mul2 cap) \<Longrightarrow>
   load_loop host cap buf s = (Fail ''out of memory reading stdin'', s)"
  by (simp add: load_loop.simps [of host cap buf s] die_def fail_def)

text \<open>
  The loop reads the stream to its end, whatever the host does: it returns everything, or dies
  with nothing changed but the stream.
\<close>

definition only_stream :: "stdio \<Rightarrow> stdio \<Rightarrow> bool" where
  "only_stream s s' \<longleftrightarrow>
     s' = s\<lparr>stdin_data := stdin_data s', stdin_error := stdin_error s'\<rparr>"

lemma only_stream_refl [simp]: "only_stream s s"
  by (simp add: only_stream_def)

lemma only_stream_trans: "only_stream r s \<Longrightarrow> only_stream s t \<Longrightarrow> only_stream r t"
  by (cases r; cases s; cases t) (simp add: only_stream_def)

lemma only_stream_fread [simp]: "only_stream s (snd (fread k s))"
  by (simp add: only_stream_def fread_def)

lemma only_streamD:
  "only_stream s s' \<Longrightarrow> stdout_data s' = stdout_data s \<and> g_input_loaded s' = g_input_loaded s"
  unfolding only_stream_def by (erule ssubst) simp

lemma stdin_data_fread [simp]: "stdin_data (snd (fread k s)) = drop k (stdin_data s)"
  by (simp add: fread_def)

lemma load_loop_reads_all:
  assumes "heap_sane host" and "0 < cap" and "cap < 2 ^ 63" and "length buf \<le> cap"
  shows "ends (\<lambda>bs s'. bs = buf @ stdin_data s \<and> stdin_data s' = [] \<and> only_stream s s')
    (only_stream s) (load_loop host cap buf s)"
  using assms
proof (induction "length (stdin_data s)" arbitrary: cap buf s rule: less_induct)
  case less
  show ?case
  proof (cases "length buf = cap \<and> \<not> heap_grants host (size_mul2 cap)")
    case True
    then show ?thesis by (simp add: load_loop_no_memory)
  next
    case False
    note round = load_loop_round [OF less.prems False]
    let ?k = "room cap buf"
    show ?thesis
    proof (cases "stdin_data s = []")
      case True
      with round(4) show ?thesis by simp
    next
      case ne: False
      let ?s = "snd (fread ?k s)" and ?buf = "buf @ take ?k (stdin_data s)"
      have "length ?buf \<le> next_cap cap buf" using round(2) by (simp add: room_def)
      moreover have "length (stdin_data ?s) < length (stdin_data s)"
        using ne round(1) by simp
      moreover have "0 < next_cap cap buf" using round(2) by simp
      ultimately have "ends (\<lambda>bs s'. bs = ?buf @ stdin_data ?s \<and> stdin_data s' = [] \<and> only_stream ?s s')
          (only_stream ?s) (load_loop host (next_cap cap buf) ?buf ?s)"
        using less.hyps less.prems(1) round(3) by blast
      then show ?thesis
        unfolding round(4) using ne
        by (auto elim!: ends_mono intro: only_stream_trans [OF only_stream_fread])
    qed
  qed
qed

text \<open>With enough memory and no read error it does return.\<close>

lemma load_loop_returns:
  assumes "heap_sane host" and "0 < cap" and "cap < 2 ^ 63" and "length buf \<le> cap"
    and "\<forall>n \<le> 2 * (length buf + length (stdin_data s)). heap_grants host n"
    and "\<not> stdin_fails s" and "\<not> stdin_error s"
  shows "\<exists>s'. load_loop host cap buf s = (Done (buf @ stdin_data s), s')"
  using assms
proof (induction "length (stdin_data s)" arbitrary: cap buf s rule: less_induct)
  case less
  have "length buf = cap \<Longrightarrow> heap_grants host (size_mul2 cap)"
    using less.prems(3,5) by (simp add: size_mul2_def)
  then have grants: "\<not> (length buf = cap \<and> \<not> heap_grants host (size_mul2 cap))" by blast
  note round = load_loop_round [OF less.prems(1-4) grants]
  let ?k = "room cap buf"
  show ?case
  proof (cases "stdin_data s = []")
    case True
    with round(4) less.prems(6,7) show ?thesis by (simp add: fread_def)
  next
    case False
    let ?s = "snd (fread ?k s)" and ?buf = "buf @ take ?k (stdin_data s)"
    have "length ?buf \<le> next_cap cap buf" using round(2) by (simp add: room_def)
    moreover have "length (stdin_data ?s) < length (stdin_data s)"
      using False round(1) by simp
    moreover have "length ?buf + length (stdin_data ?s) = length buf + length (stdin_data s)"
      by simp
    moreover have "\<not> stdin_fails ?s" "\<not> stdin_error ?s"
      using less.prems(6,7) by (simp_all add: fread_def)
    moreover have "0 < next_cap cap buf" using round(2) by simp
    ultimately have "\<exists>s'. load_loop host (next_cap cap buf) ?buf ?s = (Done (?buf @ stdin_data ?s), s')"
      using less.hyps [of ?s "next_cap cap buf" ?buf] less.prems(1,5) round(3) by metis
    with round(4) False show ?thesis by simp
  qed
qed

text \<open>
  The private input of a state: the buffer once it is loaded, the stream before. A healthy
  state never lost its buffer, and a host is sane.
\<close>

definition stdio_input :: "stdio \<Rightarrow> byte list" where
  "stdio_input s = (if g_input_loaded s then the (g_input s) else stdin_data s)"

definition stdio_healthy :: "host \<Rightarrow> stdio \<Rightarrow> bool" where
  "stdio_healthy host s \<longleftrightarrow>
     heap_sane host \<and>
     (g_input_loaded s \<longrightarrow> (\<exists>bytes. g_input s = Some bytes \<and> g_input_size s = length bytes))"

lemma load_input_spec:
  assumes "stdio_healthy host s"
  shows "ends (\<lambda>_ s'. stdio_healthy host s' \<and> g_input_loaded s' \<and> stdio_input s' = stdio_input s \<and>
      stdout_data s' = stdout_data s) (\<lambda>s'. stdout_data s' = stdout_data s) (load_input host s)"
proof (cases "g_input_loaded s")
  case True
  with assms show ?thesis by (simp add: load_input_def)
next
  case False
  let ?s = "s\<lparr>g_input_loaded := True\<rparr>"
  show ?thesis
  proof (cases "heap_grants host initial_cap")
    case no_mem: False
    with False show ?thesis by (simp add: load_input_def die_def fail_def)
  next
    case True
    from assms have "ends (\<lambda>bs s'. bs = [] @ stdin_data ?s \<and> stdin_data s' = [] \<and> only_stream ?s s')
        (only_stream ?s) (load_loop host initial_cap [] ?s)"
      by (intro load_loop_reads_all) (simp_all add: stdio_healthy_def initial_cap_def)
    moreover obtain out s1 where "load_loop host initial_cap [] ?s = (out, s1)"
      by (cases "load_loop host initial_cap [] ?s")
    ultimately show ?thesis
      using assms False True
      by (cases out)
        (auto simp: load_input_def andThen_def update_def stdio_healthy_def stdio_input_def
          dest!: only_streamD)
  qed
qed

lemma readInput_spec:
  assumes "stdio_healthy host s"
  shows "ends (\<lambda>bs s'. bs = stdio_input s \<and> stdio_healthy host s' \<and> stdio_input s' = stdio_input s \<and>
      stdout_data s' = stdout_data s) (\<lambda>s'. stdout_data s' = stdout_data s) (readInput host s)"
proof -
  obtain out s1 where r: "load_input host s = (out, s1)" by (cases "load_input host s")
  with load_input_spec [OF assms] show ?thesis
    by (cases out) (auto simp: readInput_def read_input_def andThen_def gets_def ret_def
        stdio_healthy_def stdio_input_def)
qed

lemma writeOutput_spec:
  assumes "stdio_healthy host s"
  shows "ends (\<lambda>_ s'. stdio_healthy host s' \<and> stdio_input s' = stdio_input s \<and>
      stdout_data s' = stdout_data s @ out)
      (\<lambda>s'. \<exists>n. stdout_data s' = stdout_data s @ take n out) (writeOutput host out s)"
  using assms
  by (auto simp: writeOutput_def write_output_def Let_def ret_def die_def fail_def
      stdio_healthy_def stdio_input_def intro: exI [of _ "length out"])

interpretation stdio: zkvm_io
  "readInput host" "writeOutput host" stdio_input stdout_data "stdio_healthy host" for host
  by unfold_locales (rule readInput_spec, assumption, rule writeOutput_spec, assumption)

lemma stdio_start_healthy: "heap_sane host \<Longrightarrow> stdio_healthy host (stdio_start inp fails)"
  by (simp add: stdio_healthy_def stdio_start_def)

lemma guest_runs_to_the_end:
  assumes "heap_sane host" and "\<forall>n \<le> max initial_cap (2 * length inp). heap_grants host n"
    and "\<forall>out. fwrite_takes host [] out = length out" and "\<forall>out. fflush_ok host out"
    and "run inp = Done out"
  shows "\<exists>s. guest_main (readInput host) (writeOutput host) run (stdio_start inp False) = (Done (), s)
    \<and> stdout_data s = out"
proof -
  let ?s = "(stdio_start inp False)\<lparr>g_input_loaded := True\<rparr>"
  have "\<exists>s'. load_loop host initial_cap [] ?s = (Done ([] @ stdin_data ?s), s')"
    using assms(1,2)
    by (intro load_loop_returns) (simp_all add: initial_cap_def stdio_start_def)
  then obtain s1 where loop: "load_loop host initial_cap [] ?s = (Done inp, s1)"
    by (auto simp: stdio_start_def)
  have "heap_grants host initial_cap" using assms(2) by simp
  with loop have load: "load_input host (stdio_start inp False) =
      (Done (), s1\<lparr>g_input := Some inp, g_input_size := length inp\<rparr>)"
    by (simp add: load_input_def stdio_start_def andThen_def update_def)
  have out: "stdout_data s1 = []"
    using load_input_spec [OF stdio_start_healthy [OF assms(1)], of inp False] load
    by (simp add: stdio_start_def)
  have "readInput host (stdio_start inp False) =
      (Done inp, s1\<lparr>g_input := Some inp, g_input_size := length inp\<rparr>)"
    using load by (simp add: readInput_def read_input_def andThen_def gets_def ret_def)
  with out assms(3-5) show ?thesis
    by (auto simp: guest_main_def andThen_def ofOutcome_def writeOutput_def write_output_def ret_def Let_def)
qed

section \<open>Properties\<close>

text \<open>
  C40: on the stdio backend the guest program, whatever the input and however allocation,
  reading or writing fails, either returns having written exactly the guest's result for the
  whole of stdin, or dies having written no more than a prefix of that result, and nothing at all
  where the run itself crashes.
\<close>

theorem guest_on_stdio_safe:
  assumes "heap_sane host" and "run inp \<noteq> Stuck"
  shows "ends (\<lambda>_ s. run inp = Done (stdout_data s))
    (\<lambda>s. stdout_data s = [] \<or> (\<exists>out n. run inp = Done out \<and> stdout_data s = take n out))
    (guest_main (readInput host) (writeOutput host) run (stdio_start inp fails))"
  using stdio.guest_main_spec [OF stdio_start_healthy [OF assms(1), of inp fails], of run] assms(2)
  by (auto simp: stdio_start_def stdio_input_def elim: ends_mono)

theorem guest_on_stdio_safe_witness:
  "ends (\<lambda>_ s. stdout_data s = [7, 8]) (\<lambda>s. \<exists>n. stdout_data s = take n [7, 8])
    (guest_main
      (readInput \<lparr>heap_grants = (\<lambda>n. n < 100000), fwrite_takes = (\<lambda>_. length), fflush_ok = (\<lambda>_. True)\<rparr>)
      (writeOutput \<lparr>heap_grants = (\<lambda>n. n < 100000), fwrite_takes = (\<lambda>_. length), fflush_ok = (\<lambda>_. True)\<rparr>)
      (\<lambda>bs. Done (rev bs)) (stdio_start [8, 7] False))"
  using guest_on_stdio_safe
    [of "\<lparr>heap_grants = (\<lambda>n. n < 100000), fwrite_takes = (\<lambda>_. length), fflush_ok = (\<lambda>_. True)\<rparr>"
        "\<lambda>bs. Done (rev bs)" "[8, 7]" False]
  by (auto simp: heap_sane_def intro: exI [of _ 0] elim!: ends_mono)

text \<open>
  With enough memory, a readable stdin and a writable stdout the guest does return: the
  read loop ends after the last byte, whatever the length, and the output is the
  guest's result, where its run gives one.
\<close>

theorem guest_on_stdio_returns:
  assumes "heap_sane host" and "\<forall>n \<le> max initial_cap (2 * length inp). heap_grants host n"
    and "\<forall>out. fwrite_takes host [] out = length out" and "\<forall>out. fflush_ok host out"
    and "run inp = Done out"
  shows "\<exists>s. guest_main (readInput host) (writeOutput host) run (stdio_start inp False) = (Done (), s)
    \<and> stdout_data s = out"
  using assms by (rule guest_runs_to_the_end)

theorem guest_on_stdio_returns_witness:
  "\<exists>s. guest_main
      (readInput \<lparr>heap_grants = (\<lambda>n. n < 100000), fwrite_takes = (\<lambda>_. length), fflush_ok = (\<lambda>_. True)\<rparr>)
      (writeOutput \<lparr>heap_grants = (\<lambda>n. n < 100000), fwrite_takes = (\<lambda>_. length), fflush_ok = (\<lambda>_. True)\<rparr>)
      (\<lambda>bs. Done (rev bs)) (stdio_start [8, 7] False) = (Done (), s) \<and> stdout_data s = [7, 8]"
  using guest_on_stdio_returns
    [of "\<lparr>heap_grants = (\<lambda>n. n < 100000), fwrite_takes = (\<lambda>_. length), fflush_ok = (\<lambda>_. True)\<rparr>"
        "[8, 7]" "\<lambda>bs. Done (rev bs)" "[7, 8]"]
  by (simp add: heap_sane_def initial_cap_def)

text \<open>
  C27: \<open>read_input\<close> is idempotent: a later call hands out the same bytes, whatever was written in
  between.
\<close>

theorem read_input_idempotent:
  assumes "heap_sane host"
    and "readInput host (stdio_start inp fails) = (Done bs, s1)"
    and "writeOutput host out s1 = (Done (), s2)"
    and "readInput host s2 = (Done bs', s3)"
  shows "bs = inp \<and> bs' = inp"
proof -
  have 1: "bs = inp" "stdio_healthy host s1" "stdio_input s1 = inp"
    using readInput_spec [OF stdio_start_healthy [OF assms(1)], of inp fails] assms(2)
    by (simp_all add: stdio_start_def stdio_input_def)
  have 2: "stdio_healthy host s2" "stdio_input s2 = inp"
    using writeOutput_spec [OF 1(2), of out] assms(3) 1(3) by simp_all
  show ?thesis
    using readInput_spec [OF 2(1)] assms(4) 1(1) 2(2) by simp
qed

theorem read_input_idempotent_witness:
  "\<exists>bs s1 s2 bs' s3.
     (let host = \<lparr>heap_grants = (\<lambda>n. n < 100000), fwrite_takes = (\<lambda>_. length), fflush_ok = (\<lambda>_. True)\<rparr>
      in readInput host (stdio_start [8, 7] False) = (Done bs, s1) \<and>
         writeOutput host [1] s1 = (Done (), s2) \<and> readInput host s2 = (Done bs', s3)) \<and>
     bs = [8, 7] \<and> bs' = [8, 7]"
proof -
  let ?host = "\<lparr>heap_grants = (\<lambda>n. n < 100000), fwrite_takes = (\<lambda>_. length), fflush_ok = (\<lambda>_. True)\<rparr>"
  let ?s = "\<lparr>g_input = Some [8, 7], g_input_size = 2, g_input_loaded = True, stdin_data = [],
     stdin_fails = False, stdin_error = False, stdout_data = []\<rparr>"
  have 0: "heap_sane ?host" by (simp add: heap_sane_def)
  have 1: "readInput ?host (stdio_start [8, 7] False) = (Done [8, 7], ?s)"
    by (simp add: readInput_def read_input_def load_input_def andThen_def gets_def ret_def
        update_def stdio_start_def initial_cap_def load_loop.simps fread_def size_sub_def)
  have 2: "writeOutput ?host [1] ?s = (Done (), ?s\<lparr>stdout_data := [1]\<rparr>)"
    by (simp add: writeOutput_def write_output_def)
  have 3: "readInput ?host (?s\<lparr>stdout_data := [1]\<rparr>) = (Done [8, 7], ?s\<lparr>stdout_data := [1]\<rparr>)"
    by (simp add: readInput_def read_input_def load_input_def andThen_def gets_def ret_def)
  from read_input_idempotent [OF 0 1 2 3] 1 2 3 show ?thesis
    by (simp only: Let_def) blast
qed

end
