(* ===== verification/Proxy_Context.thy ===== *)
theory Proxy_Context
  imports Prelude "HOL-Library.Multiset"
begin

text \<open>
  The verified proxy as a C library: the life cycle of a \<open>Context\<close>
  (\<open>library/verifproxy.nim\<close>, \<open>library/types.nim\<close>), the completion of asynchronous calls
  (\<open>callbackToC\<close> of \<open>library/c_frontend.nim\<close>), the header's return codes, and the C shim
  \<open>bindings/wasm/wasm_wrapper.c\<close> with its one global context.
\<close>

section \<open>Return codes, contexts, in-flight calls\<close>

definition RET_SUCCESS :: int where "RET_SUCCESS = 0"
definition RET_ERROR :: int where "RET_ERROR = -1"
definition RET_CANCELLED :: int where "RET_CANCELLED = -2"
definition RET_DESER_ERROR :: int where "RET_DESER_ERROR = -3"

lemmas ret_codes = RET_SUCCESS_def RET_ERROR_def RET_CANCELLED_def RET_DESER_ERROR_def

text \<open>
  A context: the stop flag, the number of calls whose callback is still owed, whether an OP
  frontend is configured, and the sync interval of its engine in milliseconds.
\<close>

record proxy_context =
  ctx_stop :: bool
  pendingCalls :: int
  ctx_op :: bool
  ctx_interval :: u64

text \<open>
  How the future of a frontend call ends: cancelled, failed with an exception, or with a value
  that is an \<open>EngineResult\<close>: an error (its kind and message), nothing, or a value. JSON
  encoding is the serializer's business: a value is carried as its encoding, and \<open>enc\<close>
  encodes a message.
\<close>

datatype fut_result =
  Fut_cancelled string | Fut_failed string | Fut_err string string | Fut_void | Fut_value string

definition response_of :: "(string \<Rightarrow> string) \<Rightarrow> fut_result \<Rightarrow> int \<times> string" where
  "response_of enc r =
     (case r of
        Fut_cancelled msg \<Rightarrow> (RET_CANCELLED, enc msg)
      | Fut_failed msg \<Rightarrow> (RET_ERROR, enc msg)
      | Fut_err errType errMsg \<Rightarrow> (RET_ERROR, errType @ '': '' @ errMsg)
      | Fut_void \<Rightarrow> (RET_SUCCESS, ''null'')
      | Fut_value json \<Rightarrow> (RET_SUCCESS, json))"

text \<open>
  The process: the live contexts by address, the calls the event loop still holds (context,
  frontend call, user data), the callbacks made so far (context, status, response, user data),
  and the shim's \<open>g_ctx\<close>. A pointer is an address option, \<open>None\<close> being \<open>NULL\<close>; the address of
  a freed context is no longer in \<open>contexts\<close> and is never handed out again, so that a stale
  pointer is told from a fresh one.
\<close>

type_synonym ptr = "nat option"

record 'c process =
  contexts :: "nat \<Rightarrow> proxy_context option"
  next_addr :: nat
  inflight :: "(nat \<times> 'c \<times> nat) list"
  callbacks :: "(ptr \<times> int \<times> string \<times> nat) list"
  g_ctx :: ptr

definition process_start :: "'c process" where
  "process_start =
     \<lparr>contexts = (\<lambda>_. None), next_addr = 0, inflight = [], callbacks = [], g_ctx = None\<rparr>"

type_synonym ('c, 'a) ctx_proc = "('c process, string, 'a) proc"

text \<open>Reading through a pointer that is null or dangling takes the process down.\<close>

definition deref :: "ptr \<Rightarrow> (nat \<Rightarrow> proxy_context \<Rightarrow> ('c, 'a) ctx_proc) \<Rightarrow> ('c, 'a) ctx_proc" where
  "deref p f s =
     (case p of
        None \<Rightarrow> (Defect, s)
      | Some i \<Rightarrow> (case contexts s i of None \<Rightarrow> (Defect, s) | Some c \<Rightarrow> f i c s))"

definition set_context :: "nat \<Rightarrow> proxy_context \<Rightarrow> 'c process \<Rightarrow> 'c process" where
  "set_context i c s = s\<lparr>contexts := (contexts s)(i := Some c)\<rparr>"

definition call_back :: "ptr \<Rightarrow> int \<Rightarrow> string \<Rightarrow> nat \<Rightarrow> 'c process \<Rightarrow> 'c process" where
  "call_back p status response userData s =
     s\<lparr>callbacks := callbacks s @ [(p, status, response, userData)]\<rparr>"

section \<open>Completing calls\<close>

text \<open>\<open>sendResult\<close>: the debt of the context is paid, then the user's callback runs.\<close>

definition sendResult ::
    "(string \<Rightarrow> string) \<Rightarrow> ptr \<Rightarrow> nat \<Rightarrow> fut_result \<Rightarrow> ('c, unit) ctx_proc" where
  "sendResult enc p userData r =
     deref p (\<lambda>i c s.
       let (status, response) = response_of enc r
       in (Done (), call_back p status response userData
                      (set_context i (c\<lparr>pendingCalls := pendingCalls c - 1\<rparr>) s)))"

text \<open>
  \<open>callbackToC\<close>: the call is counted, then either it has already finished and its result is
  sent at once, or the event loop keeps it.
\<close>

definition callbackToC ::
    "(string \<Rightarrow> string) \<Rightarrow> ptr \<Rightarrow> nat \<Rightarrow> 'c \<Rightarrow> fut_result option \<Rightarrow> ('c, unit) ctx_proc" where
  "callbackToC enc p userData call finished =
     deref p (\<lambda>i c s.
       let s1 = set_context i (c\<lparr>pendingCalls := pendingCalls c + 1\<rparr>) s
       in case finished of
            Some r \<Rightarrow> sendResult enc p userData r s1
          | None \<Rightarrow> (Done (), s1\<lparr>inflight := inflight s1 @ [(i, call, userData)]\<rparr>))"

text \<open>
  One turn of the event loop: it completes some of the calls it holds, with results of the
  network's choosing. A completion names a call by its position.
\<close>

fun poll :: "(string \<Rightarrow> string) \<Rightarrow> (nat \<times> fut_result) list \<Rightarrow> ('c, unit) ctx_proc" where
  "poll enc [] s = (Done (), s)"
| "poll enc ((k, r) # rs) s =
     (if k < length (inflight s) then
        let (i, call, userData) = inflight s ! k;
            s1 = s\<lparr>inflight := take k (inflight s) @ drop (Suc k) (inflight s)\<rparr>
        in andThen (sendResult enc (Some i) userData r) (\<lambda>_. poll enc rs) s1
      else poll enc rs s)"

section \<open>The library's life-cycle calls\<close>

text \<open>
  \<open>startVerifProxy\<close>: the context is allocated, \<open>run\<close> is waited for (the event loop turns
  meanwhile), and a failure frees the context again. Whether \<open>run\<close> succeeds is the
  environment's choice \<open>run_ok\<close>.
\<close>

definition startVerifProxy ::
    "(string \<Rightarrow> string) \<Rightarrow> proxy_context \<Rightarrow> bool \<Rightarrow> (nat \<times> fut_result) list \<Rightarrow> ('c, ptr) ctx_proc" where
  "startVerifProxy enc conf run_ok turns s =
     (let i = next_addr s;
          c = conf\<lparr>ctx_stop := False, pendingCalls := 0\<rparr>;
          s1 = set_context i c (s\<lparr>next_addr := Suc i\<rparr>)
      in andThen (poll enc turns)
           (\<lambda>_ s2. if run_ok then (Done (Some i), s2)
                   else (Done None, s2\<lparr>contexts := (contexts s2)(i := None)\<rparr>)) s1)"

definition stopVerifProxy :: "ptr \<Rightarrow> ('c, unit) ctx_proc" where
  "stopVerifProxy p = deref p (\<lambda>i c s. (Done (), set_context i (c\<lparr>ctx_stop := True\<rparr>) s))"

definition freeContext :: "ptr \<Rightarrow> ('c, unit) ctx_proc" where
  "freeContext p = deref p (\<lambda>i c s. (Done (), s\<lparr>contexts := (contexts s)(i := None)\<rparr>))"

definition processVerifProxyTasks ::
    "(string \<Rightarrow> string) \<Rightarrow> ptr \<Rightarrow> (nat \<times> fut_result) list \<Rightarrow> ('c, int) ctx_proc" where
  "processVerifProxyTasks enc p turns =
     deref p (\<lambda>i c s.
       if ctx_stop c then (Done RET_CANCELLED, s)
       else andThen (if pendingCalls c > 0 then poll enc turns else ret ())
              (\<lambda>_. ret RET_SUCCESS) s)"

text \<open>
  What an exported API procedure does with its context: answer at once, start a frontend call,
  or look at the context first. The procedures themselves are in the theory of the C frontend.
\<close>

datatype 'c api_action =
  Reply int string | Start 'c | Inspect "proxy_context \<Rightarrow> 'c api_action"

primrec perform ::
    "(string \<Rightarrow> string) \<Rightarrow> ptr \<Rightarrow> nat \<Rightarrow> fut_result option \<Rightarrow> 'c api_action \<Rightarrow> ('c, unit) ctx_proc" where
  "perform enc p userData finished (Reply status response) =
     (\<lambda>s. (Done (), call_back p status response userData s))"
| "perform enc p userData finished (Start call) = callbackToC enc p userData call finished"
| "perform enc p userData finished (Inspect f) =
     deref p (\<lambda>i c. perform enc p userData finished (f c))"

section \<open>The wasm shim\<close>

definition wasmStart ::
    "(string \<Rightarrow> string) \<Rightarrow> proxy_context \<Rightarrow> bool \<Rightarrow> (nat \<times> fut_result) list \<Rightarrow> ('c, int) ctx_proc" where
  "wasmStart enc conf run_ok turns =
     andThen (startVerifProxy enc conf run_ok turns)
       (\<lambda>p s. let s1 = s\<lparr>g_ctx := p\<rparr> in if p = None then (Done (-1), s1) else (Done 0, s1))"

definition wasmStop :: "('c, unit) ctx_proc" where
  "wasmStop s =
     (if g_ctx s \<noteq> None then
        andThen (stopVerifProxy (g_ctx s))
          (\<lambda>_. andThen (freeContext (g_ctx s)) (\<lambda>_ s2. (Done (), s2\<lparr>g_ctx := None\<rparr>))) s
      else (Done (), s))"

text \<open>\<open>wasmCall\<close> and the sync entry points pass \<open>g_ctx\<close> on without a check.\<close>

definition wasmCall ::
    "(string \<Rightarrow> string) \<Rightarrow> nat \<Rightarrow> fut_result option \<Rightarrow> 'c api_action \<Rightarrow> ('c, unit) ctx_proc" where
  "wasmCall enc userData finished action s = perform enc (g_ctx s) userData finished action s"

definition wasmProcessTasks ::
    "(string \<Rightarrow> string) \<Rightarrow> (nat \<times> fut_result) list \<Rightarrow> ('c, int) ctx_proc" where
  "wasmProcessTasks enc turns s =
     (if g_ctx s = None then (Done RET_CANCELLED, s)
      else processVerifProxyTasks enc (g_ctx s) turns s)"

text \<open>What an embedder does through the shim, one entry point at a time.\<close>

datatype 'c wasm_op =
  WasmStart proxy_context bool "(nat \<times> fut_result) list"
| WasmStop
| WasmCall nat "fut_result option" "'c api_action"
| WasmProcess "(nat \<times> fut_result) list"

fun wasm_do :: "(string \<Rightarrow> string) \<Rightarrow> 'c wasm_op \<Rightarrow> ('c, unit) ctx_proc" where
  "wasm_do enc (WasmStart conf run_ok turns) =
     andThen (wasmStart enc conf run_ok turns) (\<lambda>_. ret ())"
| "wasm_do enc WasmStop = wasmStop"
| "wasm_do enc (WasmCall userData finished action) = wasmCall enc userData finished action"
| "wasm_do enc (WasmProcess turns) = andThen (wasmProcessTasks enc turns) (\<lambda>_. ret ())"

fun wasm_run :: "(string \<Rightarrow> string) \<Rightarrow> 'c wasm_op list \<Rightarrow> ('c, unit) ctx_proc" where
  "wasm_run enc [] = ret ()"
| "wasm_run enc (op # ops) = andThen (wasm_do enc op) (\<lambda>_. wasm_run enc ops)"

section \<open>The accounting invariant\<close>

text \<open>
  Every call in flight belongs to a live context, every live context counts exactly its calls
  in flight, \<open>g_ctx\<close> is null or live, and addresses above \<open>next_addr\<close> are unused.
\<close>

definition owed_by :: "nat \<Rightarrow> (nat \<times> 'c \<times> nat) list \<Rightarrow> int" where
  "owed_by i calls = int (length (filter (\<lambda>c. fst c = i) calls))"

definition consistent :: "'c process \<Rightarrow> bool" where
  "consistent s \<longleftrightarrow>
     (\<forall>c \<in> set (inflight s). contexts s (fst c) \<noteq> None) \<and>
     (\<forall>i c. contexts s i = Some c \<longrightarrow> pendingCalls c = owed_by i (inflight s)) \<and>
     (\<forall>i. g_ctx s = Some i \<longrightarrow> contexts s i \<noteq> None) \<and>
     (\<forall>i \<ge> next_addr s. contexts s i = None)"

text \<open>User data whose callback has been made, and whose callback is still owed.\<close>

definition answered :: "'c process \<Rightarrow> nat multiset" where
  "answered s = mset (map (\<lambda>(_, _, _, u). u) (callbacks s))"

definition owed :: "'c process \<Rightarrow> nat multiset" where
  "owed s = mset (map (\<lambda>(_, _, u). u) (inflight s))"

text \<open>What only the event loop and the debts of contexts may change.\<close>

lemma owed_by_Nil [simp]: "owed_by i [] = 0"
  by (simp add: owed_by_def)

lemma owed_by_append [simp]: "owed_by i (xs @ ys) = owed_by i xs + owed_by i ys"
  by (simp add: owed_by_def)

lemma owed_by_Cons [simp]: "owed_by i (c # cs) = (if fst c = i then 1 else 0) + owed_by i cs"
  by (simp add: owed_by_def)

lemma owed_by_0: "(\<forall>c \<in> set cs. fst c \<noteq> i) \<Longrightarrow> owed_by i cs = 0"
  by (simp add: owed_by_def)

text \<open>Taking the \<open>k\<close>-th call out of the list.\<close>

lemma split_at:
  assumes "k < length xs"
  shows "xs = take k xs @ xs ! k # drop (Suc k) xs"
  using assms by (rule id_take_nth_drop)

lemma owed_by_remove:
  assumes "k < length xs"
  shows "owed_by i xs =
    (if fst (xs ! k) = i then 1 else 0) + owed_by i (take k xs @ drop (Suc k) xs)"
  by (subst split_at [OF assms]) simp

lemma mset_remove:
  assumes "k < length xs"
  shows "mset (map f xs) = add_mset (f (xs ! k)) (mset (map f (take k xs @ drop (Suc k) xs)))"
  by (subst split_at [OF assms]) simp

text \<open>Sending the result of one call the event loop held.\<close>

lemma sendResult_removed:
  assumes "consistent s" and "k < length (inflight s)" and "inflight s ! k = (i, call, u)"
  shows "\<exists>s'. sendResult enc (Some i) u r
      (s\<lparr>inflight := take k (inflight s) @ drop (Suc k) (inflight s)\<rparr>) = (Done (), s') \<and>
    consistent s' \<and> answered s' + owed s' = answered s + owed s \<and> g_ctx s' = g_ctx s \<and>
    next_addr s' = next_addr s \<and> dom (contexts s') = dom (contexts s) \<and>
    set (inflight s') \<subseteq> set (inflight s)"
proof -
  let ?rest = "take k (inflight s) @ drop (Suc k) (inflight s)"
  have "(i, call, u) \<in> set (inflight s)" using assms(2,3) by (metis nth_mem)
  with assms(1) obtain c where c: "contexts s i = Some c" by (force simp: consistent_def)
  have sub: "set ?rest \<subseteq> set (inflight s)"
    by (auto dest: in_set_takeD in_set_dropD)
  obtain status response where resp: "response_of enc r = (status, response)"
    by (cases "response_of enc r")
  let ?s' = "call_back (Some i) status response u
    (set_context i (c\<lparr>pendingCalls := pendingCalls c - 1\<rparr>) (s\<lparr>inflight := ?rest\<rparr>))"
  have "sendResult enc (Some i) u r (s\<lparr>inflight := ?rest\<rparr>) = (Done (), ?s')"
    by (simp add: sendResult_def deref_def c resp)
  moreover have "consistent ?s'"
    using assms(1) c sub owed_by_remove [OF assms(2)] assms(3)
    by (auto simp: consistent_def call_back_def set_context_def simp del: owed_by_append)
  moreover have "answered ?s' + owed ?s' = answered s + owed s"
    using mset_remove [OF assms(2), of "\<lambda>(_, _, u). u"] assms(3)
    by (simp add: answered_def owed_def call_back_def set_context_def del: map_append)
  moreover have "g_ctx ?s' = g_ctx s \<and> next_addr ?s' = next_addr s \<and>
      dom (contexts ?s') = dom (contexts s) \<and> set (inflight ?s') \<subseteq> set (inflight s)"
    using c sub by (auto simp: call_back_def set_context_def)
  ultimately show ?thesis by blast
qed

lemma poll_consistent:
  assumes "consistent s"
  shows "\<exists>s'. poll enc turns s = (Done (), s') \<and> consistent s' \<and>
    answered s' + owed s' = answered s + owed s \<and> g_ctx s' = g_ctx s \<and>
    next_addr s' = next_addr s \<and> dom (contexts s') = dom (contexts s) \<and>
    set (inflight s') \<subseteq> set (inflight s)"
  using assms
proof (induction turns arbitrary: s)
  case Nil
  then show ?case by simp
next
  case (Cons turn turns)
  obtain k r where turn: "turn = (k, r)" by (cases turn)
  show ?case
  proof (cases "k < length (inflight s)")
    case True
    obtain i call u where call: "inflight s ! k = (i, call, u)" by (cases "inflight s ! k")
    obtain s1 where s1: "sendResult enc (Some i) u r
        (s\<lparr>inflight := take k (inflight s) @ drop (Suc k) (inflight s)\<rparr>) = (Done (), s1)"
      and keeps: "consistent s1" "answered s1 + owed s1 = answered s + owed s" "g_ctx s1 = g_ctx s"
        "next_addr s1 = next_addr s" "dom (contexts s1) = dom (contexts s)"
        "set (inflight s1) \<subseteq> set (inflight s)"
      using sendResult_removed [OF Cons.prems True call, of enc r] by blast
    have "poll enc (turn # turns) s = poll enc turns s1"
      using True call s1 by (simp add: turn andThen_def)
    with Cons.IH [OF keeps(1)] keeps show ?thesis by fastforce
  next
    case False
    with Cons.IH [OF Cons.prems] show ?thesis by (simp add: turn)
  qed
qed

text \<open>A call on a live context is answered or owed, once.\<close>

lemma call_back_consistent: "consistent s \<Longrightarrow> consistent (call_back p status response u s)"
  by (simp add: consistent_def call_back_def)

lemma answered_call_back [simp]:
  "answered (call_back p status response u s) = add_mset u (answered s)"
  by (simp add: answered_def call_back_def)

lemma owed_call_back [simp]: "owed (call_back p status response u s) = owed s"
  by (simp add: owed_def call_back_def)

lemma callbackToC_consistent:
  assumes "consistent s" and "contexts s i = Some c"
  shows "\<exists>s'. callbackToC enc (Some i) u call finished s = (Done (), s') \<and> consistent s' \<and>
    answered s' + owed s' = add_mset u (answered s + owed s)"
proof (cases finished)
  case None
  let ?s' = "(set_context i (c\<lparr>pendingCalls := pendingCalls c + 1\<rparr>) s)
    \<lparr>inflight := inflight s @ [(i, call, u)]\<rparr>"
  have "callbackToC enc (Some i) u call finished s = (Done (), ?s')"
    using assms(2) None by (simp add: callbackToC_def deref_def set_context_def)
  moreover have "consistent ?s'"
    using assms by (auto simp: consistent_def set_context_def)
  moreover have "answered ?s' + owed ?s' = add_mset u (answered s + owed s)"
    by (simp add: answered_def owed_def set_context_def)
  ultimately show ?thesis by blast
next
  case (Some r)
  obtain status response where resp: "response_of enc r = (status, response)"
    by (cases "response_of enc r")
  let ?s' = "call_back (Some i) status response u (set_context i c s)"
  have "callbackToC enc (Some i) u call finished s = (Done (), ?s')"
    using assms(2) Some resp
    by (simp add: callbackToC_def sendResult_def deref_def set_context_def)
  moreover have "set_context i c s = s" using assms(2) by (simp add: set_context_def fun_upd_idem)
  ultimately show ?thesis
    using call_back_consistent [OF assms(1)] by simp
qed

lemma perform_consistent:
  assumes "consistent s" and "contexts s i = Some c"
  shows "\<exists>s'. perform enc (Some i) u finished action s = (Done (), s') \<and> consistent s' \<and>
    answered s' + owed s' = add_mset u (answered s + owed s)"
  using assms
proof (induction action)
  case (Reply status response)
  then show ?case by (simp add: call_back_consistent)
next
  case (Start call)
  then show ?case using callbackToC_consistent by simp
next
  case (Inspect f)
  then show ?case by (simp add: deref_def)
qed

section \<open>The life-cycle calls keep the accounts\<close>

lemma startVerifProxy_consistent:
  assumes "consistent s"
  shows "\<exists>p s'. startVerifProxy enc conf run_ok turns s = (Done p, s') \<and> consistent s' \<and>
    answered s' + owed s' = answered s + owed s \<and> g_ctx s' = g_ctx s \<and>
    p = (if run_ok then Some (next_addr s) else None) \<and>
    (\<forall>i. p = Some i \<longrightarrow> contexts s' i \<noteq> None)"
proof -
  let ?i = "next_addr s"
  let ?s1 = "set_context ?i (conf\<lparr>ctx_stop := False, pendingCalls := 0\<rparr>) (s\<lparr>next_addr := Suc ?i\<rparr>)"
  have fresh: "\<forall>c \<in> set (inflight s). fst c \<noteq> ?i" "g_ctx s \<noteq> Some ?i"
    using assms by (auto simp: consistent_def)
  then have "consistent ?s1"
    using assms by (auto simp: consistent_def set_context_def owed_by_0)
  from poll_consistent [OF this, of enc turns] obtain s2 where s2:
    "poll enc turns ?s1 = (Done (), s2)" "consistent s2"
    "answered s2 + owed s2 = answered s + owed s" "g_ctx s2 = g_ctx s"
    "next_addr s2 = Suc ?i" "dom (contexts s2) = insert ?i (dom (contexts s))"
    "set (inflight s2) \<subseteq> set (inflight s)"
    by (auto simp: set_context_def answered_def owed_def)
  let ?s' = "if run_ok then s2 else s2\<lparr>contexts := (contexts s2)(?i := None)\<rparr>"
  have "startVerifProxy enc conf run_ok turns s = (Done (if run_ok then Some ?i else None), ?s')"
    using s2(1) by (simp add: startVerifProxy_def andThen_def Let_def)
  moreover have "consistent ?s'"
    using s2 fresh by (auto simp: consistent_def dom_def set_eq_iff)
  moreover have "answered ?s' + owed ?s' = answered s + owed s"
    using s2(3) by (simp add: answered_def owed_def)
  moreover have "contexts s2 ?i \<noteq> None" using s2(6) by auto
  ultimately show ?thesis
    using s2(4) by (intro exI [of _ "if run_ok then Some ?i else None"] exI [of _ ?s'] conjI) auto
qed

lemma freeContext_consistent:
  assumes "consistent s" and "contexts s i \<noteq> None" and "owed_by i (inflight s) = 0" and "g_ctx s \<noteq> Some i"
  shows "\<exists>s'. freeContext (Some i) s = (Done (), s') \<and> consistent s' \<and>
    answered s' + owed s' = answered s + owed s \<and> g_ctx s' = g_ctx s"
proof -
  have "\<forall>c \<in> set (inflight s). fst c \<noteq> i"
    using assms(3) by (auto simp: owed_by_def filter_empty_conv)
  with assms have "consistent (s\<lparr>contexts := (contexts s)(i := None)\<rparr>)" by (auto simp: consistent_def)
  with assms(2) show ?thesis by (auto simp: freeContext_def deref_def answered_def owed_def)
qed

lemma stopVerifProxy_consistent:
  assumes "consistent s" and "contexts s i \<noteq> None"
  shows "\<exists>s'. stopVerifProxy (Some i) s = (Done (), s') \<and> consistent s' \<and>
    answered s' + owed s' = answered s + owed s \<and> g_ctx s' = g_ctx s"
  using assms by (auto simp: stopVerifProxy_def deref_def answered_def owed_def consistent_def set_context_def)

lemma processVerifProxyTasks_consistent:
  assumes "consistent s" and "contexts s i \<noteq> None"
  shows "\<exists>r s'. processVerifProxyTasks enc (Some i) turns s = (Done r, s') \<and> consistent s' \<and>
    answered s' + owed s' = answered s + owed s \<and> g_ctx s' = g_ctx s"
  using assms poll_consistent [OF assms(1), of enc turns]
  by (auto simp: processVerifProxyTasks_def deref_def andThen_def ret_def)

section \<open>Orderly use of the shim\<close>

text \<open>
  What an embedder has to respect: it calls only after a successful start, and stops only when
  no call of the running context is still owed its callback.
\<close>

fun allowed :: "'c wasm_op \<Rightarrow> 'c process \<Rightarrow> bool" where
  "allowed (WasmStart conf run_ok turns) s = True"
| "allowed WasmStop s = (case g_ctx s of None \<Rightarrow> True | Some i \<Rightarrow> owed_by i (inflight s) = 0)"
| "allowed (WasmCall u finished action) s = (g_ctx s \<noteq> None)"
| "allowed (WasmProcess turns) s = True"

fun issued :: "'c wasm_op \<Rightarrow> nat multiset" where
  "issued (WasmCall u finished action) = {#u#}"
| "issued _ = {#}"

lemma wasmStart_consistent:
  assumes "consistent s"
  shows "\<exists>s'. wasm_do enc (WasmStart conf run_ok turns) s = (Done (), s') \<and> consistent s' \<and>
    answered s' + owed s' = answered s + owed s"
proof -
  obtain p s1 where s1: "startVerifProxy enc conf run_ok turns s = (Done p, s1)" "consistent s1"
    "answered s1 + owed s1 = answered s + owed s" "\<forall>i. p = Some i \<longrightarrow> contexts s1 i \<noteq> None"
    using startVerifProxy_consistent [OF assms] by blast
  have "wasm_do enc (WasmStart conf run_ok turns) s = (Done (), s1\<lparr>g_ctx := p\<rparr>)"
    using s1(1) by (simp add: wasmStart_def andThen_def ret_def Let_def)
  moreover have "consistent (s1\<lparr>g_ctx := p\<rparr>)" using s1(2,4) by (auto simp: consistent_def)
  ultimately show ?thesis using s1(3) by (simp add: answered_def owed_def)
qed

lemma wasmStop_consistent:
  assumes "consistent s" and "allowed WasmStop s"
  shows "\<exists>s'. wasm_do enc WasmStop s = (Done (), s') \<and> consistent s' \<and>
    answered s' + owed s' = answered s + owed s"
proof (cases "g_ctx s")
  case None
  with assms show ?thesis by (simp add: wasmStop_def)
next
  case (Some i)
  with assms(1) obtain c where c: "contexts s i = Some c" by (force simp: consistent_def)
  let ?s' = "s\<lparr>contexts := (contexts s)(i := None), g_ctx := None\<rparr>"
  have none: "\<forall>c \<in> set (inflight s). fst c \<noteq> i"
    using assms(2) Some by (auto simp: owed_by_def filter_empty_conv)
  have "wasm_do enc WasmStop s = (Done (), ?s')"
    using Some c
    by (simp add: wasmStop_def stopVerifProxy_def freeContext_def deref_def andThen_def set_context_def)
  moreover have "consistent ?s'"
    using assms(1) none by (auto simp: consistent_def)
  ultimately show ?thesis by (auto simp: answered_def owed_def)
qed

lemma wasmProcess_consistent:
  assumes "consistent s"
  shows "\<exists>s'. wasm_do enc (WasmProcess turns) s = (Done (), s') \<and> consistent s' \<and>
    answered s' + owed s' = answered s + owed s"
proof (cases "g_ctx s")
  case None
  with assms show ?thesis by (simp add: wasmProcessTasks_def andThen_def ret_def)
next
  case (Some i)
  with assms have "contexts s i \<noteq> None" by (simp add: consistent_def)
  from processVerifProxyTasks_consistent [OF assms this, of enc turns] Some show ?thesis
    by (auto simp: wasmProcessTasks_def andThen_def ret_def)
qed

lemma wasm_do_consistent:
  assumes "consistent s" and "allowed op s"
  shows "\<exists>s'. wasm_do enc op s = (Done (), s') \<and> consistent s' \<and>
    answered s' + owed s' = answered s + owed s + issued op"
proof (cases op)
  case (WasmStart conf run_ok turns)
  then show ?thesis using wasmStart_consistent [OF assms(1)] by (simp del: wasm_do.simps)
next
  case WasmStop
  then show ?thesis using wasmStop_consistent assms by (simp del: wasm_do.simps allowed.simps)
next
  case (WasmCall u finished action)
  with assms(2) obtain i where i: "g_ctx s = Some i" by auto
  with assms(1) obtain c where "contexts s i = Some c" by (force simp: consistent_def)
  with perform_consistent [OF assms(1)] i WasmCall show ?thesis by (simp add: wasmCall_def)
next
  case (WasmProcess turns)
  then show ?thesis using wasmProcess_consistent [OF assms(1)] by (simp del: wasm_do.simps)
qed

fun orderly :: "(string \<Rightarrow> string) \<Rightarrow> 'c wasm_op list \<Rightarrow> 'c process \<Rightarrow> bool" where
  "orderly enc [] s = True"
| "orderly enc (op # ops) s = (allowed op s \<and> orderly enc ops (snd (wasm_do enc op s)))"

lemma wasm_run_consistent:
  assumes "consistent s" and "orderly enc ops s"
  shows "\<exists>s'. wasm_run enc ops s = (Done (), s') \<and> consistent s' \<and>
    answered s' + owed s' = answered s + owed s + sum_list (map issued ops)"
  using assms
proof (induction ops arbitrary: s)
  case Nil
  then show ?case by (simp add: ret_def)
next
  case (Cons op ops)
  then obtain s1 where s1: "wasm_do enc op s = (Done (), s1)" "consistent s1"
    "answered s1 + owed s1 = answered s + owed s + issued op"
    using wasm_do_consistent [of s op enc] by auto
  moreover from Cons.prems s1 have "orderly enc ops s1" by simp
  ultimately show ?case
    using Cons.IH [OF s1(2)] by (auto simp: andThen_def ac_simps)
qed

lemma process_start_consistent: "consistent process_start"
  by (simp add: consistent_def process_start_def)

section \<open>Properties\<close>

text \<open>
  C28: as long as the embedder is orderly, no entry point of the shim touches a freed or null
  context, whatever the network answers and when, and every call gets its callback exactly
  once: the calls made are those answered and those still owed, with multiplicity, and each
  live context's counter is the number of callbacks it owes.
\<close>

theorem wasm_orderly_safe:
  assumes "orderly enc ops process_start"
  shows "\<exists>s. wasm_run enc ops process_start = (Done (), s) \<and> consistent s \<and>
    answered s + owed s = sum_list (map issued ops)"
  using wasm_run_consistent [OF process_start_consistent assms]
  by (simp add: process_start_def answered_def owed_def)

theorem wasm_orderly_safe_witness:
  "\<exists>s. wasm_run id
     [WasmStart \<lparr>ctx_stop = True, pendingCalls = 3, ctx_op = False, ctx_interval = 12000\<rparr> True [],
      WasmCall 7 None (Start ()), WasmCall 8 (Some Fut_void) (Start ()),
      WasmProcess [(0, Fut_value ''0x1'')], WasmStop] process_start = (Done (), s) \<and>
   consistent s \<and> answered s + owed s = {#7, 8#}"
proof -
  let ?ops = "[WasmStart \<lparr>ctx_stop = True, pendingCalls = 3, ctx_op = False, ctx_interval = 12000\<rparr> True [],
      WasmCall 7 None (Start ()), WasmCall 8 (Some Fut_void) (Start ()),
      WasmProcess [(0, Fut_value ''0x1'')], WasmStop]"
  have "orderly id ?ops process_start"
    by (simp add: wasmStart_def startVerifProxy_def wasmCall_def callbackToC_def sendResult_def
        wasmProcessTasks_def processVerifProxyTasks_def deref_def andThen_def ret_def
        set_context_def call_back_def response_of_def process_start_def)
  moreover have "sum_list (map issued ?ops) = {#7, 8#}" by (simp add: add_mset_commute)
  ultimately show ?thesis using wasm_orderly_safe [of id ?ops] by metis
qed

text \<open>
  The shim gives an embedder no way to be orderly about \<open>wasmStop\<close>: it frees the context
  while a call is in flight, and when a later session's event loop completes that call, its
  completion writes through the dangling context. Two calls and a restart are enough.
\<close>

theorem wasm_stop_leaves_dangling_call:
  "fst (wasm_run enc
     [WasmStart conf True [], WasmCall u None (Start call), WasmStop,
      WasmStart conf True [], WasmCall v None (Start call), WasmProcess [(0, r)]]
     process_start) = Defect"
  by (simp add: wasmStart_def startVerifProxy_def wasmStop_def stopVerifProxy_def freeContext_def
      wasmCall_def callbackToC_def sendResult_def wasmProcessTasks_def processVerifProxyTasks_def
      deref_def andThen_def ret_def set_context_def call_back_def process_start_def split: prod.splits)

text \<open>
  Without a running context \<open>wasmProcessTasks\<close> reports \<open>RET_CANCELLED\<close> and \<open>wasmStop\<close> does
  nothing, but \<open>wasmCall\<close> and the sync entry points hand the null context on: any call that
  reaches the engine crashes instead of reporting an error.
\<close>

theorem wasm_without_context:
  "wasmProcessTasks enc turns process_start = (Done RET_CANCELLED, process_start) \<and>
   wasmStop process_start = (Done (), process_start) \<and>
   fst (wasmCall enc u finished (Start call) process_start) = Defect \<and>
   fst (wasmCall enc u finished (Inspect f) process_start) = Defect"
  by (simp add: wasmProcessTasks_def wasmStop_def wasmCall_def callbackToC_def deref_def
      process_start_def)

end
