(* ===== verification/Engine_Types.thy ===== *)
theory Engine_Types
  imports Prelude
begin

text \<open>
  The verification engine's errors and its pool of backends (\<open>engine/types.nim\<close>): the scores
  that exclude a misbehaving backend and let it recover, the selection of a backend for a
  capability, and \<open>applyPenalty\<close> of \<open>engine/engine.nim\<close>.
\<close>

section \<open>Errors\<close>

datatype engine_error =
    BackendEncodingError | BackendFetchError | BackendDecodingError | BackendError
  | FrontendError | UnavailableDataError | InvalidDataError | VerificationError

record error_tuple =
  errType :: engine_error
  errMsg :: string
  backendIdx :: int

definition UNTAGGED :: int where "UNTAGGED = -1"

definition engine_err :: "engine_error \<Rightarrow> string \<Rightarrow> error_tuple" where
  "engine_err e msg = \<lparr>errType = e, errMsg = msg, backendIdx = UNTAGGED\<rparr>"

text \<open>\<open>tagBackend\<close> attributes an error to the backend that was asked, unless it already is.\<close>

definition tag_error :: "nat \<Rightarrow> error_tuple \<Rightarrow> error_tuple" where
  "tag_error idx e = (if backendIdx e < 0 then e\<lparr>backendIdx := int idx\<rparr> else e)"

definition tagBackend :: "nat \<Rightarrow> error_tuple + 'a \<Rightarrow> error_tuple + 'a" where
  "tagBackend idx r = (case r of Inl e \<Rightarrow> Inl (tag_error idx e) | Inr x \<Rightarrow> Inr x)"

section \<open>Block tags\<close>

text \<open>
  A number, an alias such as \<open>latest\<close>, or a hash with its \<open>requireCanonical\<close> flag.
\<close>

datatype block_tag = BidNumber u64 | BidAlias string | BidHash hash32 bool

section \<open>Scores\<close>

datatype score_direction = Penalty | UndoReward | DefaultReward

fun score_ord :: "score_direction \<Rightarrow> int" where
  "score_ord Penalty = -2"
| "score_ord UndoReward = -1"
| "score_ord DefaultReward = 1"

record backend_score =
  availability :: int
  quality :: int

definition eligible :: "backend_score \<Rightarrow> bool" where
  "eligible s \<longleftrightarrow> availability s \<ge> 0 \<and> quality s \<ge> 0"

definition defaultAvailabilityScoreFunc :: "int \<Rightarrow> score_direction \<Rightarrow> int" where
  "defaultAvailabilityScoreFunc prevScore direction =
     (let newScore = prevScore + score_ord direction
      in if newScore < 0 then -5 else min 5 newScore)"

definition defaultQualityScoreFunc :: "int \<Rightarrow> score_direction \<Rightarrow> int" where
  "defaultQualityScoreFunc prevScore direction =
     (let newScore = prevScore + score_ord direction
      in if newScore < 0 then -10 else min 1 newScore)"

text \<open>One step of the decay by which \<open>selectBackend\<close> lets excluded backends recover.\<close>

definition decay_score :: "int \<Rightarrow> int" where
  "decay_score s = (if s < 0 then s + 1 else s)"

definition decay :: "backend_score \<Rightarrow> backend_score" where
  "decay s = s\<lparr>availability := decay_score (availability s), quality := decay_score (quality s)\<rparr>"

text \<open>
  What the pool relies on from a score function: it stays between an exclusion level below zero
  and a cap, a negative score is the exclusion level, and a reward does not exclude.
\<close>

locale score_policy =
  fixes f :: "int \<Rightarrow> score_direction \<Rightarrow> int"
    and excluded top :: int
  assumes range: "excluded < 0" "0 \<le> top"
    and bounded: "f p d = excluded \<or> 0 \<le> f p d \<and> f p d \<le> top"
    and reward: "0 \<le> p \<Longrightarrow> 0 \<le> f p DefaultReward"
    and verification_penalty: "p \<le> 1 \<Longrightarrow> f p Penalty = excluded"
begin

lemma within: "excluded \<le> f p d \<and> f p d \<le> top"
  using bounded [of p d] range by auto

lemma decay_within: "excluded \<le> p \<Longrightarrow> p \<le> top \<Longrightarrow> excluded \<le> decay_score p \<and> decay_score p \<le> top"
  using range by (auto simp: decay_score_def)

text \<open>After as many decays as the exclusion is deep, the score is not negative.\<close>

lemma decay_recovers:
  assumes "excluded \<le> p" and "- excluded \<le> int n"
  shows "0 \<le> (decay_score ^^ n) p"
proof -
  have "min 0 (p + int n) \<le> (decay_score ^^ n) p" for n
    by (induction n) (auto simp: decay_score_def)
  from this [of n] assms show ?thesis by linarith
qed

end

interpretation availability_policy: score_policy defaultAvailabilityScoreFunc "-5" 5
proof
  show "defaultAvailabilityScoreFunc p d = -5 \<or>
      0 \<le> defaultAvailabilityScoreFunc p d \<and> defaultAvailabilityScoreFunc p d \<le> 5" for p d
    by (auto simp: defaultAvailabilityScoreFunc_def Let_def)
qed (auto simp: defaultAvailabilityScoreFunc_def Let_def)

interpretation quality_policy: score_policy defaultQualityScoreFunc "-10" 1
proof
  show "defaultQualityScoreFunc p d = -10 \<or>
      0 \<le> defaultQualityScoreFunc p d \<and> defaultQualityScoreFunc p d \<le> 1" for p d
    by (auto simp: defaultQualityScoreFunc_def Let_def)
qed (auto simp: defaultQualityScoreFunc_def Let_def)

section \<open>The pool\<close>

datatype capability =
    ChainId | GetBlockByHash | GetBlockByNumber | GetProof | CreateAccessList | GetCode
  | GetBlockReceipts | GetTransactionReceipt | GetTransactionByHash | GetLogs | FeeHistory
  | SendRawTransaction | BeaconBootstrap | BeaconUpdates | BeaconFinality | BeaconOptimistic

text \<open>\<open>$\<close> of an enum value is its name.\<close>

fun capability_name :: "capability \<Rightarrow> string" where
  "capability_name ChainId = ''ChainId''"
| "capability_name GetBlockByHash = ''GetBlockByHash''"
| "capability_name GetBlockByNumber = ''GetBlockByNumber''"
| "capability_name GetProof = ''GetProof''"
| "capability_name CreateAccessList = ''CreateAccessList''"
| "capability_name GetCode = ''GetCode''"
| "capability_name GetBlockReceipts = ''GetBlockReceipts''"
| "capability_name GetTransactionReceipt = ''GetTransactionReceipt''"
| "capability_name GetTransactionByHash = ''GetTransactionByHash''"
| "capability_name GetLogs = ''GetLogs''"
| "capability_name FeeHistory = ''FeeHistory''"
| "capability_name SendRawTransaction = ''SendRawTransaction''"
| "capability_name BeaconBootstrap = ''BeaconBootstrap''"
| "capability_name BeaconUpdates = ''BeaconUpdates''"
| "capability_name BeaconFinality = ''BeaconFinality''"
| "capability_name BeaconOptimistic = ''BeaconOptimistic''"

definition fullBeaconCapabilities :: "capability set" where
  "fullBeaconCapabilities = {BeaconBootstrap, BeaconUpdates, BeaconFinality, BeaconOptimistic}"

definition fullExecutionCapabilities :: "capability set" where
  "fullExecutionCapabilities =
     {ChainId, GetBlockByHash, GetBlockByNumber, GetProof, CreateAccessList, GetCode,
      GetBlockReceipts, GetTransactionReceipt, GetTransactionByHash, GetLogs, FeeHistory,
      SendRawTransaction}"

text \<open>The fields of \<open>RpcVerificationEngine\<close> that hold the backends and their scores.\<close>

record ('x, 'b) pool =
  numBackends :: nat
  executionBackends :: "nat \<rightharpoonup> 'x"
  beaconBackends :: "nat \<rightharpoonup> 'b"
  scores :: "nat \<rightharpoonup> backend_score"
  capabilityIndex :: "capability \<Rightarrow> nat list"
  availabilityScoreFunc :: "int \<Rightarrow> score_direction \<Rightarrow> int"
  qualityScoreFunc :: "int \<Rightarrow> score_direction \<Rightarrow> int"

definition pool_init :: "('x, 'b) pool" where
  "pool_init =
     \<lparr>numBackends = 0, executionBackends = Map.empty, beaconBackends = Map.empty,
      scores = Map.empty, capabilityIndex = (\<lambda>_. []),
      availabilityScoreFunc = defaultAvailabilityScoreFunc,
      qualityScoreFunc = defaultQualityScoreFunc\<rparr>"

definition indexed :: "capability set \<Rightarrow> nat \<Rightarrow> (capability \<Rightarrow> nat list) \<Rightarrow> capability \<Rightarrow> nat list" where
  "indexed caps idx index = (\<lambda>cap. if cap \<in> caps then index cap @ [idx] else index cap)"

definition registerExecutionBackend ::
    "'x \<Rightarrow> capability set \<Rightarrow> ('x, 'b, 'z) pool_scheme \<Rightarrow> ('x, 'b, 'z) pool_scheme" where
  "registerExecutionBackend backend caps e =
     (let idx = numBackends e in
      e\<lparr>numBackends := idx + 1,
        executionBackends := (executionBackends e)(idx \<mapsto> backend),
        scores := (scores e)(idx \<mapsto> \<lparr>availability = 0, quality = 0\<rparr>),
        capabilityIndex := indexed caps idx (capabilityIndex e)\<rparr>)"

definition registerBeaconBackend ::
    "'b \<Rightarrow> capability set \<Rightarrow> ('x, 'b, 'z) pool_scheme \<Rightarrow> ('x, 'b, 'z) pool_scheme" where
  "registerBeaconBackend backend caps e =
     (let idx = numBackends e in
      e\<lparr>numBackends := idx + 1,
        beaconBackends := (beaconBackends e)(idx \<mapsto> backend),
        scores := (scores e)(idx \<mapsto> \<lparr>availability = 0, quality = 0\<rparr>),
        capabilityIndex := indexed caps idx (capabilityIndex e)\<rparr>)"

section \<open>Selecting a backend\<close>

text \<open>The backends of a list that are eligible; one without a score ends the search in an error.\<close>

fun eligibleIdxs :: "(nat \<rightharpoonup> backend_score) \<Rightarrow> nat list \<Rightarrow> error_tuple + nat list" where
  "eligibleIdxs sc [] = Inr []"
| "eligibleIdxs sc (b # bs) =
     (case sc b of
        None \<Rightarrow> Inl (engine_err BackendError ''Backend registered for capability not found in scores'')
      | Some s \<Rightarrow>
          (case eligibleIdxs sc bs of
             Inl e \<Rightarrow> Inl e
           | Inr idxs \<Rightarrow> Inr (if eligible s then b # idxs else idxs)))"

definition no_eligible :: "capability \<Rightarrow> error_tuple" where
  "no_eligible cap =
     engine_err BackendError (''No eligible backend for capability: '' @ capability_name cap)"

definition rewarded :: "nat \<Rightarrow> ('x, 'b, 'z) pool_scheme \<Rightarrow> backend_score \<Rightarrow> ('x, 'b, 'z) pool_scheme" where
  "rewarded idx e s =
     e\<lparr>scores := (scores e)(idx \<mapsto>
        \<lparr>availability = availabilityScoreFunc e (availability s) DefaultReward,
         quality = qualityScoreFunc e (quality s) DefaultReward\<rparr>)\<rparr>"

text \<open>
  \<open>selectBackend\<close>: every negative score decays, then one of the eligible backends is drawn
  (\<open>draw\<close> is what the random generator returned) and rewarded in advance.
\<close>

definition selectBackend ::
    "nat \<Rightarrow> capability \<Rightarrow> (('x, 'b, 'z) pool_scheme, error_tuple, nat) proc" where
  "selectBackend draw cap e =
     (let e1 = e\<lparr>scores := map_option decay \<circ> scores e\<rparr> in
      case eligibleIdxs (scores e1) (capabilityIndex e1 cap) of
        Inl err \<Rightarrow> (Fail err, e1)
      | Inr idxs \<Rightarrow>
          if idxs = [] then (Fail (no_eligible cap), e1)
          else let chosen = idxs ! (draw mod length idxs) in
            case scores e1 chosen of
              None \<Rightarrow> (Fail (engine_err BackendError ''Scores not found for the chosen backend''), e1)
            | Some s \<Rightarrow> (Done chosen, rewarded chosen e1 s))"

definition executionBackendFor ::
    "nat \<Rightarrow> capability \<Rightarrow> (('x, 'b, 'z) pool_scheme, error_tuple, 'x \<times> nat) proc" where
  "executionBackendFor draw cap =
     andThen (selectBackend draw cap)
       (\<lambda>chosen e. case executionBackends e chosen of
          Some backend \<Rightarrow> (Done (backend, chosen), e)
        | None \<Rightarrow> (Fail (engine_err BackendError ''Chosen backend not found''), e))"

definition beaconBackendFor ::
    "nat \<Rightarrow> capability \<Rightarrow> (('x, 'b, 'z) pool_scheme, error_tuple, 'b \<times> nat) proc" where
  "beaconBackendFor draw cap =
     andThen (selectBackend draw cap)
       (\<lambda>chosen e. case beaconBackends e chosen of
          Some backend \<Rightarrow> (Done (backend, chosen), e)
        | None \<Rightarrow> (Fail (engine_err BackendError ''Chosen backend not found''), e))"

section \<open>Penalties\<close>

definition penalised ::
    "engine_error \<Rightarrow> ('x, 'b, 'z) pool_scheme \<Rightarrow> backend_score \<Rightarrow> backend_score" where
  "penalised t e s =
     (case t of
        BackendFetchError \<Rightarrow>
          s\<lparr>availability := availabilityScoreFunc e (availability s) Penalty,
            quality := qualityScoreFunc e (quality s) UndoReward\<rparr>
      | BackendDecodingError \<Rightarrow>
          s\<lparr>availability := availabilityScoreFunc e (availability s) Penalty,
            quality := qualityScoreFunc e (quality s) UndoReward\<rparr>
      | VerificationError \<Rightarrow> s\<lparr>quality := qualityScoreFunc e (quality s) Penalty\<rparr>
      | _ \<Rightarrow> s)"

definition applyPenalty :: "error_tuple \<Rightarrow> ('x, 'b, 'z) pool_scheme \<Rightarrow> ('x, 'b, 'z) pool_scheme" where
  "applyPenalty err e =
     (if backendIdx err < 0 then e
      else let idx = nat (backendIdx err) in
        case scores e idx of
          None \<Rightarrow> e
        | Some s \<Rightarrow> e\<lparr>scores := (scores e)(idx \<mapsto> penalised (errType err) e s)\<rparr>)"

section \<open>The invariant of the pool\<close>

definition score_ok :: "backend_score \<Rightarrow> bool" where
  "score_ok s \<longleftrightarrow> -5 \<le> availability s \<and> availability s \<le> 5 \<and> -10 \<le> quality s \<and> quality s \<le> 1"

definition pool_ok :: "('x, 'b, 'z) pool_scheme \<Rightarrow> bool" where
  "pool_ok e \<longleftrightarrow>
     dom (scores e) = {..<numBackends e} \<and> (\<forall>s \<in> ran (scores e). score_ok s) \<and>
     (\<forall>cap. \<forall>b \<in> set (capabilityIndex e cap). b < numBackends e \<and>
        (cap \<in> fullExecutionCapabilities \<longrightarrow> b \<in> dom (executionBackends e)) \<and>
        (cap \<in> fullBeaconCapabilities \<longrightarrow> b \<in> dom (beaconBackends e))) \<and>
     availabilityScoreFunc e = defaultAvailabilityScoreFunc \<and>
     qualityScoreFunc e = defaultQualityScoreFunc"

lemma pool_okD:
  assumes "pool_ok e"
  shows "dom (scores e) = {..<numBackends e}" "scores e b = Some s \<Longrightarrow> score_ok s"
    "b \<in> set (capabilityIndex e cap) \<Longrightarrow> b < numBackends e"
    "availabilityScoreFunc e = defaultAvailabilityScoreFunc"
    "qualityScoreFunc e = defaultQualityScoreFunc"
  using assms by (auto simp: pool_ok_def intro: ranI)

lemma pool_ok_scores:
  assumes "pool_ok e" and "dom sc = dom (scores e)" and "\<And>b s. sc b = Some s \<Longrightarrow> score_ok s"
  shows "pool_ok (e\<lparr>scores := sc\<rparr>)"
  using assms by (auto simp: pool_ok_def ran_def)

lemma score_ok_0: "score_ok \<lparr>availability = 0, quality = 0\<rparr>"
  by (simp add: score_ok_def)

lemma score_ok_decay: "score_ok s \<Longrightarrow> score_ok (decay s)"
  using availability_policy.decay_within quality_policy.decay_within
  by (simp add: score_ok_def decay_def)

lemma score_ok_default:
  "score_ok \<lparr>availability = defaultAvailabilityScoreFunc p d, quality = defaultQualityScoreFunc q d'\<rparr>"
  using availability_policy.within quality_policy.within by (simp add: score_ok_def)

lemma score_ok_penalised:
  assumes "pool_ok e" and "score_ok s"
  shows "score_ok (penalised t e s)"
  using assms availability_policy.within quality_policy.within
  by (cases t) (simp_all add: penalised_def score_ok_def pool_okD [OF assms(1)])

lemma pool_ok_init: "pool_ok pool_init"
  by (simp add: pool_ok_def pool_init_def)

lemma capability_kinds: "cap \<in> fullBeaconCapabilities \<Longrightarrow> cap \<notin> fullExecutionCapabilities"
  by (auto simp: fullBeaconCapabilities_def fullExecutionCapabilities_def)

lemma dom_scores_register:
  fixes n :: nat
  shows "dom sc = {..<n} \<Longrightarrow> dom (sc(n \<mapsto> s)) = {..<n + 1}"
  by auto

lemma pool_ok_registerExecution:
  assumes "pool_ok e" and "caps \<subseteq> fullExecutionCapabilities"
  shows "pool_ok (registerExecutionBackend backend caps e)"
proof -
  have "ran ((scores e)(numBackends e \<mapsto> \<lparr>availability = 0, quality = 0\<rparr>)) \<subseteq>
      insert \<lparr>availability = 0, quality = 0\<rparr> (ran (scores e))"
    by (auto simp: ran_def split: if_splits)
  with assms show ?thesis
    using score_ok_0 capability_kinds
    by (fastforce simp: pool_ok_def registerExecutionBackend_def indexed_def Let_def
        dom_scores_register split: if_splits)
qed

lemma pool_ok_registerBeacon:
  assumes "pool_ok e" and "caps \<subseteq> fullBeaconCapabilities"
  shows "pool_ok (registerBeaconBackend backend caps e)"
proof -
  have "ran ((scores e)(numBackends e \<mapsto> \<lparr>availability = 0, quality = 0\<rparr>)) \<subseteq>
      insert \<lparr>availability = 0, quality = 0\<rparr> (ran (scores e))"
    by (auto simp: ran_def split: if_splits)
  with assms show ?thesis
    using score_ok_0 capability_kinds
    by (fastforce simp: pool_ok_def registerBeaconBackend_def indexed_def Let_def
        dom_scores_register split: if_splits)
qed

lemma pool_ok_applyPenalty:
  assumes "pool_ok e"
  shows "pool_ok (applyPenalty err e)"
proof (cases "scores e (nat (backendIdx err))")
  case (Some s)
  show ?thesis
    unfolding applyPenalty_def Some Let_def
    using assms Some score_ok_penalised [OF assms] pool_okD(2) [OF assms]
    by (auto intro!: pool_ok_scores split: if_splits)
qed (use assms in \<open>simp add: applyPenalty_def\<close>)

section \<open>What selecting does\<close>

lemma eligibleIdxs_scored:
  assumes "set bs \<subseteq> dom sc"
  shows "eligibleIdxs sc bs = Inr (filter (\<lambda>b. eligible (the (sc b))) bs)"
  using assms by (induction bs) auto

lemma decayed [simp]:
  "numBackends (e\<lparr>scores := sc\<rparr>) = numBackends e"
  "dom (map_option decay \<circ> scores e) = dom (scores e)"
  by auto

definition eligibles :: "('x, 'b, 'z) pool_scheme \<Rightarrow> capability \<Rightarrow> nat list" where
  "eligibles e cap = filter (\<lambda>b. eligible (decay (the (scores e b)))) (capabilityIndex e cap)"

lemma selectBackend_eq:
  assumes "pool_ok e"
  shows "selectBackend draw cap e =
    (let e1 = e\<lparr>scores := map_option decay \<circ> scores e\<rparr>; idxs = eligibles e cap
     in if idxs = [] then (Fail (no_eligible cap), e1)
        else let chosen = idxs ! (draw mod length idxs)
             in (Done chosen, rewarded chosen e1 (decay (the (scores e chosen)))))"
proof -
  have idx: "set (capabilityIndex e cap) \<subseteq> dom (scores e)"
    using pool_okD(1,3) [OF assms] by auto
  then have sub: "set (capabilityIndex e cap) \<subseteq> dom (map_option decay \<circ> scores e)" by simp
  have "filter (\<lambda>b. eligible (the ((map_option decay \<circ> scores e) b))) (capabilityIndex e cap) =
      eligibles e cap"
    unfolding eligibles_def using idx by (intro filter_cong) (auto simp: subset_iff dom_def)
  moreover have "scores e (eligibles e cap ! (draw mod length (eligibles e cap))) \<noteq> None"
    if "eligibles e cap \<noteq> []"
  proof -
    have "eligibles e cap ! (draw mod length (eligibles e cap)) \<in> set (eligibles e cap)"
      using that by simp
    then show ?thesis using idx by (auto simp: eligibles_def)
  qed
  ultimately show ?thesis
    by (auto simp: selectBackend_def Let_def eligibleIdxs_scored [OF sub])
qed

lemma chosen_in_eligibles: "idxs \<noteq> [] \<Longrightarrow> idxs ! (draw mod length idxs) \<in> set idxs"
  by simp

lemma pool_ok_rewarded:
  assumes "pool_ok e" and "idx \<in> dom (scores e)"
  shows "pool_ok (rewarded idx e s)"
  unfolding rewarded_def using assms pool_okD(2,4,5) [OF assms(1)]
  by (intro pool_ok_scores) (auto simp: score_ok_default split: if_splits)

text \<open>Selecting changes nothing but scores.\<close>

lemma selectBackend_only_scores: "\<exists>sc. snd (selectBackend draw cap e) = e\<lparr>scores := sc\<rparr>"
proof (cases "selectBackend draw cap e")
  case (Pair out e')
  then show ?thesis
    by (auto simp: selectBackend_def rewarded_def Let_def split: sum.splits option.splits if_splits)
qed

lemma pool_ok_select:
  assumes "pool_ok e"
  shows "pool_ok (snd (selectBackend draw cap e))"
proof -
  have 1: "pool_ok (e\<lparr>scores := map_option decay \<circ> scores e\<rparr>)"
    using assms score_ok_decay pool_okD(2) [OF assms]
    by (intro pool_ok_scores) (auto simp: map_option_case split: option.splits)
  show ?thesis
  proof (cases "eligibles e cap = []")
    case True
    with 1 show ?thesis by (simp add: selectBackend_eq [OF assms])
  next
    case False
    let ?i = "eligibles e cap ! (draw mod length (eligibles e cap))"
    have "?i \<in> dom (scores e)"
      using chosen_in_eligibles [OF False, of draw] pool_okD(1,3) [OF assms]
      by (auto simp: eligibles_def)
    with 1 have "pool_ok (rewarded ?i (e\<lparr>scores := map_option decay \<circ> scores e\<rparr>) s)" for s
      by (intro pool_ok_rewarded) auto
    with False show ?thesis by (simp add: selectBackend_eq [OF assms] Let_def)
  qed
qed

section \<open>Reachable pools and runs of selections\<close>

inductive reachable_pool :: "('x, 'b) pool \<Rightarrow> bool" where
  start: "reachable_pool pool_init"
| execution: "reachable_pool e \<Longrightarrow> caps \<subseteq> fullExecutionCapabilities \<Longrightarrow>
    reachable_pool (registerExecutionBackend x caps e)"
| beacon: "reachable_pool e \<Longrightarrow> caps \<subseteq> fullBeaconCapabilities \<Longrightarrow>
    reachable_pool (registerBeaconBackend b caps e)"
| selected: "reachable_pool e \<Longrightarrow> reachable_pool (snd (selectBackend draw cap e))"
| penalty: "reachable_pool e \<Longrightarrow> reachable_pool (applyPenalty err e)"

lemma reachable_pool_ok: "reachable_pool e \<Longrightarrow> pool_ok e"
  by (induction rule: reachable_pool.induct)
    (auto intro: pool_ok_init pool_ok_registerExecution pool_ok_registerBeacon pool_ok_select
      pool_ok_applyPenalty)

fun selections :: "(nat \<times> capability) list \<Rightarrow> ('x, 'b, 'z) pool_scheme \<Rightarrow> ('x, 'b, 'z) pool_scheme" where
  "selections [] e = e"
| "selections ((draw, cap) # ds) e = selections ds (snd (selectBackend draw cap e))"

lemma select_keeps [simp]:
  "capabilityIndex (snd (selectBackend draw cap e)) = capabilityIndex e"
  "executionBackends (snd (selectBackend draw cap e)) = executionBackends e"
  "beaconBackends (snd (selectBackend draw cap e)) = beaconBackends e"
  by (auto simp: selectBackend_def rewarded_def Let_def split: sum.splits option.splits)

lemma selections_keep [simp]: "capabilityIndex (selections ds e) = capabilityIndex e"
  by (induction ds e rule: selections.induct) simp_all

lemma selections_pool_ok: "pool_ok e \<Longrightarrow> pool_ok (selections ds e)"
  by (induction ds e rule: selections.induct) (simp_all add: pool_ok_select)

lemma eligible_rewarded:
  assumes "pool_ok e" and "eligible s"
  shows "eligible \<lparr>availability = availabilityScoreFunc e (availability s) DefaultReward,
    quality = qualityScoreFunc e (quality s) DefaultReward\<rparr>"
  using assms availability_policy.reward quality_policy.reward
  by (simp add: eligible_def pool_okD [OF assms(1)])

text \<open>A selection decays every score, and rewards at most a backend that was eligible.\<close>

lemma select_score:
  assumes "pool_ok e" and "scores e b = Some s"
  shows "\<exists>s'. scores (snd (selectBackend draw cap e)) b = Some s' \<and>
    (s' = decay s \<or> eligible (decay s) \<and> eligible s')"
proof (cases "eligibles e cap = []")
  case True
  with assms(2) show ?thesis by (simp add: selectBackend_eq [OF assms(1)])
next
  case False
  let ?i = "eligibles e cap ! (draw mod length (eligibles e cap))"
  have "eligible (decay (the (scores e ?i)))"
    using chosen_in_eligibles [OF False, of draw] by (auto simp: eligibles_def)
  with assms False eligible_rewarded [OF assms(1)] show ?thesis
    by (auto simp: selectBackend_eq [OF assms(1)] rewarded_def Let_def)
qed

lemma decay_score_lower: "min 0 (p + 1) \<le> decay_score p"
  by (simp add: decay_score_def)

lemma selections_recover:
  assumes "pool_ok e" and "scores e b = Some s"
  shows "\<exists>s'. scores (selections ds e) b = Some s' \<and>
    min 0 (availability s + int (length ds)) \<le> availability s' \<and>
    min 0 (quality s + int (length ds)) \<le> quality s'"
  using assms
proof (induction ds e arbitrary: s rule: selections.induct)
  case (1 e)
  then show ?case by simp
next
  case (2 draw cap ds e)
  obtain s1 where s1: "scores (snd (selectBackend draw cap e)) b = Some s1"
    "s1 = decay s \<or> eligible (decay s) \<and> eligible s1"
    using select_score [OF 2(2,3)] by blast
  from 2(1) [OF pool_ok_select [OF 2(2)] s1(1)] obtain s' where s':
    "scores (selections ds (snd (selectBackend draw cap e))) b = Some s'"
    "min 0 (availability s1 + int (length ds)) \<le> availability s'"
    "min 0 (quality s1 + int (length ds)) \<le> quality s'" by blast
  moreover have "min 0 (availability s + 1) \<le> availability s1" "min 0 (quality s + 1) \<le> quality s1"
    using s1(2) decay_score_lower by (auto simp: decay_def eligible_def)
  ultimately show ?case by auto
qed

lemma selections_excluded:
  assumes "pool_ok e" and "scores e b = Some s" and "quality s + int (length ds) < 0"
  shows "\<exists>s'. scores (selections ds e) b = Some s' \<and> quality s' = quality s + int (length ds)"
  using assms
proof (induction ds e arbitrary: s rule: selections.induct)
  case (1 e)
  then show ?case by simp
next
  case (2 draw cap ds e)
  obtain s1 where s1: "scores (snd (selectBackend draw cap e)) b = Some s1"
    "s1 = decay s \<or> eligible (decay s) \<and> eligible s1"
    using select_score [OF 2(2,3)] by blast
  have "quality s < 0" using 2(4) by simp
  then have q: "quality s1 = quality s + 1"
    using s1(2) 2(4) by (auto simp: decay_def decay_score_def eligible_def)
  with 2(4) have "quality s1 + int (length ds) < 0" by simp
  from 2(1) [OF pool_ok_select [OF 2(2)] s1(1) this] q show ?case by auto
qed

section \<open>Properties\<close>

text \<open>
  In every pool that registration, selection and penalties can produce, asking for an
  execution backend either returns a backend registered for the capability whose scores,
  after the decay, do not exclude it, or reports that there is no such backend; the scores
  stay within their bounds and the three lookups that could fail never do.
\<close>

theorem executionBackendFor_selects:
  assumes "reachable_pool e" and "cap \<in> fullExecutionCapabilities"
  shows "pool_ok (snd (executionBackendFor draw cap e)) \<and>
    (case fst (executionBackendFor draw cap e) of
       Done (x, i) \<Rightarrow> i \<in> set (capabilityIndex e cap) \<and> executionBackends e i = Some x \<and>
         (\<exists>s. scores e i = Some s \<and> eligible (decay s))
     | Fail err \<Rightarrow> err = no_eligible cap \<and>
         (\<forall>i \<in> set (capabilityIndex e cap). \<forall>s. scores e i = Some s \<longrightarrow> \<not> eligible (decay s))
     | _ \<Rightarrow> False)"
proof -
  have ok: "pool_ok e" by (rule reachable_pool_ok [OF assms(1)])
  note after = pool_ok_select [OF ok, of draw cap]
  show ?thesis
  proof (cases "eligibles e cap = []")
    case True
    with after show ?thesis
      by (auto simp: executionBackendFor_def andThen_def selectBackend_eq [OF ok] eligibles_def
          filter_empty_conv)
  next
    case False
    let ?i = "eligibles e cap ! (draw mod length (eligibles e cap))"
    have i: "?i \<in> set (capabilityIndex e cap)" "eligible (decay (the (scores e ?i)))"
      using chosen_in_eligibles [OF False, of draw] by (auto simp: eligibles_def)
    with ok assms(2) obtain x where x: "executionBackends e ?i = Some x"
      by (force simp: pool_ok_def)
    obtain s where s: "scores e ?i = Some s"
      using i(1) pool_okD(1,3) [OF ok] by blast
    have "fst (selectBackend draw cap e) = Done ?i"
      using False by (simp add: selectBackend_eq [OF ok] Let_def)
    then have "executionBackendFor draw cap e = (Done (x, ?i), snd (selectBackend draw cap e))"
      using x select_keeps(2) [of draw cap e]
      by (cases "selectBackend draw cap e") (simp add: executionBackendFor_def andThen_def)
    with after i s x show ?thesis by simp
  qed
qed

theorem executionBackendFor_selects_witness:
  "let e = registerExecutionBackend (CHR ''x'') {GetProof} (pool_init :: (char, unit) pool) in
   pool_ok (snd (executionBackendFor 3 GetProof e)) \<and>
   fst (executionBackendFor 3 GetProof e) = Done (CHR ''x'', 0)"
proof -
  let ?e = "registerExecutionBackend (CHR ''x'') {GetProof} (pool_init :: (char, unit) pool)"
  have "reachable_pool ?e"
    by (intro reachable_pool.execution reachable_pool.start) (simp add: fullExecutionCapabilities_def)
  from executionBackendFor_selects [OF this, of GetProof 3] show ?thesis
    by (simp add: fullExecutionCapabilities_def executionBackendFor_def selectBackend_def andThen_def
        registerExecutionBackend_def indexed_def pool_init_def eligible_def decay_def
        decay_score_def rewarded_def Let_def)
qed

text \<open>
  No exclusion is for ever: nine selections, for whatever capabilities, are enough for a
  tenth to find a backend, if any is registered for the capability at all.
\<close>

theorem selectBackend_recovers:
  assumes "reachable_pool e" and "capabilityIndex e cap \<noteq> []" and "9 \<le> length ds"
  shows "\<exists>i e'. selectBackend draw cap (selections ds e) = (Done i, e') \<and>
    i \<in> set (capabilityIndex e cap)"
proof -
  have ok: "pool_ok e" by (rule reachable_pool_ok [OF assms(1)])
  obtain b where b: "b \<in> set (capabilityIndex e cap)" using assms(2) by (meson list.set_sel(1))
  then obtain s where s: "scores e b = Some s" using pool_okD(1,3) [OF ok] by blast
  then have "score_ok s" by (rule pool_okD(2) [OF ok])
  moreover obtain s' where s': "scores (selections ds e) b = Some s'"
    "min 0 (availability s + int (length ds)) \<le> availability s'"
    "min 0 (quality s + int (length ds)) \<le> quality s'"
    using selections_recover [OF ok s] by blast
  ultimately have "eligible (decay s')"
    using assms(3) by (auto simp: score_ok_def eligible_def decay_def decay_score_def)
  with s' b have "eligibles (selections ds e) cap \<noteq> []"
    by (auto simp: eligibles_def filter_empty_conv intro!: bexI [of _ b])
  then show ?thesis
    using chosen_in_eligibles [of "eligibles (selections ds e) cap" draw]
    by (auto simp: selectBackend_eq [OF selections_pool_ok [OF ok]] Let_def eligibles_def)
qed

theorem selectBackend_recovers_witness:
  "let e = applyPenalty \<lparr>errType = VerificationError, errMsg = [], backendIdx = 0\<rparr>
         (registerExecutionBackend () {GetProof} (pool_init :: (unit, unit) pool)) in
   fst (selectBackend 5 GetProof e) = Fail (no_eligible GetProof) \<and>
   (\<exists>i e'. selectBackend 5 GetProof (selections (replicate 9 (0, GetCode)) e) = (Done i, e'))"
proof -
  let ?e = "applyPenalty \<lparr>errType = VerificationError, errMsg = [], backendIdx = 0\<rparr>
         (registerExecutionBackend () {GetProof} (pool_init :: (unit, unit) pool))"
  have "reachable_pool ?e"
    by (intro reachable_pool.intros) (simp add: fullExecutionCapabilities_def)
  moreover have "capabilityIndex ?e GetProof \<noteq> []"
    by (simp add: applyPenalty_def registerExecutionBackend_def indexed_def pool_init_def Let_def)
  ultimately have "\<exists>i e'. selectBackend 5 GetProof (selections (replicate 9 (0, GetCode)) ?e) = (Done i, e')"
    using selectBackend_recovers [of ?e GetProof "replicate 9 (0, GetCode)" 5]
    by auto
  then show ?thesis
    by (simp add: selectBackend_def applyPenalty_def registerExecutionBackend_def indexed_def
        pool_init_def eligible_def decay_def decay_score_def penalised_def
        defaultQualityScoreFunc_def Let_def)
qed

text \<open>
  A backend whose answer failed verification is out for the next nine selections, whatever
  they are for and however they are drawn.
\<close>

theorem verification_failure_excludes:
  assumes "reachable_pool e" and "i < numBackends e" and "length ds < 9"
  shows "fst (selectBackend draw cap (selections ds
      (applyPenalty \<lparr>errType = VerificationError, errMsg = msg, backendIdx = int i\<rparr> e))) \<noteq> Done i"
proof -
  let ?e = "applyPenalty \<lparr>errType = VerificationError, errMsg = msg, backendIdx = int i\<rparr> e"
  have ok: "pool_ok e" by (rule reachable_pool_ok [OF assms(1)])
  obtain s where s: "scores e i = Some s" using pool_okD(1) [OF ok] assms(2) by blast
  with pool_okD(2) [OF ok] have "quality s \<le> 1" by (auto simp: score_ok_def)
  then have "scores ?e i = Some (s\<lparr>quality := -10\<rparr>)"
    using s quality_policy.verification_penalty
    by (simp add: applyPenalty_def penalised_def pool_okD(5) [OF ok])
  from selections_excluded [OF pool_ok_applyPenalty [OF ok] this, of ds] assms(3)
  obtain s' where s': "scores (selections ds ?e) i = Some s'" "quality s' = -10 + int (length ds)"
    by auto
  then have "\<not> eligible (decay s')"
    using assms(3) by (auto simp: eligible_def decay_def decay_score_def)
  with s' have "i \<notin> set (eligibles (selections ds ?e) cap)" by (simp add: eligibles_def)
  then have "eligibles (selections ds ?e) cap \<noteq> [] \<Longrightarrow>
      eligibles (selections ds ?e) cap ! (draw mod length (eligibles (selections ds ?e) cap)) \<noteq> i"
    using chosen_in_eligibles by metis
  then show ?thesis
    by (simp add: selectBackend_eq [OF selections_pool_ok [OF pool_ok_applyPenalty [OF ok]]] Let_def)
qed

theorem verification_failure_excludes_witness:
  "fst (selectBackend 4 GetProof (selections [(1, GetProof)]
     (applyPenalty \<lparr>errType = VerificationError, errMsg = [], backendIdx = int 0\<rparr>
       (registerExecutionBackend () {GetProof} (pool_init :: (unit, unit) pool))))) \<noteq> Done 0"
proof -
  have "reachable_pool (registerExecutionBackend () {GetProof} (pool_init :: (unit, unit) pool))"
    by (intro reachable_pool.intros) (simp add: fullExecutionCapabilities_def)
  then show ?thesis
    by (rule verification_failure_excludes) (simp_all add: registerExecutionBackend_def Let_def)
qed

text \<open>
  The advance reward is undone exactly only when requests do not overlap. After one failed
  fetch the quality score is what it was; but two requests in flight to the same backend are
  rewarded once, at the cap, and undone twice when both fail to be fetched: the quality score
  drops to its lowest level although no answer failed verification.
\<close>

theorem concurrent_fetch_errors_cost_quality:
  "let e = registerExecutionBackend x {cap} (pool_init :: ('x, 'b) pool);
       err = \<lparr>errType = BackendFetchError, errMsg = msg, backendIdx = 0\<rparr>
   in map_option quality (scores (applyPenalty err (selections [(d1, cap)] e)) 0) = Some 0 \<and>
      map_option quality
        (scores (applyPenalty err (applyPenalty err (selections [(d1, cap), (d2, cap)] e))) 0) =
      Some (-10)"
  by (simp add: selectBackend_def registerExecutionBackend_def applyPenalty_def indexed_def
      pool_init_def eligible_def decay_def decay_score_def rewarded_def penalised_def
      defaultQualityScoreFunc_def defaultAvailabilityScoreFunc_def Let_def)

end
