(* ===== verification/Chain_Data.thy ===== *)
theory Chain_Data
  imports Engine_Types
begin

text \<open>
  The chain data the engine handles: headers, blocks, transactions, receipts, logs, accounts
  and proofs, as the Ethereum types (\<open>eth/common\<close>) and the JSON-RPC objects a backend answers
  with (\<open>web3/eth_api_types\<close>) have them, and the conversions from the second to the first
  (\<open>convHeader\<close>, \<open>toTransaction\<close>, \<open>toReceipt\<close>).
\<close>

section \<open>Headers and blocks\<close>

record block_header =
  parentHash :: hash32
  ommersHash :: hash32
  coinbase :: address
  stateRoot :: hash32
  transactionsRoot :: hash32
  receiptsRoot :: hash32
  logsBloom :: "2048 word"
  difficulty :: u256
  number :: u64
  gasLimit :: u64
  gasUsed :: u64
  timestamp :: u64
  extraData :: "byte list"
  mixHash :: hash32
  nonce :: u64
  baseFeePerGas :: "u256 option"
  withdrawalsRoot :: "hash32 option"
  blobGasUsed :: "u64 option"
  excessBlobGas :: "u64 option"
  parentBeaconBlockRoot :: "hash32 option"
  requestsHash :: "hash32 option"

type_synonym access_list = "(address \<times> hash32 list) list"

text \<open>An EIP-7702 authorization: chain id, address, nonce and the signature's y parity, r and s.\<close>

type_synonym authorization = "u256 \<times> address \<times> u64 \<times> u64 \<times> u256 \<times> u256"

record transaction_object =
  txo_hash :: hash32
  txo_blockHash :: "hash32 option"
  txo_blockNumber :: "u64 option"
  txo_transactionIndex :: "u64 option"
  txo_from :: address
  txo_type :: "u64 option"
  txo_chainId :: "u256 option"
  txo_nonce :: u64
  txo_gasPrice :: u64
  txo_maxPriorityFeePerGas :: "u64 option"
  txo_maxFeePerGas :: "u64 option"
  txo_gas :: u64
  txo_to :: "address option"
  txo_value :: u256
  txo_input :: "byte list"
  txo_accessList :: "access_list option"
  txo_maxFeePerBlobGas :: "u256 option"
  txo_blobVersionedHashes :: "hash32 list option"
  txo_v :: u64
  txo_r :: u256
  txo_s :: u256
  txo_authorizationList :: "authorization list option"

datatype tx_or_hash = TohHash hash32 | TohTx transaction_object

text \<open>A withdrawal: index, validator index, address and amount.\<close>

type_synonym withdrawal = "u64 \<times> u64 \<times> address \<times> u64"

record block_object =
  blk_hash :: hash32
  blk_parentHash :: hash32
  blk_sha3Uncles :: hash32
  blk_miner :: address
  blk_stateRoot :: hash32
  blk_transactionsRoot :: hash32
  blk_receiptsRoot :: hash32
  blk_logsBloom :: "2048 word"
  blk_difficulty :: u256
  blk_number :: u64
  blk_gasLimit :: u64
  blk_gasUsed :: u64
  blk_timestamp :: u64
  blk_extraData :: "byte list"
  blk_mixHash :: hash32
  blk_nonce :: "u64 option"
  blk_baseFeePerGas :: "u256 option"
  blk_withdrawalsRoot :: "hash32 option"
  blk_blobGasUsed :: "u64 option"
  blk_excessBlobGas :: "u64 option"
  blk_parentBeaconBlockRoot :: "hash32 option"
  blk_requestsHash :: "hash32 option"
  blk_transactions :: "tx_or_hash list"
  blk_withdrawals :: "withdrawal list option"
  blk_uncles :: "hash32 list"

definition convHeader :: "block_object \<Rightarrow> block_header" where
  "convHeader blk =
     \<lparr>parentHash = blk_parentHash blk,
      ommersHash = blk_sha3Uncles blk,
      coinbase = blk_miner blk,
      stateRoot = blk_stateRoot blk,
      transactionsRoot = blk_transactionsRoot blk,
      receiptsRoot = blk_receiptsRoot blk,
      logsBloom = blk_logsBloom blk,
      difficulty = blk_difficulty blk,
      number = blk_number blk,
      gasLimit = blk_gasLimit blk,
      gasUsed = blk_gasUsed blk,
      timestamp = blk_timestamp blk,
      extraData = blk_extraData blk,
      mixHash = blk_mixHash blk,
      nonce = (case blk_nonce blk of None \<Rightarrow> 0 | Some n \<Rightarrow> n),
      baseFeePerGas = blk_baseFeePerGas blk,
      withdrawalsRoot = blk_withdrawalsRoot blk,
      blobGasUsed = blk_blobGasUsed blk,
      excessBlobGas = blk_excessBlobGas blk,
      parentBeaconBlockRoot = blk_parentBeaconBlockRoot blk,
      requestsHash = blk_requestsHash blk\<rparr>"

section \<open>Transactions\<close>

datatype tx_type = TxLegacy | TxEip2930 | TxEip1559 | TxEip4844 | TxEip7702

record transaction =
  txType :: tx_type
  tx_chainId :: u256
  tx_nonce :: u64
  gasPrice :: u64
  maxPriorityFeePerGas :: u64
  maxFeePerGas :: u64
  tx_gasLimit :: u64
  tx_to :: "address option"
  tx_value :: u256
  payload :: "byte list"
  accessList :: access_list
  maxFeePerBlobGas :: u256
  versionedHashes :: "hash32 list"
  tx_V :: u64
  tx_R :: u256
  tx_S :: u256
  authorizationList :: "authorization list"

text \<open>
  The conversion of the backend's type number to the enumeration is checked by Nim: a number
  that is no transaction type is a \<open>RangeDefect\<close>, not an error value.
\<close>

definition tx_type_of :: "u64 \<Rightarrow> tx_type option" where
  "tx_type_of n =
     (if n = 0 then Some TxLegacy else if n = 1 then Some TxEip2930 else if n = 2 then Some TxEip1559
      else if n = 3 then Some TxEip4844 else if n = 4 then Some TxEip7702 else None)"

definition orElse :: "'a option \<Rightarrow> 'a \<Rightarrow> 'a" where
  "orElse x d = (case x of None \<Rightarrow> d | Some y \<Rightarrow> y)"

definition toTransaction :: "transaction_object \<Rightarrow> (error_tuple, transaction) outcome" where
  "toTransaction tx =
     (case tx_type_of (orElse (txo_type tx) 0) of
        None \<Rightarrow> Defect
      | Some ty \<Rightarrow> Done
          \<lparr>txType = ty,
           tx_chainId = orElse (txo_chainId tx) 0,
           tx_nonce = txo_nonce tx,
           gasPrice = txo_gasPrice tx,
           maxPriorityFeePerGas = orElse (txo_maxPriorityFeePerGas tx) 0,
           maxFeePerGas = orElse (txo_maxFeePerGas tx) 0,
           tx_gasLimit = txo_gas tx,
           tx_to = txo_to tx,
           tx_value = txo_value tx,
           payload = txo_input tx,
           accessList = orElse (txo_accessList tx) [],
           maxFeePerBlobGas = orElse (txo_maxFeePerBlobGas tx) 0,
           versionedHashes = orElse (txo_blobVersionedHashes tx) [],
           tx_V = txo_v tx,
           tx_R = txo_r tx,
           tx_S = txo_s tx,
           authorizationList = orElse (txo_authorizationList tx) []\<rparr>)"

section \<open>Accounts and proofs\<close>

record account =
  acc_nonce :: u64
  acc_balance :: u256
  acc_storageRoot :: hash32
  acc_codeHash :: hash32

record storage_proof =
  sp_key :: u256
  sp_value :: u256
  sp_proof :: "byte list list"

record proof_response =
  pr_balance :: u256
  pr_nonce :: u64
  pr_codeHash :: hash32
  pr_storageHash :: hash32
  pr_accountProof :: "byte list list"
  pr_storageProof :: "storage_proof list"

section \<open>Receipts, logs and filters\<close>

record log_object =
  lo_logIndex :: "u64 option"
  lo_transactionIndex :: "u64 option"
  lo_transactionHash :: "hash32 option"
  lo_blockHash :: "hash32 option"
  lo_blockNumber :: "u64 option"
  lo_address :: address
  lo_data :: "byte list"
  lo_topics :: "hash32 list"

record receipt_object =
  ro_transactionHash :: hash32
  ro_transactionIndex :: u64
  ro_blockHash :: hash32
  ro_blockNumber :: u64
  ro_from :: address
  ro_to :: "address option"
  ro_contractAddress :: "address option"
  ro_gasUsed :: u64
  ro_effectiveGasPrice :: u64
  ro_cumulativeGasUsed :: u64
  ro_logs :: "log_object list"
  ro_logsBloom :: "2048 word"
  ro_type :: "u64 option"
  ro_status :: "u64 option"

text \<open>What a receipt's trie commits to: the receipt and the logs without their position.\<close>

record eth_log =
  log_address :: address
  log_topics :: "hash32 list"
  log_data :: "byte list"

record receipt =
  rc_hash :: hash32
  rc_isHash :: bool
  rc_status :: bool
  rc_cumulativeGasUsed :: u64
  rc_logs :: "eth_log list"
  rc_logsBloom :: "2048 word"
  receiptType :: tx_type

datatype 'a single_or_list = SlkNull | SlkSingle 'a | SlkList "'a list"

record filter_options =
  fo_fromBlock :: "block_tag option"
  fo_toBlock :: "block_tag option"
  fo_address :: "address single_or_list"
  fo_topics :: "hash32 single_or_list list"
  fo_blockHash :: "hash32 option"

text \<open>An installed filter, and up to which block its changes have been asked for.\<close>

record filter_store_item =
  fsi_filter :: filter_options
  fsi_blockMarker :: "u64 option"

end
