(* ===== verification/Header_Store.thy ===== *)
theory Header_Store
  imports Chain_Data
begin

text \<open>
  The store of headers known to the engine (\<open>engine/header_store.nim\<close>): an LRU cache of headers
  by hash, each with the trust it was verified with, an index by number of the finalized ones,
  and the hashes of the light client's anchors.
\<close>

section \<open>Trust\<close>

datatype header_trust = NoTrust | Optimistic | Safe | Finalized

fun trust_level :: "header_trust \<Rightarrow> nat" where
  "trust_level NoTrust = 0"
| "trust_level Optimistic = 1"
| "trust_level Safe = 2"
| "trust_level Finalized = 3"

lemma trust_level_inject [simp]: "trust_level t = trust_level u \<longleftrightarrow> t = u"
  by (cases t; cases u) simp_all

instantiation header_trust :: linorder
begin

definition less_eq_header_trust :: "header_trust \<Rightarrow> header_trust \<Rightarrow> bool" where
  "t \<le> u \<longleftrightarrow> trust_level t \<le> trust_level u"

definition less_header_trust :: "header_trust \<Rightarrow> header_trust \<Rightarrow> bool" where
  "t < u \<longleftrightarrow> trust_level t < trust_level u"

instance
  by standard (auto simp: less_eq_header_trust_def less_header_trust_def)

end

lemmas trust_order = less_eq_header_trust_def less_header_trust_def

lemma NoTrust_least [simp]: "NoTrust \<le> t"
  by (simp add: trust_order)

lemma Finalized_greatest [simp]: "t \<le> Finalized"
  by (cases t) (simp_all add: trust_order)

section \<open>The store\<close>

record cached_header =
  cached :: block_header
  trust :: header_trust

text \<open>
  The content of the LRU cache is a map. Which entries it drops when it is full is the cache
  package's business: \<open>putCache\<close> takes the set of keys evicted by that insertion.
\<close>

record header_store =
  headers :: "hash32 \<rightharpoonup> cached_header"
  hashes :: "u64 \<rightharpoonup> hash32"
  latestHash :: "hash32 option"
  safeHash :: "hash32 option"
  finalizedHash :: "hash32 option"
  earliestFinalizedHash :: "hash32 option"

definition new_store :: header_store where
  "new_store =
     \<lparr>headers = Map.empty, hashes = Map.empty, latestHash = None, safeHash = None,
      finalizedHash = None, earliestFinalizedHash = None\<rparr>"

definition clear :: "header_store \<Rightarrow> header_store" where
  "clear self =
     self\<lparr>headers := Map.empty, hashes := Map.empty, latestHash := None, safeHash := None,
          finalizedHash := None, earliestFinalizedHash := None\<rparr>"

definition getHash :: "header_store \<Rightarrow> header_trust \<Rightarrow> hash32 option" where
  "getHash self t =
     (case t of
        NoTrust \<Rightarrow> None
      | Optimistic \<Rightarrow> latestHash self
      | Safe \<Rightarrow> safeHash self
      | Finalized \<Rightarrow> finalizedHash self)"

definition getEarliestHash :: "header_store \<Rightarrow> hash32 option" where
  "getEarliestHash self = earliestFinalizedHash self"

text \<open>\<open>getOrDefault\<close> cannot tell an absent entry from the zero hash.\<close>

definition indexed_hash :: "header_store \<Rightarrow> u64 \<Rightarrow> hash32" where
  "indexed_hash self n = (case hashes self n of None \<Rightarrow> 0 | Some h \<Rightarrow> h)"

definition getHash_number :: "header_store \<Rightarrow> u64 \<Rightarrow> header_trust \<Rightarrow> hash32 option" where
  "getHash_number self n minTrust =
     (let hash = indexed_hash self n in
      if hash = 0 then None
      else case headers self hash of
             None \<Rightarrow> None
           | Some c \<Rightarrow> if trust c < minTrust then None else Some hash)"

definition get :: "header_store \<Rightarrow> hash32 \<Rightarrow> header_trust \<Rightarrow> block_header option" where
  "get self hash minTrust =
     (case headers self hash of
        None \<Rightarrow> None
      | Some c \<Rightarrow> if trust c < minTrust then None else Some (cached c))"

definition get_number :: "header_store \<Rightarrow> u64 \<Rightarrow> header_trust \<Rightarrow> block_header option" where
  "get_number self n minTrust =
     (case getHash_number self n minTrust of
        None \<Rightarrow> None
      | Some hash \<Rightarrow> get self hash minTrust)"

text \<open>
  \<open>putCache\<close>: every evicted entry that the index still points to loses its index entry; a
  finalized header is then indexed.
\<close>

definition putCache ::
    "(hash32 \<Rightarrow> bool) \<Rightarrow> hash32 \<Rightarrow> block_header \<Rightarrow> header_trust \<Rightarrow> header_store \<Rightarrow> header_store" where
  "putCache evicted hash hdr t self =
     (let full = (headers self)(hash \<mapsto> \<lparr>cached = hdr, trust = t\<rparr>);
          kept = (\<lambda>key. if evicted key then None else full key);
          index = (\<lambda>n. case hashes self n of
                     None \<Rightarrow> None
                   | Some key \<Rightarrow>
                       (case full key of
                          Some value \<Rightarrow> if evicted key \<and> number (cached value) = n then None else Some key
                        | None \<Rightarrow> Some key))
      in self\<lparr>headers := kept,
              hashes := (if t = Finalized then index(number hdr \<mapsto> hash) else index)\<rparr>)"

definition put ::
    "(hash32 \<Rightarrow> bool) \<Rightarrow> block_header \<Rightarrow> hash32 \<Rightarrow> header_trust \<Rightarrow> header_store \<Rightarrow> header_store" where
  "put evicted hdr hash t self =
     (let newTrust = (case headers self hash of
                        Some c \<Rightarrow> if trust c > t then trust c else t
                      | None \<Rightarrow> t)
      in putCache evicted hash hdr newTrust self)"

definition putHash :: "hash32 \<Rightarrow> header_trust \<Rightarrow> header_store \<Rightarrow> header_store" where
  "putHash hash t self =
     (case t of
        NoTrust \<Rightarrow> self
      | Optimistic \<Rightarrow> self\<lparr>latestHash := Some hash\<rparr>
      | Safe \<Rightarrow> self\<lparr>safeHash := Some hash\<rparr>
      | Finalized \<Rightarrow>
          (let s = self\<lparr>finalizedHash := Some hash\<rparr>
           in if earliestFinalizedHash s = None then s\<lparr>earliestFinalizedHash := Some hash\<rparr> else s))"

section \<open>Insertion and lookup\<close>

text \<open>
  What a client of the store relies on: an insertion makes the header available at the trust it
  is given, never lowers the trust of a header already there, and touches nothing else but
  what is evicted.
\<close>

locale trust_cache =
  fixes lookup :: "'s \<Rightarrow> 'k \<Rightarrow> header_trust \<Rightarrow> 'h option"
    and insert_at :: "('k \<Rightarrow> bool) \<Rightarrow> 'h \<Rightarrow> 'k \<Rightarrow> header_trust \<Rightarrow> 's \<Rightarrow> 's"
  assumes lookup_same: "\<not> ev k \<Longrightarrow> lookup (insert_at ev h k t s) k m =
      (if m \<le> t \<or> lookup s k m \<noteq> None then Some h else None)"
    and lookup_other: "k' \<noteq> k \<Longrightarrow> \<not> ev k' \<Longrightarrow> lookup (insert_at ev h k t s) k' m = lookup s k' m"
    and lookup_evicted: "ev k' \<Longrightarrow> lookup (insert_at ev h k t s) k' m = None"
begin

fun insert_all :: "(('k \<Rightarrow> bool) \<times> 'h \<times> 'k \<times> header_trust) list \<Rightarrow> 's \<Rightarrow> 's" where
  "insert_all [] s = s"
| "insert_all ((ev, h, k, t) # xs) s = insert_all xs (insert_at ev h k t s)"

text \<open>While a key is not evicted, what is available under it stays available.\<close>

lemma insert_all_keeps:
  assumes "\<forall>(ev, h, k', t) \<in> set xs. \<not> ev k" and "lookup s k m \<noteq> None"
  shows "lookup (insert_all xs s) k m \<noteq> None"
  using assms
proof (induction xs s rule: insert_all.induct)
  case (1 s)
  then show ?case by simp
next
  case (2 ev h k' t xs s)
  have "lookup (insert_at ev h k' t s) k m \<noteq> None"
    using 2(2,3) lookup_same [of ev k] lookup_other [of k k' ev] by (cases "k = k'") auto
  with 2 show ?case by simp
qed

lemma insert_all_available:
  assumes "(ev, h, k, t) \<in> set xs" and "m \<le> t" and "\<forall>(ev, h, k', t) \<in> set xs. \<not> ev k"
  shows "lookup (insert_all xs s) k m \<noteq> None"
  using assms
proof (induction xs s rule: insert_all.induct)
  case (1 s)
  then show ?case by simp
next
  case (2 ev' h' k' t' xs s)
  show ?case
  proof (cases "(ev, h, k, t) \<in> set xs")
    case True
    with 2 show ?thesis by simp
  next
    case False
    with 2(2,4) have "ev' = ev" "h' = h" "k' = k" "t' = t" "\<not> ev k" by auto
    then have "lookup (insert_at ev' h' k' t' s) k m \<noteq> None"
      using lookup_same [of ev k h t s m] 2(3) by simp
    moreover have "\<forall>(ev, h, k', t) \<in> set xs. \<not> ev k" using 2(4) by auto
    ultimately show ?thesis
      using insert_all_keeps [of xs k "insert_at ev' h' k' t' s" m] by simp
  qed
qed

end

lemma headers_put:
  "headers (put ev hdr h t s) k =
    (if ev k then None
     else if k = h then Some \<lparr>cached = hdr, trust = (case headers s h of None \<Rightarrow> t | Some c \<Rightarrow> max (trust c) t)\<rparr>
     else headers s k)"
  by (auto simp: put_def putCache_def Let_def max_def split: option.splits)

interpretation by_hash: trust_cache get put
proof
  fix ev :: "hash32 \<Rightarrow> bool" and k k' h t s m
  show "\<not> ev k \<Longrightarrow> get (put ev h k t s) k m = (if m \<le> t \<or> get s k m \<noteq> None then Some h else None)"
    by (auto simp: get_def headers_put max_def not_less split: option.splits)
  show "k' \<noteq> k \<Longrightarrow> \<not> ev k' \<Longrightarrow> get (put ev h k t s) k' m = get s k' m"
    by (simp add: get_def headers_put)
  show "ev k' \<Longrightarrow> get (put ev h k t s) k' m = None"
    by (simp add: get_def headers_put)
qed

section \<open>Trusted content\<close>

text \<open>
  \<open>T t\<close> is the set of headers that may be trusted at level \<open>t\<close>, smaller for higher levels. A
  trusted header's hash is binding: no other header hashes to it. \<open>block_hash\<close> is the
  package's hash of a header.
\<close>

definition trusts :: "(block_header \<Rightarrow> hash32) \<Rightarrow> (header_trust \<Rightarrow> block_header set) \<Rightarrow> bool" where
  "trusts block_hash T \<longleftrightarrow>
     T NoTrust = UNIV \<and> (\<forall>t u. t \<le> u \<longrightarrow> T u \<subseteq> T t) \<and>
     (\<forall>hdr \<in> T Optimistic. \<forall>x. block_hash x = block_hash hdr \<longrightarrow> x = hdr)"

lemma trustsD:
  assumes "trusts block_hash T"
  shows "hdr \<in> T NoTrust"
    and "hdr \<in> T u \<Longrightarrow> t \<le> u \<Longrightarrow> hdr \<in> T t"
    and "hdr \<in> T t \<Longrightarrow> t \<noteq> NoTrust \<Longrightarrow> block_hash x = block_hash hdr \<Longrightarrow> x = hdr"
proof -
  show "hdr \<in> T NoTrust" "hdr \<in> T u \<Longrightarrow> t \<le> u \<Longrightarrow> hdr \<in> T t"
    using assms by (auto simp: trusts_def)
  assume "hdr \<in> T t" "t \<noteq> NoTrust" "block_hash x = block_hash hdr"
  moreover from this(2) have "Optimistic \<le> t" by (cases t) (simp_all add: trust_order)
  ultimately have "hdr \<in> T Optimistic" using assms unfolding trusts_def by blast
  with \<open>block_hash x = block_hash hdr\<close> show "x = hdr" using assms unfolding trusts_def by blast
qed

definition store_ok ::
    "(block_header \<Rightarrow> hash32) \<Rightarrow> (header_trust \<Rightarrow> block_header set) \<Rightarrow> header_store \<Rightarrow> bool" where
  "store_ok block_hash T s \<longleftrightarrow>
     (\<forall>h c. headers s h = Some c \<longrightarrow> block_hash (cached c) = h \<and> cached c \<in> T (trust c)) \<and>
     (\<forall>n h. hashes s n = Some h \<longrightarrow> (\<exists>hdr \<in> T Finalized. block_hash hdr = h \<and> number hdr = n)) \<and>
     (\<forall>t h. getHash s t = Some h \<longrightarrow> (\<exists>hdr \<in> T t. block_hash hdr = h)) \<and>
     (\<forall>h. getEarliestHash s = Some h \<longrightarrow> (\<exists>hdr \<in> T Finalized. block_hash hdr = h))"

lemma store_okI:
  assumes "\<And>h c. headers s h = Some c \<Longrightarrow> block_hash (cached c) = h \<and> cached c \<in> T (trust c)"
    and "\<And>n h. hashes s n = Some h \<Longrightarrow> \<exists>hdr \<in> T Finalized. block_hash hdr = h \<and> number hdr = n"
    and "\<And>t h. getHash s t = Some h \<Longrightarrow> \<exists>hdr \<in> T t. block_hash hdr = h"
    and "\<And>h. getEarliestHash s = Some h \<Longrightarrow> \<exists>hdr \<in> T Finalized. block_hash hdr = h"
  shows "store_ok block_hash T s"
  using assms by (simp add: store_ok_def)

lemma store_okD:
  assumes "store_ok block_hash T s"
  shows "headers s h = Some c \<Longrightarrow> block_hash (cached c) = h"
    and "headers s h = Some c \<Longrightarrow> cached c \<in> T (trust c)"
    and "hashes s n = Some h \<Longrightarrow> \<exists>hdr \<in> T Finalized. block_hash hdr = h \<and> number hdr = n"
    and "getHash s t = Some h \<Longrightarrow> \<exists>hdr \<in> T t. block_hash hdr = h"
    and "getEarliestHash s = Some h \<Longrightarrow> \<exists>hdr \<in> T Finalized. block_hash hdr = h"
  using assms by (auto simp: store_ok_def)

lemma store_ok_new: "store_ok block_hash T new_store"
  by (rule store_okI)
    (simp_all add: new_store_def getHash_def getEarliestHash_def split: header_trust.splits)

lemma store_ok_clear: "store_ok block_hash T (clear s)"
  by (rule store_okI)
    (simp_all add: clear_def getHash_def getEarliestHash_def split: header_trust.splits)

lemma hashes_put:
  assumes "hashes (put ev hdr h t s) n = Some h'"
  shows "hashes s n = Some h' \<or>
    h' = h \<and> number hdr = n \<and>
      (t = Finalized \<or> (\<exists>c. headers s h = Some c \<and> trust c = Finalized))"
  using assms
  by (auto simp: put_def putCache_def Let_def split: option.splits if_splits)

lemma put_anchors [simp]:
  "getHash (put ev hdr h t s) = getHash s"
  "getEarliestHash (put ev hdr h t s) = getEarliestHash s"
  by (auto simp: put_def putCache_def Let_def getHash_def getEarliestHash_def fun_eq_iff
      split: header_trust.splits)

lemma store_ok_put:
  assumes T: "trusts block_hash T" and s: "store_ok block_hash T s"
    and hdr: "block_hash hdr = h" "hdr \<in> T t"
  shows "store_ok block_hash T (put ev hdr h t s)"
proof (rule store_okI)
  note D = trustsD [OF T] store_okD [OF s]
  have same: "hdr = cached c" if "headers s h = Some c" "trust c \<noteq> NoTrust" for c
    using D(3) [OF D(5) [OF that(1)] that(2)] D(4) [OF that(1)] hdr(1) by simp
  show "block_hash (cached c) = h' \<and> cached c \<in> T (trust c)"
    if "headers (put ev hdr h t s) h' = Some c" for h' c
  proof (cases "h' = h")
    case True
    show ?thesis
    proof (cases "headers s h")
      case None
      with that True hdr show ?thesis by (auto simp: headers_put split: if_splits)
    next
      case (Some c')
      have "hdr \<in> T (max (trust c') t)"
        using same [OF Some] D(5) [OF Some] hdr(2) D(1) by (cases "trust c' = NoTrust") (auto simp: max_def)
      with that True Some hdr show ?thesis by (auto simp: headers_put split: if_splits)
    qed
  next
    case False
    with that D(4,5) show ?thesis by (auto simp: headers_put split: if_splits)
  qed
  show "\<exists>hdr \<in> T Finalized. block_hash hdr = h' \<and> number hdr = n"
    if "hashes (put ev hdr h t s) n = Some h'" for n h'
    using hashes_put [OF that]
  proof (elim disjE exE conjE)
    assume "hashes s n = Some h'"
    then show ?thesis by (rule D(6))
  next
    assume "h' = h" "number hdr = n" "t = Finalized"
    with hdr show ?thesis by auto
  next
    fix c assume "h' = h" "number hdr = n" "headers s h = Some c" "trust c = Finalized"
    with same [of c] D(5) [of h c] hdr show ?thesis by auto
  qed
qed (use store_okD [OF s] in auto)

lemma store_ok_putHash:
  assumes s: "store_ok block_hash T s" and "hdr \<in> T t" and "block_hash hdr = h"
  shows "store_ok block_hash T (putHash h t s)"
proof (rule store_okI)
  have fields: "headers (putHash h t s) = headers s" "hashes (putHash h t s) = hashes s"
    by (auto simp: putHash_def Let_def split: header_trust.splits)
  show "block_hash (cached c) = h' \<and> cached c \<in> T (trust c)"
    if "headers (putHash h t s) h' = Some c" for h' c
    using that store_okD(1,2) [OF s] by (simp add: fields)
  show "\<exists>hdr \<in> T Finalized. block_hash hdr = h' \<and> number hdr = n"
    if "hashes (putHash h t s) n = Some h'" for n h'
    using that store_okD(3) [OF s] by (simp add: fields)
  show "\<exists>hdr \<in> T u. block_hash hdr = h'" if "getHash (putHash h t s) u = Some h'" for u h'
  proof -
    have "getHash s u = Some h' \<or> u = t \<and> h' = h"
      using that by (auto simp: putHash_def getHash_def Let_def split: header_trust.splits if_splits)
    with store_okD(4) [OF s] assms(2,3) show ?thesis by auto
  qed
  show "\<exists>hdr \<in> T Finalized. block_hash hdr = h'" if "getEarliestHash (putHash h t s) = Some h'" for h'
  proof -
    have "getEarliestHash s = Some h' \<or> t = Finalized \<and> h' = h"
      using that by (auto simp: putHash_def getEarliestHash_def Let_def split: header_trust.splits if_splits)
    with store_okD(5) [OF s] assms(2,3) show ?thesis by auto
  qed
qed

lemma get_sound:
  assumes "trusts block_hash T" and "store_ok block_hash T s" and "get s h m = Some hdr"
  shows "block_hash hdr = h \<and> hdr \<in> T m"
proof -
  obtain c where "headers s h = Some c" "hdr = cached c" "m \<le> trust c"
    using assms(3) by (auto simp: get_def not_less split: option.splits if_splits)
  then show ?thesis
    using store_okD(1,2) [OF assms(2)] trustsD(2) [OF assms(1), of "cached c" "trust c" m] by simp
qed

lemma getHash_number_sound:
  assumes "store_ok block_hash T s" and "getHash_number s n m = Some h"
  shows "\<exists>hdr \<in> T Finalized. block_hash hdr = h \<and> number hdr = n"
  using assms store_okD(3) [OF assms(1)]
  by (auto simp: getHash_number_def indexed_hash_def Let_def split: option.splits if_splits)

lemma get_number_sound:
  assumes T: "trusts block_hash T" and s: "store_ok block_hash T s" and "get_number s n m = Some hdr"
  shows "hdr \<in> T Finalized \<and> number hdr = n"
proof -
  obtain h where h: "getHash_number s n m = Some h" "get s h m = Some hdr"
    using assms(3) by (auto simp: get_number_def split: option.splits)
  obtain hdr' where hdr': "hdr' \<in> T Finalized" "block_hash hdr' = h" "number hdr' = n"
    using getHash_number_sound [OF s h(1)] by blast
  with trustsD(3) [OF T hdr'(1), of hdr] get_sound [OF T s h(2)] show ?thesis by simp
qed

section \<open>Properties\<close>

datatype store_op =
    Put "hash32 \<Rightarrow> bool" block_header header_trust
  | PutHash block_header header_trust
  | Clear

text \<open>How the engine uses the store: a header under its hash, an anchor's hash.\<close>

fun store_do :: "(block_header \<Rightarrow> hash32) \<Rightarrow> store_op \<Rightarrow> header_store \<Rightarrow> header_store" where
  "store_do block_hash (Put ev hdr t) s = put ev hdr (block_hash hdr) t s"
| "store_do block_hash (PutHash hdr t) s = putHash (block_hash hdr) t s"
| "store_do block_hash Clear s = clear s"

fun justified :: "(header_trust \<Rightarrow> block_header set) \<Rightarrow> store_op \<Rightarrow> bool" where
  "justified T (Put ev hdr t) \<longleftrightarrow> hdr \<in> T t"
| "justified T (PutHash hdr t) \<longleftrightarrow> hdr \<in> T t"
| "justified T Clear \<longleftrightarrow> True"

lemma store_ok_fold:
  assumes "trusts block_hash T" and "\<forall>op \<in> set ops. justified T op" and "store_ok block_hash T s"
  shows "store_ok block_hash T (fold (store_do block_hash) ops s)"
  using assms(2,3)
proof (induction ops arbitrary: s)
  case (Cons op ops)
  have "store_ok block_hash T (store_do block_hash op s)"
    using Cons.prems store_ok_put [OF assms(1)] store_ok_putHash store_ok_clear by (cases op) auto
  with Cons show ?case by simp
qed simp

text \<open>
  C26: if every header is put into the store at a trust it deserves, then whatever is evicted
  and in whatever order headers and anchors arrive, a lookup by hash with a minimal trust
  returns the header of that hash, and one that deserves that trust; and a lookup by number
  returns a finalized header of that number.
\<close>

theorem store_answers_are_trusted:
  assumes "trusts block_hash T" and "\<forall>op \<in> set ops. justified T op"
  shows "(\<forall>h m hdr. get (fold (store_do block_hash) ops new_store) h m = Some hdr \<longrightarrow>
            block_hash hdr = h \<and> hdr \<in> T m) \<and>
         (\<forall>n m hdr. get_number (fold (store_do block_hash) ops new_store) n m = Some hdr \<longrightarrow>
            hdr \<in> T Finalized \<and> number hdr = n)"
  using get_sound [OF assms(1) store_ok_fold [OF assms store_ok_new]]
    get_number_sound [OF assms(1) store_ok_fold [OF assms store_ok_new]] by blast

definition empty_header :: block_header where
  "empty_header =
     \<lparr>parentHash = 0, ommersHash = 0, coinbase = 0, stateRoot = 0, transactionsRoot = 0,
      receiptsRoot = 0, logsBloom = 0, difficulty = 0, number = 0, gasLimit = 0, gasUsed = 0,
      timestamp = 0, extraData = [], mixHash = 0, nonce = 0, baseFeePerGas = None,
      withdrawalsRoot = None, blobGasUsed = None, excessBlobGas = None,
      parentBeaconBlockRoot = None, requestsHash = None\<rparr>"

theorem store_answers_are_trusted_witness:
  "let block_hash = (\<lambda>hdr. if hdr = empty_header\<lparr>number := 5\<rparr> then 77 else 1);
       s = fold (store_do block_hash)
             [Put (\<lambda>_. False) (empty_header\<lparr>number := 5\<rparr>) Finalized, Put (\<lambda>_. False) empty_header NoTrust] new_store
   in get_number s 5 Optimistic = Some (empty_header\<lparr>number := 5\<rparr>) \<and> get s 1 Optimistic = None \<and>
      (\<forall>n m hdr. get_number s n m = Some hdr \<longrightarrow> number hdr = n)"
proof -
  let ?hdr = "empty_header\<lparr>number := 5\<rparr>"
  let ?bh = "\<lambda>hdr. if hdr = ?hdr then 77 else 1 :: hash32"
  let ?T = "\<lambda>t. if t = NoTrust then UNIV else {?hdr}"
  let ?ops = "[Put (\<lambda>_. False) ?hdr Finalized, Put (\<lambda>_. False) empty_header NoTrust]"
  have "trusts ?bh ?T"
  proof -
    have "u = NoTrust" if "u \<le> NoTrust" for u using that by (cases u) (simp_all add: trust_order)
    then show ?thesis by (auto simp: trusts_def)
  qed
  moreover have "\<forall>op \<in> set ?ops. justified ?T op" by simp
  ultimately have sound: "\<forall>n m hdr. get_number (fold (store_do ?bh) ?ops new_store) n m = Some hdr \<longrightarrow>
      hdr \<in> ?T Finalized \<and> number hdr = n"
    by (rule store_answers_are_trusted [THEN conjunct2])
  have ne: "empty_header \<noteq> ?hdr" by (simp add: empty_header_def)
  show ?thesis
    unfolding Let_def
  proof (intro conjI)
    show "get_number (fold (store_do ?bh) ?ops new_store) 5 Optimistic = Some ?hdr"
      "get (fold (store_do ?bh) ?ops new_store) 1 Optimistic = None"
      using ne by (simp_all add: new_store_def put_def putCache_def get_number_def getHash_number_def
          indexed_hash_def get_def trust_order Let_def)
    show "\<forall>n m hdr. get_number (fold (store_do ?bh) ?ops new_store) n m = Some hdr \<longrightarrow> number hdr = n"
      using sound by blast
  qed
qed

text \<open>
  Inserting never takes trust away: as long as a header is not evicted, a lookup that
  succeeds keeps succeeding, and a header once put at some trust is found at that trust.
\<close>

theorem store_trust_is_monotone:
  assumes "\<forall>(ev, hdr, h', t) \<in> set puts. \<not> ev h"
    and "get s h m \<noteq> None \<or> (\<exists>ev hdr t. (ev, hdr, h, t) \<in> set puts \<and> m \<le> t)"
  shows "get (fold (\<lambda>(ev, hdr, h', t). put ev hdr h' t) puts s) h m \<noteq> None"
proof -
  have "by_hash.insert_all puts s = fold (\<lambda>(ev, hdr, h', t). put ev hdr h' t) puts s"
    by (induction puts s rule: by_hash.insert_all.induct) simp_all
  then show ?thesis
    using by_hash.insert_all_keeps [of puts h s m] by_hash.insert_all_available [of _ _ h _ puts m s] assms
    by metis
qed

theorem store_trust_is_monotone_witness:
  "get (fold (\<lambda>(ev, hdr, h', t). put ev hdr h' t)
     [(\<lambda>k. k = 9, empty_header, 4, Finalized), (\<lambda>_. False, empty_header, 4, NoTrust)] new_store)
   4 Finalized \<noteq> None"
  by (rule store_trust_is_monotone) auto

end
