(* ===== verification/Engine_State.thy ===== *)
theory Engine_State
  imports Header_Store Engine_Types "HOL-Library.AList"
begin

text \<open>
  The state of a verification engine (\<open>RpcVerificationEngine\<close> of \<open>engine/types.nim\<close>), the
  backends it asks and the environment it runs in.

  Everything the engine does not control is a function of a clock that every such event
  advances: what a backend answers and when, which backend the random generator picks, which
  entries a full cache drops, and what the other tasks of the process do to the engine while
  a procedure awaits an answer. Properties hold for every choice of these functions.
\<close>

section \<open>Backends\<close>

text \<open>
  An answer is a result or an error, or the call is cancelled (\<open>None\<close>); it may differ from call
  to call.
\<close>

type_synonym 'a reply = "nat \<Rightarrow> (error_tuple + 'a) option"

text \<open>The transaction arguments of a call are handed on as they are: here, their text.\<close>

type_synonym tx_args = string

record execution_api =
  be_chainId :: "u256 reply"
  be_getBlockByHash :: "hash32 \<Rightarrow> bool \<Rightarrow> block_object reply"
  be_getBlockByNumber :: "block_tag \<Rightarrow> bool \<Rightarrow> block_object reply"
  be_getProof :: "address \<Rightarrow> hash32 list \<Rightarrow> block_tag \<Rightarrow> proof_response reply"
  be_createAccessList :: "tx_args \<Rightarrow> block_tag \<Rightarrow> access_list reply"
  be_getCode :: "address \<Rightarrow> block_tag \<Rightarrow> byte list reply"
  be_getBlockReceipts :: "block_tag \<Rightarrow> receipt_object list option reply"
  be_getTransactionReceipt :: "hash32 \<Rightarrow> receipt_object option reply"
  be_getTransactionByHash :: "hash32 \<Rightarrow> transaction_object option reply"
  be_getLogs :: "filter_options \<Rightarrow> log_object list reply"
  be_sendRawTransaction :: "byte list \<Rightarrow> hash32 reply"

section \<open>The engine\<close>

text \<open>The filter store is a hash table; its entries in some order.\<close>

type_synonym filter_store = "(string \<times> filter_store_item) list"

record 'b engine = "(execution_api, 'b) pool" +
  headerStore :: header_store
  filterStore :: filter_store
  accountsCache :: "hash32 \<times> address \<rightharpoonup> account"
  codeCache :: "hash32 \<times> address \<rightharpoonup> byte list"
  storageCache :: "hash32 \<times> address \<times> u256 \<rightharpoonup> u256"
  engine_chainId :: u256
  maxBlockWalk :: u64
  maxWindowJumps :: u64
  parallelBlockDownloads :: u64
  eip2935ForkTime :: "u64 option"
  archive :: bool
  clock :: nat

type_synonym ('b, 'a) engine_proc = "('b engine, error_tuple, 'a) proc"

section \<open>The environment\<close>

datatype mpt_result = MissingKey | ValidProof | InvalidProof string

text \<open>
  What the engine asks the light client of nimbus-eth2: whether there is a beacon clock and the
  current slot, whether the store is initialized and the next sync committee known, and the
  slots of the store's headers.
\<close>

record light_client =
  beaconSlot :: "u64 option"
  lcStoreInitialized :: bool
  nextSyncCommitteeKnown :: bool
  finalizedSlot :: u64
  optimisticSlot :: u64

text \<open>
  The choices of the environment, and the functions of the Ethereum packages: hashing, RLP,
  trie roots and proofs.
\<close>

record 'b env =
  interfere :: "nat \<Rightarrow> 'b engine \<Rightarrow> 'b engine"
  draw :: "nat \<Rightarrow> nat"
  evicts :: "nat \<Rightarrow> hash32 \<Rightarrow> bool"
  evicts_account :: "nat \<Rightarrow> hash32 \<times> address \<Rightarrow> bool"
  evicts_slot :: "nat \<Rightarrow> hash32 \<times> address \<times> u256 \<Rightarrow> bool"
  computeBlockHash :: "block_header \<Rightarrow> hash32"
  keccak256 :: "byte list \<Rightarrow> hash32"
  rlp_account :: "account \<Rightarrow> byte list"
  rlp_u256 :: "u256 \<Rightarrow> byte list"
  verifyMptProof :: "byte list list \<Rightarrow> hash32 \<Rightarrow> byte list \<Rightarrow> byte list \<Rightarrow> mpt_result"
  EMPTY_ROOT_HASH :: hash32
  EMPTY_CODE_HASH :: hash32
  txTrieRoot :: "transaction list \<Rightarrow> hash32"
  withdrawalsTrieRoot :: "withdrawal list \<Rightarrow> hash32"
  computeRlpHash :: "transaction \<Rightarrow> hash32"
  cancels :: "nat \<Rightarrow> bool"
  tag_text :: "block_tag \<Rightarrow> string"
  receiptsTrieRoot :: "receipt list \<Rightarrow> hash32"
  light_client_at :: "nat \<Rightarrow> light_client"
  sync_committee_period :: "u64 \<Rightarrow> u64"
  randomBytes :: "nat \<Rightarrow> byte list"
  toHex :: "byte list \<Rightarrow> string"

definition tick :: "'b engine \<Rightarrow> 'b engine" where
  "tick e = e\<lparr>clock := Suc (clock e)\<rparr>"

text \<open>\<open>await\<close>: the answer is what it is at that time; meanwhile other tasks may have run.\<close>

definition await :: "'b env \<Rightarrow> 'a reply \<Rightarrow> ('b, 'a) engine_proc" where
  "await env reply e =
     ((case reply (clock e) of
         None \<Rightarrow> Cancelled
       | Some (Inl err) \<Rightarrow> Fail err
       | Some (Inr x) \<Rightarrow> Done x),
      interfere env (clock e) (tick e))"

text \<open>
  \<open>allFutures\<close>: every call is made, and the waiting task goes on when all have ended, unless it
  is cancelled itself. A call that did not complete is \<open>None\<close>.
\<close>

definition await_all :: "'b env \<Rightarrow> 'a reply list \<Rightarrow> ('b, (error_tuple + 'a) option list) engine_proc" where
  "await_all env replies e =
     ((if cancels env (clock e) then Cancelled
       else Done (map (\<lambda>reply. reply (clock e)) replies)),
      interfere env (clock e) (tick e))"

definition backendFor :: "'b env \<Rightarrow> capability \<Rightarrow> ('b, execution_api \<times> nat) engine_proc" where
  "backendFor env cap e = executionBackendFor (draw env (clock e)) cap (tick e)"

definition tagged :: "nat \<Rightarrow> ('b, 'a) engine_proc \<Rightarrow> ('b, 'a) engine_proc" where
  "tagged idx m e =
     (case m e of
        (Fail err, e') \<Rightarrow> (Fail (tag_error idx err), e')
      | r \<Rightarrow> r)"

text \<open>\<open>(await backend.call(...)).tagBackend(idx)\<close> with a backend chosen for the capability.\<close>

definition ask :: "'b env \<Rightarrow> capability \<Rightarrow> (execution_api \<Rightarrow> 'a reply) \<Rightarrow> ('b, 'a \<times> nat) engine_proc" where
  "ask env cap call =
     andThen (backendFor env cap) (\<lambda>(backend, idx).
       andThen (tagged idx (await env (call backend))) (\<lambda>x. ret (x, idx)))"

definition engine_fail :: "engine_error \<Rightarrow> string \<Rightarrow> ('b, 'a) engine_proc" where
  "engine_fail t msg = fail (engine_err t msg)"

definition backend_fail :: "engine_error \<Rightarrow> string \<Rightarrow> nat \<Rightarrow> ('b, 'a) engine_proc" where
  "backend_fail t msg idx = fail \<lparr>errType = t, errMsg = msg, backendIdx = int idx\<rparr>"

section \<open>Stores and caches\<close>

definition store_put :: "'b env \<Rightarrow> block_header \<Rightarrow> hash32 \<Rightarrow> header_trust \<Rightarrow> ('b, unit) engine_proc" where
  "store_put env hdr hash t =
     update (\<lambda>e. tick (e\<lparr>headerStore := put (evicts env (clock e)) hdr hash t (headerStore e)\<rparr>))"

definition cache_put :: "('k \<Rightarrow> bool) \<Rightarrow> 'k \<Rightarrow> 'v \<Rightarrow> ('k \<rightharpoonup> 'v) \<Rightarrow> ('k \<rightharpoonup> 'v)" where
  "cache_put evicted k v m = (\<lambda>k'. if evicted k' then None else (m(k \<mapsto> v)) k')"

lemma cache_put_SomeD: "cache_put ev k v m k' = Some v' \<Longrightarrow> k' = k \<and> v' = v \<or> m k' = Some v'"
  by (auto simp: cache_put_def split: if_splits)

definition accounts_put :: "'b env \<Rightarrow> hash32 \<times> address \<Rightarrow> account \<Rightarrow> ('b, unit) engine_proc" where
  "accounts_put env k acc =
     update (\<lambda>e. tick (e\<lparr>accountsCache := cache_put (evicts_account env (clock e)) k acc (accountsCache e)\<rparr>))"

definition code_put :: "'b env \<Rightarrow> hash32 \<times> address \<Rightarrow> byte list \<Rightarrow> ('b, unit) engine_proc" where
  "code_put env k code =
     update (\<lambda>e. tick (e\<lparr>codeCache := cache_put (evicts_account env (clock e)) k code (codeCache e)\<rparr>))"

definition storage_put :: "'b env \<Rightarrow> hash32 \<times> address \<times> u256 \<Rightarrow> u256 \<Rightarrow> ('b, unit) engine_proc" where
  "storage_put env k v =
     update (\<lambda>e. tick (e\<lparr>storageCache := cache_put (evicts_slot env (clock e)) k v (storageCache e)\<rparr>))"

section \<open>What the engine may hold\<close>

definition MAX_FILTERS :: nat where "MAX_FILTERS = 256"

definition filters_ok :: "filter_store \<Rightarrow> bool" where
  "filters_ok fs \<longleftrightarrow> distinct (map fst fs) \<and> length fs \<le> MAX_FILTERS"

text \<open>
  The truth the engine is to report: which headers deserve which trust, which state roots are
  genuine, and the account and slot values under them.
\<close>

record truth =
  trusted :: "header_trust \<Rightarrow> block_header set"
  state_roots :: "hash32 set"
  account_at :: "hash32 \<Rightarrow> address \<Rightarrow> account"
  slot_at :: "hash32 \<Rightarrow> u256 \<Rightarrow> u256"

definition engine_ok :: "'b env \<Rightarrow> truth \<Rightarrow> 'b engine \<Rightarrow> bool" where
  "engine_ok env w e \<longleftrightarrow>
     pool_ok e \<and> filters_ok (filterStore e) \<and>
     store_ok (computeBlockHash env) (trusted w) (headerStore e) \<and>
     (\<forall>root addr acc. accountsCache e (root, addr) = Some acc \<longrightarrow> root \<in> state_roots w \<longrightarrow>
        acc = account_at w root addr) \<and>
     (\<forall>root addr code. codeCache e (root, addr) = Some code \<longrightarrow> root \<in> state_roots w \<longrightarrow>
        keccak256 env code = acc_codeHash (account_at w root addr)) \<and>
     (\<forall>root addr slot v. storageCache e (root, addr, slot) = Some v \<longrightarrow> root \<in> state_roots w \<longrightarrow>
        v = slot_at w (acc_storageRoot (account_at w root addr)) slot)"

text \<open>The other tasks of the process keep the invariant too.\<close>

definition calm :: "'b env \<Rightarrow> truth \<Rightarrow> bool" where
  "calm env w \<longleftrightarrow> (\<forall>n e. engine_ok env w e \<longrightarrow> engine_ok env w (interfere env n e))"

lemma engine_okD:
  assumes "engine_ok env w e"
  shows "pool_ok e" "store_ok (computeBlockHash env) (trusted w) (headerStore e)"
    "accountsCache e (root, addr) = Some acc \<Longrightarrow> root \<in> state_roots w \<Longrightarrow> acc = account_at w root addr"
    "codeCache e (root, addr) = Some code \<Longrightarrow> root \<in> state_roots w \<Longrightarrow>
       keccak256 env code = acc_codeHash (account_at w root addr)"
    "storageCache e (root, addr, slot) = Some v \<Longrightarrow> root \<in> state_roots w \<Longrightarrow>
       v = slot_at w (acc_storageRoot (account_at w root addr)) slot"
    "filters_ok (filterStore e)"
  using assms by (auto simp: engine_ok_def)

lemma tick_fields [simp]:
  "headerStore (tick e) = headerStore e" "filterStore (tick e) = filterStore e"
  "accountsCache (tick e) = accountsCache e"
  "codeCache (tick e) = codeCache e" "storageCache (tick e) = storageCache e"
  by (simp_all add: tick_def)

lemma pool_ok_engine_fields [simp]:
  fixes e :: "'b engine"
  shows "pool_ok (tick e) = pool_ok e" "pool_ok (e\<lparr>headerStore := s\<rparr>) = pool_ok e"
    "pool_ok (e\<lparr>accountsCache := ac\<rparr>) = pool_ok e" "pool_ok (e\<lparr>codeCache := cc\<rparr>) = pool_ok e"
    "pool_ok (e\<lparr>storageCache := sc\<rparr>) = pool_ok e" "pool_ok (e\<lparr>filterStore := fs\<rparr>) = pool_ok e"
  by (simp_all add: pool_ok_def tick_def)

lemma engine_ok_tick [simp]: "engine_ok env w (tick e) = engine_ok env w e"
  by (simp add: engine_ok_def)

lemma engine_ok_scores:
  assumes "engine_ok env w e" and "pool_ok (e\<lparr>scores := sc\<rparr>)"
  shows "engine_ok env w (e\<lparr>scores := sc\<rparr>)"
  using assms by (simp add: engine_ok_def)

lemma executionBackendFor_state:
  "snd (executionBackendFor d cap e) = snd (selectBackend d cap e)"
  by (auto simp: executionBackendFor_def andThen_def split: prod.splits outcome.splits option.splits)

lemma engine_ok_backendFor:
  assumes "engine_ok env w e"
  shows "engine_ok env w (snd (backendFor env cap e))"
proof -
  let ?s = "snd (selectBackend (draw env (clock e)) cap (tick e))"
  obtain sc where sc: "?s = (tick e)\<lparr>scores := sc\<rparr>"
    using selectBackend_only_scores by blast
  have "pool_ok ?s"
    using assms by (intro pool_ok_select) (simp add: engine_ok_def)
  with assms show ?thesis
    unfolding backendFor_def executionBackendFor_state sc
    by (intro engine_ok_scores) simp_all
qed

lemma backendFor_not_stuck: "fst (backendFor env cap e) \<noteq> Stuck"
  by (simp add: backendFor_def executionBackendFor_def andThen_def selectBackend_def Let_def
      split: prod.splits outcome.splits option.splits sum.splits)

section \<open>Hoare rules of the building blocks\<close>

lemma hoare_backendFor [hoare_rules]:
  fixes env :: "'b env"
  assumes "\<And>e. P e \<Longrightarrow> engine_ok env w e"
  shows "hoare P (backendFor env cap) (\<lambda>_. engine_ok env w) (engine_ok env w)"
proof (rule hoareI)
  fix e :: "'b engine" assume "P e"
  from engine_ok_backendFor [OF assms [OF this], of cap]
  have "engine_ok env w (snd (backendFor env cap e))" .
  moreover note backendFor_not_stuck [of env cap e]
  ultimately show "ends (\<lambda>_. engine_ok env w) (engine_ok env w) (backendFor env cap e)"
    by (cases "backendFor env cap e"; cases "fst (backendFor env cap e)") auto
qed

lemma hoare_await [hoare_rules]:
  assumes "calm env w" and "\<And>e. P e \<Longrightarrow> engine_ok env w e"
  shows "hoare P (await env reply) (\<lambda>_. engine_ok env w) (engine_ok env w)"
proof (rule hoareI)
  fix e assume "P e"
  then have "engine_ok env w (interfere env (clock e) (tick e))"
    using assms by (simp add: calm_def)
  then show "ends (\<lambda>_. engine_ok env w) (engine_ok env w) (await env reply e)"
    by (auto simp: await_def split: option.splits sum.splits)
qed

lemma hoare_await_all:
  assumes "calm env w" and "\<And>e. P e \<Longrightarrow> engine_ok env w e"
  shows "hoare P (await_all env replies) (\<lambda>_. engine_ok env w) (engine_ok env w)"
proof (rule hoareI)
  fix e assume "P e"
  then have "engine_ok env w (interfere env (clock e) (tick e))"
    using assms by (simp add: calm_def)
  then show "ends (\<lambda>_. engine_ok env w) (engine_ok env w) (await_all env replies e)"
    by (simp add: await_all_def)
qed

lemma hoare_tagged: "hoare P m Q E \<Longrightarrow> hoare P (tagged idx m) Q E"
  by (auto simp: hoare_def tagged_def split: prod.splits outcome.splits)

lemma hoare_ask [hoare_rules]:
  assumes "calm env w" and "\<And>e. P e \<Longrightarrow> engine_ok env w e"
  shows "hoare P (ask env cap call) (\<lambda>_. engine_ok env w) (engine_ok env w)"
  unfolding ask_def split_def
  apply (rule hoare_andThen [where R = "\<lambda>_. engine_ok env w"])
   apply (rule hoare_backendFor, erule assms(2))
  apply (rule hoare_andThen [where R = "\<lambda>_. engine_ok env w"])
   apply (rule hoare_tagged, rule hoare_await [OF assms(1)], assumption)
  apply (rule hoare_ret, assumption)
  done

lemma hoare_engine_fail [hoare_rules]:
  "(\<And>e. P e \<Longrightarrow> E e) \<Longrightarrow> hoare P (engine_fail t msg) Q E"
  by (simp add: engine_fail_def hoare_fail)

lemma hoare_backend_fail [hoare_rules]:
  "(\<And>e. P e \<Longrightarrow> E e) \<Longrightarrow> hoare P (backend_fail t msg idx) Q E"
  by (simp add: backend_fail_def hoare_fail)

lemma hoare_store_put:
  assumes "trusts (computeBlockHash env) (trusted w)"
    and "\<And>e. P e \<Longrightarrow> engine_ok env w e \<and> computeBlockHash env hdr = h \<and> hdr \<in> trusted w t"
  shows "hoare P (store_put env hdr h t) (\<lambda>_. engine_ok env w) E"
  unfolding store_put_def
proof (rule hoare_update)
  fix e assume "P e"
  with assms(2) have e: "engine_ok env w e" "computeBlockHash env hdr = h" "hdr \<in> trusted w t" by auto
  from store_ok_put [OF assms(1) engine_okD(2) [OF e(1)] e(2,3)] e(1)
  show "engine_ok env w (tick (e\<lparr>headerStore := put (evicts env (clock e)) hdr h t (headerStore e)\<rparr>))"
    by (simp add: engine_ok_def)
qed

lemma yields_engine [yields_rules]:
  "yields (engine_ok env w) (engine_fail t msg) B" "yields (engine_ok env w) (backend_fail t msg idx) B"
  by (simp_all add: engine_fail_def backend_fail_def yields_rules)

lemma yields_ask: "calm env w \<Longrightarrow> yields (engine_ok env w) (ask env cap call) (\<lambda>_. True)"
  by (rule yields_keeping, rule hoare_ask)

lemma yields_tagged: "yields I m B \<Longrightarrow> yields I (tagged idx m) B"
  unfolding yields_def by (rule hoare_tagged)

lemma yields_store_put:
  "trusts (computeBlockHash env) (trusted w) \<Longrightarrow> computeBlockHash env hdr = h \<Longrightarrow> hdr \<in> trusted w t \<Longrightarrow>
   yields (engine_ok env w) (store_put env hdr h t) (\<lambda>_. True)"
  by (rule yields_keeping, rule hoare_store_put) auto

lemma crash_free_selectBackend [crash_free_rules]: "crash_free (selectBackend d cap)"
  by (simp add: crash_free_def selectBackend_def Let_def split: sum.splits option.splits)

lemma crash_free_executionBackendFor [crash_free_rules]: "crash_free (executionBackendFor d cap)"
  unfolding executionBackendFor_def
  by (intro crash_free_andThen crash_free_selectBackend) (simp add: crash_free_def split: option.splits)

lemma crash_free_backendFor [crash_free_rules]: "crash_free (backendFor env cap)"
  by (simp add: crash_free_def backendFor_def crash_freeD [OF crash_free_executionBackendFor])

lemma crash_free_await [crash_free_rules]: "crash_free (await env reply)"
  by (simp add: crash_free_def await_def split: option.splits sum.splits)

lemma crash_free_tagged [crash_free_rules]: "crash_free m \<Longrightarrow> crash_free (tagged idx m)"
  by (auto simp: crash_free_def tagged_def split: prod.splits outcome.splits)
    (metis fst_conv)

lemma crash_free_ask [crash_free_rules]: "crash_free (ask env cap call)"
  unfolding ask_def split_def by (intro crash_free_rules)

lemma crash_free_fails [crash_free_rules]:
  "crash_free (engine_fail t msg)" "crash_free (backend_fail t msg idx)"
  by (simp_all add: engine_fail_def backend_fail_def crash_free_rules)

lemma crash_free_puts [crash_free_rules]:
  "crash_free (store_put env hdr h t)" "crash_free (accounts_put env ak acc)"
  "crash_free (code_put env ck code)" "crash_free (storage_put env sk v)"
  by (simp_all add: store_put_def accounts_put_def code_put_def storage_put_def crash_free_rules)

section \<open>A concrete engine and environment\<close>

text \<open>An environment in which nothing interferes, for evaluating the procedures on examples.\<close>

definition silent_api :: execution_api where
  "silent_api =
     \<lparr>be_chainId = (\<lambda>_. None), be_getBlockByHash = (\<lambda>_ _ _. None),
      be_getBlockByNumber = (\<lambda>_ _ _. None), be_getProof = (\<lambda>_ _ _ _. None),
      be_createAccessList = (\<lambda>_ _ _. None), be_getCode = (\<lambda>_ _ _. None),
      be_getBlockReceipts = (\<lambda>_ _. None), be_getTransactionReceipt = (\<lambda>_ _. None),
      be_getTransactionByHash = (\<lambda>_ _. None), be_getLogs = (\<lambda>_ _. None),
      be_sendRawTransaction = (\<lambda>_ _. None)\<rparr>"

definition number_hash :: "block_header \<Rightarrow> hash32" where
  "number_hash hdr = ucast (number hdr) + 1000"

definition quiet_env :: "unit env" where
  "quiet_env =
     \<lparr>interfere = (\<lambda>_ e. e), draw = (\<lambda>_. 0), evicts = (\<lambda>_ _. False),
      evicts_account = (\<lambda>_ _. False), evicts_slot = (\<lambda>_ _. False),
      computeBlockHash = number_hash, keccak256 = (\<lambda>_. 3),
      rlp_account = (\<lambda>acc. [ucast (acc_balance acc)]), rlp_u256 = (\<lambda>v. [ucast v]),
      verifyMptProof = (\<lambda>_ _ _ v. if v = [42] then ValidProof else InvalidProof ''bad proof''),
      EMPTY_ROOT_HASH = 1, EMPTY_CODE_HASH = 2,
      txTrieRoot = (\<lambda>_. 4), withdrawalsTrieRoot = (\<lambda>_. 5), computeRlpHash = (\<lambda>_. 6),
      cancels = (\<lambda>_. False), tag_text = (\<lambda>_. ''a tag''),
      receiptsTrieRoot = (\<lambda>_. 7),
      light_client_at = (\<lambda>_. \<lparr>beaconSlot = Some 0, lcStoreInitialized = True,
        nextSyncCommitteeKnown = True, finalizedSlot = 0, optimisticSlot = 0\<rparr>),
      sync_committee_period = (\<lambda>slot. slot div 8192), randomBytes = (\<lambda>n. replicate 8 (of_nat n)),
      toHex = (\<lambda>bytes. concat (map (\<lambda>b. [''0123456789abcdef'' ! unat (b div 16),
        ''0123456789abcdef'' ! unat (b mod 16)]) bytes))\<rparr>"

definition demo_engine :: "execution_api \<Rightarrow> unit engine" where
  "demo_engine api =
     \<lparr>numBackends = 1, executionBackends = [0 \<mapsto> api], beaconBackends = Map.empty,
      scores = [0 \<mapsto> \<lparr>availability = 0, quality = 0\<rparr>],
      capabilityIndex = (\<lambda>cap. if cap \<in> fullExecutionCapabilities then [0] else []),
      availabilityScoreFunc = defaultAvailabilityScoreFunc,
      qualityScoreFunc = defaultQualityScoreFunc,
      headerStore = new_store, filterStore = [], accountsCache = Map.empty, codeCache = Map.empty,
      storageCache = Map.empty, engine_chainId = 1, maxBlockWalk = 1000, maxWindowJumps = 500,
      parallelBlockDownloads = 10, eip2935ForkTime = None, archive = False, clock = 0\<rparr>"

lemma pool_ok_demo: "pool_ok (demo_engine api)"
  by (auto simp: pool_ok_def demo_engine_def score_ok_def dest: capability_kinds split: if_splits)

lemma filters_ok_demo [simp]: "filters_ok (filterStore (demo_engine api))"
  by (simp add: demo_engine_def filters_ok_def)

lemma engine_ok_demo: "engine_ok env w (demo_engine api)"
  by (simp add: engine_ok_def pool_ok_demo) (simp add: demo_engine_def store_ok_new filters_ok_def)

lemma calm_quiet: "interfere env = (\<lambda>_ e. e) \<Longrightarrow> calm env w"
  by (simp add: calm_def)

end
