(* ===== verification/Accounts.thy ===== *)
theory Accounts
  imports Engine_State
begin

text \<open>
  Accounts, code and storage read from an untrusted backend (\<open>engine/accounts.nim\<close>): every
  value is proved against a state root with a Merkle proof, or against a hash that was, before
  it is cached or returned.
\<close>

section \<open>Reading a proof\<close>

definition EMPTY_ACCOUNT :: "'b env \<Rightarrow> account" where
  "EMPTY_ACCOUNT env =
     \<lparr>acc_nonce = 0, acc_balance = 0, acc_storageRoot = EMPTY_ROOT_HASH env,
      acc_codeHash = EMPTY_CODE_HASH env\<rparr>"

text \<open>The big-endian bytes of an address, a slot or a hash.\<close>

definition word_bytes :: "'a::len word \<Rightarrow> byte list" where
  "word_bytes x = map (\<lambda>i. ucast (drop_bit (8 * i) x)) (rev [0..<LENGTH('a) div 8])"

definition trie_key :: "'b env \<Rightarrow> 'a::len word \<Rightarrow> byte list" where
  "trie_key env k = word_bytes (keccak256 env (word_bytes k))"

definition getAccountFromProof ::
    "'b env \<Rightarrow> hash32 \<Rightarrow> address \<Rightarrow> u256 \<Rightarrow> u64 \<Rightarrow> hash32 \<Rightarrow> hash32 \<Rightarrow> byte list list \<Rightarrow> error_tuple + account" where
  "getAccountFromProof env root addr accountBalance accountNonce accountCodeHash accountStorageRoot mptNodes =
     (let acc = \<lparr>acc_nonce = accountNonce, acc_balance = accountBalance,
                 acc_storageRoot = accountStorageRoot, acc_codeHash = accountCodeHash\<rparr>
      in case verifyMptProof env mptNodes root (trie_key env addr) (rlp_account env acc) of
           MissingKey \<Rightarrow> Inr (EMPTY_ACCOUNT env)
         | ValidProof \<Rightarrow> Inr acc
         | InvalidProof msg \<Rightarrow> Inl (engine_err VerificationError msg))"

definition getStorageFromStorageProof :: "'b env \<Rightarrow> account \<Rightarrow> storage_proof \<Rightarrow> error_tuple + u256" where
  "getStorageFromStorageProof env acc sp =
     (case verifyMptProof env (sp_proof sp) (acc_storageRoot acc) (trie_key env (sp_key sp))
             (rlp_u256 env (sp_value sp)) of
        MissingKey \<Rightarrow> Inr 0
      | ValidProof \<Rightarrow> Inr (sp_value sp)
      | InvalidProof msg \<Rightarrow> Inl (engine_err VerificationError msg))"

definition getStorageFromProof ::
    "'b env \<Rightarrow> account \<Rightarrow> u256 \<Rightarrow> proof_response \<Rightarrow> nat \<Rightarrow> error_tuple + u256" where
  "getStorageFromProof env acc requestedSlot proof storageProofIndex =
     (if acc_storageRoot acc = EMPTY_ROOT_HASH env then Inr 0
      else if length (pr_storageProof proof) \<le> storageProofIndex then
        Inl (engine_err VerificationError ''no storage proof for requested slot'')
      else let sp = pr_storageProof proof ! storageProofIndex in
        if length (sp_proof sp) = 0 then
          Inl (engine_err VerificationError ''empty mpt proof for account with not empty storage'')
        else if sp_key sp \<noteq> requestedSlot then
          Inl (engine_err VerificationError ''received proof for invalid slot'')
        else getStorageFromStorageProof env acc sp)"

definition getStorageFromStateProof ::
    "'b env \<Rightarrow> hash32 \<Rightarrow> address \<Rightarrow> u256 \<Rightarrow> proof_response \<Rightarrow> nat \<Rightarrow> error_tuple + u256" where
  "getStorageFromStateProof env root addr requestedSlot proof storageProofIndex =
     (case getAccountFromProof env root addr (pr_balance proof) (pr_nonce proof) (pr_codeHash proof)
             (pr_storageHash proof) (pr_accountProof proof) of
        Inl e \<Rightarrow> Inl e
      | Inr acc \<Rightarrow> getStorageFromProof env acc requestedSlot proof storageProofIndex)"

section \<open>The engine's procedures\<close>

definition provenAccount ::
    "'b env \<Rightarrow> address \<Rightarrow> hash32 \<Rightarrow> proof_response \<Rightarrow> nat \<Rightarrow> ('b, account) engine_proc" where
  "provenAccount env addr root proof idx =
     ofResult (tagBackend idx
       (getAccountFromProof env root addr (pr_balance proof) (pr_nonce proof) (pr_codeHash proof)
          (pr_storageHash proof) (pr_accountProof proof)))"

definition getAccount :: "'b env \<Rightarrow> address \<Rightarrow> u64 \<Rightarrow> hash32 \<Rightarrow> ('b, account) engine_proc" where
  "getAccount env addr blockNumber root =
     andThen (gets (\<lambda>e. accountsCache e (root, addr))) (\<lambda>cachedAcc.
       case cachedAcc of
         Some acc \<Rightarrow> ret acc
       | None \<Rightarrow>
           andThen (ask env GetProof (\<lambda>b. be_getProof b addr [] (BidNumber blockNumber))) (\<lambda>(proof, idx).
           andThen (provenAccount env addr root proof idx) (\<lambda>acc.
           andThen (accounts_put env (root, addr) acc) (\<lambda>_.
           ret acc))))"

definition getCode :: "'b env \<Rightarrow> address \<Rightarrow> u64 \<Rightarrow> hash32 \<Rightarrow> ('b, byte list) engine_proc" where
  "getCode env addr blockNumber root =
     andThen (getAccount env addr blockNumber root) (\<lambda>acc.
       if acc_codeHash acc = EMPTY_CODE_HASH env then ret []
       else andThen (gets (\<lambda>e. codeCache e (root, addr))) (\<lambda>cachedCode.
         case cachedCode of
           Some code \<Rightarrow> ret code
         | None \<Rightarrow>
             andThen (ask env GetCode (\<lambda>b. be_getCode b addr (BidNumber blockNumber))) (\<lambda>(code, idx).
               if acc_codeHash acc = keccak256 env code then
                 andThen (code_put env (root, addr) code) (\<lambda>_. ret code)
               else backend_fail VerificationError
                 ''received code doesn't match the account code hash'' idx)))"

text \<open>
  \<open>getStorageAt\<close>: a first loop splits the slots into those in the cache and those to fetch,
  which it remembers with their positions; a second one fills the gaps from one proof.
\<close>

fun scan_slots ::
    "(hash32 \<times> address \<times> u256 \<rightharpoonup> u256) \<Rightarrow> hash32 \<Rightarrow> address \<Rightarrow> nat \<Rightarrow> u256 list \<Rightarrow>
     u256 list \<times> u256 list \<times> nat list" where
  "scan_slots cache root addr i [] = ([], [], [])"
| "scan_slots cache root addr i (s # ss) =
     (let (slotValues, toFetch, toFetchIdx) = scan_slots cache root addr (Suc i) ss
      in case cache (root, addr, s) of
           Some v \<Rightarrow> (v # slotValues, toFetch, toFetchIdx)
         | None \<Rightarrow> (0 # slotValues, s # toFetch, i # toFetchIdx))"

fun fill_slots ::
    "'b env \<Rightarrow> hash32 \<Rightarrow> address \<Rightarrow> account \<Rightarrow> proof_response \<Rightarrow> nat \<Rightarrow> nat \<Rightarrow> u256 list \<Rightarrow> nat list \<Rightarrow>
     u256 list \<Rightarrow> ('b, u256 list) engine_proc" where
  "fill_slots env root addr acc proof idx i [] js slotValues = ret slotValues"
| "fill_slots env root addr acc proof idx i (s # ss) js slotValues =
     andThen (ofResult (tagBackend idx (getStorageFromProof env acc s proof i))) (\<lambda>v.
     andThen (storage_put env (root, addr, s) v) (\<lambda>_.
       case js of
         j # js' \<Rightarrow>
           if j < length slotValues
           then fill_slots env root addr acc proof idx (Suc i) ss js' (slotValues[j := v])
           else defect
       | [] \<Rightarrow> defect))"

definition getStorageAt ::
    "'b env \<Rightarrow> address \<Rightarrow> u256 list \<Rightarrow> u64 \<Rightarrow> hash32 \<Rightarrow> ('b, u256 list) engine_proc" where
  "getStorageAt env addr slots blockNumber root =
     andThen (gets (\<lambda>e. scan_slots (storageCache e) root addr 0 slots))
       (\<lambda>(slotValues, toFetch, toFetchIdx).
         if toFetch = [] then ret slotValues
         else
           andThen (ask env GetProof (\<lambda>b. be_getProof b addr toFetch (BidNumber blockNumber))) (\<lambda>(proof, idx).
           andThen (provenAccount env addr root proof idx) (\<lambda>acc.
           andThen (accounts_put env (root, addr) acc) (\<lambda>_.
             fill_slots env root addr acc proof idx 0 toFetch toFetchIdx slotValues))))"

fun cache_slots ::
    "'b env \<Rightarrow> hash32 \<Rightarrow> address \<Rightarrow> account \<Rightarrow> proof_response \<Rightarrow> nat \<Rightarrow> nat \<Rightarrow> u256 list \<Rightarrow>
     ('b, unit) engine_proc" where
  "cache_slots env root addr acc proof idx i [] = ret ()"
| "cache_slots env root addr acc proof idx i (s # ss) =
     andThen (ofResult (tagBackend idx (getStorageFromProof env acc s proof i))) (\<lambda>v.
     andThen (storage_put env (root, addr, s) v) (\<lambda>_.
       cache_slots env root addr acc proof idx (Suc i) ss))"

definition populateCachesForAccountAndSlots ::
    "'b env \<Rightarrow> address \<Rightarrow> u256 list \<Rightarrow> u64 \<Rightarrow> hash32 \<Rightarrow> ('b, unit) engine_proc" where
  "populateCachesForAccountAndSlots env addr slots blockNumber root =
     andThen (gets (\<lambda>e. (filter (\<lambda>s. storageCache e (root, addr, s) = None) slots,
                         accountsCache e (root, addr) = None)))
       (\<lambda>(toFetch, missing).
         if missing \<or> toFetch \<noteq> [] then
           andThen (ask env GetProof (\<lambda>b. be_getProof b addr toFetch (BidNumber blockNumber))) (\<lambda>(proof, idx).
           andThen (provenAccount env addr root proof idx) (\<lambda>acc.
           andThen (accounts_put env (root, addr) acc) (\<lambda>_.
             cache_slots env root addr acc proof idx 0 toFetch)))
         else ret ())"

text \<open>
  \<open>populateCachesUsingAccessList\<close> starts one task per entry and waits for all of them; what
  each comes to is not looked at. One schedule of them is to run them one after the other;
  the others are covered by the interference every task is exposed to.
\<close>

definition settled_task :: "('b, unit) engine_proc \<Rightarrow> ('b, unit) engine_proc" where
  "settled_task m e =
     (case m e of
        (Defect, e') \<Rightarrow> (Defect, e')
      | (Stuck, e') \<Rightarrow> (Stuck, e')
      | (_, e') \<Rightarrow> (Done (), e'))"

fun populate_all :: "'b env \<Rightarrow> access_list \<Rightarrow> u64 \<Rightarrow> hash32 \<Rightarrow> ('b, unit) engine_proc" where
  "populate_all env [] blockNumber root = ret ()"
| "populate_all env ((addr, keys) # rest) blockNumber root =
     andThen (settled_task (populateCachesForAccountAndSlots env addr keys blockNumber root))
       (\<lambda>_. populate_all env rest blockNumber root)"

definition populateCachesUsingAccessList ::
    "'b env \<Rightarrow> u64 \<Rightarrow> hash32 \<Rightarrow> tx_args \<Rightarrow> ('b, unit) engine_proc" where
  "populateCachesUsingAccessList env blockNumber root tx =
     andThen (ask env CreateAccessList (\<lambda>b. be_createAccessList b tx (BidNumber blockNumber)))
       (\<lambda>(accessList, idx). populate_all env accessList blockNumber root)"

section \<open>Soundness\<close>

text \<open>
  What the proof checker is trusted for, at genuine state roots: a valid proof proves the true
  value, a proof of absence proves that the account is empty or the slot zero; and a storage
  trie with the empty root holds zeros.
\<close>

definition proofs_sound :: "'b env \<Rightarrow> truth \<Rightarrow> bool" where
  "proofs_sound env w \<longleftrightarrow>
     (\<forall>root \<in> state_roots w. \<forall>addr nodes acc.
        (verifyMptProof env nodes root (trie_key env addr) (rlp_account env acc) = ValidProof \<longrightarrow>
           acc = account_at w root addr) \<and>
        (verifyMptProof env nodes root (trie_key env addr) (rlp_account env acc) = MissingKey \<longrightarrow>
           account_at w root addr = EMPTY_ACCOUNT env)) \<and>
     (\<forall>root \<in> state_roots w. \<forall>addr nodes slot v.
        (verifyMptProof env nodes (acc_storageRoot (account_at w root addr)) (trie_key env slot)
           (rlp_u256 env v) = ValidProof \<longrightarrow>
           v = slot_at w (acc_storageRoot (account_at w root addr)) slot) \<and>
        (verifyMptProof env nodes (acc_storageRoot (account_at w root addr)) (trie_key env slot)
           (rlp_u256 env v) = MissingKey \<longrightarrow>
           slot_at w (acc_storageRoot (account_at w root addr)) slot = 0)) \<and>
     (\<forall>slot. slot_at w (EMPTY_ROOT_HASH env) slot = 0)"

lemma getAccountFromProof_sound:
  assumes "proofs_sound env w" and "root \<in> state_roots w"
    and "getAccountFromProof env root addr bal non ch sr nodes = Inr acc"
  shows "acc = account_at w root addr"
  using assms by (auto simp: getAccountFromProof_def proofs_sound_def Let_def split: mpt_result.splits)

lemma getStorageFromProof_sound:
  assumes "proofs_sound env w" and "root \<in> state_roots w"
    and "getStorageFromProof env (account_at w root addr) slot proof i = Inr v"
  shows "v = slot_at w (acc_storageRoot (account_at w root addr)) slot"
proof -
  let ?acc = "account_at w root addr"
  have empty: "slot_at w (EMPTY_ROOT_HASH env) slot = 0" using assms(1) by (simp add: proofs_sound_def)
  have valid: "verifyMptProof env nodes (acc_storageRoot ?acc) (trie_key env slot) (rlp_u256 env u) = ValidProof
      \<Longrightarrow> u = slot_at w (acc_storageRoot ?acc) slot"
    and missing: "verifyMptProof env nodes (acc_storageRoot ?acc) (trie_key env slot) (rlp_u256 env u) = MissingKey
      \<Longrightarrow> slot_at w (acc_storageRoot ?acc) slot = 0" for nodes u
    using assms(1,2) unfolding proofs_sound_def by blast+
  from assms(3) show ?thesis
    using empty valid missing
    by (auto simp: getStorageFromProof_def getStorageFromStorageProof_def Let_def
        split: if_splits mpt_result.splits)
qed

text \<open>At roots that are not genuine nothing is claimed, and nothing can go wrong.\<close>

definition true_account :: "truth \<Rightarrow> hash32 \<Rightarrow> address \<Rightarrow> account \<Rightarrow> bool" where
  "true_account w root addr acc \<longleftrightarrow> (root \<in> state_roots w \<longrightarrow> acc = account_at w root addr)"

definition true_slot :: "truth \<Rightarrow> hash32 \<Rightarrow> address \<Rightarrow> u256 \<Rightarrow> u256 \<Rightarrow> bool" where
  "true_slot w root addr slot v \<longleftrightarrow>
     (root \<in> state_roots w \<longrightarrow> v = slot_at w (acc_storageRoot (account_at w root addr)) slot)"

lemma hoare_provenAccount:
  assumes "proofs_sound env w"
  shows "hoare (engine_ok env w) (provenAccount env addr root proof idx)
    (\<lambda>acc e. engine_ok env w e \<and> true_account w root addr acc) (engine_ok env w)"
  unfolding provenAccount_def true_account_def
  using getAccountFromProof_sound [OF assms]
  by (intro hoare_ofResult) (auto simp: tagBackend_def split: sum.splits)

lemma hoare_provenSlot:
  assumes "proofs_sound env w" and "true_account w root addr acc"
  shows "hoare (engine_ok env w) (ofResult (tagBackend idx (getStorageFromProof env acc slot proof i)))
    (\<lambda>v e. engine_ok env w e \<and> true_slot w root addr slot v) (engine_ok env w)"
  using getStorageFromProof_sound [OF assms(1)] assms(2) unfolding true_slot_def true_account_def
  by (intro hoare_ofResult) (auto simp: tagBackend_def split: sum.splits)

lemma hoare_accounts_put:
  assumes "true_account w root addr acc"
  shows "hoare (engine_ok env w) (accounts_put env (root, addr) acc) (\<lambda>_. engine_ok env w) E"
  unfolding accounts_put_def
  by (rule hoare_update)
    (use assms in \<open>force simp: engine_ok_def true_account_def dest!: cache_put_SomeD\<close>)

lemma hoare_storage_put:
  assumes "true_slot w root addr slot v"
  shows "hoare (engine_ok env w) (storage_put env (root, addr, slot) v) (\<lambda>_. engine_ok env w) E"
  unfolding storage_put_def
  by (rule hoare_update)
    (use assms in \<open>force simp: engine_ok_def true_slot_def dest!: cache_put_SomeD\<close>)

lemma hoare_code_put:
  assumes "root \<in> state_roots w \<longrightarrow> keccak256 env code = acc_codeHash (account_at w root addr)"
  shows "hoare (engine_ok env w) (code_put env (root, addr) code) (\<lambda>_. engine_ok env w) E"
  unfolding code_put_def
  by (rule hoare_update)
    (use assms in \<open>force simp: engine_ok_def dest!: cache_put_SomeD\<close>)

lemma hoare_getAccount:
  assumes "calm env w" and "proofs_sound env w"
  shows "hoare (engine_ok env w) (getAccount env addr blockNumber root)
    (\<lambda>acc e. engine_ok env w e \<and> true_account w root addr acc) (engine_ok env w)"
  unfolding getAccount_def
proof (rule hoare_bind_fact)
  show "hoare (engine_ok env w) (gets (\<lambda>e. accountsCache e (root, addr)))
      (\<lambda>c e. engine_ok env w e \<and> (\<forall>acc. c = Some acc \<longrightarrow> true_account w root addr acc)) (engine_ok env w)"
    by (rule hoare_gets) (auto simp: true_account_def engine_okD(3))
next
  fix c assume c: "\<forall>acc. c = Some acc \<longrightarrow> true_account w root addr acc"
  show "hoare (engine_ok env w)
    (case c of
       None \<Rightarrow> andThen (ask env GetProof (\<lambda>b. be_getProof b addr [] (BidNumber blockNumber)))
         (\<lambda>(proof, idx). andThen (provenAccount env addr root proof idx)
            (\<lambda>acc. andThen (accounts_put env (root, addr) acc) (\<lambda>_. ret acc)))
     | Some acc \<Rightarrow> ret acc)
    (\<lambda>acc e. engine_ok env w e \<and> true_account w root addr acc) (engine_ok env w)"
    unfolding split_def
    by (intro hoare_case_option hoare_bind [OF hoare_ask [OF assms(1)]]
        hoare_bind_fact [OF hoare_provenAccount [OF assms(2)]] hoare_bind [OF hoare_accounts_put] hoare_ret)
      (use c in auto)
qed

lemma hoare_getCode:
  assumes "calm env w" and "proofs_sound env w"
  shows "hoare (engine_ok env w) (getCode env addr blockNumber root)
    (\<lambda>code e. engine_ok env w e \<and> (root \<in> state_roots w \<longrightarrow>
       (if acc_codeHash (account_at w root addr) = EMPTY_CODE_HASH env then code = []
        else keccak256 env code = acc_codeHash (account_at w root addr)))) (engine_ok env w)"
  unfolding getCode_def
proof (rule hoare_bind_fact [OF hoare_getAccount [OF assms]])
  fix acc assume acc: "true_account w root addr acc"
  let ?spec = "\<lambda>code. root \<in> state_roots w \<longrightarrow>
       (if acc_codeHash (account_at w root addr) = EMPTY_CODE_HASH env then code = []
        else keccak256 env code = acc_codeHash (account_at w root addr))"
  have cache: "hoare (engine_ok env w) (gets (\<lambda>e. codeCache e (root, addr)))
      (\<lambda>c e. engine_ok env w e \<and> (\<forall>code. c = Some code \<longrightarrow> root \<in> state_roots w \<longrightarrow>
         keccak256 env code = acc_codeHash (account_at w root addr))) (engine_ok env w)"
    by (rule hoare_gets) (auto simp: engine_okD(4))
  show "hoare (engine_ok env w)
     (if acc_codeHash acc = EMPTY_CODE_HASH env then ret []
      else andThen (gets (\<lambda>e. codeCache e (root, addr))) (\<lambda>cachedCode.
         case cachedCode of
           None \<Rightarrow>
             andThen (ask env GetCode (\<lambda>b. be_getCode b addr (BidNumber blockNumber))) (\<lambda>(code, idx).
               if acc_codeHash acc = keccak256 env code then
                 andThen (code_put env (root, addr) code) (\<lambda>_. ret code)
               else backend_fail VerificationError
                 ''received code doesn't match the account code hash'' idx)
         | Some code \<Rightarrow> ret code))
     (\<lambda>code e. engine_ok env w e \<and> ?spec code) (engine_ok env w)"
    unfolding split_def
    by (intro hoare_if hoare_bind_fact [OF cache] hoare_case_option hoare_bind [OF hoare_ask [OF assms(1)]]
        hoare_bind [OF hoare_code_put] hoare_ret hoare_backend_fail)
      (use acc in \<open>auto simp: true_account_def\<close>)
qed

section \<open>The slot loops\<close>

lemma scan_slots_lengths:
  "scan_slots cache root addr k slots = (vals, fs, js) \<Longrightarrow>
   length vals = length slots \<and> length js = length fs"
  by (induction slots arbitrary: k vals fs js) (auto split: prod.splits option.splits)

lemma scan_slots_positions:
  assumes "scan_slots cache root addr k slots = (vals, fs, js)"
  shows "list_all2 (\<lambda>j f. k \<le> j \<and> j < k + length slots \<and> slots ! (j - k) = f) js fs"
  using assms
proof (induction slots arbitrary: k vals fs js)
  case (Cons s ss)
  obtain vals' fs' js' where rec: "scan_slots cache root addr (Suc k) ss = (vals', fs', js')"
    by (cases "scan_slots cache root addr (Suc k) ss") auto
  have "list_all2 (\<lambda>j f. k \<le> j \<and> j < k + length (s # ss) \<and> (s # ss) ! (j - k) = f) js' fs'"
  proof (rule list_all2_mono [OF Cons.IH [OF rec]])
    fix j f assume j: "Suc k \<le> j \<and> j < Suc k + length ss \<and> ss ! (j - Suc k) = f"
    then have "j - k = Suc (j - Suc k)" by (simp add: Suc_diff_Suc)
    with j show "k \<le> j \<and> j < k + length (s # ss) \<and> (s # ss) ! (j - k) = f" by simp
  qed
  with Cons.prems rec show ?case by (auto split: option.splits)
qed simp

lemma scan_slots_cached:
  assumes "scan_slots cache root addr k slots = (vals, fs, js)"
    and "n < length slots" and "k + n \<notin> set js"
  shows "cache (root, addr, slots ! n) = Some (vals ! n)"
  using assms
proof (induction slots arbitrary: k n vals fs js)
  case (Cons s ss)
  obtain vals' fs' js' where rec: "scan_slots cache root addr (Suc k) ss = (vals', fs', js')"
    by (cases "scan_slots cache root addr (Suc k) ss") auto
  show ?case
  proof (cases n)
    case 0
    with Cons.prems rec show ?thesis by (auto split: option.splits)
  next
    case (Suc m)
    have "Suc k + m \<notin> set js'" using Cons.prems(1,3) rec Suc by (auto split: option.splits)
    with Cons.IH [OF rec, of m] Cons.prems rec Suc show ?thesis by (auto split: option.splits)
  qed
qed simp

lemma scan_slots_spec:
  assumes "scan_slots cache root addr 0 slots = (vals, fs, js)"
  shows "length vals = length slots \<and> length js = length fs \<and>
    (\<forall>m < length fs. js ! m < length slots \<and> slots ! (js ! m) = fs ! m) \<and>
    (\<forall>n < length slots. n \<notin> set js \<longrightarrow> cache (root, addr, slots ! n) = Some (vals ! n))"
  using scan_slots_lengths [OF assms] scan_slots_positions [OF assms] scan_slots_cached [OF assms]
  by (auto simp: list_all2_conv_all_nth)

lemma hoare_fill_slots:
  assumes "proofs_sound env w" and "true_account w root addr acc"
    and "length js = length ss" and "\<forall>m < length ss. js ! m < length slots \<and> slots ! (js ! m) = ss ! m"
    and "length vals = length slots"
    and "\<forall>n < length slots. n \<notin> set js \<longrightarrow> true_slot w root addr (slots ! n) (vals ! n)"
  shows "hoare (engine_ok env w) (fill_slots env root addr acc proof idx i ss js vals)
    (\<lambda>vs e. engine_ok env w e \<and> length vs = length slots \<and>
       (\<forall>n < length slots. true_slot w root addr (slots ! n) (vs ! n))) (engine_ok env w)"
  using assms(3-6)
proof (induction ss arbitrary: i js vals)
  case Nil
  then show ?case by (auto intro: hoare_ret)
next
  case (Cons s ss)
  then obtain j js' where js: "js = j # js'" by (cases js) auto
  have j: "j < length slots" "slots ! j = s" using Cons.prems(2) js by auto
  have rest: "\<forall>m < length ss. js' ! m < length slots \<and> slots ! (js' ! m) = ss ! m"
  proof (intro allI impI)
    fix m assume "m < length ss"
    then show "js' ! m < length slots \<and> slots ! (js' ! m) = ss ! m"
      using Cons.prems(2) js by (auto dest!: spec [of _ "Suc m"])
  qed
  show ?case
    unfolding fill_slots.simps js list.case
  proof (rule hoare_bind_fact [OF hoare_provenSlot [OF assms(1,2)]], rule hoare_bind [OF hoare_storage_put])
    fix v assume v: "true_slot w root addr s v"
    then show "true_slot w root addr s v" .
    have "hoare (engine_ok env w) (fill_slots env root addr acc proof idx (Suc i) ss js' (vals[j := v]))
        (\<lambda>vs e. engine_ok env w e \<and> length vs = length slots \<and>
           (\<forall>n < length slots. true_slot w root addr (slots ! n) (vs ! n))) (engine_ok env w)"
    proof (rule Cons.IH)
      show "length js' = length ss" using Cons.prems(1) js by simp
      show "\<forall>m < length ss. js' ! m < length slots \<and> slots ! (js' ! m) = ss ! m" by (rule rest)
      show "length (vals[j := v]) = length slots" using Cons.prems(3) by simp
      show "\<forall>n < length slots. n \<notin> set js' \<longrightarrow> true_slot w root addr (slots ! n) (vals[j := v] ! n)"
      proof (intro allI impI)
        fix n assume "n < length slots" "n \<notin> set js'"
        then show "true_slot w root addr (slots ! n) (vals[j := v] ! n)"
          using Cons.prems(3,4) js j v by (cases "n = j") auto
      qed
    qed
    then show "hoare (engine_ok env w)
        (if j < length vals then fill_slots env root addr acc proof idx (Suc i) ss js' (vals[j := v]) else defect)
        (\<lambda>vs e. engine_ok env w e \<and> length vs = length slots \<and>
           (\<forall>n < length slots. true_slot w root addr (slots ! n) (vs ! n))) (engine_ok env w)"
      using j Cons.prems(3) by simp
  qed
qed

lemma crash_free_fill_slots:
  assumes "length js = length ss" and "\<forall>j \<in> set js. j < length vals"
  shows "crash_free (fill_slots env root addr acc proof idx i ss js vals)"
  using assms
proof (induction ss arbitrary: i js vals)
  case Nil
  then show ?case by (simp add: crash_free_rules)
next
  case (Cons s ss)
  then obtain j js' where js: "js = j # js'" by (cases js) auto
  with Cons have "crash_free (fill_slots env root addr acc proof idx (Suc i) ss js' (vals[j := v]))" for v
    by auto
  with Cons.prems js show ?case by (auto intro!: crash_free_rules)
qed

lemma returns_fill_slots:
  "returns (fill_slots env root addr acc proof idx i ss js vals) (\<lambda>vs. length vs = length vals)"
proof (induction ss arbitrary: i js vals)
  case Nil
  then show ?case by (simp add: returns_rules)
next
  case (Cons s ss)
  have "returns (fill_slots env root addr acc proof idx (Suc i) ss js' (vals[j := v]))
      (\<lambda>vs. length vs = length vals)" for j js' v
    using Cons [of "Suc i" js' "vals[j := v]"] by simp
  then show ?case by (auto intro!: returns_andThen returns_rules split: list.split)
qed

lemma returns_getStorageAt:
  "returns (getStorageAt env addr slots n root) (\<lambda>vs. length vs = length slots)"
  unfolding getStorageAt_def
proof (rule returns_bind)
  show "returns (gets (\<lambda>e. scan_slots (storageCache e) root addr 0 slots)) (\<lambda>r. length (fst r) = length slots)"
    by (rule returns_basic) (metis scan_slots_spec prod.exhaust_sel)
  fix r :: "u256 list \<times> u256 list \<times> nat list"
  assume len: "length (fst r) = length slots"
  have fill: "returns (fill_slots env root addr acc resp idx i ss js (fst r)) (\<lambda>vs. length vs = length slots)"
    for acc resp idx i ss js
    using returns_fill_slots [of env root addr acc resp idx i ss js "fst r"] unfolding len .
  show "returns (case r of (slotValues, toFetch, toFetchIdx) \<Rightarrow>
         if toFetch = [] then ret slotValues
         else
           andThen (ask env GetProof (\<lambda>b. be_getProof b addr toFetch (BidNumber n))) (\<lambda>(proof, idx).
           andThen (provenAccount env addr root proof idx) (\<lambda>acc.
           andThen (accounts_put env (root, addr) acc) (\<lambda>_.
             fill_slots env root addr acc proof idx 0 toFetch toFetchIdx slotValues))))
      (\<lambda>vs. length vs = length slots)"
    using len by (auto simp: split_def intro!: returns_andThen returns_rules fill)
qed

lemma hoare_getStorageAt:
  assumes "calm env w" and "proofs_sound env w"
  shows "hoare (engine_ok env w) (getStorageAt env addr slots blockNumber root)
    (\<lambda>vs e. engine_ok env w e \<and> length vs = length slots \<and>
       (\<forall>n < length slots. true_slot w root addr (slots ! n) (vs ! n))) (engine_ok env w)"
  unfolding getStorageAt_def
proof (rule hoare_bind_fact)
  let ?scan = "\<lambda>r. length (fst (snd r)) = length (snd (snd r)) \<and> length (fst r) = length slots \<and>
    (\<forall>m < length (fst (snd r)). snd (snd r) ! m < length slots \<and> slots ! (snd (snd r) ! m) = fst (snd r) ! m) \<and>
    (\<forall>n < length slots. n \<notin> set (snd (snd r)) \<longrightarrow> true_slot w root addr (slots ! n) (fst r ! n))"
  show "hoare (engine_ok env w) (gets (\<lambda>e. scan_slots (storageCache e) root addr 0 slots))
      (\<lambda>r e. engine_ok env w e \<and> ?scan r) (engine_ok env w)"
  proof (rule hoare_gets)
    fix e assume e: "engine_ok env w e"
    obtain vals fs js where r: "scan_slots (storageCache e) root addr 0 slots = (vals, fs, js)"
      by (cases "scan_slots (storageCache e) root addr 0 slots") auto
    show "engine_ok env w e \<and> ?scan (scan_slots (storageCache e) root addr 0 slots)"
      using scan_slots_spec [OF r] e engine_okD(5) [OF e] by (auto simp: r true_slot_def)
  qed
  fix r assume r: "?scan r"
  obtain vals fs js where rr: "r = (vals, fs, js)" by (cases r) auto
  show "hoare (engine_ok env w)
     (case r of (slotValues, toFetch, toFetchIdx) \<Rightarrow>
         if toFetch = [] then ret slotValues
         else
           andThen (ask env GetProof (\<lambda>b. be_getProof b addr toFetch (BidNumber blockNumber))) (\<lambda>(proof, idx).
           andThen (provenAccount env addr root proof idx) (\<lambda>acc.
           andThen (accounts_put env (root, addr) acc) (\<lambda>_.
             fill_slots env root addr acc proof idx 0 toFetch toFetchIdx slotValues))))
     (\<lambda>vs e. engine_ok env w e \<and> length vs = length slots \<and>
       (\<forall>n < length slots. true_slot w root addr (slots ! n) (vs ! n))) (engine_ok env w)"
    unfolding rr prod.case split_def
    by (intro hoare_if hoare_bind [OF hoare_ask [OF assms(1)]]
        hoare_bind_fact [OF hoare_provenAccount [OF assms(2)]] hoare_bind [OF hoare_accounts_put]
        hoare_fill_slots [OF assms(2)] hoare_ret)
      (use r rr in auto)
qed

lemma hoare_cache_slots:
  assumes "proofs_sound env w" and "true_account w root addr acc"
  shows "hoare (engine_ok env w) (cache_slots env root addr acc proof idx i ss) (\<lambda>_. engine_ok env w)
    (engine_ok env w)"
proof (induction ss arbitrary: i)
  case Nil
  then show ?case by (auto intro: hoare_ret)
next
  case (Cons s ss)
  then show ?case
    by (auto intro!: hoare_bind_fact [OF hoare_provenSlot [OF assms]] hoare_bind [OF hoare_storage_put])
qed

lemma hoare_populateCachesForAccountAndSlots:
  assumes "calm env w" and "proofs_sound env w"
  shows "hoare (engine_ok env w) (populateCachesForAccountAndSlots env addr slots blockNumber root)
    (\<lambda>_. engine_ok env w) (engine_ok env w)"
  unfolding populateCachesForAccountAndSlots_def split_def
  by (rule hoare_bind [OF hoare_gets [where P = "engine_ok env w"]], assumption)
    (intro hoare_if hoare_bind [OF hoare_ask [OF assms(1), where P = "engine_ok env w"]]
      hoare_bind_fact [OF hoare_provenAccount [OF assms(2)]] hoare_bind [OF hoare_accounts_put]
      hoare_cache_slots [OF assms(2)] hoare_ret; assumption)

lemma hoare_settled_task: "hoare P m (\<lambda>_. I) I \<Longrightarrow> hoare P (settled_task m) (\<lambda>_. I) I"
  by (force simp: hoare_def settled_task_def split: prod.splits outcome.splits)

lemma hoare_populate_all:
  assumes "calm env w" and "proofs_sound env w"
  shows "hoare (engine_ok env w) (populate_all env al blockNumber root) (\<lambda>_. engine_ok env w) (engine_ok env w)"
proof (induction al)
  case Nil
  then show ?case by (simp add: hoare_ret)
next
  case (Cons p al)
  then show ?case
    by (cases p) (auto intro!: hoare_bind [OF hoare_settled_task
          [OF hoare_populateCachesForAccountAndSlots [OF assms]]])
qed

lemma hoare_populateCachesUsingAccessList:
  assumes "calm env w" and "proofs_sound env w"
  shows "hoare (engine_ok env w) (populateCachesUsingAccessList env blockNumber root tx)
    (\<lambda>_. engine_ok env w) (engine_ok env w)"
  unfolding populateCachesUsingAccessList_def split_def
  by (rule hoare_bind [OF hoare_ask [OF assms(1)]], assumption) (rule hoare_populate_all [OF assms])

lemma crash_free_getAccount [crash_free_rules]: "crash_free (getAccount env addr n root)"
  unfolding getAccount_def provenAccount_def split_def by (intro crash_free_rules)

lemma crash_free_getCode [crash_free_rules]: "crash_free (getCode env addr n root)"
  unfolding getCode_def split_def by (intro crash_free_rules)

lemma crash_free_getStorageAt [crash_free_rules]: "crash_free (getStorageAt env addr slots n root)"
  unfolding crash_free_def
proof
  fix e :: "'a engine"
  obtain vals fs js where r: "scan_slots (storageCache e) root addr 0 slots = (vals, fs, js)"
    by (cases "scan_slots (storageCache e) root addr 0 slots") auto
  have "length js = length fs \<and> (\<forall>j \<in> set js. j < length vals)"
    using scan_slots_spec [OF r] by (auto simp: in_set_conv_nth)
  then have "crash_free
      (if fs = [] then ret vals
       else
         andThen (ask env GetProof (\<lambda>b. be_getProof b addr fs (BidNumber n))) (\<lambda>(proof, idx).
         andThen (provenAccount env addr root proof idx) (\<lambda>acc.
         andThen (accounts_put env (root, addr) acc) (\<lambda>_.
           fill_slots env root addr acc proof idx 0 fs js vals))))"
    unfolding provenAccount_def split_def
    by (intro crash_free_rules crash_free_fill_slots) auto
  from crash_freeD [OF this, of e] show "fst (getStorageAt env addr slots n root e) \<noteq> Defect"
    by (simp add: getStorageAt_def andThen_def gets_def r)
qed

section \<open>Properties\<close>

text \<open>
  Whatever the backends answer, however they are chosen and whatever other tasks do in
  between, an account the engine returns at a genuine state root is the true one, and the
  caches keep holding true values only.
\<close>

theorem getAccount_is_true:
  assumes "calm env w" and "proofs_sound env w" and "engine_ok env w e" and "root \<in> state_roots w"
  shows "engine_ok env w (snd (getAccount env addr blockNumber root e)) \<and>
    (\<forall>acc. fst (getAccount env addr blockNumber root e) = Done acc \<longrightarrow> acc = account_at w root addr) \<and>
    fst (getAccount env addr blockNumber root e) \<noteq> Defect"
proof -
  note H = hoareD [OF hoare_getAccount [OF assms(1,2), of addr blockNumber root] assms(3)]
  show ?thesis
    using H crash_freeD [OF crash_free_getAccount, of env addr blockNumber root e] assms(4)
    by (cases "getAccount env addr blockNumber root e"; cases "fst (getAccount env addr blockNumber root e)")
      (auto simp: true_account_def)
qed

definition demo_account :: account where
  "demo_account = \<lparr>acc_nonce = 7, acc_balance = 42, acc_storageRoot = 9, acc_codeHash = 3\<rparr>"

text \<open>The environment's proof checker accepts exactly this account and the slot value 42.\<close>

definition demo_env :: "unit env" where
  "demo_env = quiet_env
     \<lparr>rlp_account := (\<lambda>acc. if acc = demo_account then [42] else []),
      rlp_u256 := (\<lambda>v. if v = 42 then [42] else [])\<rparr>"

definition demo_truth :: truth where
  "demo_truth =
     \<lparr>trusted = (\<lambda>_. UNIV), state_roots = {5}, account_at = (\<lambda>_ _. demo_account),
      slot_at = (\<lambda>root _. if root = 9 then 42 else 0)\<rparr>"

definition demo_proof :: "u256 list \<Rightarrow> proof_response" where
  "demo_proof slots =
     \<lparr>pr_balance = 42, pr_nonce = 7, pr_codeHash = 3, pr_storageHash = 9, pr_accountProof = [[1]],
      pr_storageProof = map (\<lambda>s. \<lparr>sp_key = s, sp_value = 42, sp_proof = [[1]]\<rparr>) slots\<rparr>"

definition demo_api :: execution_api where
  "demo_api = silent_api
     \<lparr>be_getProof := (\<lambda>addr slots tag t. Some (Inr (demo_proof slots))),
      be_getCode := (\<lambda>addr tag t. Some (Inr [1, 2, 3]))\<rparr>"

lemma demo_engine_fields:
  "headerStore (demo_engine api) = new_store" "accountsCache (demo_engine api) = Map.empty"
  "codeCache (demo_engine api) = Map.empty" "storageCache (demo_engine api) = Map.empty"
  by (simp_all add: demo_engine_def)

lemma proofs_sound_demo: "proofs_sound demo_env demo_truth"
  by (simp add: proofs_sound_def demo_env_def quiet_env_def demo_truth_def demo_account_def)

lemma calm_demo: "calm demo_env w"
  by (rule calm_quiet) (simp add: demo_env_def quiet_env_def)

lemma ask_demo:
  assumes "cap \<in> fullExecutionCapabilities"
  shows "\<exists>e'. ask demo_env cap call (demo_engine api) =
    (case call api 1 of
       None \<Rightarrow> Cancelled
     | Some (Inl err) \<Rightarrow> Fail (tag_error 0 err)
     | Some (Inr x) \<Rightarrow> Done (x, 0), e') \<and> codeCache e' = Map.empty \<and> storageCache e' = Map.empty"
  using assms
  by (simp add: ask_def backendFor_def executionBackendFor_def selectBackend_def demo_engine_def
      demo_env_def quiet_env_def andThen_def tagged_def await_def tick_def eligible_def decay_def
      decay_score_def rewarded_def ret_def Let_def split: option.splits sum.splits)

theorem getAccount_is_true_witness:
  "\<exists>e'. getAccount demo_env 17 100 5 (demo_engine demo_api) = (Done demo_account, e') \<and>
     demo_account = account_at demo_truth 5 17"
proof -
  obtain e1 where "ask demo_env GetProof (\<lambda>b. be_getProof b 17 [] (BidNumber 100)) (demo_engine demo_api) =
      (Done (demo_proof [], 0), e1)"
    using ask_demo [of GetProof "\<lambda>b. be_getProof b 17 [] (BidNumber 100)" demo_api]
    by (auto simp: fullExecutionCapabilities_def demo_api_def)
  then obtain e' where run: "getAccount demo_env 17 100 5 (demo_engine demo_api) = (Done demo_account, e')"
    by (simp add: getAccount_def andThen_def gets_def ret_def provenAccount_def ofResult_def tagBackend_def
        getAccountFromProof_def demo_proof_def demo_env_def quiet_env_def demo_account_def accounts_put_def
        update_def demo_engine_def Let_def)
  with getAccount_is_true [OF calm_demo proofs_sound_demo engine_ok_demo [where api = demo_api],
      where root = 5 and addr = 17 and blockNumber = 100]
  show ?thesis by (simp add: demo_truth_def)
qed

text \<open>
  The values of a storage query at a genuine state root are the true values of the
  requested slots, one for each slot and in their order, whether they come from the cache or
  from a proof; duplicates in the request included.
\<close>

theorem getStorageAt_is_true:
  assumes "calm env w" and "proofs_sound env w" and "engine_ok env w e" and "root \<in> state_roots w"
  shows "engine_ok env w (snd (getStorageAt env addr slots blockNumber root e)) \<and>
    (\<forall>vs. fst (getStorageAt env addr slots blockNumber root e) = Done vs \<longrightarrow>
       vs = map (slot_at w (acc_storageRoot (account_at w root addr))) slots) \<and>
    fst (getStorageAt env addr slots blockNumber root e) \<noteq> Defect"
proof -
  note H = hoareD [OF hoare_getStorageAt [OF assms(1,2), of addr slots blockNumber root] assms(3)]
  show ?thesis
    using H crash_freeD [OF crash_free_getStorageAt, of env addr slots blockNumber root e] assms(4)
    by (cases "getStorageAt env addr slots blockNumber root e";
        cases "fst (getStorageAt env addr slots blockNumber root e)")
      (auto simp: true_slot_def intro!: nth_equalityI)
qed

text \<open>
  Code the engine returns for an account at a genuine state root is the preimage of the
  account's code hash, or empty if the account has no code.
\<close>

theorem getCode_is_true:
  assumes "calm env w" and "proofs_sound env w" and "engine_ok env w e" and "root \<in> state_roots w"
    and "getCode env addr blockNumber root e = (Done code, e')"
  shows "if acc_codeHash (account_at w root addr) = EMPTY_CODE_HASH env then code = []
    else keccak256 env code = acc_codeHash (account_at w root addr)"
  using hoare_done [OF hoare_getCode [OF assms(1,2)] assms(3,5)] assms(4) by simp

theorem getCode_is_true_witness:
  "\<exists>e'. getCode demo_env 17 100 5
     (demo_engine demo_api\<lparr>accountsCache := [(5, 17) \<mapsto> demo_account], codeCache := [(5, 17) \<mapsto> [1, 2, 3]]\<rparr>) =
     (Done [1, 2, 3], e') \<and> keccak256 demo_env [1, 2, 3] = acc_codeHash (account_at demo_truth 5 17)"
proof -
  let ?e = "demo_engine demo_api\<lparr>accountsCache := [(5, 17) \<mapsto> demo_account], codeCache := [(5, 17) \<mapsto> [1, 2, 3]]\<rparr>"
  have ok: "engine_ok demo_env demo_truth ?e"
    by (auto simp: engine_ok_def pool_ok_demo demo_engine_fields store_ok_new demo_truth_def
        demo_account_def demo_env_def quiet_env_def)
  obtain e' where run: "getCode demo_env 17 100 5 ?e = (Done [1, 2, 3], e')"
    by (simp add: getCode_def getAccount_def andThen_def gets_def ret_def demo_account_def demo_env_def
        quiet_env_def)
  have "acc_codeHash (account_at demo_truth 5 17) \<noteq> EMPTY_CODE_HASH demo_env"
    by (simp add: demo_truth_def demo_account_def demo_env_def quiet_env_def)
  with run getCode_is_true [OF calm_demo proofs_sound_demo ok _ run] show ?thesis
    by (simp add: demo_truth_def)
qed

theorem getStorageAt_is_true_witness:
  "let e = demo_engine demo_api\<lparr>storageCache := [(5, 17, 3) \<mapsto> 42]\<rparr> in
   \<exists>e'. getStorageAt demo_env 17 [3, 3] 100 5 e = (Done [42, 42], e') \<and>
     [42, 42] = map (slot_at demo_truth 9) [3, 3]"
proof -
  let ?e = "demo_engine demo_api\<lparr>storageCache := [(5, 17, 3) \<mapsto> 42]\<rparr>"
  have ok: "engine_ok demo_env demo_truth ?e"
    by (auto simp: engine_ok_def pool_ok_demo demo_engine_fields store_ok_new demo_truth_def
        demo_account_def)
  obtain e' where run: "getStorageAt demo_env 17 [3, 3] 100 5 ?e = (Done [42, 42], e')"
    by (simp add: getStorageAt_def andThen_def gets_def ret_def)
  with getStorageAt_is_true [OF calm_demo proofs_sound_demo ok, of 5 17 "[3, 3]" 100] show ?thesis
    by (simp add: demo_truth_def demo_account_def)
qed

end
