(* ===== verification/Transactions.thy ===== *)
theory Transactions
  imports Engine_State
begin

text \<open>
  The check of a block's transactions against its header (\<open>engine/transactions.nim\<close>): they
  are converted, put into a trie, and the trie's root is compared with the header's. And the
  check of a single transaction against the hash it was asked for by.
\<close>

section \<open>Definitions\<close>

fun toTransactions :: "tx_or_hash list \<Rightarrow> (error_tuple, transaction list) outcome" where
  "toTransactions [] = Done []"
| "toTransactions (TohTx tx # txs) =
     bind_outcome (toTransaction tx) (\<lambda>t.
     bind_outcome (toTransactions txs) (\<lambda>ts. Done (t # ts)))"
| "toTransactions (TohHash h # txs) =
     Fail (engine_err VerificationError ''cannot construct a transaction trie using only txhashes'')"

definition checkTxHash :: "'b env \<Rightarrow> transaction_object \<Rightarrow> hash32 \<Rightarrow> (error_tuple, bool) outcome" where
  "checkTxHash env txObj txHash =
     bind_outcome (toTransaction txObj) (\<lambda>tx. Done (computeRlpHash env tx = txHash))"

definition verifyTransactions ::
    "'b env \<Rightarrow> hash32 \<Rightarrow> tx_or_hash list \<Rightarrow> (error_tuple, unit) outcome" where
  "verifyTransactions env txRoot transactions =
     bind_outcome (toTransactions transactions) (\<lambda>txs.
       if txTrieRoot env txs = txRoot then Done ()
       else Fail (engine_err VerificationError
              ''calculated tx trie root doesn't match the provided tx trie root''))"

section \<open>Lemmas\<close>

lemma toTransaction_ends [simp]:
  "toTransaction tx \<noteq> Stuck" "toTransaction tx \<noteq> Cancelled" "toTransaction tx \<noteq> Fail e"
  "toTransaction tx = Defect \<longleftrightarrow> tx_type_of (orElse (txo_type tx) 0) = None"
  by (simp_all add: toTransaction_def split: option.splits)

text \<open>A known transaction type: what the conversion needs in order not to crash.\<close>

definition known_type :: "tx_or_hash \<Rightarrow> bool" where
  "known_type x =
     (case x of TohHash h \<Rightarrow> True | TohTx tx \<Rightarrow> tx_type_of (orElse (txo_type tx) 0) \<noteq> None)"

lemma toTransactions_Done:
  "toTransactions xs = Done txs \<longleftrightarrow>
     list_all2 (\<lambda>x t. \<exists>tx. x = TohTx tx \<and> toTransaction tx = Done t) xs txs"
  by (induction xs arbitrary: txs rule: toTransactions.induct)
    (auto simp: bind_outcome_Done list_all2_Cons1)

lemma toTransactions_not_Stuck [simp]: "toTransactions xs \<noteq> Stuck"
  by (induction xs rule: toTransactions.induct) (simp_all add: bind_outcome_Stuck)

lemma toTransactions_not_Cancelled: "toTransactions xs \<noteq> Cancelled"
  by (induction xs rule: toTransactions.induct) (auto simp: bind_outcome_Cancelled)

lemma toTransactions_not_Defect:
  "\<forall>x \<in> set xs. known_type x \<Longrightarrow> toTransactions xs \<noteq> Defect"
  by (induction xs rule: toTransactions.induct) (simp_all add: bind_outcome_Defect known_type_def)

lemma verifyTransactions_not_Stuck [simp]: "verifyTransactions env root xs \<noteq> Stuck"
  by (simp add: verifyTransactions_def bind_outcome_Stuck)

lemma verifyTransactions_Done:
  "verifyTransactions env root xs = Done () \<longleftrightarrow>
     (\<exists>txs. toTransactions xs = Done txs \<and> txTrieRoot env txs = root)"
  by (auto simp: verifyTransactions_def bind_outcome_Done)

lemma checkTxHash_Done:
  "checkTxHash env tx h = Done b \<longleftrightarrow> (\<exists>t. toTransaction tx = Done t \<and> b = (computeRlpHash env t = h))"
  by (auto simp: checkTxHash_def bind_outcome_Done)

lemma verifyTransactions_Defect:
  "verifyTransactions env root xs = Defect \<longleftrightarrow> toTransactions xs = Defect"
  by (auto simp: verifyTransactions_def bind_outcome_Defect)

text \<open>If the backend names only known transaction types, its answer cannot end the process.\<close>

lemma verifyTransactions_settles:
  assumes "\<forall>x \<in> set xs. known_type x"
  shows "verifyTransactions env root xs = Done () \<or> (\<exists>e. verifyTransactions env root xs = Fail e)"
  using toTransactions_not_Defect [OF assms] toTransactions_not_Cancelled [of xs]
  by (cases "toTransactions xs") (auto simp: verifyTransactions_def)

section \<open>An example\<close>

text \<open>A small dynamic-fee transaction as a backend sends it, and what it is converted to.\<close>

definition demo_tx_object :: transaction_object where
  "demo_tx_object =
     \<lparr>txo_hash = 7, txo_blockHash = None, txo_blockNumber = None, txo_transactionIndex = None,
      txo_from = 1, txo_type = Some 2, txo_chainId = Some 1, txo_nonce = 3, txo_gasPrice = 5,
      txo_maxPriorityFeePerGas = None, txo_maxFeePerGas = Some 9, txo_gas = 21000, txo_to = None,
      txo_value = 0, txo_input = [], txo_accessList = None, txo_maxFeePerBlobGas = None,
      txo_blobVersionedHashes = None, txo_v = 0, txo_r = 1, txo_s = 1, txo_authorizationList = None\<rparr>"

definition demo_tx :: transaction where
  "demo_tx =
     \<lparr>txType = TxEip1559, tx_chainId = 1, tx_nonce = 3, gasPrice = 5, maxPriorityFeePerGas = 0,
      maxFeePerGas = 9, tx_gasLimit = 21000, tx_to = None, tx_value = 0, payload = [],
      accessList = [], maxFeePerBlobGas = 0, versionedHashes = [], tx_V = 0, tx_R = 1, tx_S = 1,
      authorizationList = []\<rparr>"

lemma toTransaction_demo: "toTransaction demo_tx_object = Done demo_tx"
  by (simp add: toTransaction_def demo_tx_object_def demo_tx_def tx_type_of_def orElse_def)

end
