(* ===== verification/Blocks.thy ===== *)
theory Blocks
  imports Accounts Transactions
begin

text \<open>
  The verification of headers and blocks (\<open>engine/blocks.nim\<close>): how a block a backend
  supplies is tied to one of the light client's anchors, by walking the chain of parent hashes
  back from the anchor or by looking its hash up in the history contract of EIP-2935.
\<close>

section \<open>Definitions\<close>

definition HISTORY_SERVE_WINDOW :: u64 where
  "HISTORY_SERVE_WINDOW = 8191"

definition HISTORY_STORAGE_ADDRESS :: address where
  "HISTORY_STORAGE_ADDRESS = 0x0000F90827F1C53a10cb7A02335B175320002935"

definition isEIP2935Active :: "'b engine \<Rightarrow> block_header \<Rightarrow> bool" where
  "isEIP2935Active e hdr =
     (case eip2935ForkTime e of None \<Rightarrow> False | Some t \<Rightarrow> timestamp hdr \<ge> t)"

definition inEIP2935Range :: "'b engine \<Rightarrow> block_header \<Rightarrow> block_header \<Rightarrow> bool" where
  "inEIP2935Range e anchor target =
     (if \<not> (isEIP2935Active e anchor \<and> isEIP2935Active e target) then False
      else if number target \<ge> number anchor then False
      else let jumps = (number anchor - number target - 1) div HISTORY_SERVE_WINDOW + 1
           in jumps \<le> maxWindowJumps e)"

definition getEIP2935Hash :: "'b env \<Rightarrow> block_header \<Rightarrow> u64 \<Rightarrow> ('b, hash32) engine_proc" where
  "getEIP2935Hash env anchor n =
     (let slot = ucast (n mod HISTORY_SERVE_WINDOW) :: u256 in
      andThen (getStorageAt env HISTORY_STORAGE_ADDRESS [slot] (number anchor) (stateRoot anchor))
        (\<lambda>storedValues.
          case storedValues of
            [] \<Rightarrow> defect
          | storedValue # _ \<Rightarrow>
              if storedValue = 0 then
                engine_fail UnavailableDataError
                  ''the EIP-2935 history slot for the requested block is empty''
              else ret storedValue))"

definition getTrustedHeader :: "'b env \<Rightarrow> hash32 \<Rightarrow> header_trust \<Rightarrow> ('b, block_header) engine_proc" where
  "getTrustedHeader env hash t =
     andThen (gets (\<lambda>e. get (headerStore e) hash NoTrust)) (\<lambda>c.
       case c of
         Some hdr \<Rightarrow> andThen (store_put env hdr hash t) (\<lambda>_. ret hdr)
       | None \<Rightarrow>
           andThen (ask env GetBlockByHash (\<lambda>b. be_getBlockByHash b hash False)) (\<lambda>(blk, idx).
             let hdr = convHeader blk in
             if computeBlockHash env hdr \<noteq> hash then
               backend_fail VerificationError
                 ''the downloaded anchor header doesn't match the anchor hash'' idx
             else andThen (store_put env hdr hash t) (\<lambda>_. ret hdr)))"

definition verifyBlock :: "'b env \<Rightarrow> block_object \<Rightarrow> bool \<Rightarrow> (error_tuple, unit) outcome" where
  "verifyBlock env blk fullTransactions =
     bind_outcome
       (if fullTransactions then verifyTransactions env (blk_transactionsRoot blk) (blk_transactions blk)
        else Done ())
       (\<lambda>_. case (blk_withdrawals blk, blk_withdrawalsRoot blk) of
              (Some ws, Some root) \<Rightarrow>
                if root \<noteq> withdrawalsTrieRoot env ws then
                  Fail (engine_err VerificationError
                    ''Withdrawals within the block do not yield the same withdrawals root'')
                else Done ()
            | _ \<Rightarrow> Done ())"

definition getTrustedBlock ::
    "'b env \<Rightarrow> hash32 \<Rightarrow> header_trust \<Rightarrow> bool \<Rightarrow> ('b, block_object) engine_proc" where
  "getTrustedBlock env hash t fullTransactions =
     andThen (ask env GetBlockByHash (\<lambda>b. be_getBlockByHash b hash fullTransactions)) (\<lambda>(blk, idx).
       let hdr = convHeader blk in
       if computeBlockHash env hdr \<noteq> hash then
         backend_fail VerificationError
           ''the downloaded anchor block doesn't match the anchor hash'' idx
       else
         andThen (tagged idx (ofOutcome (verifyBlock env blk fullTransactions))) (\<lambda>_.
         andThen (store_put env hdr hash t) (\<lambda>_. ret blk)))"

text \<open>
  The jumps of \<open>verifyEIP2935Membership\<close>: from one window boundary to the one before, until
  the target is in the window of the current anchor. Its error translation: an empty history
  slot within the range that was checked is a verification error.
\<close>

definition historyHash :: "'b env \<Rightarrow> block_header \<Rightarrow> u64 \<Rightarrow> ('b, hash32) engine_proc" where
  "historyHash env anchor n =
     valueOr (getEIP2935Hash env anchor n) (\<lambda>err.
       if errType err = UnavailableDataError then fail (err\<lparr>errType := VerificationError\<rparr>)
       else fail err)"

fun windowJumps ::
    "nat \<Rightarrow> 'b env \<Rightarrow> block_header \<Rightarrow> header_trust \<Rightarrow> u64 \<Rightarrow> ('b, block_header) engine_proc" where
  "windowJumps 0 env curAnchor t targetNum =
     (if number curAnchor - targetNum > HISTORY_SERVE_WINDOW then stuck else ret curAnchor)"
| "windowJumps (Suc fuel) env curAnchor t targetNum =
     (if number curAnchor - targetNum > HISTORY_SERVE_WINDOW then
        let newAnchorNum = ((number curAnchor - 1) div HISTORY_SERVE_WINDOW) * HISTORY_SERVE_WINDOW in
        andThen (gets (\<lambda>e. get_number (headerStore e) newAnchorNum Finalized)) (\<lambda>cachedJump.
          case cachedJump of
            Some hdr \<Rightarrow> windowJumps fuel env hdr t targetNum
          | None \<Rightarrow>
              andThen (historyHash env curAnchor newAnchorNum) (\<lambda>storedHash.
              andThen (getTrustedHeader env storedHash t) (\<lambda>hdr.
                if number hdr \<noteq> newAnchorNum then
                  engine_fail VerificationError
                    ''the EIP-2935 stored hash resolves to a block of a different number''
                else windowJumps fuel env hdr t targetNum)))
      else ret curAnchor)"

definition verifyEIP2935Membership ::
    "'b env \<Rightarrow> block_header \<Rightarrow> header_trust \<Rightarrow> block_header \<Rightarrow> hash32 \<Rightarrow> ('b, unit) engine_proc" where
  "verifyEIP2935Membership env anchor t target targetHash =
     andThen (gets (\<lambda>e. inEIP2935Range e anchor target)) (\<lambda>inRange.
       if \<not> inRange then
         engine_fail UnavailableDataError
           ''EIP-2935 cannot reach the requested block from the verified anchor''
       else
         andThen (windowJumps (unat (number anchor)) env anchor t (number target)) (\<lambda>curAnchor.
         andThen (historyHash env curAnchor (number target)) (\<lambda>storedHash.
           if storedHash = targetHash then ret ()
           else engine_fail VerificationError
                  ''the requested block is not part of the canonical chain'')))"

record anchor_hashes =
  latest :: "hash32 option"
  safe :: "hash32 option"
  finalized :: "hash32 option"
  earliest :: "hash32 option"

definition snapshotAnchors :: "('b, anchor_hashes) engine_proc" where
  "snapshotAnchors e =
     (if getHash (headerStore e) Optimistic = None \<and> getHash (headerStore e) Safe = None then
        engine_fail UnavailableDataError ''no verified anchor is available yet. Still syncing?'' e
      else
        ret \<lparr>latest = getHash (headerStore e) Optimistic,
             safe = getHash (headerStore e) Safe,
             finalized = getHash (headerStore e) Finalized,
             earliest = getEarliestHash (headerStore e)\<rparr> e)"

subsection \<open>Walking the chain\<close>

text \<open>Which numbers the next batch downloads, and where the batch ends.\<close>

function fetch_plan :: "header_store \<Rightarrow> u64 \<Rightarrow> u64 \<Rightarrow> u64 \<Rightarrow> u64 list \<Rightarrow> u64 list \<times> u64" where
  "fetch_plan store targetNum parallel fetchNum futs =
     (if fetchNum > targetNum \<and> of_nat (length futs) < max 1 parallel then
        fetch_plan store targetNum parallel (fetchNum - 1)
          (if getHash_number store fetchNum Finalized = None then futs @ [fetchNum] else futs)
      else (futs, fetchNum))"
  by auto

lemma unat_pred: "y < x \<Longrightarrow> unat (x - 1) = unat x - 1" for x y :: "'a::len word"
  by (metis unat_minus_one word_not_simps(1))

lemma unat_pred_less: "y < x \<Longrightarrow> unat (x - 1) < unat x" for x y :: "'a::len word"
  by (metis measure_unat word_not_simps(1))

termination fetch_plan
  by (relation "measure (\<lambda>(store, targetNum, parallel, fetchNum, futs). unat fetchNum)")
    (auto simp: unat_pred_less)

declare fetch_plan.simps [simp del]

fun collect_headers ::
    "nat \<Rightarrow> (error_tuple + block_object) option list \<Rightarrow> (hash32 \<rightharpoonup> block_header) \<Rightarrow>
     ('b, hash32 \<rightharpoonup> block_header) engine_proc" where
  "collect_headers idx [] downloadedHeaders = ret downloadedHeaders"
| "collect_headers idx (None # futs) downloadedHeaders =
     backend_fail BackendFetchError ''block download failed or cancelled'' idx"
| "collect_headers idx (Some (Inl err) # futs) downloadedHeaders = fail (tag_error idx err)"
| "collect_headers idx (Some (Inr blk) # futs) downloadedHeaders =
     collect_headers idx futs (downloadedHeaders(blk_hash blk \<mapsto> convHeader blk))"

function link_headers ::
    "'b env \<Rightarrow> nat \<Rightarrow> header_trust \<Rightarrow> (hash32 \<rightharpoonup> block_header) \<Rightarrow> u64 \<Rightarrow> u64 \<Rightarrow> hash32 \<Rightarrow>
     ('b, hash32) engine_proc" where
  "link_headers env idx t downloadedHeaders fetchNum nextNum nextHash =
     (if nextNum > fetchNum then
        andThen (gets (\<lambda>e. get (headerStore e) nextHash NoTrust)) (\<lambda>cachedLink.
          case (case cachedLink of Some hdr \<Rightarrow> Some hdr | None \<Rightarrow> downloadedHeaders nextHash) of
            None \<Rightarrow> backend_fail UnavailableDataError ''Cannot find downloaded block of the block walk'' idx
          | Some unverifiedHeader \<Rightarrow>
              if computeBlockHash env unverifiedHeader \<noteq> nextHash \<or> number unverifiedHeader \<noteq> nextNum then
                backend_fail VerificationError
                  ''Encountered an invalid block header while walking the chain'' idx
              else
                andThen (store_put env unverifiedHeader nextHash t) (\<lambda>_.
                  link_headers env idx t downloadedHeaders fetchNum (nextNum - 1)
                    (parentHash unverifiedHeader)))
      else ret nextHash)"
  by auto

termination link_headers
  by (relation "measure (\<lambda>(env, idx, t, downloadedHeaders, fetchNum, nextNum, nextHash). unat nextNum)")
    (auto simp: unat_pred_less)

declare link_headers.simps [simp del]

text \<open>
  One iteration of the outer loop either steps over a header already in the store or downloads
  and links a batch, after which \<open>nextNum\<close> is the batch's \<open>fetchNum\<close>.
\<close>

fun walk_loop ::
    "nat \<Rightarrow> 'b env \<Rightarrow> header_trust \<Rightarrow> u64 \<Rightarrow> u64 \<Rightarrow> hash32 \<Rightarrow> ('b, hash32) engine_proc" where
  "walk_loop 0 env t targetNum nextNum nextHash =
     (if nextNum > targetNum then stuck else ret nextHash)"
| "walk_loop (Suc fuel) env t targetNum nextNum nextHash =
     (if nextNum > targetNum then
        andThen (gets (\<lambda>e. get (headerStore e) nextHash NoTrust)) (\<lambda>cached.
          case cached of
            Some hdr \<Rightarrow>
              andThen (store_put env hdr nextHash t) (\<lambda>_.
                walk_loop fuel env t targetNum (nextNum - 1) (parentHash hdr))
          | None \<Rightarrow>
              andThen (backendFor env GetBlockByNumber) (\<lambda>(backend, idx).
              andThen (gets (\<lambda>e. fetch_plan (headerStore e) targetNum (parallelBlockDownloads e) nextNum []))
                (\<lambda>(nums, fetchNum).
              andThen (await_all env (map (\<lambda>n. be_getBlockByNumber backend (BidNumber n) False) nums)) (\<lambda>futs.
              andThen (collect_headers idx futs Map.empty) (\<lambda>downloadedHeaders.
              andThen (link_headers env idx t downloadedHeaders fetchNum nextNum nextHash) (\<lambda>nextHash'.
                walk_loop fuel env t targetNum fetchNum nextHash'))))))
      else ret nextHash)"

definition walkBlocks ::
    "'b env \<Rightarrow> u64 \<Rightarrow> u64 \<Rightarrow> hash32 \<Rightarrow> header_trust \<Rightarrow> ('b, hash32) engine_proc" where
  "walkBlocks env sourceNum targetNum sourceHash t =
     (if targetNum \<ge> sourceNum then
        engine_fail FrontendError ''the block walk target is not older than the walk source''
      else
        let numBlocks = sourceNum - targetNum in
        andThen (gets maxBlockWalk) (\<lambda>maxWalk.
          if numBlocks > maxWalk then
            engine_fail FrontendError
              (''Cannot query more than '' @ decimal (unat maxWalk) @
               '' to verify the chain for the requested block'')
          else walk_loop (unat numBlocks) env t targetNum (sourceNum - 1) sourceHash))"

subsection \<open>Headers and blocks at an anchor\<close>

definition verifyHeader ::
    "'b env \<Rightarrow> block_header \<Rightarrow> header_trust \<Rightarrow> block_header \<Rightarrow> hash32 \<Rightarrow> ('b, unit) engine_proc" where
  "verifyHeader env anchor t hdr hash =
     (if computeBlockHash env hdr \<noteq> hash then
        engine_fail VerificationError ''hashed block header doesn't match with blk.hash(downloaded)''
      else
        andThen (gets (\<lambda>e. (get (headerStore e) hash t, archive e))) (\<lambda>(known, isArchive).
          if known \<noteq> None then ret ()
          else if number hdr = number anchor then
            if hash \<noteq> computeBlockHash env anchor then
              engine_fail VerificationError ''the requested block is not part of the canonical chain''
            else store_put env hdr hash t
          else
            andThen
              (if isArchive then verifyEIP2935Membership env anchor t hdr hash
               else
                 andThen (walkBlocks env (number anchor) (number hdr) (parentHash anchor) t) (\<lambda>walkedHash.
                   if walkedHash \<noteq> hash then
                     engine_fail VerificationError
                       ''the requested block is not part of the canonical chain''
                   else ret ()))
              (\<lambda>_. store_put env hdr hash t)))"

definition getBlockHash :: "'b env \<Rightarrow> block_header \<Rightarrow> u64 \<Rightarrow> ('b, hash32) engine_proc" where
  "getBlockHash env anchor n =
     (if n = number anchor then ret (computeBlockHash env anchor)
      else if n > number anchor then
        engine_fail InvalidDataError ''block hash requested for a block that is not in the past''
      else
        andThen (gets (\<lambda>e. (getHash_number (headerStore e) n Finalized, isEIP2935Active e anchor)))
          (\<lambda>(cached, active).
            case cached of
              Some hash \<Rightarrow> ret hash
            | None \<Rightarrow>
                if active \<and> number anchor - n \<le> HISTORY_SERVE_WINDOW then getEIP2935Hash env anchor n
                else engine_fail UnavailableDataError
                       ''EIP-2935 cannot reach the requested block from the verified anchor''))"

definition getBlock_hash ::
    "'b env \<Rightarrow> block_header \<Rightarrow> header_trust \<Rightarrow> hash32 \<Rightarrow> bool \<Rightarrow> ('b, block_object) engine_proc" where
  "getBlock_hash env anchor t blockHash fullTransactions =
     andThen (ask env GetBlockByHash (\<lambda>b. be_getBlockByHash b blockHash fullTransactions)) (\<lambda>(blk, idx).
       if blockHash \<noteq> blk_hash blk then
         backend_fail VerificationError
           ''the downloaded block hash doesn't match with the requested hash'' idx
       else
         andThen (tagged idx (verifyHeader env anchor t (convHeader blk) (blk_hash blk))) (\<lambda>_.
         andThen (tagged idx (ofOutcome (verifyBlock env blk fullTransactions))) (\<lambda>_. ret blk)))"

definition getBlock_tag ::
    "'b env \<Rightarrow> block_header \<Rightarrow> header_trust \<Rightarrow> block_tag \<Rightarrow> bool \<Rightarrow> ('b, block_object) engine_proc" where
  "getBlock_tag env anchor t blockTag fullTransactions =
     (case blockTag of
        BidNumber n \<Rightarrow>
          andThen (ask env GetBlockByNumber (\<lambda>b. be_getBlockByNumber b blockTag fullTransactions)) (\<lambda>(blk, idx).
            if n \<noteq> blk_number blk then
              backend_fail VerificationError
                ''the downloaded block number doesn't match with the requested block number'' idx
            else
              andThen (tagged idx (verifyHeader env anchor t (convHeader blk) (blk_hash blk))) (\<lambda>_.
              andThen (tagged idx (ofOutcome (verifyBlock env blk fullTransactions))) (\<lambda>_. ret blk)))
      | _ \<Rightarrow> engine_fail InvalidDataError ''a block number is required to fetch by number'')"

definition getHeader_hash ::
    "'b env \<Rightarrow> block_header \<Rightarrow> header_trust \<Rightarrow> hash32 \<Rightarrow> ('b, block_header) engine_proc" where
  "getHeader_hash env anchor t blockHash =
     andThen (gets (\<lambda>e. get (headerStore e) blockHash t)) (\<lambda>cachedHeader.
       case cachedHeader of
         Some hdr \<Rightarrow> ret hdr
       | None \<Rightarrow>
           andThen (ask env GetBlockByHash (\<lambda>b. be_getBlockByHash b blockHash False)) (\<lambda>(blk, idx).
             let hdr = convHeader blk in
             if blockHash \<noteq> blk_hash blk then
               backend_fail VerificationError
                 ''the blk.hash(downloaded) doesn't match with the provided hash'' idx
             else andThen (tagged idx (verifyHeader env anchor t hdr blockHash)) (\<lambda>_. ret hdr)))"

definition getHeader_tag ::
    "'b env \<Rightarrow> block_header \<Rightarrow> header_trust \<Rightarrow> block_tag \<Rightarrow> ('b, block_header) engine_proc" where
  "getHeader_tag env anchor t blockTag =
     (case blockTag of
        BidNumber n \<Rightarrow>
          andThen (gets (\<lambda>e. get_number (headerStore e) n t)) (\<lambda>cachedHeader.
            case cachedHeader of
              Some hdr \<Rightarrow> ret hdr
            | None \<Rightarrow>
                andThen (ask env GetBlockByNumber (\<lambda>b. be_getBlockByNumber b blockTag False)) (\<lambda>(blk, idx).
                  let hdr = convHeader blk in
                  if n \<noteq> number hdr then
                    backend_fail VerificationError
                      ''the downloaded block number doesn't match with the requested block number'' idx
                  else andThen (tagged idx (verifyHeader env anchor t hdr (blk_hash blk))) (\<lambda>_. ret hdr)))
      | _ \<Rightarrow> engine_fail InvalidDataError ''a block number is required to fetch by number'')"

subsection \<open>Block tags\<close>

text \<open>
  \<open>getVerified\<close> is generic in what it returns; the calls that its \<open>when T is Header\<close>
  distinguishes are its first three arguments.
\<close>

definition pickAnchor ::
    "'b env \<Rightarrow> anchor_hashes \<Rightarrow> u64 \<Rightarrow> ('b, block_header \<times> header_trust) engine_proc" where
  "pickAnchor env anchors n =
     (let fromLatest =
            (case latest anchors of
               None \<Rightarrow> engine_fail UnavailableDataError ''no verified anchor covers the requested block''
             | Some hash \<Rightarrow>
                 andThen (getTrustedHeader env hash Optimistic) (\<lambda>anchor.
                   if n > number anchor then
                     engine_fail UnavailableDataError
                       ''the requested block is newer than the latest verified block''
                   else ret (anchor, Optimistic)));
          fromSafe =
            (case safe anchors of
               None \<Rightarrow> fromLatest
             | Some hash \<Rightarrow>
                 andThen (getTrustedHeader env hash Safe) (\<lambda>anchor.
                   if n \<le> number anchor then ret (anchor, Safe) else fromLatest))
      in case finalized anchors of
           None \<Rightarrow> fromSafe
         | Some hash \<Rightarrow>
             andThen (getTrustedHeader env hash Finalized) (\<lambda>anchor.
               if n \<le> number anchor then ret (anchor, Finalized) else fromSafe))"

definition aliasAnchor :: "anchor_hashes \<Rightarrow> string \<Rightarrow> (hash32 option \<times> header_trust) option" where
  "aliasAnchor anchors txt =
     (let a = toLowerAscii txt in
      if a = ''latest'' then Some (latest anchors, Optimistic)
      else if a = ''safe'' then Some (safe anchors, Safe)
      else if a = ''finalized'' then Some (finalized anchors, Finalized)
      else if a = ''earliest'' then Some (earliest anchors, Finalized)
      else None)"

definition getVerified ::
    "(hash32 \<Rightarrow> header_trust \<Rightarrow> ('b, 'a) engine_proc) \<Rightarrow>
     (block_header \<Rightarrow> header_trust \<Rightarrow> hash32 \<Rightarrow> ('b, 'a) engine_proc) \<Rightarrow>
     (block_header \<Rightarrow> header_trust \<Rightarrow> block_tag \<Rightarrow> ('b, 'a) engine_proc) \<Rightarrow>
     'b env \<Rightarrow> block_tag \<Rightarrow> anchor_hashes option \<Rightarrow> ('b, 'a) engine_proc" where
  "getVerified atHash byHash byTag env blockTag snapshot =
     andThen (case snapshot of Some a \<Rightarrow> ret a | None \<Rightarrow> snapshotAnchors) (\<lambda>anchors.
       case blockTag of
         BidAlias txt \<Rightarrow>
           (case aliasAnchor anchors txt of
              None \<Rightarrow> engine_fail InvalidDataError (''No support for block tag '' @ tag_text env blockTag)
            | Some (None, t) \<Rightarrow>
                engine_fail UnavailableDataError (tag_text env blockTag @ '' block is not available yet'')
            | Some (Some hash, t) \<Rightarrow> atHash hash t)
       | BidNumber n \<Rightarrow>
           andThen (pickAnchor env anchors n) (\<lambda>(anchor, t).
             if n = number anchor then atHash (computeBlockHash env anchor) t
             else byTag anchor t blockTag)
       | BidHash hash requireCanonical \<Rightarrow>
           if \<not> requireCanonical then atHash hash NoTrust
           else
             andThen (getTrustedHeader env hash NoTrust) (\<lambda>target.
             andThen (pickAnchor env anchors (number target)) (\<lambda>(anchor, t).
               byHash anchor t hash)))"

definition getVerifiedHeader ::
    "'b env \<Rightarrow> block_tag \<Rightarrow> anchor_hashes option \<Rightarrow> ('b, block_header) engine_proc" where
  "getVerifiedHeader env =
     getVerified (getTrustedHeader env) (getHeader_hash env) (getHeader_tag env) env"

definition getVerifiedBlock ::
    "'b env \<Rightarrow> block_tag \<Rightarrow> bool \<Rightarrow> anchor_hashes option \<Rightarrow> ('b, block_object) engine_proc" where
  "getVerifiedBlock env blockTag fullTransactions =
     getVerified (\<lambda>hash t. getTrustedBlock env hash t fullTransactions)
       (\<lambda>anchor t hash. getBlock_hash env anchor t hash fullTransactions)
       (\<lambda>anchor t tag. getBlock_tag env anchor t tag fullTransactions) env blockTag"

section \<open>The chain\<close>

text \<open>
  \<open>genuine h t\<close>: the hash is that of a header that deserves trust \<open>t\<close> (at the lowest trust,
  nothing is claimed); \<open>genuine_at h t n\<close>: one of number \<open>n\<close>.
\<close>

definition genuine :: "'b env \<Rightarrow> truth \<Rightarrow> hash32 \<Rightarrow> header_trust \<Rightarrow> bool" where
  "genuine env w h t \<longleftrightarrow> t = NoTrust \<or> (\<exists>hdr \<in> trusted w t. computeBlockHash env hdr = h)"

definition genuine_at :: "'b env \<Rightarrow> truth \<Rightarrow> hash32 \<Rightarrow> header_trust \<Rightarrow> u64 \<Rightarrow> bool" where
  "genuine_at env w h t n \<longleftrightarrow> (\<exists>hdr \<in> trusted w t. computeBlockHash env hdr = h \<and> number hdr = n)"

text \<open>The entry for number \<open>n\<close> of the history contract in the state of a header.\<close>

definition history_slot :: "truth \<Rightarrow> block_header \<Rightarrow> u64 \<Rightarrow> u256" where
  "history_slot w hdr n =
     slot_at w (acc_storageRoot (account_at w (stateRoot hdr) HISTORY_STORAGE_ADDRESS))
       (ucast (n mod HISTORY_SERVE_WINDOW))"

text \<open>
  What a chain is: the parent of a header is trusted as much as the header, and one lower; the
  state root of a trusted header is genuine, and its history contract has, for each of the
  previous 8191 numbers, nothing or the hash of the ancestor with that number (EIP-2935).
\<close>

definition chain_sound :: "'b env \<Rightarrow> truth \<Rightarrow> bool" where
  "chain_sound env w \<longleftrightarrow>
     trusts (computeBlockHash env) (trusted w) \<and>
     (\<forall>t hdr. t \<noteq> NoTrust \<longrightarrow> hdr \<in> trusted w t \<longrightarrow>
        (number hdr \<noteq> 0 \<longrightarrow> genuine_at env w (parentHash hdr) t (number hdr - 1)) \<and>
        stateRoot hdr \<in> state_roots w \<and>
        (\<forall>n < number hdr. number hdr - n \<le> HISTORY_SERVE_WINDOW \<longrightarrow> history_slot w hdr n \<noteq> 0 \<longrightarrow>
           genuine_at env w (history_slot w hdr n) t n))"

definition sound :: "'b env \<Rightarrow> truth \<Rightarrow> bool" where
  "sound env w \<longleftrightarrow> calm env w \<and> proofs_sound env w \<and> chain_sound env w"

lemma soundD:
  assumes "sound env w"
  shows "calm env w" "proofs_sound env w" "trusts (computeBlockHash env) (trusted w)"
    and "t \<noteq> NoTrust \<Longrightarrow> hdr \<in> trusted w t \<Longrightarrow> n < number hdr \<Longrightarrow>
      genuine_at env w (parentHash hdr) t (number hdr - 1)"
    and "t \<noteq> NoTrust \<Longrightarrow> hdr \<in> trusted w t \<Longrightarrow> stateRoot hdr \<in> state_roots w"
    and "t \<noteq> NoTrust \<Longrightarrow> hdr \<in> trusted w t \<Longrightarrow> n < number hdr \<Longrightarrow>
      number hdr - n \<le> HISTORY_SERVE_WINDOW \<Longrightarrow> history_slot w hdr n \<noteq> 0 \<Longrightarrow>
      genuine_at env w (history_slot w hdr n) t n"
proof -
  have "n < number hdr \<Longrightarrow> number hdr \<noteq> 0" by (metis word_not_simps(1))
  with assms show "t \<noteq> NoTrust \<Longrightarrow> hdr \<in> trusted w t \<Longrightarrow> n < number hdr \<Longrightarrow>
      genuine_at env w (parentHash hdr) t (number hdr - 1)"
    by (simp add: sound_def chain_sound_def)
qed (use assms in \<open>simp_all add: sound_def chain_sound_def\<close>)

lemma genuine_at_genuine: "genuine_at env w h t n \<Longrightarrow> genuine env w h t"
  by (auto simp: genuine_def genuine_at_def)

lemma genuine_trusted:
  assumes "sound env w" and "genuine env w (computeBlockHash env hdr) t"
  shows "hdr \<in> trusted w t"
proof (cases "t = NoTrust")
  case True
  then show ?thesis using trustsD(1) [OF soundD(3) [OF assms(1)]] by simp
next
  case False
  then obtain p where "p \<in> trusted w t" "computeBlockHash env hdr = computeBlockHash env p"
    using assms(2) unfolding genuine_def by metis
  then show ?thesis using trustsD(3) [OF soundD(3) [OF assms(1)] _ False, of p hdr] by simp
qed

lemma genuine_at_trusted:
  assumes "sound env w" and "t \<noteq> NoTrust" and "genuine_at env w (computeBlockHash env hdr) t n"
  shows "hdr \<in> trusted w t" "number hdr = n"
proof -
  obtain p where "p \<in> trusted w t" "computeBlockHash env hdr = computeBlockHash env p" "number p = n"
    using assms(3) unfolding genuine_at_def by metis
  then show "hdr \<in> trusted w t" "number hdr = n"
    using trustsD(3) [OF soundD(3) [OF assms(1)] _ assms(2), of p hdr] by auto
qed

section \<open>Triples\<close>

lemma yields_getTrustedHeader:
  assumes s: "sound env w" and g: "genuine env w h t"
  shows "yields (engine_ok env w) (getTrustedHeader env h t)
    (\<lambda>x. computeBlockHash env x = h \<and> x \<in> trusted w t)"
  unfolding getTrustedHeader_def
proof (rule yields_bind)
  note s3 = soundD(3) [OF s]
  have tr: "x \<in> trusted w t" if "computeBlockHash env x = h" for x
    using genuine_trusted [OF s] g that by simp
  show "yields (engine_ok env w) (gets (\<lambda>e. get (headerStore e) h NoTrust))
      (\<lambda>c. \<forall>hdr. c = Some hdr \<longrightarrow> computeBlockHash env hdr = h)"
    by (rule yields_gets) (use get_sound [OF s3 engine_okD(2)] in auto)
  show "yields (engine_ok env w)
      (case c of Some hdr \<Rightarrow> andThen (store_put env hdr h t) (\<lambda>_. ret hdr)
       | None \<Rightarrow> andThen (ask env GetBlockByHash (\<lambda>b. be_getBlockByHash b h False)) (\<lambda>(blk, idx).
             let hdr = convHeader blk in
             if computeBlockHash env hdr \<noteq> h then
               backend_fail VerificationError
                 ''the downloaded anchor header doesn't match the anchor hash'' idx
             else andThen (store_put env hdr h t) (\<lambda>_. ret hdr)))
      (\<lambda>x. computeBlockHash env x = h \<and> x \<in> trusted w t)"
    if "\<forall>hdr. c = Some hdr \<longrightarrow> computeBlockHash env hdr = h" for c
    using that tr
    by (intro yields_rules yields_bind [OF yields_ask [OF soundD(1) [OF s]]]
        yields_bind [OF yields_store_put [OF s3]]) auto
qed

lemma verifyBlock_not_Stuck [simp]: "verifyBlock env blk full \<noteq> Stuck"
  unfolding verifyBlock_def by (rule bind_outcome_Stuck) (auto split: option.splits)

text \<open>What the check of a block's content establishes.\<close>

definition content_ok :: "'b env \<Rightarrow> bool \<Rightarrow> block_object \<Rightarrow> bool" where
  "content_ok env full blk \<longleftrightarrow>
     (full \<longrightarrow> (\<exists>txs. toTransactions (blk_transactions blk) = Done txs \<and>
                 txTrieRoot env txs = transactionsRoot (convHeader blk))) \<and>
     (\<forall>ws root. blk_withdrawals blk = Some ws \<longrightarrow> withdrawalsRoot (convHeader blk) = Some root \<longrightarrow>
                 withdrawalsTrieRoot env ws = root)"

lemma verifyBlock_Done: "verifyBlock env blk full = Done () \<longleftrightarrow> content_ok env full blk"
  by (auto simp: verifyBlock_def content_ok_def bind_outcome_Done verifyTransactions_Done convHeader_def
      split: option.splits if_splits)

lemma yields_verifyBlock:
  "yields I (tagged idx (ofOutcome (verifyBlock env blk full))) (\<lambda>_. content_ok env full blk)"
  by (rule yields_tagged, rule yields_ofOutcome) (simp_all add: verifyBlock_Done)

lemma yields_getTrustedBlock:
  assumes s: "sound env w" and g: "genuine env w h t"
  shows "yields (engine_ok env w) (getTrustedBlock env h t full)
    (\<lambda>blk. computeBlockHash env (convHeader blk) = h \<and> convHeader blk \<in> trusted w t \<and> content_ok env full blk)"
  unfolding getTrustedBlock_def
  using genuine_trusted [OF s] g
  by (intro yields_rules yields_bind [OF yields_ask [OF soundD(1) [OF s]]]
      yields_bind [OF yields_verifyBlock] yields_bind [OF yields_store_put [OF soundD(3) [OF s]]]) auto

lemma yields_getEIP2935Hash:
  assumes s: "sound env w" and t: "t \<noteq> NoTrust" and a: "anchor \<in> trusted w t"
    and n: "n < number anchor" "number anchor - n \<le> HISTORY_SERVE_WINDOW"
  shows "yields (engine_ok env w) (getEIP2935Hash env anchor n) (\<lambda>h. genuine_at env w h t n)"
  unfolding getEIP2935Hash_def Let_def
proof (rule yields_bind)
  let ?slots = "[ucast (n mod HISTORY_SERVE_WINDOW) :: u256]"
  show "yields (engine_ok env w)
      (getStorageAt env HISTORY_STORAGE_ADDRESS ?slots (number anchor) (stateRoot anchor))
      (\<lambda>vs. vs = [history_slot w anchor n])"
    by (rule yields_mono)
      (unfold yields_def, rule hoare_getStorageAt [OF soundD(1,2) [OF s]],
       use soundD(5) [OF s t a] in \<open>auto simp: true_slot_def history_slot_def length_Suc_conv\<close>)
  fix vs assume "vs = [history_slot w anchor n]"
  with soundD(6) [OF s t a n] show "yields (engine_ok env w)
      (case vs of [] \<Rightarrow> defect
       | storedValue # _ \<Rightarrow>
           if storedValue = 0 then
             engine_fail UnavailableDataError ''the EIP-2935 history slot for the requested block is empty''
           else ret storedValue) (\<lambda>h. genuine_at env w h t n)"
    by (auto intro: yields_rules)
qed

lemma yields_historyHash:
  assumes "sound env w" and "t \<noteq> NoTrust" and "anchor \<in> trusted w t"
    and "n < number anchor" and "number anchor - n \<le> HISTORY_SERVE_WINDOW"
  shows "yields (engine_ok env w) (historyHash env anchor n) (\<lambda>h. genuine_at env w h t n)"
  unfolding historyHash_def
  by (intro yields_valueOr yields_getEIP2935Hash assms yields_rules)

text \<open>Where a jump lands: below the anchor, within its window and still above the target.\<close>

lemma window_jump:
  fixes a T :: u64
  assumes "T < a" and "HISTORY_SERVE_WINDOW < a - T"
  defines "new \<equiv> ((a - 1) div HISTORY_SERVE_WINDOW) * HISTORY_SERVE_WINDOW"
  shows "T < new" "new < a" "a - new \<le> HISTORY_SERVE_WINDOW"
proof -
  have a1: "unat (a - 1) = unat a - 1" using assms(1) by (rule unat_pred)
  have "unat (a - T) = unat a - unat T" using assms(1) by (simp add: unat_sub)
  with assms(1,2) have T: "8191 < unat a - unat T" "unat T < unat a"
    by (simp_all add: HISTORY_SERVE_WINDOW_def word_less_nat_alt)
  have "unat ((a - 1) div HISTORY_SERVE_WINDOW) * unat HISTORY_SERVE_WINDOW < 2 ^ 64"
    using unsigned_less [of a, where ?'a = nat] a1 T
    by (simp add: HISTORY_SERVE_WINDOW_def unat_div)
  then have new: "unat new = ((unat a - 1) div 8191) * 8191"
    unfolding new_def by (subst unat_mult_lem [THEN iffD1]) (simp_all add: HISTORY_SERVE_WINDOW_def unat_div a1)
  define m where "m = unat a - 1"
  have m: "m div 8191 * 8191 \<le> m" "m < m div 8191 * 8191 + 8191" by simp_all
  from new T m have *: "unat T < unat new" "unat new < unat a" "unat a - unat new \<le> 8191"
    unfolding m_def by linarith+
  then show "T < new" "new < a" by (simp_all add: word_less_nat_alt)
  with * show "a - new \<le> HISTORY_SERVE_WINDOW"
    by (simp add: word_le_nat_alt unat_sub HISTORY_SERVE_WINDOW_def)
qed

lemma yields_windowJumps:
  assumes s: "sound env w" and t: "t \<noteq> NoTrust"
    and "cur \<in> trusted w t" and "T < number cur" and "unat (number cur) \<le> fuel"
  shows "yields (engine_ok env w) (windowJumps fuel env cur t T)
    (\<lambda>x. x \<in> trusted w t \<and> T < number x \<and> number x - T \<le> HISTORY_SERVE_WINDOW)"
  using assms(3-5)
proof (induction fuel arbitrary: cur)
  case 0
  then show ?case by (simp add: word_less_nat_alt)
next
  case (Suc fuel)
  let ?I = "engine_ok env w"
  let ?B = "\<lambda>x. x \<in> trusted w t \<and> T < number x \<and> number x - T \<le> HISTORY_SERVE_WINDOW"
  let ?new = "((number cur - 1) div HISTORY_SERVE_WINDOW) * HISTORY_SERVE_WINDOW"
  show ?case
  proof (cases "number cur - T > HISTORY_SERVE_WINDOW")
    case True
    note jump = window_jump [OF Suc.prems(2) True]
    have next_ok: "yields ?I (windowJumps fuel env hdr t T) ?B" if "hdr \<in> trusted w t" "number hdr = ?new" for hdr
      by (rule Suc.IH) (use that jump Suc.prems(3) in \<open>auto simp: word_less_nat_alt\<close>)
    have fin: "hdr \<in> trusted w t" if "hdr \<in> trusted w Finalized" for hdr
      using trustsD(2) [OF soundD(3) [OF s] that] by simp
    note put = get_number_sound [OF soundD(3) [OF s] engine_okD(2)]
    have found: "yields ?I (gets (\<lambda>e. get_number (headerStore e) ?new Finalized))
        (\<lambda>c. \<forall>hdr. c = Some hdr \<longrightarrow> hdr \<in> trusted w t \<and> number hdr = ?new)"
      by (rule yields_gets) (use put fin in blast)
    have rest: "yields ?I (andThen (getTrustedHeader env h t) (\<lambda>hdr.
          if number hdr \<noteq> ?new then
            engine_fail VerificationError ''the EIP-2935 stored hash resolves to a block of a different number''
          else windowJumps fuel env hdr t T)) ?B"
      if "genuine_at env w h t ?new" for h
      by (rule yields_bind [OF yields_getTrustedHeader [OF s genuine_at_genuine [OF that]]])
        (auto intro!: yields_rules next_ok)
    show ?thesis
      unfolding windowJumps.simps Let_def if_P [OF True]
      by (rule yields_bind [OF found], rule yields_case_option)
        (rule yields_bind [OF yields_historyHash [OF s t Suc.prems(1) jump(2,3)]], erule rest,
          rule next_ok, simp_all)
  next
    case False
    with Suc.prems show ?thesis by (auto intro: yields_rules)
  qed
qed

lemma inEIP2935Range_less: "inEIP2935Range e anchor target \<Longrightarrow> number target < number anchor"
  by (auto simp: inEIP2935Range_def split: if_splits)

lemma yields_verifyEIP2935Membership:
  assumes s: "sound env w" and t: "t \<noteq> NoTrust" and a: "anchor \<in> trusted w t"
    and h: "computeBlockHash env target = h"
  shows "yields (engine_ok env w) (verifyEIP2935Membership env anchor t target h)
    (\<lambda>_. target \<in> trusted w t)"
  unfolding verifyEIP2935Membership_def
proof (rule yields_bind)
  let ?I = "engine_ok env w"
  show "yields ?I (gets (\<lambda>e. inEIP2935Range e anchor target)) (\<lambda>b. b \<longrightarrow> number target < number anchor)"
    by (rule yields_gets) (simp add: inEIP2935Range_less)
  fix b assume b: "b \<longrightarrow> number target < number anchor"
  have last: "yields ?I (andThen (historyHash env cur (number target)) (\<lambda>storedHash.
           if storedHash = h then ret ()
           else engine_fail VerificationError ''the requested block is not part of the canonical chain''))
         (\<lambda>_. target \<in> trusted w t)"
    if "cur \<in> trusted w t \<and> number target < number cur \<and> number cur - number target \<le> HISTORY_SERVE_WINDOW"
    for cur
  proof (rule yields_bind [OF yields_historyHash [OF s t]], (use that in blast)+, rule yields_if)
    fix x assume "genuine_at env w x t (number target)" "x = h"
    with genuine_at_trusted(1) [OF s t, of target] h
    show "yields ?I (ret ()) (\<lambda>_. target \<in> trusted w t)" by (simp add: yields_rules)
  qed (rule yields_rules)
  show "yields ?I
     (if \<not> b then
         engine_fail UnavailableDataError
           ''EIP-2935 cannot reach the requested block from the verified anchor''
       else
         andThen (windowJumps (unat (number anchor)) env anchor t (number target)) (\<lambda>curAnchor.
         andThen (historyHash env curAnchor (number target)) (\<lambda>storedHash.
           if storedHash = h then ret ()
           else engine_fail VerificationError
                  ''the requested block is not part of the canonical chain'')))
     (\<lambda>_. target \<in> trusted w t)"
  proof (rule yields_if)
    assume "\<not> \<not> b"
    with b yields_windowJumps [OF s t a, of "number target" "unat (number anchor)"]
    show "yields ?I (andThen (windowJumps (unat (number anchor)) env anchor t (number target)) (\<lambda>curAnchor.
         andThen (historyHash env curAnchor (number target)) (\<lambda>storedHash.
           if storedHash = h then ret ()
           else engine_fail VerificationError
                  ''the requested block is not part of the canonical chain'')))
       (\<lambda>_. target \<in> trusted w t)"
      by (auto elim!: yields_bind intro: last)
  qed (rule yields_rules)
qed

subsection \<open>The walk\<close>

lemma fetch_plan_range:
  assumes "fetch_plan store targetNum parallel n futs = (nums, m)" and "targetNum \<le> n"
  shows "targetNum \<le> m \<and> m \<le> n"
  using assms
proof (induction store targetNum parallel n futs rule: fetch_plan.induct)
  case (1 store targetNum parallel n futs)
  have pred: "targetNum \<le> n - 1" "n - 1 \<le> n" if "n > targetNum"
    using that unat_pred [OF that] by (simp_all add: word_le_nat_alt word_less_nat_alt)
  show ?case
    using 1 pred by (cases "n > targetNum \<and> of_nat (length futs) < max 1 parallel")
      (force simp: fetch_plan.simps [of store targetNum parallel n futs])+
qed

text \<open>A batch always makes progress: there is room for at least one download.\<close>

lemma fetch_plan_progress:
  assumes "fetch_plan store targetNum parallel n [] = (nums, m)" and "targetNum < n"
  shows "targetNum \<le> m \<and> m < n"
proof -
  have n: "targetNum \<le> n - 1" "n - 1 < n"
    using unat_pred [OF assms(2)] assms(2) by (simp_all add: word_le_nat_alt word_less_nat_alt)
  have "(0 :: u64) < max 1 parallel" by (simp add: less_max_iff_disj)
  with assms obtain futs where "fetch_plan store targetNum parallel (n - 1) futs = (nums, m)"
    by (auto simp: fetch_plan.simps [of store targetNum parallel n "[]"])
  from fetch_plan_range [OF this n(1)] n(2) show ?thesis by auto
qed

lemma yields_collect_headers:
  "yields (engine_ok env w) (collect_headers idx futs tbl) (\<lambda>_. True)"
  by (induction idx futs tbl rule: collect_headers.induct) (simp_all add: yields_rules del: fun_upd_apply)

lemma genuine_parent:
  assumes s: "sound env w" and t: "t \<noteq> NoTrust" and g: "genuine_at env w (computeBlockHash env hdr) t n"
    and n: "m < n"
  shows "hdr \<in> trusted w t" "genuine_at env w (parentHash hdr) t (n - 1)" "m \<le> n - 1"
proof -
  from genuine_at_trusted [OF s t g] have hdr: "hdr \<in> trusted w t" "number hdr = n" .
  with soundD(4) [OF s t] n show "hdr \<in> trusted w t" "genuine_at env w (parentHash hdr) t (n - 1)" by auto
  show "m \<le> n - 1" using unat_pred [OF n] n by (simp add: word_le_nat_alt word_less_nat_alt)
qed

lemma yields_link_headers:
  assumes s: "sound env w" and t: "t \<noteq> NoTrust"
    and "genuine_at env w h t n" and "m \<le> n"
  shows "yields (engine_ok env w) (link_headers env idx t tbl m n h) (\<lambda>h'. genuine_at env w h' t m)"
  using assms(3,4)
proof (induction "unat n" arbitrary: n h rule: less_induct)
  case less
  let ?I = "engine_ok env w"
  let ?B = "\<lambda>h'. genuine_at env w h' t m"
  show ?case
  proof (cases "n > m")
    case True
    have link: "yields ?I (andThen (store_put env hdr h t) (\<lambda>_.
        link_headers env idx t tbl m (n - 1) (parentHash hdr))) ?B"
      if hdr: "computeBlockHash env hdr = h" for hdr
    proof -
      from less.prems(1) hdr have g: "genuine_at env w (computeBlockHash env hdr) t n" by simp
      note p = genuine_parent [OF s t g True]
      have "yields ?I (link_headers env idx t tbl m (n - 1) (parentHash hdr)) ?B"
        using p(2,3) True by (intro less.hyps) (simp_all add: unat_pred_less)
      then show ?thesis
        by (intro yields_bind [OF yields_store_put [OF soundD(3) [OF s] hdr p(1)]])
    qed
    show ?thesis
      unfolding link_headers.simps [of env idx t tbl m n h] if_P [OF True]
      apply (rule yields_bind [OF yields_gets [where B = "\<lambda>_. True"]], simp)
      apply (rule yields_case_option, rule yields_engine, rule yields_if, rule yields_engine)
      apply (rule link, simp)
      done
  next
    case False
    with less.prems have "n = m" by simp
    with less.prems(1) show ?thesis by (simp add: link_headers.simps [of env idx t tbl m m h] yields_rules)
  qed
qed

lemma yields_walk_loop:
  assumes s: "sound env w" and t: "t \<noteq> NoTrust"
    and "genuine_at env w h t n" and "m \<le> n" and "unat n - unat m \<le> fuel"
  shows "yields (engine_ok env w) (walk_loop fuel env t m n h) (\<lambda>h'. genuine_at env w h' t m)"
  using assms(3-5)
proof (induction fuel arbitrary: n h)
  case 0
  then have "n = m" by (simp add: word_le_nat_alt word_unat_eq_iff)
  with 0 show ?case by (simp add: yields_rules)
next
  case (Suc fuel)
  let ?I = "engine_ok env w"
  let ?B = "\<lambda>h'. genuine_at env w h' t m"
  show ?case
  proof (cases "n > m")
    case True
    have found: "yields ?I (gets (\<lambda>e. get (headerStore e) h NoTrust))
        (\<lambda>c. \<forall>hdr. c = Some hdr \<longrightarrow> computeBlockHash env hdr = h)"
      by (rule yields_gets) (use get_sound [OF soundD(3) [OF s] engine_okD(2)] in auto)
    have over: "yields ?I (andThen (store_put env hdr h t) (\<lambda>_. walk_loop fuel env t m (n - 1) (parentHash hdr))) ?B"
      if hdr: "computeBlockHash env hdr = h" for hdr
    proof -
      from Suc.prems(1) hdr have g: "genuine_at env w (computeBlockHash env hdr) t n" by simp
      note p = genuine_parent [OF s t g True]
      have "yields ?I (walk_loop fuel env t m (n - 1) (parentHash hdr)) ?B"
        using Suc.prems(3) unat_pred [OF True] p by (intro Suc.IH) auto
      then show ?thesis
        by (intro yields_bind [OF yields_store_put [OF soundD(3) [OF s] hdr p(1)]])
    qed
    have batch: "yields ?I
        (andThen (await_all env (map (\<lambda>n. be_getBlockByNumber backend (BidNumber n) False) nums)) (\<lambda>futs.
         andThen (collect_headers idx futs Map.empty) (\<lambda>tbl.
         andThen (link_headers env idx t tbl k n h) (\<lambda>h'. walk_loop fuel env t m k h')))) ?B"
      if k: "m \<le> k" "k < n" for backend nums idx k
    proof -
      have "yields ?I (walk_loop fuel env t m k h') ?B" if "genuine_at env w h' t k" for h'
        using Suc.prems(3) k that by (intro Suc.IH) (auto simp: word_less_nat_alt)
      then show ?thesis
        using k(2)
        by (intro yields_bind [OF yields_keeping [OF hoare_await_all [OF soundD(1) [OF s]]]]
            yields_bind [OF yields_collect_headers] yields_bind [OF yields_link_headers [OF s t Suc.prems(1)]])
          auto
    qed
    have planned: "yields ?I (gets (\<lambda>e. fetch_plan (headerStore e) m (parallelBlockDownloads e) n []))
        (\<lambda>(nums, k). m \<le> k \<and> k < n)"
      by (rule yields_gets) (use fetch_plan_progress True in \<open>auto split: prod.splits\<close>)
    show ?thesis
      unfolding walk_loop.simps if_P [OF True]
      apply (rule yields_bind [OF found], rule yields_case_option)
       apply (rule yields_bind [OF yields_keeping [OF hoare_backendFor]], assumption, rule yields_case_prod)
       apply (rule yields_bind [OF planned], rule yields_case_prod, rule batch)
        apply simp_all [2]
      apply (rule over, simp)
      done
  next
    case False
    with Suc.prems show ?thesis by (auto simp: yields_rules)
  qed
qed

lemma yields_walkBlocks:
  assumes s: "sound env w" and t: "t \<noteq> NoTrust" and a: "anchor \<in> trusted w t"
  shows "yields (engine_ok env w) (walkBlocks env (number anchor) m (parentHash anchor) t)
    (\<lambda>h. genuine_at env w h t m)"
proof (cases "m < number anchor")
  case True
  have le: "m \<le> number anchor - 1" "unat (number anchor - 1) - unat m \<le> unat (number anchor - m)"
    using unat_pred [OF True] True by (simp_all add: word_le_nat_alt word_less_nat_alt unat_sub)
  note loop = yields_walk_loop [OF s t soundD(4) [OF s t a True] le]
  from True show ?thesis
    unfolding walkBlocks_def Let_def
    by (auto intro!: yields_rules loop yields_bind [OF yields_gets [where B = "\<lambda>_. True"]])
next
  case False
  then show ?thesis by (auto simp: walkBlocks_def intro: yields_rules)
qed

subsection \<open>Headers and blocks\<close>

lemma yields_verifyHeader:
  assumes s: "sound env w" and t: "t \<noteq> NoTrust" and a: "anchor \<in> trusted w t"
  shows "yields (engine_ok env w) (verifyHeader env anchor t hdr h)
    (\<lambda>_. computeBlockHash env hdr = h \<and> hdr \<in> trusted w t)"
proof (cases "computeBlockHash env hdr = h")
  case True
  let ?I = "engine_ok env w"
  have same: "x = hdr" if "x \<in> trusted w t" "computeBlockHash env x = h" for x
    using trustsD(3) [OF soundD(3) [OF s] that(1) t, of hdr] that(2) True by simp
  have known: "yields ?I (gets (\<lambda>e. (get (headerStore e) h t, archive e)))
      (\<lambda>(known, _). known \<noteq> None \<longrightarrow> hdr \<in> trusted w t)"
    by (rule yields_gets) (use get_sound [OF soundD(3) [OF s] engine_okD(2)] same in fastforce)
  have put: "yields ?I (store_put env hdr h t) (\<lambda>_. computeBlockHash env hdr = h \<and> hdr \<in> trusted w t)"
    if "hdr \<in> trusted w t"
    using yields_store_put [OF soundD(3) [OF s] True that] True that by simp
  have walk: "yields ?I (andThen (walkBlocks env (number anchor) (number hdr) (parentHash anchor) t) (\<lambda>walkedHash.
        if walkedHash \<noteq> h then
          engine_fail VerificationError ''the requested block is not part of the canonical chain''
        else ret ())) (\<lambda>_. hdr \<in> trusted w t)"
    by (rule yields_bind [OF yields_walkBlocks [OF s t a]])
      (auto intro!: yields_rules dest: genuine_at_trusted(1) [OF s t, of hdr, unfolded True])
  have at_anchor: "hdr \<in> trusted w t" if "h = computeBlockHash env anchor"
    using same [OF a] that a by simp
  show ?thesis
    unfolding verifyHeader_def
    apply (rule yields_if, rule yields_engine)
    apply (rule yields_bind [OF known], rule yields_case_prod)
    apply (rule yields_if)
     apply (simp add: True yields_rules)
    apply (rule yields_if, rule yields_if, rule yields_engine, rule put, rule at_anchor, simp)
    apply (rule yields_bind [where A = "\<lambda>_. hdr \<in> trusted w t"])
     apply (rule yields_if, rule yields_verifyEIP2935Membership [OF s t a True], rule walk)
    apply (erule put)
    done
next
  case False
  then show ?thesis by (simp add: verifyHeader_def yields_rules)
qed

lemma yields_getBlockHash:
  assumes s: "sound env w" and t: "t \<noteq> NoTrust" and a: "anchor \<in> trusted w t"
  shows "yields (engine_ok env w) (getBlockHash env anchor n) (\<lambda>h. genuine_at env w h t n)"
proof -
  let ?I = "engine_ok env w"
  have found: "yields ?I (gets (\<lambda>e. (getHash_number (headerStore e) n Finalized, isEIP2935Active e anchor)))
      (\<lambda>(c, _). \<forall>h. c = Some h \<longrightarrow> genuine_at env w h t n)"
  proof (rule yields_gets)
    fix e assume "?I e"
    then show "case (getHash_number (headerStore e) n Finalized, isEIP2935Active e anchor) of
        (c, _) \<Rightarrow> \<forall>h. c = Some h \<longrightarrow> genuine_at env w h t n"
      using getHash_number_sound [OF engine_okD(2)] trustsD(2) [OF soundD(3) [OF s], of _ Finalized t]
      by (fastforce simp: genuine_at_def)
  qed
  have self: "genuine_at env w (computeBlockHash env anchor) t (number anchor)"
    using a by (auto simp: genuine_at_def)
  show ?thesis
    unfolding getBlockHash_def
    by (auto intro!: yields_rules yields_getEIP2935Hash [OF s t a] yields_bind [OF found] self)
qed

lemma yields_getHeader_hash:
  assumes s: "sound env w" and t: "t \<noteq> NoTrust" and a: "anchor \<in> trusted w t"
  shows "yields (engine_ok env w) (getHeader_hash env anchor t h)
    (\<lambda>x. computeBlockHash env x = h \<and> x \<in> trusted w t)"
proof -
  have found: "yields (engine_ok env w) (gets (\<lambda>e. get (headerStore e) h t))
      (\<lambda>c. \<forall>hdr. c = Some hdr \<longrightarrow> computeBlockHash env hdr = h \<and> hdr \<in> trusted w t)"
    by (rule yields_gets) (use get_sound [OF soundD(3) [OF s] engine_okD(2)] in auto)
  show ?thesis
    unfolding getHeader_hash_def
    by (rule yields_bind [OF found])
      (auto intro!: yields_rules yields_bind [OF yields_ask [OF soundD(1) [OF s]]]
        yields_bind [OF yields_tagged [OF yields_verifyHeader [OF s t a]]] simp: Let_def)
qed

lemma yields_getHeader_tag:
  assumes s: "sound env w" and t: "t \<noteq> NoTrust" and a: "anchor \<in> trusted w t"
  shows "yields (engine_ok env w) (getHeader_tag env anchor t tag)
    (\<lambda>x. tag = BidNumber (number x) \<and> x \<in> trusted w t)"
proof (cases tag)
  case (BidNumber n)
  have found: "yields (engine_ok env w) (gets (\<lambda>e. get_number (headerStore e) n t))
      (\<lambda>c. \<forall>hdr. c = Some hdr \<longrightarrow> hdr \<in> trusted w t \<and> number hdr = n)"
    by (rule yields_gets)
      (use get_number_sound [OF soundD(3) [OF s] engine_okD(2)]
          trustsD(2) [OF soundD(3) [OF s], of _ Finalized t] in fastforce)
  show ?thesis
    unfolding getHeader_tag_def BidNumber block_tag.simps
    by (rule yields_bind [OF found])
      (auto intro!: yields_rules yields_bind [OF yields_ask [OF soundD(1) [OF s]]]
        yields_bind [OF yields_tagged [OF yields_verifyHeader [OF s t a]]] simp: Let_def)
qed (simp_all add: getHeader_tag_def yields_rules)

lemma yields_getBlock_hash:
  assumes s: "sound env w" and t: "t \<noteq> NoTrust" and a: "anchor \<in> trusted w t"
  shows "yields (engine_ok env w) (getBlock_hash env anchor t h full)
    (\<lambda>blk. computeBlockHash env (convHeader blk) = h \<and> convHeader blk \<in> trusted w t \<and> content_ok env full blk)"
  unfolding getBlock_hash_def
  by (auto intro!: yields_rules yields_bind [OF yields_ask [OF soundD(1) [OF s]]]
      yields_bind [OF yields_tagged [OF yields_verifyHeader [OF s t a]]] yields_bind [OF yields_verifyBlock])

lemma yields_getBlock_tag:
  assumes s: "sound env w" and t: "t \<noteq> NoTrust" and a: "anchor \<in> trusted w t"
  shows "yields (engine_ok env w) (getBlock_tag env anchor t tag full)
    (\<lambda>blk. tag = BidNumber (number (convHeader blk)) \<and> convHeader blk \<in> trusted w t \<and> content_ok env full blk)"
proof (cases tag)
  case (BidNumber n)
  have num: "number (convHeader blk) = blk_number blk" for blk by (simp add: convHeader_def)
  show ?thesis
    unfolding getBlock_tag_def BidNumber block_tag.simps
    by (auto intro!: yields_rules yields_bind [OF yields_ask [OF soundD(1) [OF s]]]
        yields_bind [OF yields_tagged [OF yields_verifyHeader [OF s t a]]] yields_bind [OF yields_verifyBlock]
        simp: num)
qed (simp_all add: getBlock_tag_def yields_rules)

subsection \<open>Tags\<close>

definition anchors_ok :: "'b env \<Rightarrow> truth \<Rightarrow> anchor_hashes \<Rightarrow> bool" where
  "anchors_ok env w a \<longleftrightarrow>
     (\<forall>h. latest a = Some h \<longrightarrow> genuine env w h Optimistic) \<and>
     (\<forall>h. safe a = Some h \<longrightarrow> genuine env w h Safe) \<and>
     (\<forall>h. finalized a = Some h \<longrightarrow> genuine env w h Finalized) \<and>
     (\<forall>h. earliest a = Some h \<longrightarrow> genuine env w h Finalized)"

lemma yields_snapshotAnchors: "yields (engine_ok env w) snapshotAnchors (anchors_ok env w)"
  unfolding yields_def hoare_def
proof (intro allI impI)
  fix e assume e: "engine_ok env w e"
  note D = store_okD(4,5) [OF engine_okD(2) [OF e]]
  show "ends (\<lambda>x s. engine_ok env w s \<and> anchors_ok env w x) (engine_ok env w) (snapshotAnchors e)"
    using e by (auto simp: snapshotAnchors_def engine_fail_def fail_def ret_def anchors_ok_def genuine_def
        dest: D)
qed

text \<open>
  The anchor picked for a number covers it and is verified; if the finalized anchor covers it,
  it is that one.
\<close>

definition picked :: "'b env \<Rightarrow> truth \<Rightarrow> anchor_hashes \<Rightarrow> u64 \<Rightarrow> block_header \<times> header_trust \<Rightarrow> bool" where
  "picked env w anchors n =
     (\<lambda>(anchor, t). t \<noteq> NoTrust \<and> anchor \<in> trusted w t \<and> n \<le> number anchor \<and>
       (\<forall>f \<in> trusted w Finalized. finalized anchors = Some (computeBlockHash env f) \<longrightarrow> n \<le> number f \<longrightarrow>
          t = Finalized))"

lemma yields_pickAnchor:
  assumes s: "sound env w" and a: "anchors_ok env w anchors"
  shows "yields (engine_ok env w) (pickAnchor env anchors n) (picked env w anchors n)"
proof -
  let ?I = "engine_ok env w"
  let ?weak = "\<lambda>(anchor, t). t \<noteq> NoTrust \<and> anchor \<in> trusted w t \<and> n \<le> number anchor"
  let ?latest = "case latest anchors of
       None \<Rightarrow> engine_fail UnavailableDataError ''no verified anchor covers the requested block''
     | Some hash \<Rightarrow>
         andThen (getTrustedHeader env hash Optimistic) (\<lambda>anchor.
           if n > number anchor then
             engine_fail UnavailableDataError ''the requested block is newer than the latest verified block''
           else ret (anchor, Optimistic))"
  let ?safe = "case safe anchors of
       None \<Rightarrow> ?latest
     | Some hash \<Rightarrow>
         andThen (getTrustedHeader env hash Safe) (\<lambda>anchor.
           if n \<le> number anchor then ret (anchor, Safe) else ?latest)"
  have hdr: "yields ?I (getTrustedHeader env h t) (\<lambda>x. computeBlockHash env x = h \<and> x \<in> trusted w t)"
    if "genuine env w h t" for h t
    using yields_getTrustedHeader [OF s that] .
  have latest: "yields ?I ?latest ?weak"
    by (rule yields_case_option, rule yields_engine, rule yields_bind [OF hdr])
      (use a in \<open>auto simp: anchors_ok_def intro!: yields_rules\<close>)
  have safe: "yields ?I ?safe ?weak"
    by (rule yields_case_option, rule latest, rule yields_bind [OF hdr])
      (use a latest in \<open>auto simp: anchors_ok_def intro!: yields_rules\<close>)
  show ?thesis
  proof (cases "finalized anchors")
    case None
    then show ?thesis
      using yields_mono [OF safe, of "picked env w anchors n"] by (simp add: pickAnchor_def Let_def picked_def split_def)
  next
    case (Some h)
    have same: "x = f" if "x \<in> trusted w Finalized" "computeBlockHash env x = h" "f \<in> trusted w Finalized"
      "computeBlockHash env f = h" for x f
      using trustsD(3) [OF soundD(3) [OF s] that(3), of x] that(2,4) by simp
    have other: "yields ?I ?safe (picked env w anchors n)"
      if "\<not> n \<le> number x" "x \<in> trusted w Finalized" "computeBlockHash env x = h" for x
    proof (rule yields_mono [OF safe])
      fix p assume "?weak p"
      moreover have "\<not> n \<le> number f" if "f \<in> trusted w Finalized" "finalized anchors = Some (computeBlockHash env f)" for f
        using same [of x f] \<open>\<not> n \<le> number x\<close> \<open>x \<in> trusted w Finalized\<close> \<open>computeBlockHash env x = h\<close> that Some by simp
      ultimately show "picked env w anchors n p" unfolding picked_def by blast
    qed
    have this_one: "picked env w anchors n (x, Finalized)" if "n \<le> number x" "x \<in> trusted w Finalized" for x
      using that by (simp add: picked_def)
    have "yields ?I (andThen (getTrustedHeader env h Finalized) (\<lambda>anchor.
        if n \<le> number anchor then ret (anchor, Finalized) else ?safe)) (picked env w anchors n)"
      apply (rule yields_bind [OF hdr], use a Some in \<open>simp add: anchors_ok_def\<close>, rule yields_if)
       apply (rule yields_basic(1), rule this_one, assumption, erule conjunct2)
      apply (rule other, assumption, erule conjunct2, erule conjunct1)
      done
    with Some show ?thesis by (simp add: pickAnchor_def Let_def)
  qed
qed

text \<open>
  What the names of blocks promise, and which anchor they stand for; names are in any case.
\<close>

definition block_names :: "(string \<times> header_trust \<times> (anchor_hashes \<Rightarrow> hash32 option)) set" where
  "block_names =
     {(''latest'', Optimistic, latest), (''safe'', Safe, safe),
      (''finalized'', Finalized, finalized), (''earliest'', Finalized, earliest)}"

text \<open>
  What a header must be to answer a tag: for an alias, one that deserves the trust the name
  promises, and, where the anchors are known, the anchor of that name; for a number, a trusted
  header of that number, finalized if the finalized anchor covers it; for a hash, the header
  with that hash, and a trusted one if it is required to be canonical.
\<close>

fun answers :: "'b env \<Rightarrow> truth \<Rightarrow> anchor_hashes option \<Rightarrow> block_tag \<Rightarrow> block_header \<Rightarrow> bool" where
  "answers env w snapshot (BidAlias txt) hdr \<longleftrightarrow>
     (\<exists>(name, t, anchor) \<in> block_names. toLowerAscii txt = name \<and> hdr \<in> trusted w t \<and>
        (\<forall>anchors. snapshot = Some anchors \<longrightarrow> anchor anchors = Some (computeBlockHash env hdr)))"
| "answers env w snapshot (BidNumber n) hdr \<longleftrightarrow>
     number hdr = n \<and> hdr \<in> trusted w Optimistic \<and>
     (\<forall>anchors. snapshot = Some anchors \<longrightarrow>
        (\<forall>f \<in> trusted w Finalized. finalized anchors = Some (computeBlockHash env f) \<longrightarrow> n \<le> number f \<longrightarrow>
           hdr \<in> trusted w Finalized))"
| "answers env w snapshot (BidHash h requireCanonical) hdr \<longleftrightarrow>
     computeBlockHash env hdr = h \<and> (requireCanonical \<longrightarrow> hdr \<in> trusted w Optimistic)"

lemma answers_unpinned: "answers env w (Some a) tag hdr \<Longrightarrow> answers env w None tag hdr"
  by (cases tag) auto

text \<open>
  The anchors a query goes by: those handed to it, or those of the store when it starts.
\<close>

definition anchors_in_force :: "anchor_hashes option \<Rightarrow> 'b engine \<Rightarrow> anchor_hashes" where
  "anchors_in_force snapshot e =
     (case snapshot of
        Some anchors \<Rightarrow> anchors
      | None \<Rightarrow>
          \<lparr>latest = getHash (headerStore e) Optimistic, safe = getHash (headerStore e) Safe,
           finalized = getHash (headerStore e) Finalized, earliest = getEarliestHash (headerStore e)\<rparr>)"

lemma anchors_in_force_ok:
  assumes "engine_ok env w e" and "\<forall>a. snapshot = Some a \<longrightarrow> anchors_ok env w a"
  shows "anchors_ok env w (anchors_in_force snapshot e)"
  using assms store_okD(4,5) [OF engine_okD(2) [OF assms(1)]]
  by (auto simp: anchors_in_force_def anchors_ok_def genuine_def split: option.split)

lemma trusted_Optimistic:
  assumes "sound env w" and "t \<noteq> NoTrust" and "hdr \<in> trusted w t"
  shows "hdr \<in> trusted w Optimistic"
proof -
  have "Optimistic \<le> t" using assms(2) by (cases t) (simp_all add: trust_order)
  then show ?thesis using trustsD(2) [OF soundD(3) [OF assms(1)] assms(3)] by simp
qed

lemma aliasAnchor_named:
  assumes "aliasAnchor a txt = Some (Some h, t)"
  shows "\<exists>anchor. (toLowerAscii txt, t, anchor) \<in> block_names \<and> anchor a = Some h"
  using assms unfolding aliasAnchor_def Let_def block_names_def by (auto split: if_splits)

lemma named_anchor_ok:
  "anchors_ok env w a \<Longrightarrow> (name, t, anchor) \<in> block_names \<Longrightarrow> anchor a = Some h \<Longrightarrow>
   t \<noteq> NoTrust \<and> genuine env w h t"
  by (auto simp: block_names_def anchors_ok_def)

lemma alias_trusted:
  assumes "sound env w" and "answers env w snapshot (BidAlias txt) hdr"
  shows "hdr \<in> trusted w Optimistic"
proof -
  obtain t where "t \<noteq> NoTrust" "hdr \<in> trusted w t" using assms(2) by (auto simp: block_names_def)
  then show ?thesis by (rule trusted_Optimistic [OF assms(1)])
qed

text \<open>Without a snapshot, a query goes by the anchors in the store.\<close>

lemma getVerified_snapshot:
  "getVerified atHash byHash byTag env tag None e =
     (if getHash (headerStore e) Optimistic = None \<and> getHash (headerStore e) Safe = None then
        engine_fail UnavailableDataError ''no verified anchor is available yet. Still syncing?'' e
      else getVerified atHash byHash byTag env tag (Some (anchors_in_force None e)) e)"
  by (simp add: getVerified_def andThen_def snapshotAnchors_def ret_def engine_fail_def fail_def anchors_in_force_def)

text \<open>
  The three calls \<open>getVerified\<close> is generic in, for answers that have a header: the answer at a
  trusted hash, the answer with a hash below an anchor, the answer with a number below an anchor.
\<close>

locale verified_kind =
  fixes atHash :: "'b env \<Rightarrow> hash32 \<Rightarrow> header_trust \<Rightarrow> ('b, 'a) engine_proc"
    and byHash :: "'b env \<Rightarrow> block_header \<Rightarrow> header_trust \<Rightarrow> hash32 \<Rightarrow> ('b, 'a) engine_proc"
    and byTag :: "'b env \<Rightarrow> block_header \<Rightarrow> header_trust \<Rightarrow> block_tag \<Rightarrow> ('b, 'a) engine_proc"
    and header_of :: "'a \<Rightarrow> block_header"
    and checked :: "'b env \<Rightarrow> 'a \<Rightarrow> bool"
  assumes atHash: "sound env w \<Longrightarrow> genuine env w h t \<Longrightarrow>
      yields (engine_ok env w) (atHash env h t)
        (\<lambda>x. computeBlockHash env (header_of x) = h \<and> header_of x \<in> trusted w t \<and> checked env x)"
    and byHash: "sound env w \<Longrightarrow> t \<noteq> NoTrust \<Longrightarrow> anchor \<in> trusted w t \<Longrightarrow>
      yields (engine_ok env w) (byHash env anchor t h)
        (\<lambda>x. computeBlockHash env (header_of x) = h \<and> header_of x \<in> trusted w t \<and> checked env x)"
    and byTag: "sound env w \<Longrightarrow> t \<noteq> NoTrust \<Longrightarrow> anchor \<in> trusted w t \<Longrightarrow>
      yields (engine_ok env w) (byTag env anchor t tag)
        (\<lambda>x. tag = BidNumber (number (header_of x)) \<and> header_of x \<in> trusted w t \<and> checked env x)"
begin

lemma tag_answers:
  assumes s: "sound env w" and a: "anchors_ok env w anchors" and an: "snapshot = None \<or> snapshot = Some anchors"
  shows "yields (engine_ok env w)
    (case tag of
         BidAlias txt \<Rightarrow>
           (case aliasAnchor anchors txt of
              None \<Rightarrow> engine_fail InvalidDataError (''No support for block tag '' @ tag_text env tag)
            | Some (None, t) \<Rightarrow>
                engine_fail UnavailableDataError (tag_text env tag @ '' block is not available yet'')
            | Some (Some hash, t) \<Rightarrow> atHash env hash t)
       | BidNumber n \<Rightarrow>
           andThen (pickAnchor env anchors n) (\<lambda>(anchor, t).
             if n = number anchor then atHash env (computeBlockHash env anchor) t
             else byTag env anchor t tag)
       | BidHash hash requireCanonical \<Rightarrow>
           if \<not> requireCanonical then atHash env hash NoTrust
           else
             andThen (getTrustedHeader env hash NoTrust) (\<lambda>target.
             andThen (pickAnchor env anchors (number target)) (\<lambda>(anchor, t).
               byHash env anchor t hash)))
    (\<lambda>x. answers env w snapshot tag (header_of x) \<and> checked env x)"
proof (cases tag)
  case (BidAlias nm)
  have "yields (engine_ok env w) (atHash env h t) (\<lambda>x. answers env w snapshot tag (header_of x) \<and> checked env x)"
    if al: "aliasAnchor anchors nm = Some (Some h, t)" for h t
  proof -
    obtain anchor where named: "(toLowerAscii nm, t, anchor) \<in> block_names" "anchor anchors = Some h"
      using aliasAnchor_named [OF al] by blast
    show ?thesis
    proof (rule yields_mono [OF atHash [OF s]])
      show "genuine env w h t" using named_anchor_ok [OF a named] by simp
      fix x assume "computeBlockHash env (header_of x) = h \<and> header_of x \<in> trusted w t \<and> checked env x"
      with named an show "answers env w snapshot tag (header_of x) \<and> checked env x"
        unfolding BidAlias answers.simps by auto
    qed
  qed
  then show ?thesis
    by (auto simp: BidAlias split: option.splits intro: yields_rules)
next
  case (BidNumber n)
  have self: "yields (engine_ok env w) (atHash env (computeBlockHash env anchor) t)
      (\<lambda>x. answers env w snapshot tag (header_of x) \<and> checked env x)"
    if "picked env w anchors n (anchor, t)" "n = number anchor" for anchor t
  proof (rule yields_mono [OF atHash [OF s]])
    from that have t: "t \<noteq> NoTrust" "anchor \<in> trusted w t" by (simp_all add: picked_def)
    then show "genuine env w (computeBlockHash env anchor) t" by (auto simp: genuine_def)
    fix x
    assume x: "computeBlockHash env (header_of x) = computeBlockHash env anchor \<and> header_of x \<in> trusted w t \<and>
      checked env x"
    then have "header_of x = anchor" using trustsD(3) [OF soundD(3) [OF s] t(2,1)] by simp
    with that x t an trusted_Optimistic [OF s t] show "answers env w snapshot tag (header_of x) \<and> checked env x"
      by (auto simp: BidNumber picked_def)
  qed
  have below: "yields (engine_ok env w) (byTag env anchor t tag)
      (\<lambda>x. answers env w snapshot tag (header_of x) \<and> checked env x)"
    if "picked env w anchors n (anchor, t)" for anchor t
    by (rule yields_mono [OF byTag [OF s]])
      (use that an trusted_Optimistic [OF s] in \<open>auto simp: BidNumber picked_def\<close>)
  show ?thesis
    unfolding BidNumber block_tag.simps
    by (rule yields_bind [OF yields_pickAnchor [OF s a]], rule yields_case_prod, rule yields_if)
      (use self below BidNumber in auto)
next
  case (BidHash h requireCanonical)
  have pinned: "yields (engine_ok env w) (atHash env h NoTrust)
      (\<lambda>x. computeBlockHash env (header_of x) = h \<and> header_of x \<in> trusted w NoTrust \<and> checked env x)"
    by (rule atHash [OF s]) (simp add: genuine_def)
  have below: "yields (engine_ok env w) (byHash env anchor t h)
      (\<lambda>x. answers env w snapshot tag (header_of x) \<and> checked env x)"
    if "picked env w anchors n (anchor, t)" for anchor t n
    by (rule yields_mono [OF byHash [OF s]])
      (use that trusted_Optimistic [OF s] in \<open>auto simp: BidHash picked_def\<close>)
  show ?thesis
    unfolding BidHash block_tag.simps
    apply (rule yields_if)
     apply (rule yields_mono [OF pinned], simp)
    apply (rule yields_bind [OF yields_getTrustedHeader [OF s]], simp add: genuine_def)
    apply (rule yields_bind [OF yields_pickAnchor [OF s a]], rule yields_case_prod)
    using below BidHash by auto
qed

lemma getVerified_answers:
  assumes s: "sound env w" and a: "\<And>a. snapshot = Some a \<Longrightarrow> anchors_ok env w a"
  shows "yields (engine_ok env w)
    (getVerified (atHash env) (byHash env) (byTag env) env tag snapshot)
    (\<lambda>x. answers env w snapshot tag (header_of x) \<and> checked env x)"
proof -
  have "yields (engine_ok env w) (case snapshot of Some a \<Rightarrow> ret a | None \<Rightarrow> snapshotAnchors)
      (\<lambda>anchors. anchors_ok env w anchors \<and> (snapshot = None \<or> snapshot = Some anchors))"
    using a by (intro yields_case_option yields_mono [OF yields_snapshotAnchors] yields_rules) auto
  then show ?thesis
    unfolding getVerified_def by (rule yields_bind) (use tag_answers [OF s] in blast)
qed

lemma getVerified_in_force:
  assumes "sound env w" and "engine_ok env w e" and "\<forall>a. snapshot = Some a \<longrightarrow> anchors_ok env w a"
    and "fst (getVerified (atHash env) (byHash env) (byTag env) env tag snapshot e) = Done x"
  shows "answers env w (Some (anchors_in_force snapshot e)) tag (header_of x) \<and> checked env x"
proof -
  let ?get = "getVerified (atHash env) (byHash env) (byTag env) env tag" and ?a = "anchors_in_force snapshot e"
  have "fst (?get (Some ?a) e) = Done x"
    using assms(4) getVerified_snapshot [of "atHash env" "byHash env" "byTag env" env tag e]
    by (cases snapshot) (auto simp: anchors_in_force_def engine_fail_def fail_def split: if_splits)
  then obtain s where run: "?get (Some ?a) e = (Done x, s)" by (metis prod.collapse)
  have "yields (engine_ok env w) (?get (Some ?a))
      (\<lambda>x. answers env w (Some ?a) tag (header_of x) \<and> checked env x)"
    by (rule getVerified_answers [OF assms(1)]) (simp add: anchors_in_force_ok [OF assms(2,3)])
  from yieldsD(3) [OF this assms(2) run] show ?thesis .
qed

end

interpretation header_kind: verified_kind getTrustedHeader getHeader_hash getHeader_tag id "\<lambda>_ _. True"
  by unfold_locales
    (simp_all add: yields_getTrustedHeader yields_getHeader_hash yields_getHeader_tag)

interpretation block_kind: verified_kind "\<lambda>env h t. getTrustedBlock env h t full"
    "\<lambda>env anchor t h. getBlock_hash env anchor t h full" "\<lambda>env anchor t tag. getBlock_tag env anchor t tag full"
    convHeader "\<lambda>env. content_ok env full" for full
  by unfold_locales
    (simp_all add: yields_getTrustedBlock yields_getBlock_hash yields_getBlock_tag)

section \<open>Freedom from defects\<close>

lemma crash_free_await_all [crash_free_rules]: "crash_free (await_all env replies)"
  by (simp add: crash_free_def await_all_def)

lemma crash_free_getEIP2935Hash [crash_free_rules]: "crash_free (getEIP2935Hash env anchor n)"
  unfolding getEIP2935Hash_def Let_def
proof (rule crash_free_bind [OF crash_free_getStorageAt returns_getStorageAt])
  fix vs :: "u256 list" assume "length vs = length [ucast (n mod HISTORY_SERVE_WINDOW) :: u256]"
  then obtain v where "vs = [v]" by (auto simp: length_Suc_conv)
  then show "crash_free (case vs of [] \<Rightarrow> defect
      | storedValue # _ \<Rightarrow>
          if storedValue = 0 then
            engine_fail UnavailableDataError ''the EIP-2935 history slot for the requested block is empty''
          else ret storedValue)"
    by (auto intro!: crash_free_rules)
qed

lemma crash_free_getTrustedHeader [crash_free_rules]: "crash_free (getTrustedHeader env h t)"
  unfolding getTrustedHeader_def by (intro crash_free_rules)

lemma crash_free_windowJumps [crash_free_rules]: "crash_free (windowJumps fuel env cur t n)"
  by (induction fuel arbitrary: cur) (auto simp: Let_def historyHash_def intro!: crash_free_rules)

lemma crash_free_verifyEIP2935Membership [crash_free_rules]:
  "crash_free (verifyEIP2935Membership env anchor t target h)"
  unfolding verifyEIP2935Membership_def historyHash_def by (intro crash_free_rules)

lemma crash_free_collect_headers [crash_free_rules]: "crash_free (collect_headers idx futs tbl)"
  by (induction idx futs tbl rule: collect_headers.induct) (simp_all add: crash_free_rules del: fun_upd_apply)

lemma crash_free_link_headers [crash_free_rules]: "crash_free (link_headers env idx t tbl m n h)"
proof (induction "unat n" arbitrary: n h rule: less_induct)
  case less
  show ?case
    unfolding link_headers.simps [of env idx t tbl m n h]
    by (intro crash_free_rules less.hyps) (simp add: unat_pred_less)
qed

lemma crash_free_walk_loop [crash_free_rules]: "crash_free (walk_loop fuel env t m n h)"
proof (induction fuel arbitrary: n h)
  case 0
  then show ?case by (simp add: crash_free_rules)
next
  case (Suc fuel)
  show ?case unfolding walk_loop.simps by (intro crash_free_rules Suc.IH)
qed

lemma crash_free_verifyHeader [crash_free_rules]: "crash_free (verifyHeader env anchor t hdr h)"
  unfolding verifyHeader_def walkBlocks_def by (intro crash_free_rules)

lemma crash_free_snapshotAnchors [crash_free_rules]: "crash_free snapshotAnchors"
  by (simp add: crash_free_def snapshotAnchors_def engine_fail_def fail_def ret_def)

lemma crash_free_pickAnchor [crash_free_rules]: "crash_free (pickAnchor env anchors n)"
  unfolding pickAnchor_def by (intro crash_free_rules)

lemma crash_free_getHeader [crash_free_rules]:
  "crash_free (getHeader_hash env anchor t h)" "crash_free (getHeader_tag env anchor t tag)"
  unfolding getHeader_hash_def getHeader_tag_def
  by (auto intro!: crash_free_rules split: block_tag.splits)

lemma crash_free_getVerifiedHeader: "crash_free (getVerifiedHeader env tag snapshot)"
  unfolding getVerifiedHeader_def getVerified_def
  by (intro crash_free_rules) (auto intro!: crash_free_rules split: block_tag.splits option.splits)

section \<open>A chain to try things on\<close>

definition chain_hdr :: "u64 \<Rightarrow> block_header" where
  "chain_hdr n = empty_header\<lparr>number := n, parentHash := ucast (n - 1)\<rparr>"

definition chain_hash :: "block_header \<Rightarrow> hash32" where
  "chain_hash hdr = (if hdr = chain_hdr (number hdr) then ucast (number hdr) else - 1)"

definition chain_env :: "unit env" where
  "chain_env = quiet_env\<lparr>computeBlockHash := chain_hash, verifyMptProof := (\<lambda>_ _ _ _. InvalidProof ''bad'')\<rparr>"

definition chain_truth :: truth where
  "chain_truth =
     \<lparr>trusted = (\<lambda>t. if t = NoTrust then UNIV else range chain_hdr), state_roots = UNIV,
      account_at = (\<lambda>_ _. demo_account), slot_at = (\<lambda>_ _. 0)\<rparr>"

definition chain_block :: "u64 \<Rightarrow> block_object" where
  "chain_block n =
     \<lparr>blk_hash = ucast n, blk_parentHash = ucast (n - 1), blk_sha3Uncles = 0, blk_miner = 0,
      blk_stateRoot = 0, blk_transactionsRoot = 0, blk_receiptsRoot = 0, blk_logsBloom = 0,
      blk_difficulty = 0, blk_number = n, blk_gasLimit = 0, blk_gasUsed = 0, blk_timestamp = 0,
      blk_extraData = [], blk_mixHash = 0, blk_nonce = None, blk_baseFeePerGas = None,
      blk_withdrawalsRoot = None, blk_blobGasUsed = None, blk_excessBlobGas = None,
      blk_parentBeaconBlockRoot = None, blk_requestsHash = None, blk_transactions = [],
      blk_withdrawals = None, blk_uncles = []\<rparr>"

definition chain_api :: execution_api where
  "chain_api = silent_api
     \<lparr>be_getBlockByHash := (\<lambda>h full t. Some (Inr (chain_block (ucast h)))),
      be_getBlockByNumber := (\<lambda>tag full t. case tag of BidNumber n \<Rightarrow> Some (Inr (chain_block n)) | _ \<Rightarrow> None)\<rparr>"

definition chain_engine :: "u64 \<Rightarrow> unit engine" where
  "chain_engine tip =
     (demo_engine chain_api)
       \<lparr>headerStore := putHash (ucast tip) Optimistic
          (put (\<lambda>_. False) (chain_hdr tip) (ucast tip) Optimistic new_store)\<rparr>"

lemma convHeader_chain [simp]: "convHeader (chain_block n) = chain_hdr n"
  by (simp add: convHeader_def chain_block_def chain_hdr_def empty_header_def)

lemma number_chain [simp]: "number (chain_hdr n) = n"
  by (simp add: chain_hdr_def)

lemma chain_hash_chain [simp]: "chain_hash (chain_hdr n) = ucast n"
  by (simp add: chain_hash_def)

lemma unat_number: "unat (ucast n :: hash32) = unat n" for n :: u64
proof -
  have "unat n < 2 ^ 256"
    using unsigned_less [of n, where ?'a = nat] by (simp add: less_trans)
  then show ?thesis by (simp add: unsigned_ucast_eq take_bit_nat_eq_self)
qed

lemma ucast_not_minus_one: "ucast n \<noteq> (- 1 :: hash32)" for n :: u64
proof
  assume "ucast n = (- 1 :: hash32)"
  then have "unat n = unat (- 1 :: hash32)"
    using unat_number [of n] by simp
  also have "\<dots> = 2 ^ 256 - 1" by (simp add: unsigned_minus_1_eq_mask mask_eq_exp_minus_1)
  finally show False using unsigned_less [of n, where ?'a = nat] by simp
qed

lemma ucast_inj: "ucast n = (ucast m :: hash32) \<longleftrightarrow> n = m" for n m :: u64
  by (metis unat_number word_unat_eq_iff)

lemma chain_hash_inject: "chain_hash x = ucast n \<Longrightarrow> x = chain_hdr n"
  using ucast_not_minus_one [of n] by (auto simp: chain_hash_def ucast_inj split: if_splits)

lemma trusts_chain: "trusts (computeBlockHash chain_env) (trusted chain_truth)"
proof -
  have "u = NoTrust" if "u \<le> NoTrust" for u using that by (cases u) (simp_all add: trust_order)
  then show ?thesis
    by (auto simp: trusts_def chain_env_def chain_truth_def dest: chain_hash_inject)
qed

lemma sound_chain: "sound chain_env chain_truth"
  unfolding sound_def
proof (intro conjI)
  show "calm chain_env chain_truth" by (rule calm_quiet) (simp add: chain_env_def quiet_env_def)
  show "proofs_sound chain_env chain_truth"
    by (simp add: proofs_sound_def chain_env_def chain_truth_def)
  show "chain_sound chain_env chain_truth"
    using trusts_chain
    by (auto simp: chain_sound_def genuine_at_def chain_truth_def chain_env_def history_slot_def
        chain_hdr_def [of _, THEN arg_cong [where f = parentHash]])
qed

lemma engine_ok_chain: "engine_ok chain_env chain_truth (chain_engine tip)"
proof -
  have tip: "chain_hdr tip \<in> trusted chain_truth Optimistic" "computeBlockHash chain_env (chain_hdr tip) = ucast tip"
    by (auto simp: chain_truth_def chain_env_def)
  have "store_ok (computeBlockHash chain_env) (trusted chain_truth) (headerStore (chain_engine tip))"
    using store_ok_putHash [OF store_ok_put [OF trusts_chain store_ok_new tip(2,1)] tip]
    by (simp add: chain_engine_def)
  then show ?thesis
    using engine_ok_demo [of chain_env chain_truth chain_api]
    by (simp add: engine_ok_def chain_engine_def)
qed

text \<open>A chain of one header, the first, at which every anchor may be.\<close>

definition single_env :: "block_header \<Rightarrow> unit env" where
  "single_env only = quiet_env\<lparr>computeBlockHash := (\<lambda>hdr. if hdr = only then 10 else 11),
     verifyMptProof := (\<lambda>_ _ _ _. InvalidProof ''bad'')\<rparr>"

definition single_truth :: "block_header \<Rightarrow> truth" where
  "single_truth only =
     \<lparr>trusted = (\<lambda>t. if t = NoTrust then UNIV else {only}), state_roots = UNIV,
      account_at = (\<lambda>_ _. demo_account), slot_at = (\<lambda>_ _. 0)\<rparr>"

definition single_engine :: "block_header \<Rightarrow> header_trust \<Rightarrow> execution_api \<Rightarrow> unit engine" where
  "single_engine only t api =
     (demo_engine api)
       \<lparr>headerStore := putHash 10 t (putHash 10 Optimistic (put (\<lambda>_. False) only 10 Finalized new_store))\<rparr>"

lemma sound_single:
  assumes "number only = 0"
  shows "sound ((single_env only)\<lparr>txTrieRoot := f\<rparr>) (single_truth only)"
  unfolding sound_def
proof (intro conjI)
  let ?env = "(single_env only)\<lparr>txTrieRoot := f\<rparr>"
  show "calm ?env (single_truth only)" by (rule calm_quiet) (simp add: single_env_def quiet_env_def)
  show "proofs_sound ?env (single_truth only)"
    by (simp add: proofs_sound_def single_env_def single_truth_def)
  have "u = NoTrust" if "u \<le> NoTrust" for u using that by (cases u) (simp_all add: trust_order)
  then show "chain_sound ?env (single_truth only)"
    using assms
    by (auto simp: chain_sound_def trusts_def single_env_def single_truth_def split: if_splits)
qed

lemma engine_ok_single:
  assumes "number only = 0" and "t \<noteq> NoTrust"
  shows "engine_ok ((single_env only)\<lparr>txTrieRoot := f\<rparr>) (single_truth only) (single_engine only t api)"
proof -
  let ?env = "(single_env only)\<lparr>txTrieRoot := f\<rparr>" and ?w = "single_truth only"
  have tr: "trusts (computeBlockHash ?env) (trusted ?w)" using soundD(3) [OF sound_single [OF assms(1)]] .
  have h: "only \<in> trusted ?w u" "computeBlockHash ?env only = 10" for u
    by (simp_all add: single_truth_def single_env_def)
  have "store_ok (computeBlockHash ?env) (trusted ?w) (headerStore (single_engine only t api))"
    using store_ok_putHash [OF store_ok_putHash [OF store_ok_put [OF tr store_ok_new h(2,1)] h] h]
    by (simp add: single_engine_def)
  then show ?thesis
    using engine_ok_demo [of ?env ?w api]
    by (auto simp: engine_ok_def single_engine_def pool_ok_def)
qed

section \<open>Properties\<close>

text \<open>
  C6: whatever the backends answer, whenever they do and whatever other tasks do meanwhile, a
  header the engine returns for a block tag answers the tag under the anchors in force, which
  are those handed to the query or those of the store when it starts: for an alias it is the
  anchor of that name, and deserves the trust the name promises; for a number it is the trusted
  header of that number, and a finalized one where the finalized anchor covers it; for a hash it
  has that hash, and is a header of the trusted chain if the tag requires it to be canonical, while
  nothing more is promised of it otherwise. The query ends, no answer crashes it, and the store
  and the caches keep holding trusted data only.
\<close>

theorem getVerifiedHeader_answers:
  assumes "sound env w" and "engine_ok env w e" and "\<forall>a. snapshot = Some a \<longrightarrow> anchors_ok env w a"
  shows "engine_ok env w (snd (getVerifiedHeader env tag snapshot e)) \<and>
    fst (getVerifiedHeader env tag snapshot e) \<notin> {Stuck, Defect} \<and>
    (\<forall>hdr. fst (getVerifiedHeader env tag snapshot e) = Done hdr \<longrightarrow>
       answers env w (Some (anchors_in_force snapshot e)) tag hdr)"
proof -
  have "yields (engine_ok env w) (getVerifiedHeader env tag snapshot) (answers env w snapshot tag)"
    using header_kind.getVerified_answers [OF assms(1), of snapshot tag] assms(3)
    by (simp add: getVerifiedHeader_def)
  note D = yieldsD(1,2) [OF this assms(2)]
  show ?thesis
    using D crash_freeD [OF crash_free_getVerifiedHeader, of env tag snapshot e]
      header_kind.getVerified_in_force [OF assms, of tag]
    by (simp add: getVerifiedHeader_def)
qed

text \<open>A run: the block asked for is three below the anchor, two headers are walked over.\<close>

theorem getVerifiedHeader_answers_witness:
  "fst (getVerifiedHeader chain_env (BidNumber 7) None (chain_engine 10)) = Done (chain_hdr 7) \<and>
   fst (getVerifiedHeader chain_env (BidAlias ''Latest'') None (chain_engine 10)) = Done (chain_hdr 10) \<and>
   answers chain_env chain_truth (Some (anchors_in_force None (chain_engine 10))) (BidNumber 7) (chain_hdr 7) \<and>
   answers chain_env chain_truth (Some (anchors_in_force None (chain_engine 10))) (BidAlias ''Latest'') (chain_hdr 10)"
proof -
  have "fst (getVerifiedHeader chain_env (BidNumber 7) None (chain_engine 10)) = Done (chain_hdr 7)"
    "fst (getVerifiedHeader chain_env (BidAlias ''Latest'') None (chain_engine 10)) = Done (chain_hdr 10)"
    by code_simp+
  with getVerifiedHeader_answers [OF sound_chain engine_ok_chain [of 10], of None]
  show ?thesis by blast
qed

text \<open>
  C7: the same for blocks, whose content is checked too where the code does: a block asked for with
  its transactions in full has transactions whose trie root is the one in its header (they are
  not looked at otherwise), and if a block comes with a withdrawal list and its header commits to
  one, the list has the committed root (if either is missing, nothing is checked).
\<close>

theorem getVerifiedBlock_answers:
  assumes "sound env w" and "engine_ok env w e" and "\<forall>a. snapshot = Some a \<longrightarrow> anchors_ok env w a"
  shows "engine_ok env w (snd (getVerifiedBlock env tag full snapshot e)) \<and>
    fst (getVerifiedBlock env tag full snapshot e) \<noteq> Stuck \<and>
    (\<forall>blk. fst (getVerifiedBlock env tag full snapshot e) = Done blk \<longrightarrow>
       answers env w (Some (anchors_in_force snapshot e)) tag (convHeader blk) \<and>
       (full \<longrightarrow> (\<exists>txs. toTransactions (blk_transactions blk) = Done txs \<and>
                     txTrieRoot env txs = transactionsRoot (convHeader blk))) \<and>
       (\<forall>ws root. blk_withdrawals blk = Some ws \<longrightarrow> withdrawalsRoot (convHeader blk) = Some root \<longrightarrow>
                     withdrawalsTrieRoot env ws = root))"
proof -
  have "yields (engine_ok env w) (getVerifiedBlock env tag full snapshot)
      (\<lambda>blk. answers env w snapshot tag (convHeader blk) \<and> content_ok env full blk)"
    using block_kind.getVerified_answers [OF assms(1), of snapshot full tag] assms(3)
    by (simp add: getVerifiedBlock_def)
  note D = yieldsD(1,2) [OF this assms(2)]
  have "answers env w (Some (anchors_in_force snapshot e)) tag (convHeader blk) \<and> content_ok env full blk"
    if "fst (getVerifiedBlock env tag full snapshot e) = Done blk" for blk
    using block_kind.getVerified_in_force [OF assms, of full tag] that by (simp add: getVerifiedBlock_def)
  with D show ?thesis unfolding content_ok_def by blast
qed

text \<open>A finalized block with a transaction and a withdrawal.\<close>

definition full_hdr :: block_header where
  "full_hdr = empty_header\<lparr>withdrawalsRoot := Some 5\<rparr>"

definition full_env :: "unit env" where
  "full_env = (single_env full_hdr)\<lparr>txTrieRoot := (\<lambda>txs. if txs = [demo_tx] then 0 else 1)\<rparr>"

definition full_block :: block_object where
  "full_block = (chain_block 0)
     \<lparr>blk_hash := 10, blk_parentHash := 0, blk_withdrawalsRoot := Some 5, blk_transactions := [TohTx demo_tx_object],
      blk_withdrawals := Some [(1, 2, 3, 4)]\<rparr>"

definition full_api :: execution_api where
  "full_api = silent_api\<lparr>be_getBlockByHash := (\<lambda>h full t. Some (Inr full_block))\<rparr>"

theorem getVerifiedBlock_answers_witness:
  "\<exists>txs. fst (getVerifiedBlock full_env (BidAlias ''finalized'') True None (single_engine full_hdr Finalized full_api)) =
       Done full_block \<and>
     full_hdr \<in> trusted (single_truth full_hdr) Finalized \<and>
     toTransactions (blk_transactions full_block) = Done txs \<and> txTrieRoot full_env txs = 0 \<and>
     withdrawalsTrieRoot full_env (the (blk_withdrawals full_block)) = 5"
proof -
  let ?e = "single_engine full_hdr Finalized full_api"
  have run: "fst (getVerifiedBlock full_env (BidAlias ''finalized'') True None ?e) = Done full_block"
    by code_simp
  have hdr: "convHeader full_block = full_hdr"
    by (simp add: convHeader_def full_block_def chain_block_def full_hdr_def empty_header_def)
  have "sound full_env (single_truth full_hdr)" "engine_ok full_env (single_truth full_hdr) ?e"
    by (simp_all add: full_env_def sound_single engine_ok_single full_hdr_def empty_header_def)
  note G = getVerifiedBlock_answers [OF this, of None "BidAlias ''finalized''" True]
  have "full_hdr \<in> trusted (single_truth full_hdr) Finalized"
    using G run by (auto simp: hdr block_names_def toLowerAscii_def)
  moreover have "\<exists>txs. toTransactions (blk_transactions full_block) = Done txs \<and>
      txTrieRoot full_env txs = transactionsRoot full_hdr"
    using G run unfolding hdr [symmetric] by blast
  moreover have "blk_withdrawals full_block = Some ws \<Longrightarrow> withdrawalsRoot full_hdr = Some root \<Longrightarrow>
      withdrawalsTrieRoot full_env ws = root" for ws root
    using G run unfolding hdr [symmetric] by blast
  ultimately show ?thesis
    using run by (auto simp: full_hdr_def empty_header_def full_block_def)
qed

text \<open>
  C17: the block walk. Started below a trusted anchor it always comes to an end, and the hash it
  returns is that of the anchor's ancestor of the requested number; everything it puts into
  the store on the way is trusted.
\<close>

theorem walkBlocks_finds_ancestor:
  assumes "sound env w" and "t \<noteq> NoTrust" and "anchor \<in> trusted w t" and "engine_ok env w e"
  shows "engine_ok env w (snd (walkBlocks env (number anchor) n (parentHash anchor) t e)) \<and>
    fst (walkBlocks env (number anchor) n (parentHash anchor) t e) \<noteq> Stuck \<and>
    (\<forall>h. fst (walkBlocks env (number anchor) n (parentHash anchor) t e) = Done h \<longrightarrow>
       (\<exists>hdr \<in> trusted w t. computeBlockHash env hdr = h \<and> number hdr = n))"
  using yieldsD [OF yields_walkBlocks [OF assms(1-3)] assms(4)]
  unfolding genuine_at_def by (metis prod.collapse)

theorem walkBlocks_finds_ancestor_witness:
  "\<exists>h. fst (walkBlocks chain_env (number (chain_hdr 10)) 6 (parentHash (chain_hdr 10)) Optimistic (chain_engine 10)) = Done h \<and>
     (\<exists>hdr \<in> trusted chain_truth Optimistic. computeBlockHash chain_env hdr = h \<and> number hdr = 6)"
proof -
  have run: "fst (walkBlocks chain_env (number (chain_hdr 10)) 6 (parentHash (chain_hdr 10)) Optimistic (chain_engine 10)) = Done 6"
    by code_simp
  have "chain_hdr 10 \<in> trusted chain_truth Optimistic" by (simp add: chain_truth_def)
  from walkBlocks_finds_ancestor [OF sound_chain _ this engine_ok_chain [of 10], of 6] run
  show ?thesis by blast
qed

text \<open>
  C24: a membership proof through the history contract holds only for members of the trusted
  chain, however many window jumps it takes, and the jumps end.
\<close>

theorem verifyEIP2935Membership_sound:
  assumes "sound env w" and "t \<noteq> NoTrust" and "anchor \<in> trusted w t" and "engine_ok env w e"
    and "computeBlockHash env target = h"
  shows "engine_ok env w (snd (verifyEIP2935Membership env anchor t target h e)) \<and>
    fst (verifyEIP2935Membership env anchor t target h e) \<notin> {Stuck, Defect} \<and>
    (fst (verifyEIP2935Membership env anchor t target h e) = Done () \<longrightarrow> target \<in> trusted w t)"
  using yieldsD [OF yields_verifyEIP2935Membership [OF assms(1-3,5)] assms(4)]
    crash_freeD [OF crash_free_verifyEIP2935Membership, of env anchor t target h e]
  by (metis insert_iff empty_iff prod.collapse)

text \<open>A short chain whose history contract holds the hash of each block.\<close>

definition history_truth :: truth where
  "history_truth =
     \<lparr>trusted = (\<lambda>t. if t = NoTrust then UNIV else chain_hdr ` {n. n < 8191}), state_roots = UNIV,
      account_at = (\<lambda>_ _. demo_account),
      slot_at = (\<lambda>root slot. if root = 9 \<and> slot < 8191 then slot else 0)\<rparr>"

definition history_engine :: "unit engine" where
  "history_engine =
     (demo_engine chain_api)
       \<lparr>archive := True, eip2935ForkTime := Some 0,
        storageCache := [(0, HISTORY_STORAGE_ADDRESS, 7) \<mapsto> 7]\<rparr>"

lemma sound_history: "sound chain_env history_truth"
  unfolding sound_def
proof (intro conjI)
  show "calm chain_env history_truth" by (rule calm_quiet) (simp add: chain_env_def quiet_env_def)
  show "proofs_sound chain_env history_truth"
    by (simp add: proofs_sound_def chain_env_def history_truth_def quiet_env_def)
  have "u = NoTrust" if "u \<le> NoTrust" for u using that by (cases u) (simp_all add: trust_order)
  then have "trusts (computeBlockHash chain_env) (trusted history_truth)"
    by (auto simp: trusts_def chain_env_def history_truth_def dest: chain_hash_inject)
  moreover have "genuine_at chain_env history_truth (parentHash (chain_hdr n)) t (n - 1)"
    if "t \<noteq> NoTrust" "n < 8191" "n \<noteq> 0" for t n
  proof -
    have "n - 1 < 8191" using that(2,3) by (simp add: word_less_nat_alt unat_minus_one)
    moreover have "parentHash (chain_hdr n) = ucast (n - 1)" by (simp add: chain_hdr_def)
    ultimately show ?thesis
      using that(1) by (auto simp: genuine_at_def history_truth_def chain_env_def
          intro!: bexI [of _ "chain_hdr (n - 1)"])
  qed
  moreover have "genuine_at chain_env history_truth (history_slot history_truth hdr n) t n"
    if "t \<noteq> NoTrust" "n < m" "m < 8191" for t n m hdr
  proof -
    have n: "n < 8191" using that(2,3) by (rule less_trans)
    then have "n mod HISTORY_SERVE_WINDOW = n"
      by (simp add: HISTORY_SERVE_WINDOW_def word_less_nat_alt word_unat_eq_iff unat_mod)
    moreover have "(ucast n :: hash32) < 8191"
      using n by (simp add: word_less_nat_alt unat_number)
    ultimately have "history_slot history_truth hdr n = ucast n"
      by (simp add: history_slot_def history_truth_def demo_account_def)
    with n that(1) show ?thesis
      by (auto simp: genuine_at_def history_truth_def chain_env_def intro!: bexI [of _ "chain_hdr n"])
  qed
  ultimately show "chain_sound chain_env history_truth"
    unfolding chain_sound_def by (auto simp: history_truth_def)
qed

theorem verifyEIP2935Membership_sound_witness:
  "fst (verifyEIP2935Membership chain_env (chain_hdr 10) Safe (chain_hdr 7) 7 history_engine) = Done () \<and>
   chain_hdr 7 \<in> trusted history_truth Safe"
proof -
  have ok: "engine_ok chain_env history_truth history_engine"
    using engine_ok_demo [of chain_env history_truth chain_api]
    by (auto simp: engine_ok_def pool_ok_def history_engine_def history_truth_def demo_account_def)
  have run: "fst (verifyEIP2935Membership chain_env (chain_hdr 10) Safe (chain_hdr 7) 7 history_engine) = Done ()"
    by code_simp
  have "chain_hdr 10 \<in> trusted history_truth Safe" by (auto simp: history_truth_def)
  from verifyEIP2935Membership_sound [OF sound_history _ this ok, of "chain_hdr 7" 7] run
  show ?thesis by (simp add: chain_env_def)
qed

text \<open>
  A block hash the engine reports for a past number (what a contract's \<open>BLOCKHASH\<close> sees) is
  that of the trusted block of that number.
\<close>

theorem getBlockHash_is_canonical:
  assumes "sound env w" and "t \<noteq> NoTrust" and "anchor \<in> trusted w t" and "engine_ok env w e"
    and "getBlockHash env anchor n e = (Done h, e')"
  shows "\<exists>hdr \<in> trusted w t. computeBlockHash env hdr = h \<and> number hdr = n"
  using yieldsD(3) [OF yields_getBlockHash [OF assms(1-3)] assms(4,5)] by (simp add: genuine_at_def)

theorem getBlockHash_is_canonical_witness:
  "\<exists>hdr \<in> trusted chain_truth Optimistic. computeBlockHash chain_env hdr = 10 \<and> number hdr = 10"
proof (rule getBlockHash_is_canonical [OF sound_chain _ _ engine_ok_chain [of 10]])
  show "chain_hdr 10 \<in> trusted chain_truth Optimistic" by (simp add: chain_truth_def)
  show "getBlockHash chain_env (chain_hdr 10) 10 (chain_engine 10) = (Done 10, chain_engine 10)"
    by (simp add: getBlockHash_def ret_def chain_env_def)
qed simp

text \<open>
  The content check of a block brings the process down exactly if the transactions are to be
  checked and, before any bare hash in the list, comes one whose type number is unknown: the
  numbers are the backend's, and they are converted before anything about them is verified.
\<close>

theorem verifyBlock_crashes:
  "verifyBlock env blk full = Defect \<longleftrightarrow>
     full \<and> (\<exists>txs bad rest. blk_transactions blk = map TohTx txs @ TohTx bad # rest \<and>
       (\<forall>tx \<in> set txs. tx_type_of (orElse (txo_type tx) 0) \<noteq> None) \<and>
       tx_type_of (orElse (txo_type bad) 0) = None)"
proof -
  have "toTransactions xs = Defect \<longleftrightarrow>
      (\<exists>txs bad rest. xs = map TohTx txs @ TohTx bad # rest \<and>
       (\<forall>tx \<in> set txs. tx_type_of (orElse (txo_type tx) 0) \<noteq> None) \<and>
       tx_type_of (orElse (txo_type bad) 0) = None)" (is "_ \<longleftrightarrow> ?crash xs") for xs
  proof (induction xs rule: toTransactions.induct)
    case 1
    then show ?case by simp
  next
    case (2 tx txs)
    show ?case
    proof (cases "tx_type_of (orElse (txo_type tx) 0)")
      case None
      then have "?crash (TohTx tx # txs)"
        by (intro exI [of _ "[]"] exI [of _ tx] exI [of _ txs]) simp
      with None show ?thesis by (simp add: bind_outcome_Defect)
    next
      case (Some ty)
      then have "?crash (TohTx tx # txs) \<longleftrightarrow> ?crash txs"
        by (safe; fastforce simp: Cons_eq_append_conv Cons_eq_map_conv intro: exI [of _ "tx # _"])
      with Some 2 show ?thesis
        by (cases "toTransaction tx") (auto simp: bind_outcome_Defect)
    qed
  next
    case (3 h txs)
    then show ?case by (auto simp: Cons_eq_append_conv Cons_eq_map_conv)
  qed
  then show ?thesis
    by (auto simp: verifyBlock_def bind_outcome_Defect verifyTransactions_Defect split: option.splits)
qed

theorem verifyBlock_crashes_witness:
  "verifyBlock chain_env
     ((chain_block 5)\<lparr>blk_transactions := [TohTx demo_tx_object, TohTx (demo_tx_object\<lparr>txo_type := Some 9\<rparr>)]\<rparr>)
     True = Defect"
  unfolding verifyBlock_crashes
  by (intro conjI exI [of _ "[demo_tx_object]"] exI [of _ "demo_tx_object\<lparr>txo_type := Some 9\<rparr>"] exI [of _ "[]"])
    (simp_all add: tx_type_of_def orElse_def demo_tx_object_def)

text \<open>
  The check of a hash that is required to be canonical trusts the cache: a header once
  stored with the latest block's trust is returned although the chain has since been
  reorganised and the present anchor, not below it in number, need not descend from it.
\<close>

theorem stale_header_passes_as_canonical:
  assumes "\<forall>n k. \<not> evicts env n k"
    and "get (headerStore e) h Optimistic = Some hdr" and "get (headerStore e) l NoTrust = Some anchor"
    and "number hdr \<le> number anchor"
  shows "fst (getVerifiedHeader env (BidHash h True)
    (Some \<lparr>latest = Some l, safe = None, finalized = None, earliest = x\<rparr>) e) = Done hdr"
proof -
  have lookup: "get (put (evicts env n) x k t s) k' m =
      (if k' = k then if m \<le> t \<or> get s k m \<noteq> None then Some x else None else get s k' m)" for n x k t s k' m
    using by_hash.lookup_same [of "evicts env n" k] by_hash.lookup_other [of k' k "evicts env n"] assms(1) by auto
  have none: "get (headerStore e) h NoTrust = Some hdr"
    using assms(2) by (auto simp: get_def trust_order split: option.splits if_splits)
  then have "l = h \<Longrightarrow> anchor = hdr" using assms(3) by simp
  then show ?thesis
    using assms(2-4) none
    by (auto simp: getVerifiedHeader_def getVerified_def getTrustedHeader_def pickAnchor_def
        getHeader_hash_def andThen_def gets_def ret_def store_put_def update_def lookup)
qed

theorem stale_header_passes_as_canonical_witness:
  "let fork = (chain_hdr 10)\<lparr>extraData := [1]\<rparr>;
       e = (chain_engine 10)\<lparr>headerStore := put (\<lambda>_. False) fork 77 Optimistic (headerStore (chain_engine 10))\<rparr>
   in fst (getVerifiedHeader chain_env (BidHash 77 True)
        (Some \<lparr>latest = Some 10, safe = None, finalized = None, earliest = None\<rparr>) e) = Done fork \<and>
      get (headerStore e) 10 Optimistic = Some (chain_hdr 10) \<and> fork \<noteq> chain_hdr 10"
proof -
  let ?fork = "(chain_hdr 10)\<lparr>extraData := [1]\<rparr>"
  let ?s = "headerStore (chain_engine 10)"
  let ?e = "(chain_engine 10)\<lparr>headerStore := put (\<lambda>_. False) ?fork 77 Optimistic ?s\<rparr>"
  have s: "get (headerStore ?e) 77 Optimistic = Some ?fork" "get (headerStore ?e) 10 t = (if t \<le> Optimistic then Some (chain_hdr 10) else None)" for t
    by (simp_all add: chain_engine_def get_def headers_put putHash_def new_store_def trust_order)
  have "fst (getVerifiedHeader chain_env (BidHash 77 True)
        (Some \<lparr>latest = Some 10, safe = None, finalized = None, earliest = None\<rparr>) ?e) = Done ?fork"
  proof (rule stale_header_passes_as_canonical [OF _ s(1)])
    show "get (headerStore ?e) 10 NoTrust = Some (chain_hdr 10)" using s(2) [of NoTrust] by simp
    show "\<forall>n k. \<not> evicts chain_env n k" by (simp add: chain_env_def quiet_env_def)
  qed simp
  moreover have "?fork \<noteq> chain_hdr 10" by (simp add: chain_hdr_def empty_header_def)
  ultimately show ?thesis using s by (simp add: Let_def)
qed

end
