(* ===== verification/Library_Utils.thy ===== *)
theory Library_Utils
  imports Engine_Types
begin

text \<open>
  Arguments and results as text (\<open>library/utils.nim\<close>): decoding the arguments of the C API,
  reading a JSON-RPC reply. The JSON and hex readers of the web3 packages are parameters,
  collected in the record \<open>decoders\<close>; Nim's own \<open>fromHex[uint64]\<close>, on which block tags rest,
  is written out.
\<close>

section \<open>JSON nodes\<close>

text \<open>\<open>std/json\<close> nodes and the accessors the sources use, with their defaults on other kinds.\<close>

datatype jnode =
    JNull | JBool bool | JInt int | JFloat string | JString string
  | JArray "jnode list" | JObject "(string \<times> jnode) list"

definition getStr :: "jnode \<Rightarrow> string" where
  "getStr n = (case n of JString s \<Rightarrow> s | _ \<Rightarrow> '''')"

definition getBool :: "jnode \<Rightarrow> bool" where
  "getBool n = (case n of JBool b \<Rightarrow> b | _ \<Rightarrow> False)"

definition getElems :: "jnode \<Rightarrow> jnode list" where
  "getElems n = (case n of JArray ns \<Rightarrow> ns | _ \<Rightarrow> [])"

text \<open>The field of an object, if the node is an object that has it.\<close>

definition field :: "jnode \<Rightarrow> string \<Rightarrow> jnode option" where
  "field n key = (case n of JObject kvs \<Rightarrow> map_of kvs key | _ \<Rightarrow> None)"

section \<open>Nim's hex reader\<close>

definition hex_digit :: "char \<Rightarrow> nat option" where
  "hex_digit c =
     (let n = of_char c in
      if 48 \<le> n \<and> n \<le> 57 then Some (n - 48)
      else if 97 \<le> n \<and> n \<le> 102 then Some (n - 87)
      else if 65 \<le> n \<and> n \<le> 70 then Some (n - 55)
      else None)"

text \<open>
  \<open>parseHex\<close>: digits shift into the output, which drops what no longer fits, underscores are
  skipped, any other character ends the number.
\<close>

fun hex_scan :: "string \<Rightarrow> u64 \<Rightarrow> bool \<Rightarrow> u64 \<times> bool \<times> string" where
  "hex_scan [] out found = (out, found, [])"
| "hex_scan (c # cs) out found =
     (if c = CHR ''_'' then hex_scan cs out found
      else case hex_digit c of
             None \<Rightarrow> (out, found, c # cs)
           | Some d \<Rightarrow> hex_scan cs (or (push_bit 4 out) (of_nat d)) True)"

definition hex_body :: "string \<Rightarrow> string" where
  "hex_body s =
     (case s of
        c # x # cs \<Rightarrow>
          if c = CHR ''0'' \<and> (x = CHR ''x'' \<or> x = CHR ''X'') then cs
          else if c = CHR ''#'' then x # cs else s
      | [c] \<Rightarrow> if c = CHR ''#'' then [] else s
      | [] \<Rightarrow> [])"

definition fromHex_u64 :: "string \<Rightarrow> u64 option" where
  "fromHex_u64 s =
     (let (out, found, rest) = hex_scan (hex_body s) 0 False
      in if found \<and> rest = [] then Some out else None)"

section \<open>Decoding the arguments of the C API\<close>

text \<open>
  The readers of the web3 and stew packages: a value, or the message of the exception raised.
  The texts of transaction arguments, filters and percentiles are decoded to the types of the
  package, which the model leaves open.
\<close>

record ('tx, 'flt, 'pct) decoders =
  address_fromHex :: "string \<Rightarrow> string + address"
  uint256_fromHex :: "string \<Rightarrow> string + u256"
  hash32_fromHex :: "string \<Rightarrow> string + hash32"
  transactionArgs_decode :: "string \<Rightarrow> string + 'tx"
  filterOptions_decode :: "string \<Rightarrow> string + 'flt"
  percentiles_decode :: "string \<Rightarrow> string + 'pct"
  quantity_decode :: "string \<Rightarrow> string + u64"
  hexToSeqByte :: "string \<Rightarrow> string + byte list"
  parseJson :: "string \<Rightarrow> string + jnode"
  json_text :: "jnode \<Rightarrow> string"

definition orMessage :: "string \<Rightarrow> string + 'a \<Rightarrow> string + 'a" where
  "orMessage before r = (case r of Inl msg \<Rightarrow> Inl (before @ msg) | Inr x \<Rightarrow> Inr x)"

definition unpack_Address :: "('tx, 'flt, 'pct, 'z) decoders_scheme \<Rightarrow> string \<Rightarrow> string + address" where
  "unpack_Address d arg =
     orMessage ''Parameter of type Address coudln't be decoded: '' (address_fromHex d arg)"

definition unpack_UInt256 :: "('tx, 'flt, 'pct, 'z) decoders_scheme \<Rightarrow> string \<Rightarrow> string + u256" where
  "unpack_UInt256 d arg =
     orMessage ''Parameter of type UInt256 coudldn't be decoded: '' (uint256_fromHex d arg)"

definition unpack_Hash32 :: "('tx, 'flt, 'pct, 'z) decoders_scheme \<Rightarrow> string \<Rightarrow> string + hash32" where
  "unpack_Hash32 d arg =
     orMessage ''Parameter of type Hash32 coudldn't be decoded: '' (hash32_fromHex d arg)"

text \<open>A block tag never fails to decode: what is not a hex number is an alias.\<close>

definition unpack_BlockTag :: "string \<Rightarrow> string + block_tag" where
  "unpack_BlockTag arg =
     (case fromHex_u64 arg of
        Some n \<Rightarrow> Inr (BidNumber n)
      | None \<Rightarrow> Inr (BidAlias arg))"

text \<open>The generic \<open>unpackArg\<close>, at the four types it is used with.\<close>

definition unpack_TransactionArgs :: "('tx, 'flt, 'pct, 'z) decoders_scheme \<Rightarrow> string \<Rightarrow> string + 'tx" where
  "unpack_TransactionArgs d arg =
     orMessage ''Parameter of type TransactionArgs coudln't be decoded: ''
       (transactionArgs_decode d arg)"

definition unpack_FilterOptions :: "('tx, 'flt, 'pct, 'z) decoders_scheme \<Rightarrow> string \<Rightarrow> string + 'flt" where
  "unpack_FilterOptions d arg =
     orMessage ''Parameter of type FilterOptions coudln't be decoded: '' (filterOptions_decode d arg)"

definition unpack_Percentiles :: "('tx, 'flt, 'pct, 'z) decoders_scheme \<Rightarrow> string \<Rightarrow> string + 'pct" where
  "unpack_Percentiles d arg =
     orMessage ''Parameter of type seq[float64] coudln't be decoded: '' (percentiles_decode d arg)"

definition unpack_Quantity :: "('tx, 'flt, 'pct, 'z) decoders_scheme \<Rightarrow> string \<Rightarrow> string + u64" where
  "unpack_Quantity d arg =
     orMessage ''Parameter of type Quantity coudln't be decoded: '' (quantity_decode d arg)"

section \<open>Reading a JSON-RPC reply\<close>

text \<open>
  \<open>unpackResult\<close>: the payload must be a JSON object with a \<open>jsonrpc\<close> field, without an
  \<open>error\<close> field, and with a \<open>result\<close> field that decodes. \<open>decode\<close> is the package's reader of
  the result type and \<open>resType\<close> its name.
\<close>

definition unpackResult ::
    "(string \<Rightarrow> string + jnode) \<Rightarrow> (jnode \<Rightarrow> string) \<Rightarrow> string \<Rightarrow> (string \<Rightarrow> string + 'a) \<Rightarrow>
     string \<Rightarrow> string + 'a" where
  "unpackResult parse text resType decode raw =
     (case parse raw of
        Inl msg \<Rightarrow> Inl (''transport payload is not valid JSON: '' @ msg)
      | Inr node \<Rightarrow>
          (case field node ''jsonrpc'' of
             None \<Rightarrow> Inl ''transport payload is not a JSON-RPC response envelope''
           | Some _ \<Rightarrow>
               (case field node ''error'' of
                  Some e \<Rightarrow> Inl (''backend returned error: '' @ text e)
                | None \<Rightarrow>
                    (case field node ''result'' of
                       None \<Rightarrow> Inl ''JSON-RPC response envelope has no result''
                     | Some r \<Rightarrow>
                         orMessage (''Result of type '' @ resType @ '' couldn't be decoded: '')
                           (decode (text r))))))"

lemma unpackResult_ok_iff:
  "unpackResult parse text resType decode raw = Inr x \<longleftrightarrow>
    (\<exists>node v r. parse raw = Inr node \<and> field node ''jsonrpc'' = Some v \<and>
       field node ''error'' = None \<and> field node ''result'' = Some r \<and> decode (text r) = Inr x)"
  by (auto simp: unpackResult_def orMessage_def split: sum.splits option.splits)

section \<open>What a hex block tag denotes\<close>

definition hex_char :: "nat \<Rightarrow> char" where
  "hex_char d = char_of (if d < 10 then d + 48 else d + 87)"

fun digits_value :: "nat \<Rightarrow> nat list \<Rightarrow> nat" where
  "digits_value a [] = a"
| "digits_value a (d # ds) = digits_value (16 * a + d) ds"

lemma hex_digit_char [simp]: "d < 16 \<Longrightarrow> hex_digit (hex_char d) = Some d"
  by (auto simp: hex_digit_def hex_char_def Let_def)

lemma hex_char_not_underscore [simp]: "d < 16 \<Longrightarrow> hex_char d \<noteq> CHR ''_''"
proof -
  assume d: "d < 16"
  have "of_char (hex_char d) \<noteq> (95 :: nat)"
    using d by (auto simp: hex_char_def)
  then show ?thesis by auto
qed

lemma shift_in_digit:
  fixes x :: u64
  assumes "d < 16"
  shows "or (push_bit 4 x) (of_nat d) = 16 * x + of_nat d"
proof -
  have small: "\<not> bit (of_nat d :: u64) n" if "4 \<le> n" for n
  proof -
    have "d < 2 ^ n"
      using assms power_increasing [OF that, of "2 :: nat"] by simp
    then have "\<not> bit d n" by (simp add: bit_iff_odd)
    then show ?thesis by (simp add: bit_simps)
  qed
  have "and (push_bit 4 x) (of_nat d) = 0"
    using small by (intro bit_word_eqI) (auto simp: bit_simps)
  then have "push_bit 4 x + of_nat d = or (push_bit 4 x) (of_nat d)"
    by (rule disjunctive_add_eq_or)
  moreover have "push_bit 4 x = 16 * x" by (simp add: push_bit_eq_mult mult.commute)
  ultimately show ?thesis by simp
qed

lemma hex_scan_digits:
  assumes "\<forall>d \<in> set ds. d < 16"
  shows "hex_scan (map hex_char ds) (of_nat a) found =
    (of_nat (digits_value a ds), found \<or> ds \<noteq> [], [])"
  using assms
proof (induction ds arbitrary: a found)
  case Nil
  then show ?case by simp
next
  case (Cons d ds)
  have "or (push_bit 4 (of_nat a :: u64)) (of_nat d) = of_nat (16 * a + d)"
    using Cons.prems by (simp add: shift_in_digit)
  with Cons.prems show ?case using Cons.IH [of "16 * a + d" True] by simp
qed

end
