(* ===== verification/C_Frontend.thy ===== *)
theory C_Frontend
  imports Proxy_Context Library_Utils
begin

text \<open>
  The C API (\<open>library/verifproxy.h\<close>, \<open>library/c_frontend.nim\<close>): one definition per exported
  procedure, in the order of the source, and the text-based dispatcher \<open>proxyCall\<close>. A
  procedure is what it does with its context, an \<open>api_action\<close> of the context theory: reply at
  once, or start a call of the frontend.
\<close>

section \<open>Calls of the frontends\<close>

datatype ('tx, 'flt, 'pct) rpc_call =
    Rpc_chainId
  | Rpc_blockNumber
  | Rpc_syncing
  | Rpc_getBalance address block_tag
  | Rpc_getStorageAt address u256 block_tag
  | Rpc_getTransactionCount address block_tag
  | Rpc_getCode address block_tag
  | Rpc_getBlockByHash hash32 bool
  | Rpc_getBlockByNumber block_tag bool
  | Rpc_getUncleCountByBlockNumber block_tag
  | Rpc_getUncleCountByBlockHash hash32
  | Rpc_getBlockTransactionCountByNumber block_tag
  | Rpc_getBlockTransactionCountByHash hash32
  | Rpc_getTransactionByBlockNumberAndIndex block_tag u64
  | Rpc_getTransactionByBlockHashAndIndex hash32 u64
  | Rpc_call 'tx block_tag bool
  | Rpc_createAccessList 'tx block_tag bool
  | Rpc_estimateGas 'tx block_tag bool
  | Rpc_getTransactionByHash hash32
  | Rpc_getBlockReceipts block_tag
  | Rpc_getTransactionReceipt hash32
  | Rpc_getLogs 'flt
  | Rpc_newFilter 'flt
  | Rpc_uninstallFilter string
  | Rpc_getFilterLogs string
  | Rpc_getFilterChanges string
  | Rpc_blobBaseFee
  | Rpc_gasPrice
  | Rpc_maxPriorityFeePerGas
  | Rpc_feeHistory u64 block_tag 'pct
  | Rpc_sendRawTransaction "byte list"

datatype network = Eth | Op

datatype ('tx, 'flt, 'pct) frontend_call =
    Frontend_call network "('tx, 'flt, 'pct) rpc_call"
  | Sync_once network

type_synonym ('tx, 'flt, 'pct) action = "('tx, 'flt, 'pct) frontend_call api_action"

text \<open>
  The shapes all procedures share: an argument that does not decode is answered with its
  message, a procedure of the \<open>op_\<close> namespace looks for an OP frontend.
\<close>

definition unpacked :: "string + 'a \<Rightarrow> ('a \<Rightarrow> 'c api_action) \<Rightarrow> 'c api_action" where
  "unpacked r k = (case r of Inl e \<Rightarrow> Reply RET_DESER_ERROR e | Inr x \<Rightarrow> k x)"

definition requireOpFrontend :: "'c api_action \<Rightarrow> 'c api_action" where
  "requireOpFrontend act =
     Inspect (\<lambda>ctx. if \<not> ctx_op ctx
       then Reply RET_ERROR ''op_ namespace unavailable (no OP network configured)''
       else act)"

section \<open>Synchronisation\<close>

definition nvp_eth_sync :: "('tx, 'flt, 'pct) action" where
  "nvp_eth_sync = Start (Sync_once Eth)"

text \<open>The interval is read off the context at once; \<open>enc\<close> encodes the milliseconds.\<close>

definition nvp_eth_syncInterval :: "(u64 \<Rightarrow> string) \<Rightarrow> ('tx, 'flt, 'pct) action" where
  "nvp_eth_syncInterval enc = Inspect (\<lambda>ctx. Reply RET_SUCCESS (enc (ctx_interval ctx)))"

definition nvp_op_sync :: "('tx, 'flt, 'pct) action" where
  "nvp_op_sync = requireOpFrontend (Start (Sync_once Op))"

definition nvp_op_syncInterval :: "(u64 \<Rightarrow> string) \<Rightarrow> ('tx, 'flt, 'pct) action" where
  "nvp_op_syncInterval enc =
     requireOpFrontend (Inspect (\<lambda>ctx. Reply RET_SUCCESS (enc (ctx_interval ctx))))"

section \<open>The exported procedures\<close>

definition eth_chainId :: "('tx, 'flt, 'pct) action" where
  "eth_chainId = Start (Frontend_call Eth Rpc_chainId)"

definition eth_blockNumber :: "('tx, 'flt, 'pct) action" where
  "eth_blockNumber = Start (Frontend_call Eth Rpc_blockNumber)"

definition eth_syncing :: "('tx, 'flt, 'pct) action" where
  "eth_syncing = Start (Frontend_call Eth Rpc_syncing)"

definition eth_getBalance ::
    "('tx, 'flt, 'pct) decoders \<Rightarrow> string \<Rightarrow> string \<Rightarrow> ('tx, 'flt, 'pct) action" where
  "eth_getBalance d address blockTag =
     unpacked (unpack_Address d address) (\<lambda>addressTyped.
     unpacked (unpack_BlockTag blockTag) (\<lambda>blockTagTyped.
     Start (Frontend_call Eth (Rpc_getBalance addressTyped blockTagTyped))))"

definition eth_getStorageAt ::
    "('tx, 'flt, 'pct) decoders \<Rightarrow> string \<Rightarrow> string \<Rightarrow> string \<Rightarrow> ('tx, 'flt, 'pct) action" where
  "eth_getStorageAt d address slot blockTag =
     unpacked (unpack_Address d address) (\<lambda>addressTyped.
     unpacked (unpack_UInt256 d slot) (\<lambda>slotTyped.
     unpacked (unpack_BlockTag blockTag) (\<lambda>blockTagTyped.
     Start (Frontend_call Eth (Rpc_getStorageAt addressTyped slotTyped blockTagTyped)))))"

definition eth_getTransactionCount ::
    "('tx, 'flt, 'pct) decoders \<Rightarrow> string \<Rightarrow> string \<Rightarrow> ('tx, 'flt, 'pct) action" where
  "eth_getTransactionCount d address blockTag =
     unpacked (unpack_Address d address) (\<lambda>addressTyped.
     unpacked (unpack_BlockTag blockTag) (\<lambda>blockTagTyped.
     Start (Frontend_call Eth (Rpc_getTransactionCount addressTyped blockTagTyped))))"

definition eth_getCode ::
    "('tx, 'flt, 'pct) decoders \<Rightarrow> string \<Rightarrow> string \<Rightarrow> ('tx, 'flt, 'pct) action" where
  "eth_getCode d address blockTag =
     unpacked (unpack_Address d address) (\<lambda>addressTyped.
     unpacked (unpack_BlockTag blockTag) (\<lambda>blockTagTyped.
     Start (Frontend_call Eth (Rpc_getCode addressTyped blockTagTyped))))"

definition eth_getBlockByHash ::
    "('tx, 'flt, 'pct) decoders \<Rightarrow> string \<Rightarrow> bool \<Rightarrow> ('tx, 'flt, 'pct) action" where
  "eth_getBlockByHash d blockHash fullTransactions =
     unpacked (unpack_Hash32 d blockHash) (\<lambda>blockHashTyped.
     Start (Frontend_call Eth (Rpc_getBlockByHash blockHashTyped fullTransactions)))"

definition eth_getBlockByNumber ::
    "string \<Rightarrow> bool \<Rightarrow> ('tx, 'flt, 'pct) action" where
  "eth_getBlockByNumber blockTag fullTransactions =
     unpacked (unpack_BlockTag blockTag) (\<lambda>blockTagTyped.
     Start (Frontend_call Eth (Rpc_getBlockByNumber blockTagTyped fullTransactions)))"

definition eth_getUncleCountByBlockNumber ::
    "string \<Rightarrow> ('tx, 'flt, 'pct) action" where
  "eth_getUncleCountByBlockNumber blockTag =
     unpacked (unpack_BlockTag blockTag) (\<lambda>blockTagTyped.
     Start (Frontend_call Eth (Rpc_getUncleCountByBlockNumber blockTagTyped)))"

definition eth_getUncleCountByBlockHash ::
    "('tx, 'flt, 'pct) decoders \<Rightarrow> string \<Rightarrow> ('tx, 'flt, 'pct) action" where
  "eth_getUncleCountByBlockHash d blockHash =
     unpacked (unpack_Hash32 d blockHash) (\<lambda>blockHashTyped.
     Start (Frontend_call Eth (Rpc_getUncleCountByBlockHash blockHashTyped)))"

definition eth_getBlockTransactionCountByNumber ::
    "string \<Rightarrow> ('tx, 'flt, 'pct) action" where
  "eth_getBlockTransactionCountByNumber blockTag =
     unpacked (unpack_BlockTag blockTag) (\<lambda>blockTagTyped.
     Start (Frontend_call Eth (Rpc_getBlockTransactionCountByNumber blockTagTyped)))"

definition eth_getBlockTransactionCountByHash ::
    "('tx, 'flt, 'pct) decoders \<Rightarrow> string \<Rightarrow> ('tx, 'flt, 'pct) action" where
  "eth_getBlockTransactionCountByHash d blockHash =
     unpacked (unpack_Hash32 d blockHash) (\<lambda>blockHashTyped.
     Start (Frontend_call Eth (Rpc_getBlockTransactionCountByHash blockHashTyped)))"

definition eth_getTransactionByBlockNumberAndIndex ::
    "string \<Rightarrow> u64 \<Rightarrow> ('tx, 'flt, 'pct) action" where
  "eth_getTransactionByBlockNumberAndIndex blockTag index =
     unpacked (unpack_BlockTag blockTag) (\<lambda>blockTagTyped.
     Start (Frontend_call Eth (Rpc_getTransactionByBlockNumberAndIndex blockTagTyped index)))"

definition eth_getTransactionByBlockHashAndIndex ::
    "('tx, 'flt, 'pct) decoders \<Rightarrow> string \<Rightarrow> u64 \<Rightarrow> ('tx, 'flt, 'pct) action" where
  "eth_getTransactionByBlockHashAndIndex d blockHash index =
     unpacked (unpack_Hash32 d blockHash) (\<lambda>blockHashTyped.
     Start (Frontend_call Eth (Rpc_getTransactionByBlockHashAndIndex blockHashTyped index)))"

definition eth_call ::
    "('tx, 'flt, 'pct) decoders \<Rightarrow> string \<Rightarrow> string \<Rightarrow> bool \<Rightarrow> ('tx, 'flt, 'pct) action" where
  "eth_call d txArgs blockTag optimisticStateFetch =
     unpacked (unpack_TransactionArgs d txArgs) (\<lambda>txArgsTyped.
     unpacked (unpack_BlockTag blockTag) (\<lambda>blockTagTyped.
     Start (Frontend_call Eth (Rpc_call txArgsTyped blockTagTyped optimisticStateFetch))))"

definition eth_createAccessList ::
    "('tx, 'flt, 'pct) decoders \<Rightarrow> string \<Rightarrow> string \<Rightarrow> bool \<Rightarrow> ('tx, 'flt, 'pct) action" where
  "eth_createAccessList d txArgs blockTag optimisticStateFetch =
     unpacked (unpack_TransactionArgs d txArgs) (\<lambda>txArgsTyped.
     unpacked (unpack_BlockTag blockTag) (\<lambda>blockTagTyped.
     Start (Frontend_call Eth (Rpc_createAccessList txArgsTyped blockTagTyped optimisticStateFetch))))"

definition eth_estimateGas ::
    "('tx, 'flt, 'pct) decoders \<Rightarrow> string \<Rightarrow> string \<Rightarrow> bool \<Rightarrow> ('tx, 'flt, 'pct) action" where
  "eth_estimateGas d txArgs blockTag optimisticStateFetch =
     unpacked (unpack_TransactionArgs d txArgs) (\<lambda>txArgsTyped.
     unpacked (unpack_BlockTag blockTag) (\<lambda>blockTagTyped.
     Start (Frontend_call Eth (Rpc_estimateGas txArgsTyped blockTagTyped optimisticStateFetch))))"

definition eth_getTransactionByHash ::
    "('tx, 'flt, 'pct) decoders \<Rightarrow> string \<Rightarrow> ('tx, 'flt, 'pct) action" where
  "eth_getTransactionByHash d txHash =
     unpacked (unpack_Hash32 d txHash) (\<lambda>txHashTyped.
     Start (Frontend_call Eth (Rpc_getTransactionByHash txHashTyped)))"

definition eth_getBlockReceipts ::
    "string \<Rightarrow> ('tx, 'flt, 'pct) action" where
  "eth_getBlockReceipts blockTag =
     unpacked (unpack_BlockTag blockTag) (\<lambda>blockTagTyped.
     Start (Frontend_call Eth (Rpc_getBlockReceipts blockTagTyped)))"

definition eth_getTransactionReceipt ::
    "('tx, 'flt, 'pct) decoders \<Rightarrow> string \<Rightarrow> ('tx, 'flt, 'pct) action" where
  "eth_getTransactionReceipt d txHash =
     unpacked (unpack_Hash32 d txHash) (\<lambda>txHashTyped.
     Start (Frontend_call Eth (Rpc_getTransactionReceipt txHashTyped)))"

definition eth_getLogs ::
    "('tx, 'flt, 'pct) decoders \<Rightarrow> string \<Rightarrow> ('tx, 'flt, 'pct) action" where
  "eth_getLogs d filterOptions =
     unpacked (unpack_FilterOptions d filterOptions) (\<lambda>filterOptionsTyped.
     Start (Frontend_call Eth (Rpc_getLogs filterOptionsTyped)))"

definition eth_newFilter ::
    "('tx, 'flt, 'pct) decoders \<Rightarrow> string \<Rightarrow> ('tx, 'flt, 'pct) action" where
  "eth_newFilter d filterOptions =
     unpacked (unpack_FilterOptions d filterOptions) (\<lambda>filterOptionsTyped.
     Start (Frontend_call Eth (Rpc_newFilter filterOptionsTyped)))"

definition eth_uninstallFilter :: "string \<Rightarrow> ('tx, 'flt, 'pct) action" where
  "eth_uninstallFilter filterId = Start (Frontend_call Eth (Rpc_uninstallFilter filterId))"

definition eth_getFilterLogs :: "string \<Rightarrow> ('tx, 'flt, 'pct) action" where
  "eth_getFilterLogs filterId = Start (Frontend_call Eth (Rpc_getFilterLogs filterId))"

definition eth_getFilterChanges :: "string \<Rightarrow> ('tx, 'flt, 'pct) action" where
  "eth_getFilterChanges filterId = Start (Frontend_call Eth (Rpc_getFilterChanges filterId))"

definition eth_blobBaseFee :: "('tx, 'flt, 'pct) action" where
  "eth_blobBaseFee = Start (Frontend_call Eth Rpc_blobBaseFee)"

definition eth_gasPrice :: "('tx, 'flt, 'pct) action" where
  "eth_gasPrice = Start (Frontend_call Eth Rpc_gasPrice)"

definition eth_maxPriorityFeePerGas :: "('tx, 'flt, 'pct) action" where
  "eth_maxPriorityFeePerGas = Start (Frontend_call Eth Rpc_maxPriorityFeePerGas)"

definition eth_feeHistory ::
    "('tx, 'flt, 'pct) decoders \<Rightarrow> u64 \<Rightarrow> string \<Rightarrow> string \<Rightarrow> ('tx, 'flt, 'pct) action" where
  "eth_feeHistory d blockCount newestBlock rewardPercentiles =
     unpacked (unpack_BlockTag newestBlock) (\<lambda>newestBlockTyped.
     unpacked (unpack_Percentiles d rewardPercentiles) (\<lambda>rewardPercentilesTyped.
     Start (Frontend_call Eth (Rpc_feeHistory blockCount newestBlockTyped rewardPercentilesTyped))))"

definition eth_sendRawTransaction ::
    "('tx, 'flt, 'pct) decoders \<Rightarrow> string \<Rightarrow> ('tx, 'flt, 'pct) action" where
  "eth_sendRawTransaction d txHexBytes =
     unpacked (hexToSeqByte d txHexBytes) (\<lambda>txHexBytesTyped.
     Start (Frontend_call Eth (Rpc_sendRawTransaction txHexBytesTyped)))"

definition op_chainId :: "('tx, 'flt, 'pct) action" where
  "op_chainId = requireOpFrontend (Start (Frontend_call Op Rpc_chainId))"

definition op_blockNumber :: "('tx, 'flt, 'pct) action" where
  "op_blockNumber = requireOpFrontend (Start (Frontend_call Op Rpc_blockNumber))"

definition op_getBalance ::
    "('tx, 'flt, 'pct) decoders \<Rightarrow> string \<Rightarrow> string \<Rightarrow> ('tx, 'flt, 'pct) action" where
  "op_getBalance d address blockTag =
     unpacked (unpack_Address d address) (\<lambda>addressTyped.
     unpacked (unpack_BlockTag blockTag) (\<lambda>blockTagTyped.
     requireOpFrontend (Start (Frontend_call Op (Rpc_getBalance addressTyped blockTagTyped)))))"

definition op_getStorageAt ::
    "('tx, 'flt, 'pct) decoders \<Rightarrow> string \<Rightarrow> string \<Rightarrow> string \<Rightarrow> ('tx, 'flt, 'pct) action" where
  "op_getStorageAt d address slot blockTag =
     unpacked (unpack_Address d address) (\<lambda>addressTyped.
     unpacked (unpack_UInt256 d slot) (\<lambda>slotTyped.
     unpacked (unpack_BlockTag blockTag) (\<lambda>blockTagTyped.
     requireOpFrontend (Start (Frontend_call Op (Rpc_getStorageAt addressTyped slotTyped blockTagTyped))))))"

definition op_getTransactionCount ::
    "('tx, 'flt, 'pct) decoders \<Rightarrow> string \<Rightarrow> string \<Rightarrow> ('tx, 'flt, 'pct) action" where
  "op_getTransactionCount d address blockTag =
     unpacked (unpack_Address d address) (\<lambda>addressTyped.
     unpacked (unpack_BlockTag blockTag) (\<lambda>blockTagTyped.
     requireOpFrontend (Start (Frontend_call Op (Rpc_getTransactionCount addressTyped blockTagTyped)))))"

definition op_getCode ::
    "('tx, 'flt, 'pct) decoders \<Rightarrow> string \<Rightarrow> string \<Rightarrow> ('tx, 'flt, 'pct) action" where
  "op_getCode d address blockTag =
     unpacked (unpack_Address d address) (\<lambda>addressTyped.
     unpacked (unpack_BlockTag blockTag) (\<lambda>blockTagTyped.
     requireOpFrontend (Start (Frontend_call Op (Rpc_getCode addressTyped blockTagTyped)))))"

definition op_getBlockByHash ::
    "('tx, 'flt, 'pct) decoders \<Rightarrow> string \<Rightarrow> bool \<Rightarrow> ('tx, 'flt, 'pct) action" where
  "op_getBlockByHash d blockHash fullTransactions =
     unpacked (unpack_Hash32 d blockHash) (\<lambda>blockHashTyped.
     requireOpFrontend (Start (Frontend_call Op (Rpc_getBlockByHash blockHashTyped fullTransactions))))"

definition op_getBlockByNumber ::
    "string \<Rightarrow> bool \<Rightarrow> ('tx, 'flt, 'pct) action" where
  "op_getBlockByNumber blockTag fullTransactions =
     unpacked (unpack_BlockTag blockTag) (\<lambda>blockTagTyped.
     requireOpFrontend (Start (Frontend_call Op (Rpc_getBlockByNumber blockTagTyped fullTransactions))))"

definition op_getUncleCountByBlockNumber ::
    "string \<Rightarrow> ('tx, 'flt, 'pct) action" where
  "op_getUncleCountByBlockNumber blockTag =
     unpacked (unpack_BlockTag blockTag) (\<lambda>blockTagTyped.
     requireOpFrontend (Start (Frontend_call Op (Rpc_getUncleCountByBlockNumber blockTagTyped))))"

definition op_getUncleCountByBlockHash ::
    "('tx, 'flt, 'pct) decoders \<Rightarrow> string \<Rightarrow> ('tx, 'flt, 'pct) action" where
  "op_getUncleCountByBlockHash d blockHash =
     unpacked (unpack_Hash32 d blockHash) (\<lambda>blockHashTyped.
     requireOpFrontend (Start (Frontend_call Op (Rpc_getUncleCountByBlockHash blockHashTyped))))"

definition op_getBlockTransactionCountByNumber ::
    "string \<Rightarrow> ('tx, 'flt, 'pct) action" where
  "op_getBlockTransactionCountByNumber blockTag =
     unpacked (unpack_BlockTag blockTag) (\<lambda>blockTagTyped.
     requireOpFrontend (Start (Frontend_call Op (Rpc_getBlockTransactionCountByNumber blockTagTyped))))"

definition op_getBlockTransactionCountByHash ::
    "('tx, 'flt, 'pct) decoders \<Rightarrow> string \<Rightarrow> ('tx, 'flt, 'pct) action" where
  "op_getBlockTransactionCountByHash d blockHash =
     unpacked (unpack_Hash32 d blockHash) (\<lambda>blockHashTyped.
     requireOpFrontend (Start (Frontend_call Op (Rpc_getBlockTransactionCountByHash blockHashTyped))))"

definition op_getTransactionByBlockNumberAndIndex ::
    "string \<Rightarrow> u64 \<Rightarrow> ('tx, 'flt, 'pct) action" where
  "op_getTransactionByBlockNumberAndIndex blockTag index =
     unpacked (unpack_BlockTag blockTag) (\<lambda>blockTagTyped.
     requireOpFrontend (Start (Frontend_call Op (Rpc_getTransactionByBlockNumberAndIndex blockTagTyped index))))"

definition op_getTransactionByBlockHashAndIndex ::
    "('tx, 'flt, 'pct) decoders \<Rightarrow> string \<Rightarrow> u64 \<Rightarrow> ('tx, 'flt, 'pct) action" where
  "op_getTransactionByBlockHashAndIndex d blockHash index =
     unpacked (unpack_Hash32 d blockHash) (\<lambda>blockHashTyped.
     requireOpFrontend (Start (Frontend_call Op (Rpc_getTransactionByBlockHashAndIndex blockHashTyped index))))"

definition op_call ::
    "('tx, 'flt, 'pct) decoders \<Rightarrow> string \<Rightarrow> string \<Rightarrow> bool \<Rightarrow> ('tx, 'flt, 'pct) action" where
  "op_call d txArgs blockTag optimisticStateFetch =
     unpacked (unpack_TransactionArgs d txArgs) (\<lambda>txArgsTyped.
     unpacked (unpack_BlockTag blockTag) (\<lambda>blockTagTyped.
     requireOpFrontend (Start (Frontend_call Op (Rpc_call txArgsTyped blockTagTyped optimisticStateFetch)))))"

definition op_createAccessList ::
    "('tx, 'flt, 'pct) decoders \<Rightarrow> string \<Rightarrow> string \<Rightarrow> bool \<Rightarrow> ('tx, 'flt, 'pct) action" where
  "op_createAccessList d txArgs blockTag optimisticStateFetch =
     unpacked (unpack_TransactionArgs d txArgs) (\<lambda>txArgsTyped.
     unpacked (unpack_BlockTag blockTag) (\<lambda>blockTagTyped.
     requireOpFrontend (Start (Frontend_call Op (Rpc_createAccessList txArgsTyped blockTagTyped optimisticStateFetch)))))"

definition op_estimateGas ::
    "('tx, 'flt, 'pct) decoders \<Rightarrow> string \<Rightarrow> string \<Rightarrow> bool \<Rightarrow> ('tx, 'flt, 'pct) action" where
  "op_estimateGas d txArgs blockTag optimisticStateFetch =
     unpacked (unpack_TransactionArgs d txArgs) (\<lambda>txArgsTyped.
     unpacked (unpack_BlockTag blockTag) (\<lambda>blockTagTyped.
     requireOpFrontend (Start (Frontend_call Op (Rpc_estimateGas txArgsTyped blockTagTyped optimisticStateFetch)))))"

definition op_getTransactionByHash ::
    "('tx, 'flt, 'pct) decoders \<Rightarrow> string \<Rightarrow> ('tx, 'flt, 'pct) action" where
  "op_getTransactionByHash d txHash =
     unpacked (unpack_Hash32 d txHash) (\<lambda>txHashTyped.
     requireOpFrontend (Start (Frontend_call Op (Rpc_getTransactionByHash txHashTyped))))"

definition op_getBlockReceipts ::
    "string \<Rightarrow> ('tx, 'flt, 'pct) action" where
  "op_getBlockReceipts blockTag =
     unpacked (unpack_BlockTag blockTag) (\<lambda>blockTagTyped.
     requireOpFrontend (Start (Frontend_call Op (Rpc_getBlockReceipts blockTagTyped))))"

definition op_getTransactionReceipt ::
    "('tx, 'flt, 'pct) decoders \<Rightarrow> string \<Rightarrow> ('tx, 'flt, 'pct) action" where
  "op_getTransactionReceipt d txHash =
     unpacked (unpack_Hash32 d txHash) (\<lambda>txHashTyped.
     requireOpFrontend (Start (Frontend_call Op (Rpc_getTransactionReceipt txHashTyped))))"

definition op_getLogs ::
    "('tx, 'flt, 'pct) decoders \<Rightarrow> string \<Rightarrow> ('tx, 'flt, 'pct) action" where
  "op_getLogs d filterOptions =
     unpacked (unpack_FilterOptions d filterOptions) (\<lambda>filterOptionsTyped.
     requireOpFrontend (Start (Frontend_call Op (Rpc_getLogs filterOptionsTyped))))"

definition op_newFilter ::
    "('tx, 'flt, 'pct) decoders \<Rightarrow> string \<Rightarrow> ('tx, 'flt, 'pct) action" where
  "op_newFilter d filterOptions =
     unpacked (unpack_FilterOptions d filterOptions) (\<lambda>filterOptionsTyped.
     requireOpFrontend (Start (Frontend_call Op (Rpc_newFilter filterOptionsTyped))))"

definition op_uninstallFilter :: "string \<Rightarrow> ('tx, 'flt, 'pct) action" where
  "op_uninstallFilter filterId = requireOpFrontend (Start (Frontend_call Op (Rpc_uninstallFilter filterId)))"

definition op_getFilterLogs :: "string \<Rightarrow> ('tx, 'flt, 'pct) action" where
  "op_getFilterLogs filterId = requireOpFrontend (Start (Frontend_call Op (Rpc_getFilterLogs filterId)))"

definition op_getFilterChanges :: "string \<Rightarrow> ('tx, 'flt, 'pct) action" where
  "op_getFilterChanges filterId = requireOpFrontend (Start (Frontend_call Op (Rpc_getFilterChanges filterId)))"

definition op_blobBaseFee :: "('tx, 'flt, 'pct) action" where
  "op_blobBaseFee = requireOpFrontend (Start (Frontend_call Op Rpc_blobBaseFee))"

definition op_gasPrice :: "('tx, 'flt, 'pct) action" where
  "op_gasPrice = requireOpFrontend (Start (Frontend_call Op Rpc_gasPrice))"

definition op_maxPriorityFeePerGas :: "('tx, 'flt, 'pct) action" where
  "op_maxPriorityFeePerGas = requireOpFrontend (Start (Frontend_call Op Rpc_maxPriorityFeePerGas))"

definition op_feeHistory ::
    "('tx, 'flt, 'pct) decoders \<Rightarrow> u64 \<Rightarrow> string \<Rightarrow> string \<Rightarrow> ('tx, 'flt, 'pct) action" where
  "op_feeHistory d blockCount newestBlock rewardPercentiles =
     unpacked (unpack_BlockTag newestBlock) (\<lambda>newestBlockTyped.
     unpacked (unpack_Percentiles d rewardPercentiles) (\<lambda>rewardPercentilesTyped.
     requireOpFrontend (Start (Frontend_call Op (Rpc_feeHistory blockCount newestBlockTyped rewardPercentilesTyped)))))"

definition op_sendRawTransaction ::
    "('tx, 'flt, 'pct) decoders \<Rightarrow> string \<Rightarrow> ('tx, 'flt, 'pct) action" where
  "op_sendRawTransaction d txHexBytes =
     unpacked (hexToSeqByte d txHexBytes) (\<lambda>txHexBytesTyped.
     requireOpFrontend (Start (Frontend_call Op (Rpc_sendRawTransaction txHexBytesTyped))))"

section \<open>The dispatcher\<close>

text \<open>A quantity must be a JSON string; it is decoded from the node's JSON text.\<close>

definition getQuantity :: "('tx, 'flt, 'pct, 'z) decoders_scheme \<Rightarrow> jnode \<Rightarrow> string + u64" where
  "getQuantity d node =
     (case node of
        JString _ \<Rightarrow> unpack_Quantity d (json_text d node)
      | _ \<Rightarrow> Inl ''quantity parameter must be a 0x-prefixed hex string'')"

definition requireParams :: "nat \<Rightarrow> jnode list \<Rightarrow> 'c api_action \<Rightarrow> 'c api_action" where
  "requireParams n ps act =
     (if length ps < n then Reply RET_DESER_ERROR ''parameters missing'' else act)"

definition dispatch ::
    "('tx, 'flt, 'pct) decoders \<Rightarrow> string \<Rightarrow> jnode list \<Rightarrow> ('tx, 'flt, 'pct) action" where
  "dispatch d name ps =
    (if name = ''eth_chainId'' then requireParams 0 ps
       (eth_chainId)
     else if name = ''eth_blockNumber'' then requireParams 0 ps
       (eth_blockNumber)
     else if name = ''eth_syncing'' then requireParams 0 ps
       (eth_syncing)
     else if name = ''eth_getBalance'' then requireParams 2 ps
       (eth_getBalance d (getStr (ps ! 0)) (getStr (ps ! 1)))
     else if name = ''eth_getStorageAt'' then requireParams 3 ps
       (eth_getStorageAt d (getStr (ps ! 0)) (getStr (ps ! 1)) (getStr (ps ! 2)))
     else if name = ''eth_getTransactionCount'' then requireParams 2 ps
       (eth_getTransactionCount d (getStr (ps ! 0)) (getStr (ps ! 1)))
     else if name = ''eth_getCode'' then requireParams 2 ps
       (eth_getCode d (getStr (ps ! 0)) (getStr (ps ! 1)))
     else if name = ''eth_getBlockByHash'' then requireParams 2 ps
       (eth_getBlockByHash d (getStr (ps ! 0)) (getBool (ps ! 1)))
     else if name = ''eth_getBlockByNumber'' then requireParams 2 ps
       (eth_getBlockByNumber (getStr (ps ! 0)) (getBool (ps ! 1)))
     else if name = ''eth_getUncleCountByBlockNumber'' then requireParams 1 ps
       (eth_getUncleCountByBlockNumber (getStr (ps ! 0)))
     else if name = ''eth_getUncleCountByBlockHash'' then requireParams 1 ps
       (eth_getUncleCountByBlockHash d (getStr (ps ! 0)))
     else if name = ''eth_getBlockTransactionCountByNumber'' then requireParams 1 ps
       (eth_getBlockTransactionCountByNumber (getStr (ps ! 0)))
     else if name = ''eth_getBlockTransactionCountByHash'' then requireParams 1 ps
       (eth_getBlockTransactionCountByHash d (getStr (ps ! 0)))
     else if name = ''eth_getTransactionByBlockNumberAndIndex'' then requireParams 2 ps
       (unpacked (getQuantity d (ps ! 1)) (\<lambda>index. eth_getTransactionByBlockNumberAndIndex (getStr (ps ! 0)) index))
     else if name = ''eth_getTransactionByBlockHashAndIndex'' then requireParams 2 ps
       (unpacked (getQuantity d (ps ! 1)) (\<lambda>index. eth_getTransactionByBlockHashAndIndex d (getStr (ps ! 0)) index))
     else if name = ''eth_call'' then requireParams 3 ps
       (eth_call d (json_text d (ps ! 0)) (getStr (ps ! 1)) (getBool (ps ! 2)))
     else if name = ''eth_createAccessList'' then requireParams 3 ps
       (eth_createAccessList d (json_text d (ps ! 0)) (getStr (ps ! 1)) (getBool (ps ! 2)))
     else if name = ''eth_estimateGas'' then requireParams 3 ps
       (eth_estimateGas d (json_text d (ps ! 0)) (getStr (ps ! 1)) (getBool (ps ! 2)))
     else if name = ''eth_getTransactionByHash'' then requireParams 1 ps
       (eth_getTransactionByHash d (getStr (ps ! 0)))
     else if name = ''eth_getBlockReceipts'' then requireParams 1 ps
       (eth_getBlockReceipts (getStr (ps ! 0)))
     else if name = ''eth_getTransactionReceipt'' then requireParams 1 ps
       (eth_getTransactionReceipt d (getStr (ps ! 0)))
     else if name = ''eth_getLogs'' then requireParams 1 ps
       (eth_getLogs d (json_text d (ps ! 0)))
     else if name = ''eth_newFilter'' then requireParams 1 ps
       (eth_newFilter d (json_text d (ps ! 0)))
     else if name = ''eth_uninstallFilter'' then requireParams 1 ps
       (eth_uninstallFilter (getStr (ps ! 0)))
     else if name = ''eth_getFilterLogs'' then requireParams 1 ps
       (eth_getFilterLogs (getStr (ps ! 0)))
     else if name = ''eth_getFilterChanges'' then requireParams 1 ps
       (eth_getFilterChanges (getStr (ps ! 0)))
     else if name = ''eth_blobBaseFee'' then requireParams 0 ps
       (eth_blobBaseFee)
     else if name = ''eth_gasPrice'' then requireParams 0 ps
       (eth_gasPrice)
     else if name = ''eth_maxPriorityFeePerGas'' then requireParams 0 ps
       (eth_maxPriorityFeePerGas)
     else if name = ''eth_feeHistory'' then requireParams 3 ps
       (unpacked (getQuantity d (ps ! 0)) (\<lambda>blockCount. eth_feeHistory d blockCount (getStr (ps ! 1)) (json_text d (ps ! 2))))
     else if name = ''eth_sendRawTransaction'' then requireParams 1 ps
       (eth_sendRawTransaction d (getStr (ps ! 0)))
     else if name = ''op_chainId'' then requireParams 0 ps
       (op_chainId)
     else if name = ''op_blockNumber'' then requireParams 0 ps
       (op_blockNumber)
     else if name = ''op_getBalance'' then requireParams 2 ps
       (op_getBalance d (getStr (ps ! 0)) (getStr (ps ! 1)))
     else if name = ''op_getStorageAt'' then requireParams 3 ps
       (op_getStorageAt d (getStr (ps ! 0)) (getStr (ps ! 1)) (getStr (ps ! 2)))
     else if name = ''op_getTransactionCount'' then requireParams 2 ps
       (op_getTransactionCount d (getStr (ps ! 0)) (getStr (ps ! 1)))
     else if name = ''op_getCode'' then requireParams 2 ps
       (op_getCode d (getStr (ps ! 0)) (getStr (ps ! 1)))
     else if name = ''op_getBlockByHash'' then requireParams 2 ps
       (op_getBlockByHash d (getStr (ps ! 0)) (getBool (ps ! 1)))
     else if name = ''op_getBlockByNumber'' then requireParams 2 ps
       (op_getBlockByNumber (getStr (ps ! 0)) (getBool (ps ! 1)))
     else if name = ''op_getUncleCountByBlockNumber'' then requireParams 1 ps
       (op_getUncleCountByBlockNumber (getStr (ps ! 0)))
     else if name = ''op_getUncleCountByBlockHash'' then requireParams 1 ps
       (op_getUncleCountByBlockHash d (getStr (ps ! 0)))
     else if name = ''op_getBlockTransactionCountByNumber'' then requireParams 1 ps
       (op_getBlockTransactionCountByNumber (getStr (ps ! 0)))
     else if name = ''op_getBlockTransactionCountByHash'' then requireParams 1 ps
       (op_getBlockTransactionCountByHash d (getStr (ps ! 0)))
     else if name = ''op_getTransactionByBlockNumberAndIndex'' then requireParams 2 ps
       (unpacked (getQuantity d (ps ! 1)) (\<lambda>index. op_getTransactionByBlockNumberAndIndex (getStr (ps ! 0)) index))
     else if name = ''op_getTransactionByBlockHashAndIndex'' then requireParams 2 ps
       (unpacked (getQuantity d (ps ! 1)) (\<lambda>index. op_getTransactionByBlockHashAndIndex d (getStr (ps ! 0)) index))
     else if name = ''op_call'' then requireParams 3 ps
       (op_call d (json_text d (ps ! 0)) (getStr (ps ! 1)) (getBool (ps ! 2)))
     else if name = ''op_createAccessList'' then requireParams 3 ps
       (op_createAccessList d (json_text d (ps ! 0)) (getStr (ps ! 1)) (getBool (ps ! 2)))
     else if name = ''op_estimateGas'' then requireParams 3 ps
       (op_estimateGas d (json_text d (ps ! 0)) (getStr (ps ! 1)) (getBool (ps ! 2)))
     else if name = ''op_getTransactionByHash'' then requireParams 1 ps
       (op_getTransactionByHash d (getStr (ps ! 0)))
     else if name = ''op_getBlockReceipts'' then requireParams 1 ps
       (op_getBlockReceipts (getStr (ps ! 0)))
     else if name = ''op_getTransactionReceipt'' then requireParams 1 ps
       (op_getTransactionReceipt d (getStr (ps ! 0)))
     else if name = ''op_getLogs'' then requireParams 1 ps
       (op_getLogs d (json_text d (ps ! 0)))
     else if name = ''op_newFilter'' then requireParams 1 ps
       (op_newFilter d (json_text d (ps ! 0)))
     else if name = ''op_uninstallFilter'' then requireParams 1 ps
       (op_uninstallFilter (getStr (ps ! 0)))
     else if name = ''op_getFilterLogs'' then requireParams 1 ps
       (op_getFilterLogs (getStr (ps ! 0)))
     else if name = ''op_getFilterChanges'' then requireParams 1 ps
       (op_getFilterChanges (getStr (ps ! 0)))
     else if name = ''op_blobBaseFee'' then requireParams 0 ps
       (op_blobBaseFee)
     else if name = ''op_gasPrice'' then requireParams 0 ps
       (op_gasPrice)
     else if name = ''op_maxPriorityFeePerGas'' then requireParams 0 ps
       (op_maxPriorityFeePerGas)
     else if name = ''op_feeHistory'' then requireParams 3 ps
       (unpacked (getQuantity d (ps ! 0)) (\<lambda>blockCount. op_feeHistory d blockCount (getStr (ps ! 1)) (json_text d (ps ! 2))))
     else if name = ''op_sendRawTransaction'' then requireParams 1 ps
       (op_sendRawTransaction d (getStr (ps ! 0)))
     else Reply RET_DESER_ERROR ''unknown method'')"

definition proxyCall ::
    "('tx, 'flt, 'pct) decoders \<Rightarrow> string \<Rightarrow> string \<Rightarrow> ('tx, 'flt, 'pct) action" where
  "proxyCall d name params =
     (case parseJson d params of
        Inl msg \<Rightarrow> Reply RET_DESER_ERROR msg
      | Inr node \<Rightarrow> dispatch d name (getElems node))"

lemmas eth_procs =
  eth_chainId_def eth_blockNumber_def eth_syncing_def eth_getBalance_def eth_getStorageAt_def
  eth_getTransactionCount_def eth_getCode_def eth_getBlockByHash_def eth_getBlockByNumber_def
  eth_getUncleCountByBlockNumber_def eth_getUncleCountByBlockHash_def
  eth_getBlockTransactionCountByNumber_def eth_getBlockTransactionCountByHash_def
  eth_getTransactionByBlockNumberAndIndex_def eth_getTransactionByBlockHashAndIndex_def
  eth_call_def eth_createAccessList_def eth_estimateGas_def eth_getTransactionByHash_def
  eth_getBlockReceipts_def eth_getTransactionReceipt_def eth_getLogs_def eth_newFilter_def
  eth_uninstallFilter_def eth_getFilterLogs_def eth_getFilterChanges_def eth_blobBaseFee_def
  eth_gasPrice_def eth_maxPriorityFeePerGas_def eth_feeHistory_def eth_sendRawTransaction_def

lemmas op_procs =
  op_chainId_def op_blockNumber_def op_getBalance_def op_getStorageAt_def
  op_getTransactionCount_def op_getCode_def op_getBlockByHash_def op_getBlockByNumber_def
  op_getUncleCountByBlockNumber_def op_getUncleCountByBlockHash_def
  op_getBlockTransactionCountByNumber_def op_getBlockTransactionCountByHash_def
  op_getTransactionByBlockNumberAndIndex_def op_getTransactionByBlockHashAndIndex_def
  op_call_def op_createAccessList_def op_estimateGas_def op_getTransactionByHash_def
  op_getBlockReceipts_def op_getTransactionReceipt_def op_getLogs_def op_newFilter_def
  op_uninstallFilter_def op_getFilterLogs_def op_getFilterChanges_def op_blobBaseFee_def
  op_gasPrice_def op_maxPriorityFeePerGas_def op_feeHistory_def op_sendRawTransaction_def

section \<open>What a procedure comes to in a given context\<close>

primrec settled :: "proxy_context \<Rightarrow> 'c api_action \<Rightarrow> (int \<times> string) + 'c" where
  "settled c (Reply status response) = Inl (status, response)"
| "settled c (Start call) = Inr call"
| "settled c (Inspect f) = settled c (f c)"

text \<open>Performing a procedure through the pointer of a live context is performing what it settles to.\<close>

lemma perform_settled:
  assumes "contexts s i = Some c"
  shows "perform enc (Some i) u finished act s =
    (case settled c act of
       Inl (status, response) \<Rightarrow> (Done (), call_back (Some i) status response u s)
     | Inr call \<Rightarrow> callbackToC enc (Some i) u call finished s)"
  using assms by (induction act) (simp_all add: deref_def)

lemma settled_unpacked [simp]:
  "settled c (unpacked r k) =
    (case r of Inl e \<Rightarrow> Inl (RET_DESER_ERROR, e) | Inr x \<Rightarrow> settled c (k x))"
  by (simp add: unpacked_def split: sum.splits)

lemma settled_requireParams [simp]:
  "settled c (requireParams n ps act) =
    (if length ps < n then Inl (RET_DESER_ERROR, ''parameters missing'') else settled c act)"
  by (simp add: requireParams_def)

lemma settled_requireOpFrontend [simp]:
  "settled c (requireOpFrontend act) =
    (if ctx_op c then settled c act
     else Inl (RET_ERROR, ''op_ namespace unavailable (no OP network configured)''))"
  by (simp add: requireOpFrontend_def)

fun namespace :: "network \<Rightarrow> string" where
  "namespace Eth = ''eth_''"
| "namespace Op = ''op_''"

fun rpc_method :: "('tx, 'flt, 'pct) rpc_call \<Rightarrow> string" where
  "rpc_method Rpc_chainId = ''chainId''"
| "rpc_method Rpc_blockNumber = ''blockNumber''"
| "rpc_method Rpc_syncing = ''syncing''"
| "rpc_method (Rpc_getBalance address blockTag) = ''getBalance''"
| "rpc_method (Rpc_getStorageAt address slot blockTag) = ''getStorageAt''"
| "rpc_method (Rpc_getTransactionCount address blockTag) = ''getTransactionCount''"
| "rpc_method (Rpc_getCode address blockTag) = ''getCode''"
| "rpc_method (Rpc_getBlockByHash blockHash fullTransactions) = ''getBlockByHash''"
| "rpc_method (Rpc_getBlockByNumber blockTag fullTransactions) = ''getBlockByNumber''"
| "rpc_method (Rpc_getUncleCountByBlockNumber blockTag) = ''getUncleCountByBlockNumber''"
| "rpc_method (Rpc_getUncleCountByBlockHash blockHash) = ''getUncleCountByBlockHash''"
| "rpc_method (Rpc_getBlockTransactionCountByNumber blockTag) = ''getBlockTransactionCountByNumber''"
| "rpc_method (Rpc_getBlockTransactionCountByHash blockHash) = ''getBlockTransactionCountByHash''"
| "rpc_method (Rpc_getTransactionByBlockNumberAndIndex blockTag index) = ''getTransactionByBlockNumberAndIndex''"
| "rpc_method (Rpc_getTransactionByBlockHashAndIndex blockHash index) = ''getTransactionByBlockHashAndIndex''"
| "rpc_method (Rpc_call txArgs blockTag optimisticStateFetch) = ''call''"
| "rpc_method (Rpc_createAccessList txArgs blockTag optimisticStateFetch) = ''createAccessList''"
| "rpc_method (Rpc_estimateGas txArgs blockTag optimisticStateFetch) = ''estimateGas''"
| "rpc_method (Rpc_getTransactionByHash txHash) = ''getTransactionByHash''"
| "rpc_method (Rpc_getBlockReceipts blockTag) = ''getBlockReceipts''"
| "rpc_method (Rpc_getTransactionReceipt txHash) = ''getTransactionReceipt''"
| "rpc_method (Rpc_getLogs filterOptions) = ''getLogs''"
| "rpc_method (Rpc_newFilter filterOptions) = ''newFilter''"
| "rpc_method (Rpc_uninstallFilter filterId) = ''uninstallFilter''"
| "rpc_method (Rpc_getFilterLogs filterId) = ''getFilterLogs''"
| "rpc_method (Rpc_getFilterChanges filterId) = ''getFilterChanges''"
| "rpc_method Rpc_blobBaseFee = ''blobBaseFee''"
| "rpc_method Rpc_gasPrice = ''gasPrice''"
| "rpc_method Rpc_maxPriorityFeePerGas = ''maxPriorityFeePerGas''"
| "rpc_method (Rpc_feeHistory blockCount newestBlock rewardPercentiles) = ''feeHistory''"
| "rpc_method (Rpc_sendRawTransaction txHexBytes) = ''sendRawTransaction''"

text \<open>
  \<open>routed c name act\<close>: a call that \<open>act\<close> starts is the frontend call of that name, and a reply
  is a decoding error or the missing OP network.
\<close>

definition routed :: "proxy_context \<Rightarrow> string \<Rightarrow> ('tx, 'flt, 'pct) action \<Rightarrow> bool" where
  "routed c name act \<longleftrightarrow>
     (case settled c act of
        Inr call \<Rightarrow> (\<exists>net rc. call = Frontend_call net rc \<and> name = namespace net @ rpc_method rc \<and>
                          (net = Op \<longrightarrow> ctx_op c))
      | Inl (status, _) \<Rightarrow> status = RET_DESER_ERROR \<or>
                           status = RET_ERROR \<and> \<not> ctx_op c \<and> take 3 name = namespace Op)"

lemma routed_call:
  assumes "routed c name act" and "settled c act = Inr call"
  shows "\<exists>net rc. call = Frontend_call net rc \<and> name = namespace net @ rpc_method rc \<and>
    (net = Op \<longrightarrow> ctx_op c)"
  using assms by (simp add: routed_def)

lemma routed_without_op:
  fixes act :: "('tx, 'flt, 'pct) action"
  assumes "routed c name act" and "\<not> ctx_op c" and "take 3 name = ''op_''"
  shows "\<exists>status response. settled c act = Inl (status, response) \<and>
    status \<in> {RET_ERROR, RET_DESER_ERROR}"
proof (cases "settled c act")
  case (Inl a)
  with assms(1) show ?thesis by (cases a) (auto simp: routed_def)
next
  case (Inr call)
  obtain net and rc :: "('tx, 'flt, 'pct) rpc_call"
    where name: "name = namespace net @ rpc_method rc" and "net = Op \<longrightarrow> ctx_op c"
    using routed_call [OF assms(1) Inr] by blast
  with assms(2) have "net = Eth" by (cases net) simp_all
  with name assms(3) show ?thesis by simp
qed

lemma routed_if:
  "(name = s \<Longrightarrow> routed c s act) \<Longrightarrow> routed c name rest \<Longrightarrow> routed c name (if name = s then act else rest)"
  by simp

lemma routed_unpacked: "(\<And>x. routed c name (k x)) \<Longrightarrow> routed c name (unpacked r k)"
  by (cases r) (simp_all add: routed_def)

lemma routed_requireParams: "routed c name act \<Longrightarrow> routed c name (requireParams n ps act)"
  by (simp add: routed_def)

lemma routed_start:
  "name = ''eth_'' @ rpc_method rc \<Longrightarrow> routed c name (Start (Frontend_call Eth rc))"
  by (auto simp: routed_def intro: exI [of _ Eth])

lemma routed_op_start:
  "name = ''op_'' @ rpc_method rc \<Longrightarrow> routed c name (requireOpFrontend (Start (Frontend_call Op rc)))"
  by (auto simp: routed_def intro: exI [of _ Op])

lemma routed_reply: "routed c name (Reply RET_DESER_ERROR msg)"
  by (simp add: routed_def)

lemmas routed_rules =
  routed_if routed_unpacked routed_requireParams routed_start routed_op_start routed_reply

lemma routed_dispatch: "routed c name (dispatch d name ps)"
  unfolding dispatch_def eth_procs op_procs by (intro routed_rules; simp)

lemma routed_proxyCall: "routed c name (proxyCall d name params)"
  by (simp add: proxyCall_def routed_reply routed_dispatch split: sum.splits)

section \<open>The two namespaces\<close>

fun on_op :: "('tx, 'flt, 'pct) frontend_call \<Rightarrow> ('tx, 'flt, 'pct) frontend_call" where
  "on_op (Frontend_call net rc) = Frontend_call Op rc"
| "on_op (Sync_once net) = Sync_once Op"

definition mirrored ::
    "proxy_context \<Rightarrow> ('tx, 'flt, 'pct) action \<Rightarrow> ('tx, 'flt, 'pct) action \<Rightarrow> bool" where
  "mirrored c op eth \<longleftrightarrow> settled c op = map_sum id on_op (settled c eth)"

lemma mirrored_if:
  "(b \<Longrightarrow> mirrored c op eth) \<Longrightarrow> (\<not> b \<Longrightarrow> mirrored c op' eth') \<Longrightarrow>
   mirrored c (if b then op else op') (if b then eth else eth')"
  by simp

lemma mirrored_unpacked:
  "(\<And>x. mirrored c (k x) (k' x)) \<Longrightarrow> mirrored c (unpacked r k) (unpacked r k')"
  by (simp add: mirrored_def split: sum.splits)

lemma mirrored_requireParams:
  "mirrored c op eth \<Longrightarrow> mirrored c (requireParams n ps op) (requireParams n ps eth)"
  by (simp add: mirrored_def)

lemma mirrored_start:
  "ctx_op c \<Longrightarrow>
   mirrored c (requireOpFrontend (Start (Frontend_call Op rc))) (Start (Frontend_call Eth rc))"
  by (simp add: mirrored_def)

lemma mirrored_reply: "mirrored c (Reply st r) (Reply st r)"
  by (simp add: mirrored_def)

lemma mirrored_dispatch:
  assumes "ctx_op c" and "m \<noteq> ''syncing''"
  shows "mirrored c (dispatch d (''op_'' @ m) ps) (dispatch d (''eth_'' @ m) ps)"
  unfolding dispatch_def eth_procs op_procs using assms
  apply (simp cong: if_cong split del: if_split)
  apply (intro mirrored_if mirrored_unpacked mirrored_requireParams mirrored_start mirrored_reply)
  apply assumption+
  done

section \<open>Properties\<close>

text \<open>
  C35: the dispatcher starts only the frontend call its method name spells, in the namespace it
  spells, never a synchronisation; every other outcome is a reply that the input did not
  decode, or that no OP network is configured.
\<close>

theorem proxyCall_routes:
  "case settled c (proxyCall d name params) of
     Inr call \<Rightarrow> (\<exists>net rc. call = Frontend_call net rc \<and> name = namespace net @ rpc_method rc \<and>
                     (net = Eth \<or> ctx_op c))
   | Inl (status, _) \<Rightarrow> status = RET_DESER_ERROR \<or>
                        status = RET_ERROR \<and> \<not> ctx_op c \<and> take 3 name = ''op_''"
  using routed_proxyCall [of c name d params]
  by (auto simp: routed_def split: sum.splits intro: network.exhaust)

text \<open>
  With an OP network configured the two namespaces are one API: \<open>op_m\<close> decodes the same
  parameters in the same order with the same errors as \<open>eth_m\<close> and starts the same call on the
  OP frontend; \<open>eth_syncing\<close> alone has no counterpart.
\<close>

theorem proxyCall_op_mirrors_eth:
  assumes "ctx_op c"
  shows "settled c (proxyCall d (''op_'' @ m) params) =
    (if m = ''syncing''
     then (case parseJson d params of
             Inl msg \<Rightarrow> Inl (RET_DESER_ERROR, msg)
           | Inr _ \<Rightarrow> Inl (RET_DESER_ERROR, ''unknown method''))
     else map_sum id on_op (settled c (proxyCall d (''eth_'' @ m) params)))"
proof (cases "m = ''syncing''")
  case True
  then show ?thesis by (simp add: proxyCall_def dispatch_def split: sum.splits)
next
  case False
  with mirrored_dispatch [OF assms, of m d] show ?thesis
    by (simp add: proxyCall_def mirrored_def split: sum.splits)
qed

theorem proxyCall_op_mirrors_eth_witness:
  "settled \<lparr>ctx_stop = False, pendingCalls = 0, ctx_op = True, ctx_interval = 12000\<rparr>
     (proxyCall \<lparr>address_fromHex = \<lambda>_. Inr 0, uint256_fromHex = \<lambda>_. Inr 0,
        hash32_fromHex = \<lambda>_. Inr 0, transactionArgs_decode = \<lambda>_. Inr (), filterOptions_decode = \<lambda>_. Inr (),
        percentiles_decode = \<lambda>_. Inr (), quantity_decode = \<lambda>_. Inr 0, hexToSeqByte = \<lambda>_. Inr [],
        parseJson = \<lambda>_. Inr (JArray [JString ''0x10'']), json_text = \<lambda>_. []\<rparr>
       (''op_'' @ ''getBlockReceipts'') ''[\"0x10\"]'') =
   Inr (Frontend_call Op (Rpc_getBlockReceipts (BidNumber 16)))"
  by (subst proxyCall_op_mirrors_eth)
    (simp_all add: proxyCall_def dispatch_def getElems_def getStr_def eth_getBlockReceipts_def
      unpack_BlockTag_def fromHex_u64_def hex_body_def hex_digit_def)

text \<open>
  A block tag of hex digits denotes its value modulo 2 to the power 64: digits that do not
  fit are dropped without an error, so that a 32-byte block hash given as a tag is accepted
  and means the block whose number is the hash's last eight bytes.
\<close>

theorem block_tag_of_digits:
  assumes "ds \<noteq> []" and "\<forall>d \<in> set ds. d < 16"
  shows "unpack_BlockTag (''0x'' @ map hex_char ds) =
    Inr (BidNumber (of_nat (digits_value 0 ds mod 2 ^ 64)))"
proof -
  have "fromHex_u64 (''0x'' @ map hex_char ds) = Some (of_nat (digits_value 0 ds))"
    using hex_scan_digits [OF assms(2), of 0 False] assms(1)
    by (simp add: fromHex_u64_def hex_body_def)
  moreover have "(of_nat (digits_value 0 ds) :: u64) = of_nat (digits_value 0 ds mod 2 ^ 64)"
    by (simp add: word_unat_eq_iff unat_of_nat take_bit_eq_mod)
  ultimately show ?thesis by (simp add: unpack_BlockTag_def)
qed

theorem block_tag_of_digits_witness:
  "unpack_BlockTag (''0x'' @ map hex_char [1, 15, 0, 0, 0, 0, 0, 0, 0, 0, 0, 0, 0, 0, 0, 0, 0, 5]) = Inr (BidNumber 5)"
  by (subst block_tag_of_digits) simp_all

text \<open>
  An exported procedure, called through a live context, answers at once or hands the event
  loop one call of the frontend; in particular the \<open>op_\<close> procedures of a context without an OP
  frontend reply with an error and leave nothing in flight.
\<close>

theorem op_call_without_op_network:
  assumes "contexts s i = Some c" and "\<not> ctx_op c"
    and "perform enc (Some i) u finished (proxyCall d (''op_'' @ m) params) s = (out, s')"
  shows "out = Done () \<and> inflight s' = inflight s \<and>
    (\<exists>status response. callbacks s' = callbacks s @ [(Some i, status, response, u)] \<and>
       status \<in> {RET_ERROR, RET_DESER_ERROR})"
proof -
  obtain status response where
    "settled c (proxyCall d (''op_'' @ m) params) = Inl (status, response)"
    "status \<in> {RET_ERROR, RET_DESER_ERROR}"
    using routed_without_op [OF routed_proxyCall assms(2), of "''op_'' @ m" d params] by auto
  with assms(3) show ?thesis
    by (auto simp: perform_settled [OF assms(1)] call_back_def)
qed

theorem op_call_without_op_network_witness:
  "\<exists>out s'. perform id (Some 0) 7 None
     (proxyCall \<lparr>address_fromHex = \<lambda>_. Inr 0, uint256_fromHex = \<lambda>_. Inr 0,
        hash32_fromHex = \<lambda>_. Inr 0, transactionArgs_decode = \<lambda>_. Inr (), filterOptions_decode = \<lambda>_. Inr (),
        percentiles_decode = \<lambda>_. Inr (), quantity_decode = \<lambda>_. Inr 0, hexToSeqByte = \<lambda>_. Inr [],
        parseJson = \<lambda>_. Inr (JArray []), json_text = \<lambda>_. []\<rparr> (''op_'' @ ''gasPrice'') ''[]'')
     (process_start\<lparr>contexts := [0 \<mapsto> \<lparr>ctx_stop = False, pendingCalls = 0, ctx_op = False,
        ctx_interval = 12000\<rparr>]\<rparr>) = (out, s') \<and>
   out = Done () \<and> inflight s' = []"
proof -
  let ?s = "process_start\<lparr>contexts := [0 \<mapsto> \<lparr>ctx_stop = False, pendingCalls = 0, ctx_op = False,
        ctx_interval = 12000\<rparr>]\<rparr>"
  have c: "contexts ?s 0 = Some \<lparr>ctx_stop = False, pendingCalls = 0, ctx_op = False,
      ctx_interval = 12000\<rparr>" by simp
  let ?p = "perform id (Some 0) 7 None
     (proxyCall \<lparr>address_fromHex = \<lambda>_. Inr 0, uint256_fromHex = \<lambda>_. Inr 0,
        hash32_fromHex = \<lambda>_. Inr 0, transactionArgs_decode = \<lambda>_. Inr (), filterOptions_decode = \<lambda>_. Inr (),
        percentiles_decode = \<lambda>_. Inr (), quantity_decode = \<lambda>_. Inr 0, hexToSeqByte = \<lambda>_. Inr [],
        parseJson = \<lambda>_. Inr (JArray []), json_text = \<lambda>_. []\<rparr> (''op_'' @ ''gasPrice'') ''[]'') ?s"
  obtain out s' where r: "?p = (out, s')" by (cases ?p)
  have "out = Done () \<and> inflight s' = []"
    using op_call_without_op_network [OF c _ r] by (simp add: process_start_def)
  with r show ?thesis by blast
qed

end
