(* ===== verification/C_Api.thy ===== *)
theory C_Api
  imports C_Frontend
begin

text \<open>
  The C API as its callers see it: the prototypes of \<open>library/verifproxy.h\<close>, one constructor
  each, grouped by the sections of the header, what calling them does, and the entry points of
  the wasm shim that rest on them. Every call can also be made as text through \<open>proxyCall\<close>; the
  two ways are shown to be the same.
\<close>

section \<open>The prototypes\<close>

text \<open>
  The header declares every method in the \<open>eth_\<close> and, all but \<open>eth_syncing\<close>, in the \<open>op_\<close>
  namespace: the first argument. A \<open>char *\<close> may be null; \<open>unsigned long long\<close> has 64 bits. The
  context, the callback and its user data are arguments of every call and are not repeated.
\<close>

type_synonym cstr = "string option"

datatype basic_api =
    C_blockNumber network
  | C_syncing
  | C_chainId network
  | C_blobBaseFee network
  | C_gasPrice network
  | C_maxPriorityFeePerGas network

datatype account_api =
    C_getBalance network cstr cstr
  | C_getStorageAt network cstr cstr cstr
  | C_getTransactionCount network cstr cstr
  | C_getCode network cstr cstr

datatype block_api =
    C_getBlockByHash network cstr bool
  | C_getBlockByNumber network cstr bool
  | C_getUncleCountByBlockNumber network cstr
  | C_getUncleCountByBlockHash network cstr
  | C_getBlockTransactionCountByNumber network cstr
  | C_getBlockTransactionCountByHash network cstr

datatype transaction_api =
    C_getTransactionByBlockNumberAndIndex network cstr u64
  | C_getTransactionByBlockHashAndIndex network cstr u64
  | C_getTransactionByHash network cstr
  | C_getTransactionReceipt network cstr

datatype call_api =
    C_call network cstr cstr bool
  | C_createAccessList network cstr cstr bool
  | C_estimateGas network cstr cstr bool

datatype log_api =
    C_getLogs network cstr
  | C_newFilter network cstr
  | C_uninstallFilter network cstr
  | C_getFilterLogs network cstr
  | C_getFilterChanges network cstr

datatype receipt_api =
    C_getBlockReceipts network cstr
  | C_feeHistory network u64 cstr cstr
  | C_sendRawTransaction network cstr

text \<open>Synchronisation, which only the header's own calls reach, and the call by name.\<close>

datatype sync_api = Nvp_sync network | Nvp_syncInterval network

datatype c_call =
    Sync_api sync_api
  | Proxy_call cstr cstr
  | Basic_api basic_api
  | Account_api account_api
  | Block_api block_api
  | Transaction_api transaction_api
  | Call_api call_api
  | Log_api log_api
  | Receipt_api receipt_api

section \<open>Calling them\<close>

text \<open>\<open>$\<close> on a \<open>cstring\<close>: the null pointer reads as the empty string.\<close>

definition str :: "cstr \<Rightarrow> string" where
  "str p = (case p of None \<Rightarrow> [] | Some s \<Rightarrow> s)"

fun invoke_basic_api :: "('tx, 'flt, 'pct) decoders \<Rightarrow> basic_api \<Rightarrow> ('tx, 'flt, 'pct) action" where
  "invoke_basic_api d (C_blockNumber Eth) = eth_blockNumber"
| "invoke_basic_api d (C_blockNumber Op) = op_blockNumber"
| "invoke_basic_api d C_syncing = eth_syncing"
| "invoke_basic_api d (C_chainId Eth) = eth_chainId"
| "invoke_basic_api d (C_chainId Op) = op_chainId"
| "invoke_basic_api d (C_blobBaseFee Eth) = eth_blobBaseFee"
| "invoke_basic_api d (C_blobBaseFee Op) = op_blobBaseFee"
| "invoke_basic_api d (C_gasPrice Eth) = eth_gasPrice"
| "invoke_basic_api d (C_gasPrice Op) = op_gasPrice"
| "invoke_basic_api d (C_maxPriorityFeePerGas Eth) = eth_maxPriorityFeePerGas"
| "invoke_basic_api d (C_maxPriorityFeePerGas Op) = op_maxPriorityFeePerGas"

fun invoke_account_api :: "('tx, 'flt, 'pct) decoders \<Rightarrow> account_api \<Rightarrow> ('tx, 'flt, 'pct) action" where
  "invoke_account_api d (C_getBalance Eth address blockTag) = eth_getBalance d (str address) (str blockTag)"
| "invoke_account_api d (C_getBalance Op address blockTag) = op_getBalance d (str address) (str blockTag)"
| "invoke_account_api d (C_getStorageAt Eth address slot blockTag) = eth_getStorageAt d (str address) (str slot) (str blockTag)"
| "invoke_account_api d (C_getStorageAt Op address slot blockTag) = op_getStorageAt d (str address) (str slot) (str blockTag)"
| "invoke_account_api d (C_getTransactionCount Eth address blockTag) = eth_getTransactionCount d (str address) (str blockTag)"
| "invoke_account_api d (C_getTransactionCount Op address blockTag) = op_getTransactionCount d (str address) (str blockTag)"
| "invoke_account_api d (C_getCode Eth address blockTag) = eth_getCode d (str address) (str blockTag)"
| "invoke_account_api d (C_getCode Op address blockTag) = op_getCode d (str address) (str blockTag)"

fun invoke_block_api :: "('tx, 'flt, 'pct) decoders \<Rightarrow> block_api \<Rightarrow> ('tx, 'flt, 'pct) action" where
  "invoke_block_api d (C_getBlockByHash Eth blockHash fullTransactions) = eth_getBlockByHash d (str blockHash) fullTransactions"
| "invoke_block_api d (C_getBlockByHash Op blockHash fullTransactions) = op_getBlockByHash d (str blockHash) fullTransactions"
| "invoke_block_api d (C_getBlockByNumber Eth blockTag fullTransactions) = eth_getBlockByNumber (str blockTag) fullTransactions"
| "invoke_block_api d (C_getBlockByNumber Op blockTag fullTransactions) = op_getBlockByNumber (str blockTag) fullTransactions"
| "invoke_block_api d (C_getUncleCountByBlockNumber Eth blockTag) = eth_getUncleCountByBlockNumber (str blockTag)"
| "invoke_block_api d (C_getUncleCountByBlockNumber Op blockTag) = op_getUncleCountByBlockNumber (str blockTag)"
| "invoke_block_api d (C_getUncleCountByBlockHash Eth blockHash) = eth_getUncleCountByBlockHash d (str blockHash)"
| "invoke_block_api d (C_getUncleCountByBlockHash Op blockHash) = op_getUncleCountByBlockHash d (str blockHash)"
| "invoke_block_api d (C_getBlockTransactionCountByNumber Eth blockTag) = eth_getBlockTransactionCountByNumber (str blockTag)"
| "invoke_block_api d (C_getBlockTransactionCountByNumber Op blockTag) = op_getBlockTransactionCountByNumber (str blockTag)"
| "invoke_block_api d (C_getBlockTransactionCountByHash Eth blockHash) = eth_getBlockTransactionCountByHash d (str blockHash)"
| "invoke_block_api d (C_getBlockTransactionCountByHash Op blockHash) = op_getBlockTransactionCountByHash d (str blockHash)"

fun invoke_transaction_api :: "('tx, 'flt, 'pct) decoders \<Rightarrow> transaction_api \<Rightarrow> ('tx, 'flt, 'pct) action" where
  "invoke_transaction_api d (C_getTransactionByBlockNumberAndIndex Eth blockTag index) = eth_getTransactionByBlockNumberAndIndex (str blockTag) index"
| "invoke_transaction_api d (C_getTransactionByBlockNumberAndIndex Op blockTag index) = op_getTransactionByBlockNumberAndIndex (str blockTag) index"
| "invoke_transaction_api d (C_getTransactionByBlockHashAndIndex Eth blockHash index) = eth_getTransactionByBlockHashAndIndex d (str blockHash) index"
| "invoke_transaction_api d (C_getTransactionByBlockHashAndIndex Op blockHash index) = op_getTransactionByBlockHashAndIndex d (str blockHash) index"
| "invoke_transaction_api d (C_getTransactionByHash Eth txHash) = eth_getTransactionByHash d (str txHash)"
| "invoke_transaction_api d (C_getTransactionByHash Op txHash) = op_getTransactionByHash d (str txHash)"
| "invoke_transaction_api d (C_getTransactionReceipt Eth txHash) = eth_getTransactionReceipt d (str txHash)"
| "invoke_transaction_api d (C_getTransactionReceipt Op txHash) = op_getTransactionReceipt d (str txHash)"

fun invoke_call_api :: "('tx, 'flt, 'pct) decoders \<Rightarrow> call_api \<Rightarrow> ('tx, 'flt, 'pct) action" where
  "invoke_call_api d (C_call Eth txArgs blockTag optimisticStateFetch) = eth_call d (str txArgs) (str blockTag) optimisticStateFetch"
| "invoke_call_api d (C_call Op txArgs blockTag optimisticStateFetch) = op_call d (str txArgs) (str blockTag) optimisticStateFetch"
| "invoke_call_api d (C_createAccessList Eth txArgs blockTag optimisticStateFetch) = eth_createAccessList d (str txArgs) (str blockTag) optimisticStateFetch"
| "invoke_call_api d (C_createAccessList Op txArgs blockTag optimisticStateFetch) = op_createAccessList d (str txArgs) (str blockTag) optimisticStateFetch"
| "invoke_call_api d (C_estimateGas Eth txArgs blockTag optimisticStateFetch) = eth_estimateGas d (str txArgs) (str blockTag) optimisticStateFetch"
| "invoke_call_api d (C_estimateGas Op txArgs blockTag optimisticStateFetch) = op_estimateGas d (str txArgs) (str blockTag) optimisticStateFetch"

fun invoke_log_api :: "('tx, 'flt, 'pct) decoders \<Rightarrow> log_api \<Rightarrow> ('tx, 'flt, 'pct) action" where
  "invoke_log_api d (C_getLogs Eth filterOptions) = eth_getLogs d (str filterOptions)"
| "invoke_log_api d (C_getLogs Op filterOptions) = op_getLogs d (str filterOptions)"
| "invoke_log_api d (C_newFilter Eth filterOptions) = eth_newFilter d (str filterOptions)"
| "invoke_log_api d (C_newFilter Op filterOptions) = op_newFilter d (str filterOptions)"
| "invoke_log_api d (C_uninstallFilter Eth filterId) = eth_uninstallFilter (str filterId)"
| "invoke_log_api d (C_uninstallFilter Op filterId) = op_uninstallFilter (str filterId)"
| "invoke_log_api d (C_getFilterLogs Eth filterId) = eth_getFilterLogs (str filterId)"
| "invoke_log_api d (C_getFilterLogs Op filterId) = op_getFilterLogs (str filterId)"
| "invoke_log_api d (C_getFilterChanges Eth filterId) = eth_getFilterChanges (str filterId)"
| "invoke_log_api d (C_getFilterChanges Op filterId) = op_getFilterChanges (str filterId)"

fun invoke_receipt_api :: "('tx, 'flt, 'pct) decoders \<Rightarrow> receipt_api \<Rightarrow> ('tx, 'flt, 'pct) action" where
  "invoke_receipt_api d (C_getBlockReceipts Eth blockTag) = eth_getBlockReceipts (str blockTag)"
| "invoke_receipt_api d (C_getBlockReceipts Op blockTag) = op_getBlockReceipts (str blockTag)"
| "invoke_receipt_api d (C_feeHistory Eth blockCount newestBlock rewardPercentiles) = eth_feeHistory d blockCount (str newestBlock) (str rewardPercentiles)"
| "invoke_receipt_api d (C_feeHistory Op blockCount newestBlock rewardPercentiles) = op_feeHistory d blockCount (str newestBlock) (str rewardPercentiles)"
| "invoke_receipt_api d (C_sendRawTransaction Eth txHexBytes) = eth_sendRawTransaction d (str txHexBytes)"
| "invoke_receipt_api d (C_sendRawTransaction Op txHexBytes) = op_sendRawTransaction d (str txHexBytes)"

fun invoke_sync_api :: "(u64 \<Rightarrow> string) \<Rightarrow> sync_api \<Rightarrow> ('tx, 'flt, 'pct) action" where
  "invoke_sync_api enc (Nvp_sync Eth) = nvp_eth_sync"
| "invoke_sync_api enc (Nvp_sync Op) = nvp_op_sync"
| "invoke_sync_api enc (Nvp_syncInterval Eth) = nvp_eth_syncInterval enc"
| "invoke_sync_api enc (Nvp_syncInterval Op) = nvp_op_syncInterval enc"

primrec invoke ::
    "('tx, 'flt, 'pct) decoders \<Rightarrow> (u64 \<Rightarrow> string) \<Rightarrow> c_call \<Rightarrow> ('tx, 'flt, 'pct) action" where
  "invoke d enc (Sync_api c) = invoke_sync_api enc c"
| "invoke d enc (Proxy_call name params) = proxyCall d (str name) (str params)"
| "invoke d enc (Basic_api c) = invoke_basic_api d c"
| "invoke d enc (Account_api c) = invoke_account_api d c"
| "invoke d enc (Block_api c) = invoke_block_api d c"
| "invoke d enc (Transaction_api c) = invoke_transaction_api d c"
| "invoke d enc (Call_api c) = invoke_call_api d c"
| "invoke d enc (Log_api c) = invoke_log_api d c"
| "invoke d enc (Receipt_api c) = invoke_receipt_api d c"

section \<open>The same call as text\<close>

text \<open>
  The method name and the JSON parameters of a call: strings as JSON strings, quantities as hex
  strings, arguments that are JSON texts themselves as the nodes they denote.
\<close>

fun text_basic_api ::
    "(u64 \<Rightarrow> string) \<Rightarrow> (string \<Rightarrow> jnode) \<Rightarrow> basic_api \<Rightarrow> string \<times> jnode list" where
  "text_basic_api quantity node (C_blockNumber net) =
     (namespace net @ ''blockNumber'', [])"
| "text_basic_api quantity node C_syncing =
     (''eth_syncing'', [])"
| "text_basic_api quantity node (C_chainId net) =
     (namespace net @ ''chainId'', [])"
| "text_basic_api quantity node (C_blobBaseFee net) =
     (namespace net @ ''blobBaseFee'', [])"
| "text_basic_api quantity node (C_gasPrice net) =
     (namespace net @ ''gasPrice'', [])"
| "text_basic_api quantity node (C_maxPriorityFeePerGas net) =
     (namespace net @ ''maxPriorityFeePerGas'', [])"

fun text_account_api ::
    "(u64 \<Rightarrow> string) \<Rightarrow> (string \<Rightarrow> jnode) \<Rightarrow> account_api \<Rightarrow> string \<times> jnode list" where
  "text_account_api quantity node (C_getBalance net address blockTag) =
     (namespace net @ ''getBalance'', [JString (str address), JString (str blockTag)])"
| "text_account_api quantity node (C_getStorageAt net address slot blockTag) =
     (namespace net @ ''getStorageAt'', [JString (str address), JString (str slot), JString (str blockTag)])"
| "text_account_api quantity node (C_getTransactionCount net address blockTag) =
     (namespace net @ ''getTransactionCount'', [JString (str address), JString (str blockTag)])"
| "text_account_api quantity node (C_getCode net address blockTag) =
     (namespace net @ ''getCode'', [JString (str address), JString (str blockTag)])"

fun text_block_api ::
    "(u64 \<Rightarrow> string) \<Rightarrow> (string \<Rightarrow> jnode) \<Rightarrow> block_api \<Rightarrow> string \<times> jnode list" where
  "text_block_api quantity node (C_getBlockByHash net blockHash fullTransactions) =
     (namespace net @ ''getBlockByHash'', [JString (str blockHash), JBool fullTransactions])"
| "text_block_api quantity node (C_getBlockByNumber net blockTag fullTransactions) =
     (namespace net @ ''getBlockByNumber'', [JString (str blockTag), JBool fullTransactions])"
| "text_block_api quantity node (C_getUncleCountByBlockNumber net blockTag) =
     (namespace net @ ''getUncleCountByBlockNumber'', [JString (str blockTag)])"
| "text_block_api quantity node (C_getUncleCountByBlockHash net blockHash) =
     (namespace net @ ''getUncleCountByBlockHash'', [JString (str blockHash)])"
| "text_block_api quantity node (C_getBlockTransactionCountByNumber net blockTag) =
     (namespace net @ ''getBlockTransactionCountByNumber'', [JString (str blockTag)])"
| "text_block_api quantity node (C_getBlockTransactionCountByHash net blockHash) =
     (namespace net @ ''getBlockTransactionCountByHash'', [JString (str blockHash)])"

fun text_transaction_api ::
    "(u64 \<Rightarrow> string) \<Rightarrow> (string \<Rightarrow> jnode) \<Rightarrow> transaction_api \<Rightarrow> string \<times> jnode list" where
  "text_transaction_api quantity node (C_getTransactionByBlockNumberAndIndex net blockTag index) =
     (namespace net @ ''getTransactionByBlockNumberAndIndex'', [JString (str blockTag), JString (quantity index)])"
| "text_transaction_api quantity node (C_getTransactionByBlockHashAndIndex net blockHash index) =
     (namespace net @ ''getTransactionByBlockHashAndIndex'', [JString (str blockHash), JString (quantity index)])"
| "text_transaction_api quantity node (C_getTransactionByHash net txHash) =
     (namespace net @ ''getTransactionByHash'', [JString (str txHash)])"
| "text_transaction_api quantity node (C_getTransactionReceipt net txHash) =
     (namespace net @ ''getTransactionReceipt'', [JString (str txHash)])"

fun text_call_api ::
    "(u64 \<Rightarrow> string) \<Rightarrow> (string \<Rightarrow> jnode) \<Rightarrow> call_api \<Rightarrow> string \<times> jnode list" where
  "text_call_api quantity node (C_call net txArgs blockTag optimisticStateFetch) =
     (namespace net @ ''call'', [node (str txArgs), JString (str blockTag), JBool optimisticStateFetch])"
| "text_call_api quantity node (C_createAccessList net txArgs blockTag optimisticStateFetch) =
     (namespace net @ ''createAccessList'', [node (str txArgs), JString (str blockTag), JBool optimisticStateFetch])"
| "text_call_api quantity node (C_estimateGas net txArgs blockTag optimisticStateFetch) =
     (namespace net @ ''estimateGas'', [node (str txArgs), JString (str blockTag), JBool optimisticStateFetch])"

fun text_log_api ::
    "(u64 \<Rightarrow> string) \<Rightarrow> (string \<Rightarrow> jnode) \<Rightarrow> log_api \<Rightarrow> string \<times> jnode list" where
  "text_log_api quantity node (C_getLogs net filterOptions) =
     (namespace net @ ''getLogs'', [node (str filterOptions)])"
| "text_log_api quantity node (C_newFilter net filterOptions) =
     (namespace net @ ''newFilter'', [node (str filterOptions)])"
| "text_log_api quantity node (C_uninstallFilter net filterId) =
     (namespace net @ ''uninstallFilter'', [JString (str filterId)])"
| "text_log_api quantity node (C_getFilterLogs net filterId) =
     (namespace net @ ''getFilterLogs'', [JString (str filterId)])"
| "text_log_api quantity node (C_getFilterChanges net filterId) =
     (namespace net @ ''getFilterChanges'', [JString (str filterId)])"

fun text_receipt_api ::
    "(u64 \<Rightarrow> string) \<Rightarrow> (string \<Rightarrow> jnode) \<Rightarrow> receipt_api \<Rightarrow> string \<times> jnode list" where
  "text_receipt_api quantity node (C_getBlockReceipts net blockTag) =
     (namespace net @ ''getBlockReceipts'', [JString (str blockTag)])"
| "text_receipt_api quantity node (C_feeHistory net blockCount newestBlock rewardPercentiles) =
     (namespace net @ ''feeHistory'', [JString (quantity blockCount), JString (str newestBlock), node (str rewardPercentiles)])"
| "text_receipt_api quantity node (C_sendRawTransaction net txHexBytes) =
     (namespace net @ ''sendRawTransaction'', [JString (str txHexBytes)])"

primrec text_form ::
    "(u64 \<Rightarrow> string) \<Rightarrow> (string \<Rightarrow> jnode) \<Rightarrow> c_call \<Rightarrow> (string \<times> jnode list) option" where
  "text_form quantity node (Sync_api c) = None"
| "text_form quantity node (Proxy_call name params) = None"
| "text_form quantity node (Basic_api c) = Some (text_basic_api quantity node c)"
| "text_form quantity node (Account_api c) = Some (text_account_api quantity node c)"
| "text_form quantity node (Block_api c) = Some (text_block_api quantity node c)"
| "text_form quantity node (Transaction_api c) = Some (text_transaction_api quantity node c)"
| "text_form quantity node (Call_api c) = Some (text_call_api quantity node c)"
| "text_form quantity node (Log_api c) = Some (text_log_api quantity node c)"
| "text_form quantity node (Receipt_api c) = Some (text_receipt_api quantity node c)"

text \<open>
  What is relied on of the JSON package, for the arguments of the call at hand only: an argument
  that is JSON, read into a node and printed again, decodes to what it decodes to as it is, though
  the texts may differ; and the hex string of a quantity, printed, decodes to the quantity.
\<close>

definition same_quantity :: "('tx, 'flt, 'pct) decoders \<Rightarrow> (u64 \<Rightarrow> string) \<Rightarrow> u64 \<Rightarrow> bool" where
  "same_quantity d quantity n \<longleftrightarrow> quantity_decode d (json_text d (JString (quantity n))) = Inr n"

definition same_node :: "('tx, 'flt, 'pct) decoders \<Rightarrow> (string \<Rightarrow> 'e + 'a) \<Rightarrow> (string \<Rightarrow> jnode) \<Rightarrow> cstr \<Rightarrow> bool" where
  "same_node d decode node s \<longleftrightarrow> decode (json_text d (node (str s))) = decode (str s)"

fun faithful_transaction ::
    "('tx, 'flt, 'pct) decoders \<Rightarrow> (u64 \<Rightarrow> string) \<Rightarrow> transaction_api \<Rightarrow> bool" where
  "faithful_transaction d quantity (C_getTransactionByBlockNumberAndIndex net blockTag index) = same_quantity d quantity index"
| "faithful_transaction d quantity (C_getTransactionByBlockHashAndIndex net blockHash index) = same_quantity d quantity index"
| "faithful_transaction d quantity _ = True"

fun faithful_call :: "('tx, 'flt, 'pct) decoders \<Rightarrow> (string \<Rightarrow> jnode) \<Rightarrow> call_api \<Rightarrow> bool" where
  "faithful_call d node (C_call net txArgs blockTag opt) = same_node d (transactionArgs_decode d) node txArgs"
| "faithful_call d node (C_createAccessList net txArgs blockTag opt) = same_node d (transactionArgs_decode d) node txArgs"
| "faithful_call d node (C_estimateGas net txArgs blockTag opt) = same_node d (transactionArgs_decode d) node txArgs"

fun faithful_log :: "('tx, 'flt, 'pct) decoders \<Rightarrow> (string \<Rightarrow> jnode) \<Rightarrow> log_api \<Rightarrow> bool" where
  "faithful_log d node (C_getLogs net filterOptions) = same_node d (filterOptions_decode d) node filterOptions"
| "faithful_log d node (C_newFilter net filterOptions) = same_node d (filterOptions_decode d) node filterOptions"
| "faithful_log d node _ = True"

fun faithful_receipt ::
    "('tx, 'flt, 'pct) decoders \<Rightarrow> (u64 \<Rightarrow> string) \<Rightarrow> (string \<Rightarrow> jnode) \<Rightarrow> receipt_api \<Rightarrow> bool" where
  "faithful_receipt d quantity node (C_feeHistory net blockCount newestBlock percentiles) =
     (same_quantity d quantity blockCount \<and> same_node d (percentiles_decode d) node percentiles)"
| "faithful_receipt d quantity node _ = True"

primrec faithful ::
    "('tx, 'flt, 'pct) decoders \<Rightarrow> (u64 \<Rightarrow> string) \<Rightarrow> (string \<Rightarrow> jnode) \<Rightarrow> c_call \<Rightarrow> bool" where
  "faithful d quantity node (Sync_api c) = True"
| "faithful d quantity node (Proxy_call name params) = True"
| "faithful d quantity node (Basic_api c) = True"
| "faithful d quantity node (Account_api c) = True"
| "faithful d quantity node (Block_api c) = True"
| "faithful d quantity node (Transaction_api c) = faithful_transaction d quantity c"
| "faithful d quantity node (Call_api c) = faithful_call d node c"
| "faithful d quantity node (Log_api c) = faithful_log d node c"
| "faithful d quantity node (Receipt_api c) = faithful_receipt d quantity node c"

lemma getStr_JString [simp]: "getStr (JString s) = s"
  by (simp add: getStr_def)

lemma getBool_JBool [simp]: "getBool (JBool b) = b"
  by (simp add: getBool_def)

lemma unpacked_quantity [simp]:
  "same_quantity d quantity n \<Longrightarrow> unpacked (getQuantity d (JString (quantity n))) k = k n"
  by (simp add: same_quantity_def getQuantity_def unpack_Quantity_def orMessage_def unpacked_def)

text \<open>A procedure sees nothing of a JSON argument but what it decodes to.\<close>

lemma same_calls:
  assumes "same_node d (transactionArgs_decode d) node s"
  shows "eth_call d (json_text d (node (str s))) = eth_call d (str s)"
    "op_call d (json_text d (node (str s))) = op_call d (str s)"
    "eth_createAccessList d (json_text d (node (str s))) = eth_createAccessList d (str s)"
    "op_createAccessList d (json_text d (node (str s))) = op_createAccessList d (str s)"
    "eth_estimateGas d (json_text d (node (str s))) = eth_estimateGas d (str s)"
    "op_estimateGas d (json_text d (node (str s))) = op_estimateGas d (str s)"
  using assms by (auto simp: fun_eq_iff same_node_def unpack_TransactionArgs_def eth_call_def op_call_def
      eth_createAccessList_def op_createAccessList_def eth_estimateGas_def op_estimateGas_def)

lemma same_filters:
  assumes "same_node d (filterOptions_decode d) node s"
  shows "eth_getLogs d (json_text d (node (str s))) = eth_getLogs d (str s)"
    "op_getLogs d (json_text d (node (str s))) = op_getLogs d (str s)"
    "eth_newFilter d (json_text d (node (str s))) = eth_newFilter d (str s)"
    "op_newFilter d (json_text d (node (str s))) = op_newFilter d (str s)"
  using assms by (simp_all add: same_node_def unpack_FilterOptions_def eth_getLogs_def op_getLogs_def
      eth_newFilter_def op_newFilter_def)

lemma same_percentiles:
  assumes "same_node d (percentiles_decode d) node s"
  shows "eth_feeHistory d n t (json_text d (node (str s))) = eth_feeHistory d n t (str s)"
    "op_feeHistory d n t (json_text d (node (str s))) = op_feeHistory d n t (str s)"
  using assms by (simp_all add: same_node_def unpack_Percentiles_def eth_feeHistory_def op_feeHistory_def)

lemma dispatch_basic_api:
  "(case text_basic_api quantity node c of (name, ps) \<Rightarrow> dispatch d name ps) = invoke_basic_api d c"
  by (induction d c rule: invoke_basic_api.induct) (simp_all add: dispatch_def requireParams_def)

lemma dispatch_account_api:
  "(case text_account_api quantity node c of (name, ps) \<Rightarrow> dispatch d name ps) = invoke_account_api d c"
  by (induction d c rule: invoke_account_api.induct) (simp_all add: dispatch_def requireParams_def)

lemma dispatch_block_api:
  "(case text_block_api quantity node c of (name, ps) \<Rightarrow> dispatch d name ps) = invoke_block_api d c"
  by (induction d c rule: invoke_block_api.induct) (simp_all add: dispatch_def requireParams_def)

lemma dispatch_transaction_api:
  assumes "faithful_transaction d quantity c"
  shows "(case text_transaction_api quantity node c of (name, ps) \<Rightarrow> dispatch d name ps) = invoke_transaction_api d c"
  using assms
  by (induction d c rule: invoke_transaction_api.induct) (simp_all add: dispatch_def requireParams_def)

lemma dispatch_call_api:
  assumes "faithful_call d node c"
  shows "(case text_call_api quantity node c of (name, ps) \<Rightarrow> dispatch d name ps) = invoke_call_api d c"
  using assms
  by (induction d c rule: invoke_call_api.induct) (simp_all add: dispatch_def requireParams_def same_calls)

lemma dispatch_log_api:
  assumes "faithful_log d node c"
  shows "(case text_log_api quantity node c of (name, ps) \<Rightarrow> dispatch d name ps) = invoke_log_api d c"
  using assms
  by (induction d c rule: invoke_log_api.induct) (simp_all add: dispatch_def requireParams_def same_filters)

lemma dispatch_receipt_api:
  assumes "faithful_receipt d quantity node c"
  shows "(case text_receipt_api quantity node c of (name, ps) \<Rightarrow> dispatch d name ps) = invoke_receipt_api d c"
  using assms
  by (induction d c rule: invoke_receipt_api.induct) (simp_all add: dispatch_def requireParams_def same_percentiles)

section \<open>The wasm shim's calls\<close>

text \<open>
  The shim passes its global context on, together with what JavaScript gave it; \<open>finished\<close> is
  the result of a call that ends before it has to wait.
\<close>

definition wasmCall_text ::
    "('tx, 'flt, 'pct) decoders \<Rightarrow> (string \<Rightarrow> string) \<Rightarrow> cstr \<Rightarrow> cstr \<Rightarrow> nat \<Rightarrow> fut_result option \<Rightarrow>
     (('tx, 'flt, 'pct) frontend_call, unit) ctx_proc" where
  "wasmCall_text d enc name params userData finished =
     wasmCall enc userData finished (proxyCall d (str name) (str params))"

definition wasmEthSync ::
    "(string \<Rightarrow> string) \<Rightarrow> nat \<Rightarrow> fut_result option \<Rightarrow> (('tx, 'flt, 'pct) frontend_call, unit) ctx_proc" where
  "wasmEthSync enc userData finished s = perform enc (g_ctx s) userData finished nvp_eth_sync s"

definition wasmEthSyncInterval ::
    "(string \<Rightarrow> string) \<Rightarrow> (u64 \<Rightarrow> string) \<Rightarrow> nat \<Rightarrow> (('tx, 'flt, 'pct) frontend_call, unit) ctx_proc" where
  "wasmEthSyncInterval enc ms userData s = perform enc (g_ctx s) userData None (nvp_eth_syncInterval ms) s"

definition wasmOpSync ::
    "(string \<Rightarrow> string) \<Rightarrow> nat \<Rightarrow> fut_result option \<Rightarrow> (('tx, 'flt, 'pct) frontend_call, unit) ctx_proc" where
  "wasmOpSync enc userData finished s = perform enc (g_ctx s) userData finished nvp_op_sync s"

definition wasmOpSyncInterval ::
    "(string \<Rightarrow> string) \<Rightarrow> (u64 \<Rightarrow> string) \<Rightarrow> nat \<Rightarrow> (('tx, 'flt, 'pct) frontend_call, unit) ctx_proc" where
  "wasmOpSyncInterval enc ms userData s = perform enc (g_ctx s) userData None (nvp_op_syncInterval ms) s"

section \<open>Properties\<close>

text \<open>
  C34: the two ways into the API are one: a method called by name through \<open>proxyCall\<close>, with its
  arguments as JSON, does exactly what the header's prototype of that method does with them, in
  both namespaces and for null strings too, if the JSON arguments of this call decode to the
  same after they are read and printed.
\<close>

theorem proxyCall_is_direct_call:
  assumes "faithful d quantity node c" and "text_form quantity node c = Some (name, ps)"
    and "parseJson d params = Inr (JArray ps)"
  shows "proxyCall d name params = invoke d enc c"
proof -
  have "dispatch d name ps = invoke d enc c"
    using assms(1,2)
      dispatch_basic_api [where d = d and quantity = quantity and node = node]
      dispatch_account_api [where d = d and quantity = quantity and node = node]
      dispatch_block_api [where d = d and quantity = quantity and node = node]
      dispatch_transaction_api [where d = d and quantity = quantity and node = node]
      dispatch_call_api [where d = d and quantity = quantity and node = node]
      dispatch_log_api [where d = d and quantity = quantity and node = node]
      dispatch_receipt_api [where d = d and quantity = quantity and node = node]
    by (cases c) (force split: prod.splits)+
  then show ?thesis
    using assms(3) by (simp add: proxyCall_def getElems_def)
qed

text \<open>A package whose printer drops the blanks, as its decoders do.\<close>

definition text_decoders :: "(string, string, string) decoders" where
  "text_decoders =
     \<lparr>address_fromHex = (\<lambda>s. Inr (of_nat (length s))), uint256_fromHex = (\<lambda>_. Inl ''no''),
      hash32_fromHex = (\<lambda>_. Inl ''no''), transactionArgs_decode = Inr,
      filterOptions_decode = (\<lambda>s. if s = [] then Inl ''no JSON'' else Inr (filter (\<lambda>c. c \<noteq> CHR '' '') s)),
      percentiles_decode = Inr, quantity_decode = (\<lambda>s. Inr (of_nat (length s))), hexToSeqByte = (\<lambda>_. Inr []),
      parseJson = (\<lambda>s. Inr (JArray [JArray [JString (filter (\<lambda>c. c \<noteq> CHR '' '') s)]])),
      json_text = (\<lambda>n. case n of JArray [JString s] \<Rightarrow> s | JString s \<Rightarrow> CHR 0x22 # s @ [CHR 0x22] | _ \<Rightarrow> ''null'')\<rparr>"

theorem proxyCall_is_direct_call_witness:
  "proxyCall text_decoders ''op_getLogs'' ''{ }'' =
     invoke text_decoders (\<lambda>_. []) (Log_api (C_getLogs Op (Some ''{ }''))) \<and>
   json_text text_decoders (JArray [JString ''{}'']) \<noteq> ''{ }''"
proof -
  let ?node = "\<lambda>s. JArray [JString (filter (\<lambda>c. c \<noteq> CHR '' '') s)]"
  have "faithful text_decoders (\<lambda>_. []) ?node (Log_api (C_getLogs Op (Some ''{ }'')))"
    by (simp add: same_node_def text_decoders_def str_def)
  from proxyCall_is_direct_call [OF this, of "''op_getLogs''" "[?node ''{ }'']" "''{ }''" "\<lambda>_. []"]
  show ?thesis by (simp add: str_def text_decoders_def)
qed

text \<open>
  The shim's synchronisation calls, on a live context: \<open>wasmEthSync\<close> starts one synchronisation
  of the light client, and no other call; \<open>wasmOpSync\<close> and \<open>wasmOpSyncInterval\<close> of a context without
  an OP network answer with \<open>RET_ERROR\<close> at once; the intervals are answered at once too, and
  whatever is answered at once leaves the contexts and the calls in flight alone.
\<close>

theorem wasm_sync_calls:
  assumes "g_ctx s = Some i" and "contexts s i = Some c"
  shows "wasmEthSync enc u finished s = callbackToC enc (Some i) u (Sync_once Eth) finished s \<and>
    wasmEthSyncInterval enc ms u s = (Done (), call_back (Some i) RET_SUCCESS (ms (ctx_interval c)) u s) \<and>
    wasmOpSync enc u finished s =
      (if ctx_op c then callbackToC enc (Some i) u (Sync_once Op) finished s
       else (Done (), call_back (Some i) RET_ERROR
               ''op_ namespace unavailable (no OP network configured)'' u s)) \<and>
    wasmOpSyncInterval enc ms u s =
      (Done (), call_back (Some i) (if ctx_op c then RET_SUCCESS else RET_ERROR)
         (if ctx_op c then ms (ctx_interval c)
          else ''op_ namespace unavailable (no OP network configured)'') u s)"
  using assms
  by (simp add: wasmEthSync_def wasmEthSyncInterval_def wasmOpSync_def wasmOpSyncInterval_def
      nvp_eth_sync_def nvp_eth_syncInterval_def nvp_op_sync_def nvp_op_syncInterval_def
      requireOpFrontend_def deref_def)

theorem wasm_sync_calls_witness:
  "let c = \<lparr>ctx_stop = False, pendingCalls = 0, ctx_op = False, ctx_interval = 12000\<rparr>;
       s = (process_start :: (string, string, string) frontend_call process)\<lparr>contexts := [0 \<mapsto> c], next_addr := 1, g_ctx := Some 0\<rparr>
   in wasmOpSync id 5 None s =
     (Done (), s\<lparr>callbacks := [(Some 0, RET_ERROR, ''op_ namespace unavailable (no OP network configured)'', 5)]\<rparr>)"
proof -
  let ?c = "\<lparr>ctx_stop = False, pendingCalls = 0, ctx_op = False, ctx_interval = 12000\<rparr>"
  let ?s = "(process_start :: (string, string, string) frontend_call process)\<lparr>contexts := [0 \<mapsto> ?c], next_addr := 1, g_ctx := Some 0\<rparr>"
  have "g_ctx ?s = Some 0" "contexts ?s 0 = Some ?c" by simp_all
  from wasm_sync_calls [OF this, THEN conjunct2, THEN conjunct2, THEN conjunct1, of id 5 None]
  show ?thesis by (simp add: call_back_def process_start_def Let_def)
qed

end
