(* ===== verification/C_Transport.thy ===== *)
theory C_Transport
  imports C_Api Engine_State
begin

text \<open>
  The transports of the C library: a backend request is handed to a C function together with a
  delivery callback, and waits for the delivery (\<open>library/c_execution_backend.nim\<close>,
  \<open>library/c_beacon_backend.nim\<close>, the transport part of \<open>library/verifproxy.h\<close> and the
  corresponding entry points of the wasm shim).
\<close>

section \<open>Transport contexts\<close>

text \<open>The future a request waits on. It is finished once, by the delivery.\<close>

datatype transport_future = Waiting | Completed string | Failed string | Cancelled_future

record transport_ctx =
  tc_url :: string
  tc_name :: string
  tc_params :: string
  tc_fut :: transport_future

text \<open>
  Transport contexts by address. A request keeps its context alive until its future is finished
  and it has read it; then the context is garbage, and its address is dangling.
\<close>

record transports =
  tctxs :: "nat \<Rightarrow> transport_ctx option"
  next_tctx :: nat

definition no_transports :: transports where
  "no_transports = \<lparr>tctxs = (\<lambda>_. None), next_tctx = 0\<rparr>"

type_synonym ('z, 'e, 'a) transport_proc = "('z transports_scheme, 'e, 'a) proc"

definition with_ctx ::
    "ptr \<Rightarrow> (nat \<Rightarrow> transport_ctx \<Rightarrow> ('z, 'e, 'a) transport_proc) \<Rightarrow> ('z, 'e, 'a) transport_proc" where
  "with_ctx p f s =
     (case p of
        None \<Rightarrow> (Defect, s)
      | Some i \<Rightarrow> (case tctxs s i of None \<Rightarrow> (Defect, s) | Some c \<Rightarrow> f i c s))"

definition set_fut :: "nat \<Rightarrow> transport_ctx \<Rightarrow> transport_future \<Rightarrow> ('z, 'e, unit) transport_proc" where
  "set_fut i c fut = update (\<lambda>s. s\<lparr>tctxs := (tctxs s)(i \<mapsto> c\<lparr>tc_fut := fut\<rparr>)\<rparr>)"

text \<open>
  \<open>complete\<close> and \<open>fail\<close> of a future that is finished already raise a \<open>FutureDefect\<close>; \<open>cancelSoon\<close>
  leaves it alone.
\<close>

definition finish :: "nat \<Rightarrow> transport_ctx \<Rightarrow> transport_future \<Rightarrow> ('z, 'e, unit) transport_proc" where
  "finish i c fut = (if tc_fut c = Waiting then set_fut i c fut else defect)"

definition cancelSoon :: "nat \<Rightarrow> transport_ctx \<Rightarrow> ('z, 'e, unit) transport_proc" where
  "cancelSoon i c = (if tc_fut c = Waiting then set_fut i c Cancelled_future else ret ())"

section \<open>Execution transports\<close>

definition newExecTransportCtx :: "string \<Rightarrow> string \<Rightarrow> string \<Rightarrow> ('z, 'e, nat) transport_proc" where
  "newExecTransportCtx url name params s =
     (let i = next_tctx s;
          c = \<lparr>tc_url = url, tc_name = name, tc_params = params, tc_fut = Waiting\<rparr>
      in (Done i, s\<lparr>tctxs := (tctxs s)(i \<mapsto> c), next_tctx := Suc i\<rparr>))"

definition deliverExecutionTransport :: "int \<Rightarrow> cstr \<Rightarrow> ptr \<Rightarrow> ('z, 'e, unit) transport_proc" where
  "deliverExecutionTransport status res userData =
     with_ctx userData (\<lambda>i tctx.
       let response = str res in
       if status = RET_CANCELLED then cancelSoon i tctx
       else if status = RET_SUCCESS then finish i tctx (Completed response)
       else finish i tctx (Failed response))"

definition execCtxUrl :: "ptr \<Rightarrow> ('z, 'e, string) transport_proc" where
  "execCtxUrl userData = with_ctx userData (\<lambda>i tctx. ret (tc_url tctx))"

definition execCtxName :: "ptr \<Rightarrow> ('z, 'e, string) transport_proc" where
  "execCtxName userData = with_ctx userData (\<lambda>i tctx. ret (tc_name tctx))"

definition execCtxParams :: "ptr \<Rightarrow> ('z, 'e, string) transport_proc" where
  "execCtxParams userData = with_ctx userData (\<lambda>i tctx. ret (tc_params tctx))"

section \<open>Beacon transports\<close>

definition newBeaconTransportCtx :: "string \<Rightarrow> string \<Rightarrow> string \<Rightarrow> ('z, 'e, nat) transport_proc" where
  "newBeaconTransportCtx url endpoint params s =
     (let i = next_tctx s;
          c = \<lparr>tc_url = url, tc_name = endpoint, tc_params = params, tc_fut = Waiting\<rparr>
      in (Done i, s\<lparr>tctxs := (tctxs s)(i \<mapsto> c), next_tctx := Suc i\<rparr>))"

definition deliverBeaconTransport :: "int \<Rightarrow> cstr \<Rightarrow> ptr \<Rightarrow> ('z, 'e, unit) transport_proc" where
  "deliverBeaconTransport status res userData =
     with_ctx userData (\<lambda>i tctx.
       let response = str res in
       if status = RET_CANCELLED then cancelSoon i tctx
       else if status = RET_SUCCESS then finish i tctx (Completed response)
       else finish i tctx (Failed response))"

definition beaconCtxUrl :: "ptr \<Rightarrow> ('z, 'e, string) transport_proc" where
  "beaconCtxUrl userData = with_ctx userData (\<lambda>i tctx. ret (tc_url tctx))"

definition beaconCtxEndpoint :: "ptr \<Rightarrow> ('z, 'e, string) transport_proc" where
  "beaconCtxEndpoint userData = with_ctx userData (\<lambda>i tctx. ret (tc_name tctx))"

definition beaconCtxParams :: "ptr \<Rightarrow> ('z, 'e, string) transport_proc" where
  "beaconCtxParams userData = with_ctx userData (\<lambda>i tctx. ret (tc_params tctx))"

section \<open>The requests of the execution backend\<close>

text \<open>The package's JSON encoder at the types the requests use (\<open>packArg\<close>).\<close>

record ('tx, 'flt, 'pct) packers =
  pack_hash :: "hash32 \<Rightarrow> string + string"
  pack_tag :: "block_tag \<Rightarrow> string + string"
  pack_address :: "address \<Rightarrow> string + string"
  pack_slots :: "hash32 list \<Rightarrow> string + string"
  pack_tx :: "'tx \<Rightarrow> string + string"
  pack_filter :: "'flt \<Rightarrow> string + string"
  pack_quantity :: "u64 \<Rightarrow> string + string"
  pack_percentiles :: "'pct \<Rightarrow> string + string"
  pack_bytes :: "byte list \<Rightarrow> string + string"

datatype ('tx, 'flt, 'pct) exec_call =
    Ex_chainId
  | Ex_getBlockByHash hash32 bool
  | Ex_getBlockByNumber block_tag bool
  | Ex_getProof address "hash32 list" block_tag
  | Ex_createAccessList 'tx block_tag
  | Ex_getCode address block_tag
  | Ex_getTransactionByHash hash32
  | Ex_getTransactionReceipt hash32
  | Ex_getBlockReceipts block_tag
  | Ex_getLogs 'flt
  | Ex_feeHistory u64 block_tag 'pct
  | Ex_sendRawTransaction "byte list"

definition packed :: "string + string \<Rightarrow> (string \<Rightarrow> error_tuple + 'a) \<Rightarrow> error_tuple + 'a" where
  "packed r k =
     (case r of
        Inl msg \<Rightarrow> Inl (engine_err BackendEncodingError (''Parameter coudln't be encoded: '' @ msg))
      | Inr ser \<Rightarrow> k ser)"

definition bool_text :: "bool \<Rightarrow> string" where
  "bool_text b = (if b then ''true'' else ''false'')"

fun exec_request ::
    "('tx, 'flt, 'pct) packers \<Rightarrow> ('tx, 'flt, 'pct) exec_call \<Rightarrow> error_tuple + string \<times> string" where
  "exec_request pk Ex_chainId = Inr (''eth_chainId'', ''[]'')"
| "exec_request pk (Ex_getBlockByHash blkHash fullTransactions) =
     packed (pack_hash pk blkHash) (\<lambda>blkHashSer.
       Inr (''eth_getBlockByHash'', ''['' @ blkHashSer @ '', '' @ bool_text fullTransactions @ '']''))"
| "exec_request pk (Ex_getBlockByNumber blkNum fullTransactions) =
     packed (pack_tag pk blkNum) (\<lambda>blkNumSer.
       Inr (''eth_getBlockByNumber'', ''['' @ blkNumSer @ '', '' @ bool_text fullTransactions @ '']''))"
| "exec_request pk (Ex_getProof addr slots blockId) =
     packed (pack_address pk addr) (\<lambda>addressSer.
     packed (pack_slots pk slots) (\<lambda>slotsSer.
     packed (pack_tag pk blockId) (\<lambda>blockIdSer.
       Inr (''eth_getProof'', ''['' @ addressSer @ '', '' @ slotsSer @ '', '' @ blockIdSer @ '']''))))"
| "exec_request pk (Ex_createAccessList txArgs blockId) =
     packed (pack_tx pk txArgs) (\<lambda>txArgsSer.
     packed (pack_tag pk blockId) (\<lambda>blockIdSer.
       Inr (''eth_createAccessList'', ''['' @ txArgsSer @ '', '' @ blockIdSer @ '']'')))"
| "exec_request pk (Ex_getCode addr blockId) =
     packed (pack_address pk addr) (\<lambda>addressSer.
     packed (pack_tag pk blockId) (\<lambda>blockIdSer.
       Inr (''eth_getCode'', ''['' @ addressSer @ '', '' @ blockIdSer @ '']'')))"
| "exec_request pk (Ex_getTransactionByHash txHash) =
     packed (pack_hash pk txHash) (\<lambda>txHashSer. Inr (''eth_getTransactionByHash'', ''['' @ txHashSer @ '']''))"
| "exec_request pk (Ex_getTransactionReceipt txHash) =
     packed (pack_hash pk txHash) (\<lambda>txHashSer. Inr (''eth_getTransactionReceipt'', ''['' @ txHashSer @ '']''))"
| "exec_request pk (Ex_getBlockReceipts blockId) =
     packed (pack_tag pk blockId) (\<lambda>blockIdSer. Inr (''eth_getBlockReceipts'', ''['' @ blockIdSer @ '']''))"
| "exec_request pk (Ex_getLogs filterOptions) =
     packed (pack_filter pk filterOptions) (\<lambda>filterOptionsSer.
       Inr (''eth_getLogs'', ''['' @ filterOptionsSer @ '']''))"
| "exec_request pk (Ex_feeHistory blockCount newestBlock rewardPercentiles) =
     packed (pack_quantity pk blockCount) (\<lambda>blockCountSer.
     packed (pack_tag pk newestBlock) (\<lambda>newestBlockSer.
     packed (pack_percentiles pk rewardPercentiles) (\<lambda>rewardPercentilesSer.
       Inr (''eth_feeHistory'',
            ''['' @ blockCountSer @ '', '' @ newestBlockSer @ '', '' @ rewardPercentilesSer @ '']''))))"
| "exec_request pk (Ex_sendRawTransaction txBytes) =
     packed (pack_bytes pk txBytes) (\<lambda>txBytesSer. Inr (''eth_sendRawTransaction'', ''['' @ txBytesSer @ '']''))"

text \<open>
  A request: the arguments are encoded, the context is created and the C function called with
  it; what the C function does is \<open>transport\<close>, which may deliver before it returns.
\<close>

definition exec_start ::
    "('tx, 'flt, 'pct) packers \<Rightarrow> string \<Rightarrow> (ptr \<Rightarrow> ('z, error_tuple, unit) transport_proc) \<Rightarrow>
     ('tx, 'flt, 'pct) exec_call \<Rightarrow> ('z, error_tuple, nat) transport_proc" where
  "exec_start pk url transport call =
     (case exec_request pk call of
        Inl err \<Rightarrow> fail err
      | Inr (name, params) \<Rightarrow>
          andThen (newExecTransportCtx url name params) (\<lambda>i.
          andThen (transport (Some i)) (\<lambda>_. ret i)))"

text \<open>
  What the request returns when its future has the given state, nothing while it waits; the
  inner option is a \<open>CancelledError\<close>. \<open>unpack\<close> is \<open>unpackResult\<close> at the type of the result.
\<close>

definition exec_reply ::
    "(string \<Rightarrow> string + 'a) \<Rightarrow> transport_future \<Rightarrow> (error_tuple + 'a) option option" where
  "exec_reply unpack fut =
     (case fut of
        Waiting \<Rightarrow> None
      | Cancelled_future \<Rightarrow> Some None
      | Failed msg \<Rightarrow> Some (Some (Inl (engine_err BackendError msg)))
      | Completed raw \<Rightarrow>
          (case unpack raw of
             Inl e \<Rightarrow> Some (Some (Inl (engine_err BackendDecodingError e)))
           | Inr x \<Rightarrow> Some (Some (Inr x))))"

lemma exec_reply_value:
  "exec_reply unpack fut = Some (Some (Inr x)) \<longleftrightarrow> (\<exists>raw. fut = Completed raw \<and> unpack raw = Inr x)"
  by (simp add: exec_reply_def split: transport_future.splits sum.splits)

section \<open>The requests of the beacon backend\<close>

datatype beacon_call =
    Bc_bootstrap hash32
  | Bc_updates u64 u64
  | Bc_optimistic
  | Bc_finality

text \<open>\<open>root_text\<close> is the package's text of a block root.\<close>

fun beacon_request :: "(hash32 \<Rightarrow> string) \<Rightarrow> beacon_call \<Rightarrow> string \<times> string" where
  "beacon_request root_text (Bc_bootstrap blockRoot) =
     (''getLightClientBootstrap'', ''{\"block_root\": \"'' @ root_text blockRoot @ ''\"}'')"
| "beacon_request root_text (Bc_updates startPeriod n) =
     (''getLightClientUpdatesByRange'',
      ''{\"start_period\": '' @ decimal (unat startPeriod) @ '', \"count\": '' @ decimal (unat n) @ ''}'')"
| "beacon_request root_text Bc_optimistic = (''getLightClientOptimisticUpdate'', ''{}'')"
| "beacon_request root_text Bc_finality = (''getLightClientFinalityUpdate'', ''{}'')"

definition beacon_start ::
    "(hash32 \<Rightarrow> string) \<Rightarrow> string \<Rightarrow> (ptr \<Rightarrow> ('z, error_tuple, unit) transport_proc) \<Rightarrow>
     beacon_call \<Rightarrow> ('z, error_tuple, nat) transport_proc" where
  "beacon_start root_text url transport call =
     (case beacon_request root_text call of
        (endpoint, params) \<Rightarrow>
          andThen (newBeaconTransportCtx url endpoint params) (\<lambda>i.
          andThen (transport (Some i)) (\<lambda>_. ret i)))"

definition beacon_reply ::
    "(string \<Rightarrow> string + 'a) \<Rightarrow> transport_future \<Rightarrow> (error_tuple + 'a) option option" where
  "beacon_reply decode fut =
     (case fut of
        Waiting \<Rightarrow> None
      | Cancelled_future \<Rightarrow> Some None
      | Failed msg \<Rightarrow> Some (Some (Inl (engine_err BackendFetchError msg)))
      | Completed raw \<Rightarrow>
          (case decode raw of
             Inl e \<Rightarrow> Some (Some (Inl (engine_err BackendDecodingError e)))
           | Inr x \<Rightarrow> Some (Some (Inr x))))"

section \<open>The wasm shim's transport calls\<close>

definition wasmDeliverExecutionTransport :: "int \<Rightarrow> cstr \<Rightarrow> ptr \<Rightarrow> ('z, 'e, unit) transport_proc" where
  "wasmDeliverExecutionTransport status result userData = deliverExecutionTransport status result userData"

definition wasmDeliverBeaconTransport :: "int \<Rightarrow> cstr \<Rightarrow> ptr \<Rightarrow> ('z, 'e, unit) transport_proc" where
  "wasmDeliverBeaconTransport status result userData = deliverBeaconTransport status result userData"

definition wasmExecCtxUrl :: "ptr \<Rightarrow> ('z, 'e, string) transport_proc" where
  "wasmExecCtxUrl u = execCtxUrl u"

definition wasmExecCtxName :: "ptr \<Rightarrow> ('z, 'e, string) transport_proc" where
  "wasmExecCtxName u = execCtxName u"

definition wasmExecCtxParams :: "ptr \<Rightarrow> ('z, 'e, string) transport_proc" where
  "wasmExecCtxParams u = execCtxParams u"

definition wasmBeaconCtxUrl :: "ptr \<Rightarrow> ('z, 'e, string) transport_proc" where
  "wasmBeaconCtxUrl u = beaconCtxUrl u"

definition wasmBeaconCtxEndpoint :: "ptr \<Rightarrow> ('z, 'e, string) transport_proc" where
  "wasmBeaconCtxEndpoint u = beaconCtxEndpoint u"

definition wasmBeaconCtxParams :: "ptr \<Rightarrow> ('z, 'e, string) transport_proc" where
  "wasmBeaconCtxParams u = beaconCtxParams u"

section \<open>Delivery\<close>

definition delivered :: "int \<Rightarrow> cstr \<Rightarrow> transport_future" where
  "delivered status res =
     (if status = RET_CANCELLED then Cancelled_future
      else if status = RET_SUCCESS then Completed (str res) else Failed (str res))"

lemma delivered_not_Waiting [simp]: "delivered status res \<noteq> Waiting"
  by (simp add: delivered_def)

fun deliver_all ::
    "(int \<Rightarrow> cstr \<Rightarrow> ptr \<Rightarrow> ('z, 'e, unit) transport_proc) \<Rightarrow> (nat \<times> int \<times> cstr) list \<Rightarrow>
     ('z, 'e, unit) transport_proc" where
  "deliver_all deliver [] = ret ()"
| "deliver_all deliver ((i, status, res) # ds) =
     andThen (deliver status res (Some i)) (\<lambda>_. deliver_all deliver ds)"

text \<open>
  The contract the two delivery callbacks share: the first delivery finishes the request, a
  later one must be a cancellation, and a request that is gone cannot be delivered to.
\<close>

locale delivery =
  fixes deliver :: "int \<Rightarrow> cstr \<Rightarrow> ptr \<Rightarrow> ('z, 'e, unit) transport_proc"
  assumes first: "tctxs s i = Some c \<Longrightarrow> tc_fut c = Waiting \<Longrightarrow>
      deliver status res (Some i) s =
        (Done (), s\<lparr>tctxs := (tctxs s)(i \<mapsto> c\<lparr>tc_fut := delivered status res\<rparr>)\<rparr>)"
    and later: "tctxs s i = Some c \<Longrightarrow> tc_fut c \<noteq> Waiting \<Longrightarrow>
      deliver status res (Some i) s = (if status = RET_CANCELLED then Done () else Defect, s)"
    and gone: "tctxs s i = None \<Longrightarrow> deliver status res (Some i) s = (Defect, s)"
begin

lemma deliver_all_once:
  assumes "distinct (map fst ds)"
    and "\<forall>(i, status, res) \<in> set ds. \<exists>c. tctxs s i = Some c \<and> tc_fut c = Waiting"
  shows "\<exists>s'. deliver_all deliver ds s = (Done (), s') \<and>
    (\<forall>i. tctxs s' i =
      (case map_of ds i of
         None \<Rightarrow> tctxs s i
       | Some (status, res) \<Rightarrow> map_option (\<lambda>c. c\<lparr>tc_fut := delivered status res\<rparr>) (tctxs s i)))"
  using assms
proof (induction ds arbitrary: s)
  case Nil
  then show ?case by (simp add: ret_def)
next
  case (Cons d ds)
  obtain i status res where d: "d = (i, status, res)" by (cases d)
  then obtain c where c: "tctxs s i = Some c" "tc_fut c = Waiting" using Cons.prems(2) by auto
  let ?s1 = "s\<lparr>tctxs := (tctxs s)(i \<mapsto> c\<lparr>tc_fut := delivered status res\<rparr>)\<rparr>"
  have notin: "i \<notin> fst ` set ds" using Cons.prems(1) d by simp
  have "\<forall>(j, st, r) \<in> set ds. \<exists>c. tctxs ?s1 j = Some c \<and> tc_fut c = Waiting"
    using Cons.prems(2) notin by (force simp: d)
  moreover have "distinct (map fst ds)" using Cons.prems(1) by simp
  ultimately obtain s' where s': "deliver_all deliver ds ?s1 = (Done (), s')"
    "\<forall>j. tctxs s' j = (case map_of ds j of None \<Rightarrow> tctxs ?s1 j
       | Some (status, res) \<Rightarrow> map_option (\<lambda>c. c\<lparr>tc_fut := delivered status res\<rparr>) (tctxs ?s1 j))"
    using Cons.IH by blast
  have "map_of ds i = None" using notin by (simp add: map_of_eq_None_iff)
  with s' c show ?case
    by (auto simp: d andThen_def first [OF c] split: option.splits)
qed

lemma deliver_twice:
  assumes "tctxs s i = Some c" and "tc_fut c = Waiting"
  shows "fst (deliver_all deliver [(i, st1, r1), (i, st2, r2)] s) =
    (if st2 = RET_CANCELLED then Done () else Defect)"
  using first [OF assms] later by (simp add: andThen_def ret_def)

end

lemmas deliver_defs =
  with_ctx_def finish_def cancelSoon_def set_fut_def delivered_def update_def ret_def defect_def Let_def

interpretation exec_delivery: delivery deliverExecutionTransport
  by unfold_locales (simp_all add: deliverExecutionTransport_def deliver_defs ret_codes)

interpretation beacon_delivery: delivery deliverBeaconTransport
  by unfold_locales (simp_all add: deliverBeaconTransport_def deliver_defs ret_codes)

section \<open>Properties\<close>

text \<open>
  C37: a transport that delivers each request once, in whatever order and with whatever status,
  never crashes the library, and every request's future ends as its own delivery says and no
  other: completed with the body, failed with it, or cancelled.
\<close>

theorem deliveries_reach_their_requests:
  assumes "distinct (map fst ds)"
    and "\<forall>(i, status, res) \<in> set ds. \<exists>c. tctxs s i = Some c \<and> tc_fut c = Waiting"
  shows "\<exists>s'. deliver_all deliverExecutionTransport ds s = (Done (), s') \<and>
    (\<forall>i. tctxs s' i =
      (case map_of ds i of
         None \<Rightarrow> tctxs s i
       | Some (status, res) \<Rightarrow> map_option (\<lambda>c. c\<lparr>tc_fut :=
           (if status = RET_CANCELLED then Cancelled_future
            else if status = RET_SUCCESS then Completed (str res) else Failed (str res))\<rparr>) (tctxs s i)))"
  using exec_delivery.deliver_all_once [OF assms] unfolding delivered_def .

theorem deliveries_reach_their_requests_witness:
  "let w = \<lparr>tc_url = ''u'', tc_name = ''eth_chainId'', tc_params = ''[]'', tc_fut = Waiting\<rparr>
   in \<exists>s' :: transports. deliver_all deliverExecutionTransport [(1, RET_SUCCESS, Some ''{}''), (0, RET_ERROR, None)]
        \<lparr>tctxs = [0 \<mapsto> w, 1 \<mapsto> w], next_tctx = 2\<rparr> = (Done () :: (error_tuple, unit) outcome, s') \<and>
      tctxs s' 0 = Some (w\<lparr>tc_fut := Failed []\<rparr>) \<and> tctxs s' 1 = Some (w\<lparr>tc_fut := Completed ''{}''\<rparr>)"
proof -
  let ?w = "\<lparr>tc_url = ''u'', tc_name = ''eth_chainId'', tc_params = ''[]'', tc_fut = Waiting\<rparr>"
  let ?ds = "[(1, RET_SUCCESS, Some ''{}''), (0, RET_ERROR, None)] :: (nat \<times> int \<times> cstr) list"
  let ?s = "\<lparr>tctxs = [0 \<mapsto> ?w, 1 \<mapsto> ?w], next_tctx = 2\<rparr> :: transports"
  have "distinct (map fst ?ds)"
    "\<forall>(i, status, res) \<in> set ?ds. \<exists>c. tctxs ?s i = Some c \<and> tc_fut c = Waiting" by auto
  from deliveries_reach_their_requests [OF this] obtain s' where
    "deliver_all deliverExecutionTransport ?ds ?s = (Done () :: (error_tuple, unit) outcome, s')"
    "\<forall>i. tctxs s' i =
      (case map_of ?ds i of
         None \<Rightarrow> tctxs ?s i
       | Some (status, res) \<Rightarrow> map_option (\<lambda>c. c\<lparr>tc_fut :=
           (if status = RET_CANCELLED then Cancelled_future
            else if status = RET_SUCCESS then Completed (str res) else Failed (str res))\<rparr>) (tctxs ?s i))"
    by blast
  then show ?thesis by (intro exI [of _ s'] | simp add: Let_def ret_codes str_def del: deliver_all.simps)+
qed

text \<open>
  The callbacks must be called exactly once, as the header says: a second delivery to the
  same request crashes the process unless it is a cancellation, which is ignored, and so does a
  delivery through a null pointer.
\<close>

theorem second_delivery_crashes:
  assumes "tctxs s i = Some c" and "tc_fut c = Waiting"
  shows "fst (deliver_all deliverExecutionTransport [(i, st1, r1), (i, st2, r2)] s) =
      (if st2 = RET_CANCELLED then Done () else Defect) \<and>
    fst (deliver_all deliverBeaconTransport [(i, st1, r1), (i, st2, r2)] s) =
      (if st2 = RET_CANCELLED then Done () else Defect) \<and>
    fst (deliverExecutionTransport st1 r1 None s) = Defect \<and> fst (deliverBeaconTransport st1 r1 None s) = Defect"
  by (intro conjI exec_delivery.deliver_twice [OF assms] beacon_delivery.deliver_twice [OF assms])
    (simp_all add: deliverExecutionTransport_def deliverBeaconTransport_def with_ctx_def)

theorem second_delivery_crashes_witness:
  "fst (deliver_all deliverExecutionTransport [(0, RET_SUCCESS, None), (0, RET_SUCCESS, None)]
     (\<lparr>tctxs = [0 \<mapsto> \<lparr>tc_url = [], tc_name = [], tc_params = [], tc_fut = Waiting\<rparr>], next_tctx = 1\<rparr> :: transports)) =
     (Defect :: (error_tuple, unit) outcome)"
proof -
  let ?c = "\<lparr>tc_url = [], tc_name = [], tc_params = [], tc_fut = Waiting\<rparr>"
  let ?s = "\<lparr>tctxs = [0 \<mapsto> ?c], next_tctx = 1\<rparr> :: transports"
  have "tctxs ?s 0 = Some ?c" and "tc_fut ?c = Waiting" by simp_all
  from second_delivery_crashes [OF this, THEN conjunct1, of RET_SUCCESS None RET_SUCCESS None]
  show ?thesis by (simp add: ret_codes del: deliver_all.simps)
qed

text \<open>
  An execution backend returns a value exactly if its transport delivered, with success, a
  JSON-RPC envelope that has no error field and a result that decodes to the value.
\<close>

theorem exec_reply_value_iff:
  "exec_reply (unpackResult parse text resType decode) fut = Some (Some (Inr x)) \<longleftrightarrow>
     (\<exists>raw node v r. fut = Completed raw \<and> parse raw = Inr node \<and> field node ''jsonrpc'' = Some v \<and>
        field node ''error'' = None \<and> field node ''result'' = Some r \<and> decode (text r) = Inr x)"
  unfolding exec_reply_value unpackResult_ok_iff by blast

text \<open>
  A failed transport costs a beacon backend availability, but an execution backend nothing:
  its failure is reported as a generic backend error, for which no score is changed, so that an
  endpoint that cannot be reached stays eligible.
\<close>

theorem transport_failure_penalty:
  assumes "pool_ok e" and "scores e idx = Some s"
    and "exec_reply unpack (Failed msg) = Some (Some (Inl err))"
    and "beacon_reply decode (Failed msg) = Some (Some (Inl err'))"
  shows "applyPenalty (tag_error idx err) e = e \<and>
    scores (applyPenalty (tag_error idx err') e) idx =
      Some (s\<lparr>availability := defaultAvailabilityScoreFunc (availability s) Penalty,
              quality := defaultQualityScoreFunc (quality s) UndoReward\<rparr>)"
proof -
  have err: "err = engine_err BackendError msg" "err' = engine_err BackendFetchError msg"
    using assms(3,4) by (simp_all add: exec_reply_def beacon_reply_def)
  have "e\<lparr>scores := (scores e)(idx \<mapsto> s)\<rparr> = e"
    using assms(2) by (simp add: fun_upd_idem)
  then show ?thesis
    using assms(2) pool_okD(4,5) [OF assms(1)]
    by (simp add: err applyPenalty_def penalised_def tag_error_def engine_err_def UNTAGGED_def)
qed

theorem transport_failure_penalty_witness:
  "let e = demo_engine silent_api
   in applyPenalty (tag_error 0 (engine_err BackendError ''no route'')) e = e \<and>
      scores (applyPenalty (tag_error 0 (engine_err BackendFetchError ''no route'')) e) 0 =
        Some \<lparr>availability = -5, quality = -10\<rparr>"
proof -
  let ?e = "demo_engine silent_api"
  have "scores ?e 0 = Some \<lparr>availability = 0, quality = 0\<rparr>" by (simp add: demo_engine_def)
  note penalty = transport_failure_penalty [OF pool_ok_demo this]
  have "exec_reply Inr (Failed ''no route'') = Some (Some (Inl (engine_err BackendError ''no route'')))"
    "beacon_reply Inr (Failed ''no route'') = Some (Some (Inl (engine_err BackendFetchError ''no route'')))"
    by (simp_all add: exec_reply_def beacon_reply_def)
  from penalty [OF this] show ?thesis
    by (simp add: defaultAvailabilityScoreFunc_def defaultQualityScoreFunc_def Let_def)
qed

end
