(* ===== verification/Example_Client.thy ===== *)
theory Example_Client
  imports C_Transport
begin

text \<open>
  The C example client (\<open>library/examples/example_client.c\<close>): its two transports, which refuse
  every request, the callback that copies a result, and the main loop, run against the models
  of the library's calls. The client's memory is modelled as far as it owns any: the copies
  made by \<open>strdup\<close>, and the strings the library hands over, each to be freed once.
\<close>

section \<open>The transports\<close>

datatype output_line = Stdout string | Stderr string

record terminal = transports +
  printed :: "output_line list"

definition print_line :: "output_line \<Rightarrow> ('z terminal_scheme, 'e, unit) proc" where
  "print_line line = update (\<lambda>s. s\<lparr>printed := printed s @ [line]\<rparr>)"

definition execution_transport :: "ptr \<Rightarrow> ('z terminal_scheme, 'e, unit) proc" where
  "execution_transport userData =
     andThen (execCtxName userData) (\<lambda>name.
     andThen (execCtxParams userData) (\<lambda>params.
     andThen (execCtxUrl userData) (\<lambda>url.
     andThen (print_line (Stdout (''[exec] url: '' @ url @ '', name: '' @ name @ '', params: '' @ params))) (\<lambda>_.
       deliverExecutionTransport RET_ERROR (Some ''not implemented'') userData))))"

definition beacon_transport :: "ptr \<Rightarrow> ('z terminal_scheme, 'e, unit) proc" where
  "beacon_transport userData =
     andThen (beaconCtxParams userData) (\<lambda>params.
     andThen (beaconCtxEndpoint userData) (\<lambda>endpoint.
     andThen (beaconCtxUrl userData) (\<lambda>url.
     andThen (print_line (Stdout (''[beacon] url: '' @ url @ '', endpoint: '' @ endpoint @ '', params: '' @ params))) (\<lambda>_.
       deliverBeaconTransport RET_ERROR (Some ''not implemented'') userData))))"

section \<open>Results\<close>

record result_slot =
  fired :: bool
  status_of :: int
  body :: ptr

definition no_result :: result_slot where
  "no_result = \<lparr>fired = False, status_of = 0, body = None\<rparr>"

text \<open>
  The client: the library it is linked with, its \<open>Result r\<close>, the start of the current period,
  the live \<open>strdup\<close> copies by address, and how often each library string was freed; the string
  of the \<open>k\<close>-th callback has the address \<open>k\<close>.
\<close>

record 'c client = terminal +
  lib :: "'c process"
  slot :: result_slot
  period_start :: int
  copies :: "nat \<Rightarrow> string option"
  next_copy :: nat
  freed :: "nat set"

type_synonym ('c, 'a) client_proc = "('c client, string, 'a) proc"

text \<open>\<open>freeNimAllocatedString\<close>: a second free of a string is memory corruption.\<close>

definition freeNimAllocatedString :: "nat \<Rightarrow> ('c, unit) client_proc" where
  "freeNimAllocatedString k s =
     (if k \<in> freed s then (Defect, s) else (Done (), s\<lparr>freed := insert k (freed s)\<rparr>))"

text \<open>\<open>strdup\<close> fails when memory is short: \<open>strdup_ok k\<close> for the copy of the \<open>k\<close>-th result.\<close>

definition strdup :: "bool \<Rightarrow> string \<Rightarrow> ('c, ptr) client_proc" where
  "strdup ok text_of s =
     (if ok then (Done (Some (next_copy s)),
                  s\<lparr>copies := (copies s)(next_copy s \<mapsto> text_of), next_copy := Suc (next_copy s)\<rparr>)
      else (Done None, s))"

definition on_result :: "(nat \<Rightarrow> bool) \<Rightarrow> nat \<Rightarrow> int \<Rightarrow> string \<Rightarrow> ('c, unit) client_proc" where
  "on_result strdup_ok k status result =
     andThen (update (\<lambda>s. s\<lparr>slot := (slot s)\<lparr>fired := True, status_of := status\<rparr>\<rparr>)) (\<lambda>_.
     andThen (strdup (strdup_ok k) result) (\<lambda>p.
     andThen (update (\<lambda>s. s\<lparr>slot := (slot s)\<lparr>body := p\<rparr>\<rparr>)) (\<lambda>_.
       freeNimAllocatedString k)))"

text \<open>
  A call into the library. The callbacks it makes run inside it; they touch nothing but the
  client's own data, so that they are run here in their order when the call is over.
\<close>

fun on_results :: "(nat \<Rightarrow> bool) \<Rightarrow> nat \<Rightarrow> (ptr \<times> int \<times> string \<times> nat) list \<Rightarrow> ('c, unit) client_proc" where
  "on_results strdup_ok k [] = ret ()"
| "on_results strdup_ok k ((p, status, response, u) # cs) =
     andThen (on_result strdup_ok k status response) (\<lambda>_. on_results strdup_ok (Suc k) cs)"

definition library_call :: "(nat \<Rightarrow> bool) \<Rightarrow> ('c, 'a) ctx_proc \<Rightarrow> ('c, 'a) client_proc" where
  "library_call strdup_ok m s =
     (let k = length (callbacks (lib s)); (r, l) = m (lib s)
      in andThen (on_results strdup_ok k (drop k (callbacks l))) (\<lambda>_ s'. (r, s')) (s\<lparr>lib := l\<rparr>))"

section \<open>The program\<close>

definition client_config :: string where
  "client_config = ''{  \"eth2Network\": \"mainnet\",  '' @
     ''\"trustedBlockRoot\": \"0x0000000000000000000000000000000000000000000000000000000000000000\",  '' @
     ''\"executionApiUrls\": \"http://127.0.0.1:8545\",  '' @
     ''\"beaconApiUrls\": \"http://127.0.0.1:5052\",  \"logLevel\": \"FATAL\"}''"

text \<open>
  What one turn of the loop meets: the two readings of the clock, the result of the request if
  it ends at once, and what the event loop completes.
\<close>

record turn =
  time_now :: int
  time_reset :: int
  ends_at_once :: "fut_result option"
  completes :: "(nat \<times> fut_result) list"

definition report :: "('c, unit) client_proc" where
  "report s =
     (if fired (slot s) then
        (let line = (\<lambda>b. ''eth_blockNumber: status='' @ decimal_int (status_of (slot s)) @ '' body='' @ b)
         in case body (slot s) of
              None \<Rightarrow> (Done (), s\<lparr>printed := printed s @ [Stdout (line ''(null)'')], slot := no_result\<rparr>)
            | Some p \<Rightarrow>
                (case copies s p of
                   None \<Rightarrow> (Defect, s)
                 | Some b \<Rightarrow> (Done (), s\<lparr>printed := printed s @ [Stdout (line b)],
                                         copies := (copies s)(p := None), slot := no_result\<rparr>)))
      else (Done (), s\<lparr>printed := printed s @ [Stderr ''callback did not fire'']\<rparr>))"

definition loop_turn ::
    "(string \<Rightarrow> string) \<Rightarrow> (nat \<Rightarrow> bool) \<Rightarrow> ptr \<Rightarrow> turn \<Rightarrow> (('tx, 'flt, 'pct) frontend_call, bool) client_proc" where
  "loop_turn enc strdup_ok ctx t =
     andThen
       (\<lambda>s. if time_now t - period_start s > 12 then
              andThen (update (\<lambda>s. s\<lparr>period_start := time_reset t\<rparr>)) (\<lambda>_.
              andThen report (\<lambda>_.
                library_call strdup_ok (perform enc ctx 0 (ends_at_once t) eth_blockNumber))) s
            else (Done (), s))
       (\<lambda>_. andThen (library_call strdup_ok (processVerifProxyTasks enc ctx (completes t)))
              (\<lambda>rc. ret (rc = RET_CANCELLED)))"

text \<open>The loop, as far as the given turns go; with none left the program has not returned.\<close>

fun client_loop ::
    "(string \<Rightarrow> string) \<Rightarrow> (nat \<Rightarrow> bool) \<Rightarrow> ptr \<Rightarrow> turn list \<Rightarrow> (('tx, 'flt, 'pct) frontend_call, unit) client_proc" where
  "client_loop enc strdup_ok ctx [] = (\<lambda>s. (Stuck, s))"
| "client_loop enc strdup_ok ctx (t # ts) =
     andThen (loop_turn enc strdup_ok ctx t)
       (\<lambda>stop. if stop then ret () else client_loop enc strdup_ok ctx ts)"

definition client_main ::
    "(string \<Rightarrow> string) \<Rightarrow> (nat \<Rightarrow> bool) \<Rightarrow> (string \<Rightarrow> proxy_context) \<Rightarrow> bool \<Rightarrow> int \<Rightarrow> turn list \<Rightarrow>
     (('tx, 'flt, 'pct) frontend_call, int) client_proc" where
  "client_main enc strdup_ok load run_ok start_time turns =
     andThen (library_call strdup_ok (startVerifProxy enc (load client_config) run_ok [])) (\<lambda>ctx.
       if ctx = None then
         andThen (print_line (Stderr ''startVerifProxy failed'')) (\<lambda>_. ret 1)
       else
         andThen (update (\<lambda>s. s\<lparr>slot := no_result, period_start := start_time\<rparr>)) (\<lambda>_.
         andThen (client_loop enc strdup_ok ctx turns) (\<lambda>_.
         andThen (library_call strdup_ok (stopVerifProxy ctx)) (\<lambda>_.
         andThen (library_call strdup_ok (freeContext ctx)) (\<lambda>_. ret 0)))))"

definition client_start :: "'c client" where
  "client_start =
     \<lparr>tctxs = (\<lambda>_. None), next_tctx = 0, printed = [], lib = process_start, slot = no_result,
      period_start = 0, copies = (\<lambda>_. None), next_copy = 0, freed = {}\<rparr>"

section \<open>What the library leaves alone\<close>

definition stop_flags :: "'c process \<Rightarrow> nat \<Rightarrow> bool option" where
  "stop_flags l i = map_option ctx_stop (contexts l i)"

text \<open>\<open>grown l l'\<close>: callbacks were added at most, and no context was stopped, freed or made.\<close>

definition grown :: "'c process \<Rightarrow> 'c process \<Rightarrow> bool" where
  "grown l l' \<longleftrightarrow> stop_flags l' = stop_flags l \<and> (\<exists>cs. callbacks l' = callbacks l @ cs)"

lemma grown_refl [simp]: "grown l l"
  by (simp add: grown_def)

lemma grown_trans: "grown l l' \<Longrightarrow> grown l' l'' \<Longrightarrow> grown l l''"
  by (auto simp: grown_def)

lemma grown_set_context:
  assumes "contexts l i = Some c"
  shows "grown l (set_context i (c\<lparr>pendingCalls := n\<rparr>) l)"
  using assms by (auto simp: grown_def stop_flags_def set_context_def)

lemma grown_call_back [simp]: "grown l (call_back p status response u l)"
  by (simp add: grown_def call_back_def stop_flags_def fun_eq_iff)

lemma grown_inflight [simp]: "grown l (l\<lparr>inflight := calls\<rparr>)"
  by (simp add: grown_def stop_flags_def fun_eq_iff)

lemma sendResult_grown:
  assumes "sendResult enc p u r l = (out, l')"
  shows "grown l l'"
proof (cases "\<exists>i c. p = Some i \<and> contexts l i = Some c")
  case True
  then obtain i c where c: "p = Some i" "contexts l i = Some c" by blast
  obtain status response where resp: "response_of enc r = (status, response)"
    by (cases "response_of enc r")
  have "l' = call_back p status response u (set_context i (c\<lparr>pendingCalls := pendingCalls c - 1\<rparr>) l)"
    using assms by (simp add: sendResult_def deref_def c resp)
  then show ?thesis using grown_trans [OF grown_set_context [OF c(2)] grown_call_back] by simp
next
  case False
  with assms show ?thesis by (auto simp: sendResult_def deref_def split: option.splits)
qed

lemma callbackToC_grown:
  assumes "callbackToC enc p u call finished l = (out, l')"
  shows "grown l l'"
proof (cases "\<exists>i c. p = Some i \<and> contexts l i = Some c")
  case True
  then obtain i c where c: "p = Some i" "contexts l i = Some c" by blast
  let ?l1 = "set_context i (c\<lparr>pendingCalls := pendingCalls c + 1\<rparr>) l"
  have "grown ?l1 l'"
    using assms sendResult_grown [of enc "Some i" u _ ?l1 out l']
    by (auto simp: callbackToC_def deref_def c Let_def split: option.splits)
  then show ?thesis using grown_trans [OF grown_set_context [OF c(2)]] by blast
next
  case False
  with assms show ?thesis by (auto simp: callbackToC_def deref_def split: option.splits)
qed

lemma poll_grown: "poll enc turns l = (out, l') \<Longrightarrow> grown l l'"
proof (induction turns arbitrary: l)
  case Nil
  then show ?case by simp
next
  case (Cons t ts)
  obtain k r where t: "t = (k, r)" by (cases t)
  show ?case
  proof (cases "k < length (inflight l)")
    case True
    let ?l1 = "l\<lparr>inflight := take k (inflight l) @ drop (Suc k) (inflight l)\<rparr>"
    obtain i call u where call: "inflight l ! k = (i, call, u)" by (cases "inflight l ! k")
    obtain out2 l2 where l2: "sendResult enc (Some i) u r ?l1 = (out2, l2)"
      by (cases "sendResult enc (Some i) u r ?l1")
    have "grown l l2" using grown_trans [OF grown_inflight sendResult_grown [OF l2]] .
    with Cons.prems Cons.IH [of l2] show ?thesis
      by (auto simp: t True call l2 andThen_def split: outcome.splits intro: grown_trans)
  next
    case False
    with Cons.prems Cons.IH show ?thesis by (simp add: t)
  qed
qed

section \<open>The client's invariant\<close>

text \<open>
  The copy the slot points to is live, every string the library handed over was freed once, and
  the context is there and not stopped.
\<close>

definition memory_ok :: "nat \<Rightarrow> 'c client \<Rightarrow> bool" where
  "memory_ok k s \<longleftrightarrow> freed s = {..<k} \<and> (\<forall>p. body (slot s) = Some p \<longrightarrow> copies s p \<noteq> None)"

definition client_ok :: "nat \<Rightarrow> 'c client \<Rightarrow> bool" where
  "client_ok i s \<longleftrightarrow> memory_ok (length (callbacks (lib s))) s \<and> consistent (lib s) \<and>
     stop_flags (lib s) i = Some False"

text \<open>What the client's own steps on its memory leave alone.\<close>

definition same_program :: "'c client \<Rightarrow> 'c client \<Rightarrow> bool" where
  "same_program s s' \<longleftrightarrow> lib s' = lib s \<and> period_start s' = period_start s"

lemma on_result_ok:
  assumes "memory_ok k s"
  shows "\<exists>s'. on_result strdup_ok k status result s = (Done (), s') \<and> memory_ok (Suc k) s' \<and> same_program s s'"
  using assms
  by (auto simp: on_result_def strdup_def freeNimAllocatedString_def andThen_def update_def
      memory_ok_def same_program_def lessThan_Suc)

lemma on_results_ok:
  assumes "memory_ok k s"
  shows "\<exists>s'. on_results strdup_ok k cs s = (Done (), s') \<and> memory_ok (k + length cs) s' \<and> same_program s s'"
  using assms
proof (induction cs arbitrary: k s)
  case Nil
  then show ?case by (simp add: ret_def same_program_def)
next
  case (Cons c cs)
  obtain p status response u where c: "c = (p, status, response, u)" by (cases c)
  obtain s1 where s1: "on_result strdup_ok k status response s = (Done (), s1)" "memory_ok (Suc k) s1"
    "same_program s s1" using on_result_ok [OF Cons.prems] by blast
  from Cons.IH [OF s1(2)] s1(1,3) show ?case
    by (auto simp: c andThen_def same_program_def)
qed

lemma library_call_ok:
  assumes "client_ok i s" and "m (lib s) = (out, l)" and "grown (lib s) l" and "consistent l"
  shows "\<exists>s'. library_call strdup_ok m s = (out, s') \<and> client_ok i s' \<and> lib s' = l \<and>
    period_start s' = period_start s"
proof -
  from assms(3) obtain cs where cs: "callbacks l = callbacks (lib s) @ cs"
    and flags: "stop_flags l = stop_flags (lib s)" by (auto simp: grown_def)
  have "memory_ok (length (callbacks (lib s))) (s\<lparr>lib := l\<rparr>)"
    using assms(1) by (simp add: client_ok_def memory_ok_def)
  from on_results_ok [OF this, of strdup_ok cs] obtain s' where
    "on_results strdup_ok (length (callbacks (lib s))) cs (s\<lparr>lib := l\<rparr>) = (Done (), s')"
    "memory_ok (length (callbacks l)) s'" "lib s' = l" "period_start s' = period_start s"
    by (auto simp: same_program_def cs)
  then show ?thesis
    using assms(1,4) flags
    by (intro exI [of _ s']) (simp add: library_call_def assms(2) cs andThen_def client_ok_def)
qed

lemma report_ok:
  assumes "memory_ok k s"
  shows "\<exists>s'. report s = (Done (), s') \<and> memory_ok k s' \<and> same_program s s'"
  using assms
  by (auto simp: report_def memory_ok_def same_program_def no_result_def Let_def split: option.splits)

text \<open>The calls made so far: those answered and those owed.\<close>

definition requests :: "'c client \<Rightarrow> nat" where
  "requests s = size (answered (lib s) + owed (lib s))"

lemma stop_flags_Some: "stop_flags l i = Some b \<Longrightarrow> \<exists>c. contexts l i = Some c \<and> ctx_stop c = b"
  by (auto simp: stop_flags_def)

lemma client_ok_context:
  assumes "client_ok i s"
  shows "\<exists>c. contexts (lib s) i = Some c \<and> \<not> ctx_stop c" and "consistent (lib s)"
  using assms stop_flags_Some [of "lib s" i False] by (simp_all add: client_ok_def)

lemma request_ok:
  fixes s :: "('tx, 'flt, 'pct) frontend_call client"
  assumes "client_ok i s"
  shows "\<exists>s'. library_call strdup_ok (perform enc (Some i) 0 finished eth_blockNumber) s = (Done (), s') \<and>
    client_ok i s' \<and> requests s' = Suc (requests s) \<and> period_start s' = period_start s"
proof -
  let ?m = "perform enc (Some i) 0 finished (eth_blockNumber :: ('tx, 'flt, 'pct) action)"
  obtain c where "contexts (lib s) i = Some c" using client_ok_context(1) [OF assms] by blast
  from perform_consistent [OF client_ok_context(2) [OF assms] this] obtain l where
    l: "?m (lib s) = (Done (), l)" "consistent l"
      "answered l + owed l = add_mset 0 (answered (lib s) + owed (lib s))" by blast
  have "grown (lib s) l"
    using l(1) by (intro callbackToC_grown) (simp add: eth_blockNumber_def)
  with library_call_ok [OF assms, of ?m "Done ()" l strdup_ok] l obtain s' where
    "library_call strdup_ok ?m s = (Done (), s')" "client_ok i s'" "lib s' = l"
    "period_start s' = period_start s" by blast
  moreover from this l(3) have "requests s' = Suc (requests s)" by (simp add: requests_def)
  ultimately show ?thesis by blast
qed

lemma process_ok:
  fixes s :: "'c client"
  assumes "client_ok i s"
  shows "\<exists>s'. library_call strdup_ok (processVerifProxyTasks enc (Some i) turns) s = (Done RET_SUCCESS, s') \<and>
    client_ok i s' \<and> requests s' = requests s \<and> period_start s' = period_start s"
proof -
  let ?m = "processVerifProxyTasks enc (Some i) turns :: ('c, int) ctx_proc"
  obtain c where c: "contexts (lib s) i = Some c" "\<not> ctx_stop c"
    using client_ok_context(1) [OF assms] by blast
  obtain l2 where l2: "poll enc turns (lib s) = (Done (), l2)" "consistent l2"
    "answered l2 + owed l2 = answered (lib s) + owed (lib s)"
    using poll_consistent [OF client_ok_context(2) [OF assms]] by blast
  define l where "l = (if pendingCalls c > 0 then l2 else lib s)"
  have l: "?m (lib s) = (Done RET_SUCCESS, l)" "grown (lib s) l" "consistent l"
    "answered l + owed l = answered (lib s) + owed (lib s)"
    using c l2 poll_grown [OF l2(1)] client_ok_context(2) [OF assms]
    by (simp_all add: processVerifProxyTasks_def deref_def andThen_def ret_def l_def)
  from library_call_ok [OF assms, of ?m, OF l(1-3)] obtain s' where
    "library_call strdup_ok ?m s = (Done RET_SUCCESS, s')" "client_ok i s'" "lib s' = l"
    "period_start s' = period_start s" by blast
  moreover from this l(4) have "requests s' = requests s" by (simp add: requests_def)
  ultimately show ?thesis by blast
qed

lemma loop_turn_ok:
  assumes "client_ok i s"
  shows "\<exists>s'. loop_turn enc strdup_ok (Some i) t s = (Done False, s') \<and> client_ok i s' \<and>
    (if time_now t - period_start s > 12
     then requests s' = Suc (requests s) \<and> period_start s' = time_reset t
     else requests s' = requests s \<and> period_start s' = period_start s)"
proof (cases "time_now t - period_start s > 12")
  case True
  let ?s0 = "s\<lparr>period_start := time_reset t\<rparr>"
  have "memory_ok (length (callbacks (lib s))) ?s0"
    using assms by (simp add: client_ok_def memory_ok_def)
  from report_ok [OF this] obtain s1 where s1: "report ?s0 = (Done (), s1)"
    "memory_ok (length (callbacks (lib s))) s1" "same_program ?s0 s1" by blast
  then have "client_ok i s1" "requests s1 = requests s" "period_start s1 = time_reset t"
    using assms by (simp_all add: client_ok_def same_program_def requests_def)
  from request_ok [OF this(1), of strdup_ok enc "ends_at_once t"] this(2,3) obtain s2 where
    s2: "library_call strdup_ok (perform enc (Some i) 0 (ends_at_once t) eth_blockNumber) s1 = (Done (), s2)"
      "client_ok i s2" "requests s2 = Suc (requests s)" "period_start s2 = time_reset t" by auto
  from process_ok [OF s2(2), of strdup_ok enc "completes t"] s2 s1(1) True show ?thesis
    by (auto simp: loop_turn_def andThen_def update_def ret_def ret_codes)
next
  case False
  with process_ok [OF assms, of strdup_ok enc "completes t"] show ?thesis
    by (auto simp: loop_turn_def andThen_def ret_def ret_codes)
qed

lemma client_loop_ok:
  assumes "client_ok i s"
  shows "\<exists>s'. client_loop enc strdup_ok (Some i) ts s = (Stuck, s') \<and> client_ok i s'"
  using assms
proof (induction ts arbitrary: s)
  case Nil
  then show ?case by simp
next
  case (Cons t ts)
  from loop_turn_ok [OF Cons.prems, of enc strdup_ok t] Cons.IH show ?case
    by (fastforce simp: andThen_def)
qed

lemma client_ok_started:
  assumes "l = snd (startVerifProxy enc conf True [] process_start)"
  shows "client_ok 0 (client_start\<lparr>lib := l, slot := no_result, period_start := begun\<rparr>)"
  by (simp add: assms client_ok_def memory_ok_def consistent_def stop_flags_def client_start_def
      startVerifProxy_def andThen_def set_context_def process_start_def no_result_def)

lemma client_main_start:
  "client_main enc strdup_ok load run_ok begun turns client_start =
    (if run_ok then
       andThen (client_loop enc strdup_ok (Some 0) turns) (\<lambda>_.
         andThen (library_call strdup_ok (stopVerifProxy (Some 0))) (\<lambda>_.
         andThen (library_call strdup_ok (freeContext (Some 0))) (\<lambda>_. ret 0)))
         (client_start\<lparr>lib := snd (startVerifProxy enc (load client_config) True [] process_start),
            slot := no_result, period_start := begun\<rparr>)
     else (Done 1, client_start\<lparr>lib := snd (startVerifProxy enc (load client_config) False [] process_start),
            printed := [Stderr ''startVerifProxy failed'']\<rparr>))"
  by (simp add: client_main_def library_call_def startVerifProxy_def andThen_def set_context_def
      process_start_def client_start_def update_def ret_def print_line_def)

lemma client_loop_stuck:
  assumes "client_ok i s"
  shows "fst (client_loop enc strdup_ok (Some i) ts s) = Stuck"
    and "client_ok i (snd (client_loop enc strdup_ok (Some i) ts s))"
  using client_loop_ok [OF assms, of enc strdup_ok ts] by auto

lemma andThen_Stuck: "fst (m s) = Stuck \<Longrightarrow> andThen m f s = (Stuck, snd (m s))"
  by (cases "m s") (simp add: andThen_def)

lemma client_main_loop:
  "client_main enc strdup_ok load True begun turns client_start =
    (Stuck, snd (client_loop enc strdup_ok (Some 0) turns
      (client_start\<lparr>lib := snd (startVerifProxy enc (load client_config) True [] process_start),
            slot := no_result, period_start := begun\<rparr>)))"
  by (simp add: client_main_start andThen_Stuck client_loop_stuck [OF client_ok_started [OF refl]])

lemma client_main_ok:
  "client_ok 0 (snd (client_main enc strdup_ok load True begun turns client_start))"
  by (simp add: client_main_loop client_loop_stuck [OF client_ok_started [OF refl]])

lemma client_ok_frees:
  assumes "client_ok i s"
  shows "freed s = {..<length (callbacks (lib s))} \<and> body (slot s) \<in> insert None (Some ` dom (copies s)) \<and>
    consistent (lib s) \<and> requests s = length (callbacks (lib s)) + length (inflight (lib s))"
proof -
  have "body (slot s) \<in> insert None (Some ` dom (copies s))"
    using assms by (cases "body (slot s)") (auto simp: client_ok_def memory_ok_def image_iff)
  with assms show ?thesis
    by (simp add: client_ok_def memory_ok_def requests_def answered_def owed_def)
qed

lemma requests_started:
  "requests (client_start\<lparr>lib := snd (startVerifProxy enc conf True [] process_start),
     slot := no_result, period_start := begun\<rparr>) = 0"
  by (simp add: client_start_def requests_def answered_def owed_def startVerifProxy_def andThen_def
      set_context_def process_start_def)

lemma client_loop_rate:
  assumes "client_ok i s" and "sorted (period_start s # concat (map (\<lambda>t. [time_now t, time_reset t]) ts))"
  shows "13 * int (requests (snd (client_loop enc strdup_ok (Some i) ts s))) \<le>
    13 * int (requests s) + last (period_start s # map time_reset ts) - period_start s"
  using assms
proof (induction ts arbitrary: s)
  case Nil
  then show ?case by simp
next
  case (Cons t ts)
  from loop_turn_ok [OF Cons.prems(1), of enc strdup_ok t] obtain s' where
    s': "loop_turn enc strdup_ok (Some i) t s = (Done False, s')" "client_ok i s'"
      "if time_now t - period_start s > 12
       then requests s' = Suc (requests s) \<and> period_start s' = time_reset t
       else requests s' = requests s \<and> period_start s' = period_start s" by blast
  have "sorted (period_start s' # concat (map (\<lambda>t. [time_now t, time_reset t]) ts))"
    using Cons.prems(2) s'(3) by (auto split: if_splits)
  from Cons.IH [OF s'(2) this] s'(1) have
    "13 * int (requests (snd (client_loop enc strdup_ok (Some i) (t # ts) s))) \<le>
      13 * int (requests s') + last (period_start s' # map time_reset ts) - period_start s'"
    by (simp add: andThen_def)
  moreover have "last (period_start s' # map time_reset ts) \<le> last (time_reset t # map time_reset ts)"
    using Cons.prems(2) s'(3) by (auto split: if_splits)
  moreover have "time_now t \<le> time_reset t" using Cons.prems(2) by simp
  ultimately show ?case using s'(3) by (auto split: if_splits)
qed


lemma decimal_0: "decimal 0 = ''0''"
  by code_simp

section \<open>Properties\<close>

text \<open>
  The example client exits with 1 if the proxy does not start, and otherwise neither crashes
  nor ever returns, whatever the clock, the network and \<open>strdup\<close> do: its own context is the only
  thing that could end the loop and nothing stops it, so that \<open>stopVerifProxy\<close>, \<open>freeContext\<close> and
  \<open>return 0\<close> are dead code.
\<close>

theorem example_client_never_returns:
  "fst (client_main enc strdup_ok load run_ok begun turns client_start) = (if run_ok then Stuck else Done 1)"
  by (cases run_ok) (simp add: client_main_loop, simp add: client_main_start)

text \<open>
  The client honours the library's contract: at any time every string a callback handed over
  has been freed, exactly once, the body kept for the next report is a live copy, and every
  request made has been answered or is still owed its answer.
\<close>

theorem example_client_frees_results:
  "let s = snd (client_main enc strdup_ok load True begun turns client_start)
   in freed s = {..<length (callbacks (lib s))} \<and>
      body (slot s) \<in> insert None (Some ` dom (copies s)) \<and>
      consistent (lib s) \<and> requests s = length (callbacks (lib s)) + length (inflight (lib s))"
  unfolding Let_def by (rule client_ok_frees [OF client_main_ok])

text \<open>
  The client polls the library without pause but asks for the block number at most once in
  thirteen seconds: as long as the clock does not run backwards, the requests made are at most
  a thirteenth of the seconds elapsed.
\<close>

theorem example_client_request_rate:
  assumes "sorted (begun # concat (map (\<lambda>t. [time_now t, time_reset t]) turns))"
  shows "13 * int (requests (snd (client_main enc strdup_ok load True begun turns client_start))) \<le>
    last (begun # map time_reset turns) - begun"
  unfolding client_main_loop snd_conv
  by (rule order_trans [OF client_loop_rate [OF client_ok_started [OF refl]]])
    (use assms in \<open>simp_all add: requests_started\<close>)

definition demo_turn :: "int \<Rightarrow> (nat \<times> fut_result) list \<Rightarrow> turn" where
  "demo_turn now done_now = \<lparr>time_now = now, time_reset = now, ends_at_once = None, completes = done_now\<rparr>"

theorem example_client_request_rate_witness:
  "13 * int (requests (snd (client_main id (\<lambda>_. True)
       (\<lambda>_. \<lparr>ctx_stop = True, pendingCalls = 3, ctx_op = False, ctx_interval = 12000\<rparr>) True 100
       [demo_turn 113 [], demo_turn 120 [(0, Fut_value ''0x10'')], demo_turn 126 []]
       (client_start :: (unit, unit, unit) frontend_call client)))) \<le> 26"
  using example_client_request_rate
    [of 100 "[demo_turn 113 [], demo_turn 120 [(0, Fut_value ''0x10'')], demo_turn 126 []]"]
  by (simp add: demo_turn_def)

text \<open>
  Requests overlap when an answer takes longer than a period, and they share one \<open>Result\<close>:
  when the answers of two requests arrive in one turn, the second overwrites the first one's
  copy without freeing it. The report frees the second; the first is leaked for good.
\<close>

theorem example_client_leaks_overlapping_result:
  "let s = snd (client_main enc (\<lambda>_. True) load True 0
       [demo_turn 13 [], demo_turn 26 [(0, Fut_value a), (0, Fut_value b)], demo_turn 39 []] client_start)
   in copies s = [0 \<mapsto> a] \<and> body (slot s) = None \<and>
      printed s = [Stderr ''callback did not fire'', Stderr ''callback did not fire'',
        Stdout (''eth_blockNumber: status=0 body='' @ b)]"
  unfolding client_main_start
  by (simp add: loop_turn_def library_call_def startVerifProxy_def andThen_def set_context_def
      process_start_def client_start_def update_def ret_def report_def no_result_def demo_turn_def
      eth_blockNumber_def callbackToC_def sendResult_def deref_def processVerifProxyTasks_def
      call_back_def response_of_def on_result_def strdup_def freeNimAllocatedString_def ret_codes
      decimal_int_def decimal_0 Let_def fun_eq_iff del: decimal.simps)

text \<open>
  No request gets through the client's transports: each is announced on the terminal and
  then fails with "not implemented", a backend error from the execution transport and a fetch
  error from the beacon transport, so that the client never sees a value.
\<close>

theorem example_transports_refuse:
  "(case exec_request pk call of
      Inl err \<Rightarrow> exec_start pk url execution_transport call s = (Fail err, s)
    | Inr (name, params) \<Rightarrow>
        (\<exists>i s'. exec_start pk url execution_transport call s = (Done i, s') \<and>
           map_option (exec_reply unpack \<circ> tc_fut) (tctxs s' i) =
             Some (Some (Some (Inl (engine_err BackendError ''not implemented'')))) \<and>
           printed s' = printed s @
             [Stdout (''[exec] url: '' @ url @ '', name: '' @ name @ '', params: '' @ params)])) \<and>
   (case beacon_request root_text bcall of
      (endpoint, params) \<Rightarrow>
        (\<exists>i s'. beacon_start root_text url beacon_transport bcall s = (Done i, s') \<and>
           map_option (beacon_reply dec \<circ> tc_fut) (tctxs s' i) =
             Some (Some (Some (Inl (engine_err BackendFetchError ''not implemented'')))) \<and>
           printed s' = printed s @
             [Stdout (''[beacon] url: '' @ url @ '', endpoint: '' @ endpoint @ '', params: '' @ params)]))"
  by (auto simp: exec_start_def beacon_start_def fail_def andThen_def newExecTransportCtx_def
      newBeaconTransportCtx_def execution_transport_def beacon_transport_def execCtxName_def
      execCtxParams_def execCtxUrl_def beaconCtxParams_def beaconCtxEndpoint_def beaconCtxUrl_def
      print_line_def deliverExecutionTransport_def deliverBeaconTransport_def deliver_defs ret_codes
      exec_reply_def beacon_reply_def str_def split: sum.splits prod.splits)

end
