(* ===== verification/Proxy_Config.thy ===== *)
theory Proxy_Config
  imports Library_Utils
begin

text \<open>
  Starting the proxy (\<open>library/verifproxy.nim\<close>): reading the JSON configuration, and the
  backends \<open>run\<close> registers with the engines, each with the capabilities it may serve.
\<close>

section \<open>The configuration\<close>

datatype log_kind = Colors | NoColors | Json | Auto | No_log

record 'r proxy_conf =
  eth2Network :: "string option"
  trustedBlockRoot :: 'r
  executionApiUrls :: "string list"
  beaconApiUrls :: "string list"
  logLevel :: string
  logFormat :: log_kind
  conf_maxBlockWalk :: u64
  conf_maxWindowJumps :: u64
  headerStoreLen :: int
  storageCacheLen :: int
  codeCacheLen :: int
  accountCacheLen :: int
  conf_parallelBlockDownloads :: u64
  maxLightClientUpdates :: u64
  privateTxUrls :: "string list"
  archiveUrls :: "string list"
  opExecutionApiUrls :: "string list"
  syncHeaderStore :: bool
  freezeAtSlot :: u64

text \<open>
  The scheme of \<open>parseUri\<close>: the letters, digits and signs before a colon, if the text begins
  with such; a text that begins with a slash has none.
\<close>

definition scheme_char :: "char \<Rightarrow> bool" where
  "scheme_char c =
     (let n = of_char c :: nat
      in 97 \<le> n \<and> n \<le> 122 \<or> 65 \<le> n \<and> n \<le> 90 \<or> 48 \<le> n \<and> n \<le> 57 \<or> c \<in> {CHR ''+'', CHR ''-'', CHR ''.''})"

definition uri_scheme :: "string \<Rightarrow> string" where
  "uri_scheme u =
     (case dropWhile scheme_char u of
        c # _ \<Rightarrow> if c = CHR '':'' then takeWhile scheme_char u else []
      | [] \<Rightarrow> [])"

definition url_ok :: "string \<Rightarrow> bool" where
  "url_ok u \<longleftrightarrow> toLowerAscii (uri_scheme u) \<in> {''http'', ''https'', ''ws'', ''wss''}"

definition parse_urls :: "string \<Rightarrow> string + string list" where
  "parse_urls p =
     (let urls = split_on (CHR '','') p
      in if list_all url_ok urls then Inr urls
         else Inl ''URL should have a valid scheme (http/https/ws/wss)'')"

text \<open>
  Reading a field that may be absent: the default also stands in for a node of another kind,
  and for a field of a node that is no object.
\<close>

definition str_field :: "string \<Rightarrow> jnode \<Rightarrow> string \<Rightarrow> string" where
  "str_field d n key = (case field n key of Some (JString s) \<Rightarrow> s | _ \<Rightarrow> d)"

definition int_field :: "int \<Rightarrow> jnode \<Rightarrow> string \<Rightarrow> int" where
  "int_field d n key = (case field n key of Some (JInt i) \<Rightarrow> i | _ \<Rightarrow> d)"

definition bool_field :: "bool \<Rightarrow> jnode \<Rightarrow> string \<Rightarrow> bool" where
  "bool_field d n key = (case field n key of Some (JBool b) \<Rightarrow> b | _ \<Rightarrow> d)"

text \<open>
  \<open>node[key]\<close>: a missing key is a \<open>KeyError\<close>, which is a \<open>ValueError\<close> too; a node that is no
  object violates an assertion.
\<close>

definition index_node :: "jnode \<Rightarrow> string \<Rightarrow> (string, jnode) outcome" where
  "index_node n key =
     (case n of
        JObject kvs \<Rightarrow> (case map_of kvs key of None \<Rightarrow> Fail (''key not found: '' @ key) | Some v \<Rightarrow> Done v)
      | _ \<Rightarrow> Defect)"

text \<open>Going on after a step whose error is wrapped in a \<open>ProxyError\<close> that names the field.\<close>

fun step :: "string \<Rightarrow> (string, 'a) outcome \<Rightarrow> ('a \<Rightarrow> (string, 'c) outcome) \<Rightarrow> (string, 'c) outcome" where
  "step name (Done x) k = k x"
| "step name (Fail msg) k = Fail (''Couldn't parse `'' @ name @ ''` from JSON config: '' @ msg)"
| "step name Cancelled k = Cancelled"
| "step name Defect k = Defect"
| "step name Stuck k = Stuck"

definition as_outcome :: "string + 'a \<Rightarrow> (string, 'a) outcome" where
  "as_outcome r = (case r of Inl msg \<Rightarrow> Fail msg | Inr x \<Rightarrow> Done x)"

definition required_urls :: "jnode \<Rightarrow> string \<Rightarrow> (string, string list) outcome" where
  "required_urls n key =
     (case index_node n key of
        Done v \<Rightarrow> as_outcome (parse_urls (getStr v))
      | Fail msg \<Rightarrow> Fail msg
      | Cancelled \<Rightarrow> Cancelled | Defect \<Rightarrow> Defect | Stuck \<Rightarrow> Stuck)"

definition optional_urls :: "jnode \<Rightarrow> string \<Rightarrow> (string, string list) outcome" where
  "optional_urls n key =
     (let rawUrls = str_field [] n key in if rawUrls = [] then Done [] else as_outcome (parse_urls rawUrls))"

definition log_format :: "string \<Rightarrow> log_kind" where
  "log_format s =
     (if s = ''Colors'' then Colors else if s = ''NoColors'' then NoColors else if s = ''Json'' then Json
      else if s = ''Auto'' then Auto else No_log)"

definition clamped :: "int \<Rightarrow> u64" where
  "clamped i = (if i < 0 then 0 else of_int i)"

text \<open>\<open>parse\<close> is \<open>parseJson\<close>, \<open>root_fromHex\<close> the reader of a block root.\<close>

definition load :: "(string \<Rightarrow> string + jnode) \<Rightarrow> (string \<Rightarrow> 'r) \<Rightarrow> string \<Rightarrow> (string, 'r proxy_conf) outcome" where
  "load parse root_fromHex configJson =
     (case parse configJson of
        Inl _ \<Rightarrow> Fail ''error parsing config json''
      | Inr n \<Rightarrow>
          step ''trustedBlockRoot'' (index_node n ''trustedBlockRoot'') (\<lambda>root.
          step ''backendUrl'' (required_urls n ''executionApiUrls'') (\<lambda>execUrls.
          step ''beaconApiUrls'' (required_urls n ''beaconApiUrls'') (\<lambda>bcnUrls.
          step ''privateTxUrls'' (optional_urls n ''privateTxUrls'') (\<lambda>privUrls.
          step ''archiveUrls'' (optional_urls n ''archiveUrls'') (\<lambda>archUrls.
          step ''opExecutionApiUrls'' (optional_urls n ''opExecutionApiUrls'') (\<lambda>opUrls.
          let maxLcUpdates = int_field 128 n ''maxLightClientUpdates'' in
          Done
            \<lparr>eth2Network = Some (str_field ''mainnet'' n ''eth2Network''),
             trustedBlockRoot = root_fromHex (getStr root),
             executionApiUrls = execUrls, beaconApiUrls = bcnUrls,
             logLevel = str_field ''INFO'' n ''logLevel'',
             logFormat = log_format (str_field ''None'' n ''logFormat''),
             conf_maxBlockWalk = clamped (int_field 1000 n ''maxBlockWalk''),
             conf_maxWindowJumps = clamped (int_field 500 n ''maxWindowJumps''),
             headerStoreLen = int_field 256 n ''headerStoreLen'',
             storageCacheLen = int_field 256 n ''storageCacheLen'',
             codeCacheLen = int_field 64 n ''codeCacheLen'',
             accountCacheLen = int_field 128 n ''accountCacheLen'',
             conf_parallelBlockDownloads = clamped (int_field 10 n ''parallelBlockDownloads''),
             maxLightClientUpdates = (if maxLcUpdates \<le> 0 then 1 else of_int maxLcUpdates),
             privateTxUrls = privUrls, archiveUrls = archUrls, opExecutionApiUrls = opUrls,
             syncHeaderStore = bool_field True n ''syncHeaderStore'',
             freezeAtSlot = clamped (int_field 0 n ''freezeAtSlot'')\<rparr>)))))))"

definition getConfiguredChainId :: "string option \<Rightarrow> u256" where
  "getConfiguredChainId chain =
     (let net = toLowerAscii (case chain of None \<Rightarrow> ''mainnet'' | Some c \<Rightarrow> c)
      in if net = ''mainnet'' then 1 else if net = ''sepolia'' then 11155111
         else if net = ''hoodi'' then 560048 else 1)"

section \<open>Registering the backends\<close>

text \<open>
  A URL gets a backend if a transport was given to the library, or else if a client for it can
  be made and started (\<open>starts\<close>); otherwise it is skipped with a message.
\<close>

fun register_executions ::
    "(string \<Rightarrow> bool) \<Rightarrow> (string \<Rightarrow> 'x) \<Rightarrow> capability set \<Rightarrow> string list \<Rightarrow> ('x, 'b, 'z) pool_scheme \<Rightarrow>
     ('x, 'b, 'z) pool_scheme" where
  "register_executions usable backend caps [] e = e"
| "register_executions usable backend caps (url # urls) e =
     register_executions usable backend caps urls
       (if usable url then registerExecutionBackend (backend url) caps e else e)"

fun register_beacons ::
    "(string \<Rightarrow> bool) \<Rightarrow> (string \<Rightarrow> 'b) \<Rightarrow> string list \<Rightarrow> ('x, 'b, 'z) pool_scheme \<Rightarrow> ('x, 'b, 'z) pool_scheme" where
  "register_beacons usable backend [] e = e"
| "register_beacons usable backend (url # urls) e =
     register_beacons usable backend urls
       (if usable url then registerBeaconBackend (backend url) fullBeaconCapabilities e else e)"

definition regularCaps :: "('r, 'z) proxy_conf_scheme \<Rightarrow> capability set" where
  "regularCaps conf =
     fullExecutionCapabilities -
     (if privateTxUrls conf \<noteq> [] then {SendRawTransaction} else {}) -
     (if archiveUrls conf \<noteq> [] then {GetProof} else {})"

definition register_backends ::
    "bool \<Rightarrow> bool \<Rightarrow> (string \<Rightarrow> bool) \<Rightarrow> (string \<Rightarrow> 'x) \<Rightarrow> (string \<Rightarrow> 'b) \<Rightarrow> 'r proxy_conf \<Rightarrow>
     ('x, 'b, 'z) pool_scheme \<Rightarrow> ('x, 'b, 'z) pool_scheme" where
  "register_backends execTransport bcnTransport starts exec bcn conf e =
     (let execUsable = (\<lambda>url. execTransport \<or> starts url);
          e1 = register_beacons (\<lambda>url. bcnTransport \<or> starts url) bcn (beaconApiUrls conf) e;
          e2 = register_executions execUsable exec (regularCaps conf) (executionApiUrls conf) e1;
          e3 = register_executions execUsable exec {SendRawTransaction} (privateTxUrls conf) e2
      in register_executions execUsable exec {GetProof} (archiveUrls conf) e3)"

text \<open>What becomes of a pool while the proxy runs: selections and penalties, in any order.\<close>

inductive used_pool :: "('x, 'b, 'z) pool_scheme \<Rightarrow> ('x, 'b, 'z) pool_scheme \<Rightarrow> bool" for e0 where
  started: "used_pool e0 e0"
| selected: "used_pool e0 e \<Longrightarrow> used_pool e0 (snd (selectBackend draw cap e))"
| penalty: "used_pool e0 e \<Longrightarrow> used_pool e0 (applyPenalty err e)"

section \<open>Who serves a capability\<close>

text \<open>\<open>serves S e\<close>: a backend registered for a capability is one that \<open>S\<close> allows for it.\<close>

definition serves :: "(capability \<Rightarrow> 'x set) \<Rightarrow> ('x, 'b, 'z) pool_scheme \<Rightarrow> bool" where
  "serves S e \<longleftrightarrow> pool_ok e \<and> dom (executionBackends e) \<subseteq> {..<numBackends e} \<and>
     (\<forall>cap. \<forall>i \<in> set (capabilityIndex e cap). \<forall>x. executionBackends e i = Some x \<longrightarrow> x \<in> S cap)"

lemma serves_registerExecution:
  assumes "serves S e" and "caps \<subseteq> fullExecutionCapabilities" and "\<forall>cap \<in> caps. x \<in> S cap"
  shows "serves S (registerExecutionBackend x caps e)"
  using assms pool_ok_registerExecution [of e caps x] pool_okD(3) [of e]
  by (fastforce simp: serves_def registerExecutionBackend_def indexed_def Let_def less_Suc_eq split: if_splits)

lemma serves_registerBeacon:
  assumes "serves S e"
  shows "serves S (registerBeaconBackend b fullBeaconCapabilities e)"
proof -
  have "executionBackends e (numBackends e) = None"
    using assms by (auto simp: serves_def dom_def)
  with assms pool_ok_registerBeacon [of e fullBeaconCapabilities b] show ?thesis
    by (fastforce simp: serves_def registerBeaconBackend_def indexed_def Let_def less_Suc_eq split: if_splits)
qed

lemma serves_register_executions:
  assumes "serves S e" and "caps \<subseteq> fullExecutionCapabilities"
    and "\<forall>cap \<in> caps. backend ` set urls \<subseteq> S cap"
  shows "serves S (register_executions usable backend caps urls e)"
  using assms
proof (induction urls arbitrary: e)
  case Nil
  then show ?case by simp
next
  case (Cons url urls)
  then have "serves S (if usable url then registerExecutionBackend (backend url) caps e else e)"
    using serves_registerExecution [of S e caps "backend url"] by auto
  with Cons show ?case by simp
qed

lemma serves_register_beacons:
  "serves S e \<Longrightarrow> serves S (register_beacons usable backend urls e)"
  by (induction urls arbitrary: e) (simp_all add: serves_registerBeacon)

lemma serves_used:
  assumes "used_pool e0 e" and "serves S e0"
  shows "serves S e"
  using assms
proof (induction rule: used_pool.induct)
  case started
  then show ?case .
next
  case (selected e draw cap)
  then show ?case
    using selectBackend_only_scores [of draw cap e] pool_ok_select [of e draw cap]
    by (auto simp: serves_def)
next
  case (penalty e err)
  have "applyPenalty err e = e\<lparr>scores := scores (applyPenalty err e)\<rparr>"
    by (simp add: applyPenalty_def Let_def split: option.splits)
  then obtain sc where "applyPenalty err e = e\<lparr>scores := sc\<rparr>" by blast
  with penalty pool_ok_applyPenalty [of e err] show ?case by (simp add: serves_def)
qed

lemma serves_selected:
  assumes "serves S e" and "executionBackendFor draw cap e = (Done (x, i), e')"
  shows "x \<in> S cap"
proof -
  have ok: "pool_ok e" using assms(1) by (simp add: serves_def)
  obtain sc where sc: "snd (selectBackend draw cap e) = e\<lparr>scores := sc\<rparr>"
    using selectBackend_only_scores by blast
  have ne: "eligibles e cap \<noteq> []"
    using assms(2) by (auto simp: executionBackendFor_def andThen_def selectBackend_eq [OF ok])
  then have "fst (selectBackend draw cap e) = Done (eligibles e cap ! (draw mod length (eligibles e cap)))"
    by (simp add: selectBackend_eq [OF ok] Let_def)
  then have "i = eligibles e cap ! (draw mod length (eligibles e cap))" and "executionBackends e i = Some x"
    using assms(2) sc
    by (cases "selectBackend draw cap e"; auto simp: executionBackendFor_def andThen_def split: option.splits)+
  moreover from this have "i \<in> set (capabilityIndex e cap)"
    using chosen_in_eligibles [OF ne, of draw] by (auto simp: eligibles_def)
  ultimately show ?thesis using assms(1) by (auto simp: serves_def)
qed

text \<open>The endpoints the configuration means to serve a capability.\<close>

definition endpoints :: "('r, 'z) proxy_conf_scheme \<Rightarrow> capability \<Rightarrow> string set" where
  "endpoints conf cap =
     (if cap = SendRawTransaction \<and> privateTxUrls conf \<noteq> [] then set (privateTxUrls conf)
      else if cap = GetProof \<and> archiveUrls conf \<noteq> [] then set (archiveUrls conf)
      else set (executionApiUrls conf))"

lemma serves_registered:
  "serves (\<lambda>cap. exec ` endpoints conf cap)
     (register_backends execTransport bcnTransport starts exec bcn conf pool_init)"
proof -
  have "serves S pool_init" for S :: "capability \<Rightarrow> 'a set"
    using pool_ok_init by (simp add: serves_def pool_init_def)
  note beacons = serves_register_beacons [OF this]
  note execs = serves_register_executions
  show ?thesis
    unfolding register_backends_def Let_def
    by (intro execs beacons)
      (auto simp: endpoints_def regularCaps_def fullExecutionCapabilities_def split: if_splits)
qed

section \<open>Writing a configuration\<close>

text \<open>A configuration as the JSON object that \<open>load\<close> reads; only for stating that it reads it back.\<close>

fun log_text :: "log_kind \<Rightarrow> string" where
  "log_text Colors = ''Colors''"
| "log_text NoColors = ''NoColors''"
| "log_text Json = ''Json''"
| "log_text Auto = ''Auto''"
| "log_text No_log = ''None''"

definition urls_node :: "string list \<Rightarrow> jnode" where
  "urls_node urls = JString (join_with (CHR '','') urls)"

definition conf_json :: "('r \<Rightarrow> string) \<Rightarrow> 'r proxy_conf \<Rightarrow> jnode" where
  "conf_json root_text conf = JObject
     [(''eth2Network'', JString (case eth2Network conf of None \<Rightarrow> [] | Some n \<Rightarrow> n)),
      (''trustedBlockRoot'', JString (root_text (trustedBlockRoot conf))),
      (''executionApiUrls'', urls_node (executionApiUrls conf)),
      (''beaconApiUrls'', urls_node (beaconApiUrls conf)),
      (''privateTxUrls'', urls_node (privateTxUrls conf)),
      (''archiveUrls'', urls_node (archiveUrls conf)),
      (''opExecutionApiUrls'', urls_node (opExecutionApiUrls conf)),
      (''logLevel'', JString (logLevel conf)),
      (''logFormat'', JString (log_text (logFormat conf))),
      (''maxBlockWalk'', JInt (uint (conf_maxBlockWalk conf))),
      (''maxWindowJumps'', JInt (uint (conf_maxWindowJumps conf))),
      (''parallelBlockDownloads'', JInt (uint (conf_parallelBlockDownloads conf))),
      (''maxLightClientUpdates'', JInt (uint (maxLightClientUpdates conf))),
      (''headerStoreLen'', JInt (headerStoreLen conf)),
      (''storageCacheLen'', JInt (storageCacheLen conf)),
      (''codeCacheLen'', JInt (codeCacheLen conf)),
      (''accountCacheLen'', JInt (accountCacheLen conf)),
      (''syncHeaderStore'', JBool (syncHeaderStore conf)),
      (''freezeAtSlot'', JInt (uint (freezeAtSlot conf)))]"

text \<open>What every configuration that \<open>load\<close> returns satisfies.\<close>

definition conf_ok :: "'r proxy_conf \<Rightarrow> bool" where
  "conf_ok conf \<longleftrightarrow>
     eth2Network conf \<noteq> None \<and> executionApiUrls conf \<noteq> [] \<and> beaconApiUrls conf \<noteq> [] \<and>
     (\<forall>url \<in> set (executionApiUrls conf) \<union> set (beaconApiUrls conf) \<union> set (privateTxUrls conf) \<union>
        set (archiveUrls conf) \<union> set (opExecutionApiUrls conf). url_ok url \<and> CHR '','' \<notin> set url) \<and>
     0 < maxLightClientUpdates conf"

lemma log_format_text [simp]: "log_format (log_text k) = k"
  by (cases k) (simp_all add: log_format_def)

lemma clamped_uint [simp]: "clamped (uint w) = w"
  by (simp add: clamped_def not_less)

lemma split_on_ne [simp]: "split_on sep s \<noteq> []"
  by (cases "(sep, s)" rule: split_on.cases) (auto split: list.splits)

lemma split_on_no_sep: "part \<in> set (split_on sep s) \<Longrightarrow> sep \<notin> set part"
  by (induction sep s arbitrary: part rule: split_on.induct) (auto split: if_splits list.splits)

lemma url_ok_ne: "url_ok url \<Longrightarrow> url \<noteq> []"
  by (auto simp: url_ok_def uri_scheme_def toLowerAscii_def)

lemma join_with_ne: "parts \<noteq> [] \<Longrightarrow> \<forall>part \<in> set parts. part \<noteq> [] \<Longrightarrow> join_with sep parts \<noteq> []"
  by (induction sep parts rule: join_with.induct) auto

lemma parse_urls_join:
  assumes "urls \<noteq> []" and "\<forall>url \<in> set urls. url_ok url \<and> CHR '','' \<notin> set url"
  shows "parse_urls (join_with (CHR '','') urls) = Inr urls"
  using assms by (simp add: parse_urls_def split_on_join list_all_iff)

lemma optional_urls_join:
  assumes "str_field [] n key = join_with (CHR '','') urls"
    and "\<forall>url \<in> set urls. url_ok url \<and> CHR '','' \<notin> set url"
  shows "optional_urls n key = Done urls"
proof (cases "urls = []")
  case True
  with assms show ?thesis by (simp add: optional_urls_def)
next
  case False
  with assms(2) have "join_with (CHR '','') urls \<noteq> []" by (intro join_with_ne) (auto dest: url_ok_ne)
  with assms False show ?thesis by (simp add: optional_urls_def parse_urls_join as_outcome_def)
qed

lemma conf_json_fields:
  "eth2Network conf = Some network \<Longrightarrow> str_field d (conf_json root_text conf) ''eth2Network'' = network"
  "str_field d (conf_json root_text conf) ''logLevel'' = logLevel conf"
  "log_format (str_field d (conf_json root_text conf) ''logFormat'') = logFormat conf"
  "int_field i (conf_json root_text conf) ''maxBlockWalk'' = uint (conf_maxBlockWalk conf)"
  "int_field i (conf_json root_text conf) ''maxWindowJumps'' = uint (conf_maxWindowJumps conf)"
  "int_field i (conf_json root_text conf) ''parallelBlockDownloads'' = uint (conf_parallelBlockDownloads conf)"
  "int_field i (conf_json root_text conf) ''maxLightClientUpdates'' = uint (maxLightClientUpdates conf)"
  "int_field i (conf_json root_text conf) ''headerStoreLen'' = headerStoreLen conf"
  "int_field i (conf_json root_text conf) ''storageCacheLen'' = storageCacheLen conf"
  "int_field i (conf_json root_text conf) ''codeCacheLen'' = codeCacheLen conf"
  "int_field i (conf_json root_text conf) ''accountCacheLen'' = accountCacheLen conf"
  "bool_field b (conf_json root_text conf) ''syncHeaderStore'' = syncHeaderStore conf"
  "int_field i (conf_json root_text conf) ''freezeAtSlot'' = uint (freezeAtSlot conf)"
  "index_node (conf_json root_text conf) ''trustedBlockRoot'' = Done (JString (root_text (trustedBlockRoot conf)))"
  by (simp_all add: str_field_def int_field_def bool_field_def field_def conf_json_def index_node_def)

lemma parse_urls_ok:
  "parse_urls s = Inr urls \<Longrightarrow> urls \<noteq> [] \<and> (\<forall>url \<in> set urls. url_ok url \<and> CHR '','' \<notin> set url)"
  by (auto simp: parse_urls_def Let_def list_all_iff dest: split_on_no_sep split: if_splits)

lemma as_outcome_Done [simp]: "as_outcome r = Done x \<longleftrightarrow> r = Inr x"
  by (cases r) (simp_all add: as_outcome_def)

lemma step_Done: "step name r k = Done y \<longleftrightarrow> (\<exists>x. r = Done x \<and> k x = Done y)"
  by (cases r) simp_all

lemma required_urls_ok:
  "required_urls n key = Done urls \<Longrightarrow> urls \<noteq> [] \<and> (\<forall>url \<in> set urls. url_ok url \<and> CHR '','' \<notin> set url)"
  by (auto simp: required_urls_def split: outcome.splits dest: parse_urls_ok)

lemma optional_urls_ok:
  "optional_urls n key = Done urls \<Longrightarrow> \<forall>url \<in> set urls. url_ok url \<and> CHR '','' \<notin> set url"
  by (auto simp: optional_urls_def Let_def split: if_splits dest: parse_urls_ok)

section \<open>Properties\<close>

text \<open>
  C29: private endpoints are what they are for: once private transaction URLs are configured, a
  raw transaction is only ever sent to one of them, and once archive URLs are, state proofs are
  only ever asked of those, whatever was selected and penalised before: when they are all
  excluded or could not be connected, the call fails instead of falling back on the others.
\<close>

theorem private_endpoints_are_kept:
  assumes "cap = SendRawTransaction \<and> urls = privateTxUrls conf \<or> cap = GetProof \<and> urls = archiveUrls conf"
    and "urls \<noteq> []"
    and "used_pool (register_backends execTransport bcnTransport starts exec bcn conf pool_init) e"
    and "executionBackendFor draw cap e = (Done (x, i), e')"
  shows "x \<in> exec ` set urls"
proof -
  have "serves (\<lambda>cap. exec ` endpoints conf cap) e"
    using serves_used [OF assms(3) serves_registered] .
  from serves_selected [OF this assms(4)] assms(1,2) show ?thesis
    by (auto simp: endpoints_def)
qed

definition demo_conf :: "nat proxy_conf" where
  "demo_conf =
     \<lparr>eth2Network = Some ''mainnet'', trustedBlockRoot = 3, executionApiUrls = [''http://a'', ''wss://b''],
      beaconApiUrls = [''https://c''], logLevel = ''INFO'', logFormat = Auto, conf_maxBlockWalk = 1000,
      conf_maxWindowJumps = 500, headerStoreLen = 256, storageCacheLen = 256, codeCacheLen = 64,
      accountCacheLen = 128, conf_parallelBlockDownloads = 10, maxLightClientUpdates = 128,
      privateTxUrls = [''https://p''], archiveUrls = [], opExecutionApiUrls = [],
      syncHeaderStore = True, freezeAtSlot = 0\<rparr>"

theorem private_endpoints_are_kept_witness:
  "fst (executionBackendFor 5 SendRawTransaction
     (register_backends True True (\<lambda>_. False) id id demo_conf pool_init)) = Done (''https://p'', 3) \<and>
   (''https://p'' :: string) \<in> id ` set (privateTxUrls demo_conf)"
proof -
  let ?e = "register_backends True True (\<lambda>_. False) id id demo_conf pool_init"
  have out: "fst (executionBackendFor 5 SendRawTransaction ?e) = Done (''https://p'', 3)"
    by code_simp
  then have "executionBackendFor 5 SendRawTransaction ?e =
      (Done (''https://p'', 3), snd (executionBackendFor 5 SendRawTransaction ?e))"
    by (metis prod.collapse)
  from private_endpoints_are_kept [OF _ _ used_pool.started this, of "privateTxUrls demo_conf"] out
  show ?thesis by (simp add: demo_conf_def)
qed

text \<open>
  A configuration is read back from the JSON it is written as, every field of it, provided
  its URLs have a web scheme and no comma in them; block roots are assumed to be read back from
  their text.
\<close>

theorem load_reads_back:
  assumes "conf_ok conf" and "parse txt = Inr (conf_json root_text conf)"
    and "\<forall>r. root_fromHex (root_text r) = r"
  shows "load parse root_fromHex txt = Done conf"
proof -
  have required: "required_urls (conf_json root_text conf) ''executionApiUrls'' = Done (executionApiUrls conf)"
    "required_urls (conf_json root_text conf) ''beaconApiUrls'' = Done (beaconApiUrls conf)"
    using assms(1)
    by (simp_all add: required_urls_def index_node_def conf_json_def urls_node_def getStr_def
        parse_urls_join conf_ok_def)
  have optional: "optional_urls (conf_json root_text conf) ''privateTxUrls'' = Done (privateTxUrls conf)"
    "optional_urls (conf_json root_text conf) ''archiveUrls'' = Done (archiveUrls conf)"
    "optional_urls (conf_json root_text conf) ''opExecutionApiUrls'' = Done (opExecutionApiUrls conf)"
    using assms(1)
    by (simp_all add: optional_urls_join str_field_def field_def conf_json_def urls_node_def conf_ok_def)
  have pos: "\<not> uint (maxLightClientUpdates conf) \<le> 0"
    using assms(1) by (auto simp: conf_ok_def word_less_def)
  obtain network where network: "eth2Network conf = Some network"
    using assms(1) by (auto simp: conf_ok_def)
  show ?thesis
    using pos assms(3)
    by (simp add: load_def assms(2) required optional conf_json_fields network getStr_def)
qed

theorem load_reads_back_witness:
  "load (\<lambda>_. Inr (conf_json (\<lambda>r. replicate r CHR ''f'') demo_conf)) length ''...'' = Done demo_conf"
proof (rule load_reads_back)
  show "conf_ok demo_conf" by code_simp
  show "\<forall>r. length (replicate r CHR ''f'') = r" by (simp only: length_replicate simp_thms)
qed simp

text \<open>
  Whatever text it is given, as long as the JSON reader keeps integers within 64 bits, a
  configuration that is accepted names a network, has at least one execution and one beacon
  endpoint and nothing but web URLs, and asks for at least one light client update at a time.
\<close>

theorem load_gives_valid_conf:
  assumes "load parse root_fromHex txt = Done conf"
    and "\<forall>n key i. parse txt = Inr n \<and> field n key = Some (JInt i) \<longrightarrow> i < 2 ^ 63"
  shows "conf_ok conf"
proof -
  obtain n where n: "parse txt = Inr n" using assms(1) by (cases "parse txt") (simp_all add: load_def)
  let ?max = "int_field 128 n ''maxLightClientUpdates''"
  have "?max < 2 ^ 63"
    using assms(2) n by (auto simp: int_field_def split: option.splits jnode.splits)
  then have "0 < (if ?max \<le> 0 then 1 else of_int ?max :: u64)"
    by (auto simp: word_less_def uint_word_of_int not_le)
  with assms(1) show ?thesis
    by (auto simp: load_def n step_Done conf_ok_def Let_def
        dest!: required_urls_ok optional_urls_ok)
qed

theorem load_gives_valid_conf_witness:
  "conf_ok demo_conf"
proof (rule load_gives_valid_conf)
  show "load (\<lambda>_. Inr (conf_json (\<lambda>r. replicate r CHR ''f'') demo_conf)) length ''...'' = Done demo_conf"
    by code_simp
qed (auto simp: conf_json_def demo_conf_def urls_node_def field_def split: if_splits)

text \<open>
  A malformed configuration is reported as an error, with one exception: JSON that is valid
  but no object, such as an empty list, violates an assertion of the JSON library in the first
  required field, so that \<open>startVerifProxy\<close> takes the process down instead of returning a null
  context.
\<close>

theorem load_crashes:
  "load parse root_fromHex txt = Defect \<longleftrightarrow> (\<exists>n. parse txt = Inr n \<and> (\<nexists>kvs. n = JObject kvs))"
proof (cases "parse txt")
  case (Inl msg)
  then show ?thesis by (simp add: load_def)
next
  case (Inr n)
  have step_Defect: "step name r k = Defect \<longleftrightarrow> r = Defect \<or> (\<exists>x. r = Done x \<and> k x = Defect)"
    for name and r :: "(string, 'c) outcome" and k :: "'c \<Rightarrow> (string, 'd) outcome"
    by (cases r) simp_all
  have as_outcome: "as_outcome (r :: string + 'c) \<noteq> Defect" for r
    by (cases r) (simp_all add: as_outcome_def)
  show ?thesis
    using as_outcome Inr
    by (cases n) (auto simp: load_def step_Defect index_node_def required_urls_def optional_urls_def Let_def
        split: option.splits)
qed

end
