(* ===== verification/Evm_Backend.thy ===== *)
theory Evm_Backend
  imports Blocks
begin

text \<open>
  The state the EVM of the proxy runs on (\<open>engine/evm.nim\<close>): four procedures over the verified
  lookups, which give nothing where the engine gives an error.
\<close>

section \<open>Definitions\<close>

text \<open>\<open>(await m).valueOr: return none\<close>; being cancelled is no error value and goes on.\<close>

definition or_none :: "('b, 'a) engine_proc \<Rightarrow> ('b, 'a option) engine_proc" where
  "or_none m = valueOr (andThen m (\<lambda>x. ret (Some x))) (\<lambda>_. ret None)"

definition accProc :: "'b env \<Rightarrow> block_header \<Rightarrow> address \<Rightarrow> ('b, account option) engine_proc" where
  "accProc env header addr = or_none (getAccount env addr (number header) (stateRoot header))"

definition storageProc :: "'b env \<Rightarrow> block_header \<Rightarrow> address \<Rightarrow> u256 list \<Rightarrow> ('b, u256 list option) engine_proc" where
  "storageProc env header addr slotKeys =
     or_none (getStorageAt env addr slotKeys (number header) (stateRoot header))"

definition codeProc :: "'b env \<Rightarrow> block_header \<Rightarrow> address \<Rightarrow> ('b, byte list option) engine_proc" where
  "codeProc env header addr = or_none (getCode env addr (number header) (stateRoot header))"

definition blockHashProc :: "'b env \<Rightarrow> block_header \<Rightarrow> u64 \<Rightarrow> ('b, hash32 option) engine_proc" where
  "blockHashProc env header n = or_none (getBlockHash env header n)"

section \<open>What the EVM sees\<close>

lemma yields_or_none:
  assumes "yields I m B"
  shows "yields I (or_none m) (\<lambda>r. \<forall>x. r = Some x \<longrightarrow> B x)"
  unfolding or_none_def
  by (rule yields_valueOr, rule yields_bind [OF assms]) (simp_all add: yields_basic)

lemma or_none_total: "fst (or_none m e) \<noteq> Fail err"
  by (cases "m e"; cases "fst (m e)") (auto simp: or_none_def valueOr_def andThen_def ret_def)

text \<open>What such a procedure gives at a trusted header, and that it never fails with an error.\<close>

definition supplies ::
    "'b env \<Rightarrow> truth \<Rightarrow> ('a \<Rightarrow> bool) \<Rightarrow> (error_tuple, 'a option) outcome \<times> 'b engine \<Rightarrow> bool" where
  "supplies env w correct r \<longleftrightarrow>
     engine_ok env w (snd r) \<and> fst r \<noteq> Stuck \<and> (\<forall>err. fst r \<noteq> Fail err) \<and>
     (\<forall>x. fst r = Done (Some x) \<longrightarrow> correct x)"

lemma supplies_or_none:
  assumes "yields (engine_ok env w) m correct" and "engine_ok env w e"
  shows "supplies env w correct (or_none m e)"
  using yieldsD [OF yields_or_none [OF assms(1)] assms(2)] or_none_total [of m e]
  unfolding supplies_def by (cases "or_none m e") auto

section \<open>Properties\<close>

text \<open>
  C22: the EVM runs on the true state: at a header of the trusted chain the account, the slots and
  the code it is given are those of the header's state, and a block hash is that of the
  ancestor with that number, whatever the backends answer; where the engine cannot tell, the
  EVM is given nothing instead of an error.
\<close>

theorem evm_runs_on_true_state:
  assumes s: "sound env w" and e: "engine_ok env w e" and hdr: "hdr \<in> trusted w Optimistic"
  shows "supplies env w (\<lambda>acc. acc = account_at w (stateRoot hdr) addr) (accProc env hdr addr e) \<and>
    supplies env w (\<lambda>vs. vs = map (slot_at w (acc_storageRoot (account_at w (stateRoot hdr) addr))) slots)
      (storageProc env hdr addr slots e) \<and>
    supplies env w (\<lambda>code.
        if acc_codeHash (account_at w (stateRoot hdr) addr) = EMPTY_CODE_HASH env then code = []
        else keccak256 env code = acc_codeHash (account_at w (stateRoot hdr) addr))
      (codeProc env hdr addr e) \<and>
    supplies env w (\<lambda>h. \<exists>x \<in> trusted w Optimistic. computeBlockHash env x = h \<and> number x = n)
      (blockHashProc env hdr n e)"
proof (intro conjI)
  note c = soundD(1,2) [OF s]
  have root: "stateRoot hdr \<in> state_roots w" by (rule soundD(5) [OF s _ hdr]) simp
  show "supplies env w (\<lambda>acc. acc = account_at w (stateRoot hdr) addr) (accProc env hdr addr e)"
    unfolding accProc_def using hoare_getAccount [OF c, of addr "number hdr" "stateRoot hdr"] root
    by (intro supplies_or_none [OF _ e]) (simp add: yields_def true_account_def)
  have "yields (engine_ok env w) (getStorageAt env addr slots (number hdr) (stateRoot hdr))
      (\<lambda>vs. vs = map (slot_at w (acc_storageRoot (account_at w (stateRoot hdr) addr))) slots)"
    by (rule yields_mono [OF hoare_getStorageAt [OF c, folded yields_def]])
      (use root in \<open>auto simp: true_slot_def intro!: nth_equalityI\<close>)
  then show "supplies env w (\<lambda>vs. vs = map (slot_at w (acc_storageRoot (account_at w (stateRoot hdr) addr))) slots)
      (storageProc env hdr addr slots e)"
    unfolding storageProc_def by (rule supplies_or_none [OF _ e])
  show "supplies env w (\<lambda>code.
        if acc_codeHash (account_at w (stateRoot hdr) addr) = EMPTY_CODE_HASH env then code = []
        else keccak256 env code = acc_codeHash (account_at w (stateRoot hdr) addr))
      (codeProc env hdr addr e)"
    unfolding codeProc_def using hoare_getCode [OF c, of addr "number hdr" "stateRoot hdr"] root
    by (intro supplies_or_none [OF _ e]) (simp add: yields_def)
  have "yields (engine_ok env w) (getBlockHash env hdr n)
      (\<lambda>h. \<exists>x \<in> trusted w Optimistic. computeBlockHash env x = h \<and> number x = n)"
    using yields_getBlockHash [OF s _ hdr, of n] by (simp add: genuine_at_def)
  then show "supplies env w (\<lambda>h. \<exists>x \<in> trusted w Optimistic. computeBlockHash env x = h \<and> number x = n)
      (blockHashProc env hdr n e)"
    unfolding blockHashProc_def by (rule supplies_or_none [OF _ e])
qed

theorem evm_runs_on_true_state_witness:
  "fst (blockHashProc chain_env (chain_hdr 10) 10 (chain_engine 10)) = Done (Some 10) \<and>
   (\<exists>x \<in> trusted chain_truth Optimistic. computeBlockHash chain_env x = 10 \<and> number x = 10)"
proof -
  have "fst (blockHashProc chain_env (chain_hdr 10) 10 (chain_engine 10)) = Done (Some 10)" by code_simp
  moreover have "chain_hdr 10 \<in> trusted chain_truth Optimistic" by (simp add: chain_truth_def)
  ultimately show ?thesis
    using evm_runs_on_true_state [OF sound_chain engine_ok_chain [of 10], of "chain_hdr 10" _ _ 10]
    unfolding supplies_def by blast
qed

end
