(* ===== verification/Receipts.thy ===== *)
theory Receipts
  imports Blocks
begin

text \<open>
  Receipts and logs (\<open>engine/receipts.nim\<close>, \<open>match\<close> of \<open>execution_chain/rpc/filters.nim\<close>): the
  receipts of a block are put into a trie whose root is compared with the header's; a log is
  looked up in the receipts of the block it names. The lemmas say what is known of the receipts
  and logs that are returned; the findings say what is not.
\<close>

section \<open>Conversions\<close>

definition toLog :: "log_object \<Rightarrow> eth_log" where
  "toLog lg = \<lparr>log_address = lo_address lg, log_topics = lo_topics lg, log_data = lo_data lg\<rparr>"

definition toLogs :: "log_object list \<Rightarrow> eth_log list" where
  "toLogs logs = map toLog logs"

text \<open>The conversion of the type to the enumeration is checked, as that of a transaction.\<close>

definition toReceipt :: "receipt_object \<Rightarrow> (error_tuple, receipt) outcome" where
  "toReceipt rec =
     (let isHash = ro_status rec = None;
          status = (ro_status rec \<noteq> None \<and> the (ro_status rec) = 1)
      in case tx_type_of (orElse (ro_type rec) 0) of
           None \<Rightarrow> Defect
         | Some ty \<Rightarrow> Done
             \<lparr>rc_hash = ro_transactionHash rec, rc_isHash = isHash, rc_status = status,
              rc_cumulativeGasUsed = ro_cumulativeGasUsed rec, rc_logs = toLogs (ro_logs rec),
              rc_logsBloom = ro_logsBloom rec, receiptType = ty\<rparr>)"

fun toReceipts :: "receipt_object list \<Rightarrow> (error_tuple, receipt list) outcome" where
  "toReceipts [] = Done []"
| "toReceipts (rec # recs) =
     bind_outcome (toReceipt rec) (\<lambda>r. bind_outcome (toReceipts recs) (\<lambda>rs. Done (r # rs)))"

section \<open>Matching a log\<close>

text \<open>An index past the end is an \<open>IndexDefect\<close>; the loop over a list of topics stops at a hit.\<close>

fun any_topic :: "hash32 list \<Rightarrow> nat \<Rightarrow> hash32 list \<Rightarrow> (error_tuple, bool) outcome" where
  "any_topic topics i [] = Done False"
| "any_topic topics i (topic # rest) =
     (if length topics \<le> i then Defect
      else if topics ! i = topic then Done True
      else any_topic topics i rest)"

fun matchTopic :: "hash32 list \<Rightarrow> nat \<Rightarrow> hash32 single_or_list \<Rightarrow> (error_tuple, bool) outcome" where
  "matchTopic topics i SlkNull = Done True"
| "matchTopic topics i (SlkSingle t) =
     (if length topics \<le> i then Defect else Done (topics ! i = t))"
| "matchTopic topics i (SlkList ts) =
     bind_outcome (any_topic topics i ts) (\<lambda>hit. Done (ts = [] \<or> hit))"

fun matchTopics :: "hash32 list \<Rightarrow> nat \<Rightarrow> hash32 single_or_list list \<Rightarrow> (error_tuple, bool) outcome" where
  "matchTopics topics i [] = Done True"
| "matchTopics topics i (sub # subs) =
     bind_outcome (matchTopic topics i sub) (\<lambda>hit.
       if \<not> hit then Done False else matchTopics topics (Suc i) subs)"

fun refuses_address :: "address single_or_list \<Rightarrow> address \<Rightarrow> bool" where
  "refuses_address SlkNull a = False"
| "refuses_address (SlkSingle x) a = (x \<noteq> a)"
| "refuses_address (SlkList xs) a = (0 < length xs \<and> a \<notin> set xs)"

definition match_log ::
    "eth_log \<Rightarrow> address single_or_list \<Rightarrow> hash32 single_or_list list \<Rightarrow> (error_tuple, bool) outcome" where
  "match_log l addresses topics =
     (if refuses_address addresses (log_address l) then Done False
      else if length (log_topics l) < length topics then Done False
      else matchTopics (log_topics l) 0 topics)"

section \<open>Receipts of a block\<close>

definition getReceipts_header ::
    "'b env \<Rightarrow> block_header \<Rightarrow> block_tag \<Rightarrow> ('b, receipt_object list) engine_proc" where
  "getReceipts_header env header blockTag =
     andThen (ask env GetBlockReceipts (\<lambda>b. be_getBlockReceipts b blockTag)) (\<lambda>(rxs, idx).
       case rxs of
         Some rs \<Rightarrow>
           andThen (ofOutcome (toReceipts rs)) (\<lambda>receipts.
             if receiptsTrieRoot env receipts \<noteq> receiptsRoot header then
               backend_fail VerificationError
                 ''downloaded receipts do not evaluate to the receipts root of the block'' idx
             else ret rs)
       | None \<Rightarrow> backend_fail BackendFetchError ''error downloading the receipts'' idx)"

definition getReceipts_tag :: "'b env \<Rightarrow> block_tag \<Rightarrow> ('b, receipt_object list) engine_proc" where
  "getReceipts_tag env blockTag =
     andThen (getVerifiedHeader env blockTag None) (\<lambda>header.
       getReceipts_header env header (BidNumber (number header)))"

definition getReceipts_hash :: "'b env \<Rightarrow> hash32 \<Rightarrow> ('b, receipt_object list) engine_proc" where
  "getReceipts_hash env blockHash =
     andThen (getVerifiedHeader env (BidHash blockHash False) None) (\<lambda>header.
       getReceipts_header env header (BidNumber (number header)))"

section \<open>Logs\<close>

fun is_hash_tag :: "block_tag \<Rightarrow> bool" where
  "is_hash_tag (BidHash h c) = True"
| "is_hash_tag tag = False"

definition resolveFilterTags :: "'b env \<Rightarrow> filter_options \<Rightarrow> ('b, filter_options) engine_proc" where
  "resolveFilterTags env fo =
     (if fo_blockHash fo \<noteq> None then ret fo
      else
        let fromBlock = orElse (fo_fromBlock fo) (BidAlias ''latest'');
            toBlock = orElse (fo_toBlock fo) (BidAlias ''latest'')
        in if is_hash_tag fromBlock \<or> is_hash_tag toBlock then
             engine_fail InvalidDataError ''a log filter range cannot be bounded by a block hash''
           else
             andThen snapshotAnchors (\<lambda>anchors.
             andThen (getVerifiedHeader env fromBlock (Some anchors)) (\<lambda>fromHeader.
             andThen (getVerifiedHeader env toBlock (Some anchors)) (\<lambda>toHeader.
               ret \<lparr>fo_fromBlock = Some (BidNumber (number fromHeader)),
                    fo_toBlock = Some (BidNumber (number toHeader)),
                    fo_address = fo_address fo, fo_topics = fo_topics fo,
                    fo_blockHash = fo_blockHash fo\<rparr>))))"

text \<open>The log of the receipts at a log's own indices, relative to the first log of the receipt.\<close>

definition receiptLog :: "receipt_object list \<Rightarrow> u64 \<Rightarrow> u64 \<Rightarrow> (error_tuple, log_object) outcome" where
  "receiptLog rxs txIdx logIndex =
     (if length rxs \<le> unat txIdx then Defect
      else let logs = ro_logs (rxs ! unat txIdx) in
        case logs of
          [] \<Rightarrow> Defect
        | first # _ \<Rightarrow>
            (case lo_logIndex first of
               None \<Rightarrow> Defect
             | Some base \<Rightarrow>
                 let logIdx = logIndex - base in
                 if length logs \<le> unat logIdx then Defect else Done (logs ! unat logIdx)))"

text \<open>The number of a bound; of one that is absent or no number it is a \<open>Defect\<close>.\<close>

fun bound_number :: "block_tag option \<Rightarrow> (error_tuple, u64) outcome" where
  "bound_number (Some (BidNumber n)) = Done n"
| "bound_number _ = Defect"

definition inFilterRange :: "filter_options \<Rightarrow> hash32 \<Rightarrow> log_object \<Rightarrow> (error_tuple, bool) outcome" where
  "inFilterRange fo blockHash lg =
     (case fo_blockHash fo of
        Some h \<Rightarrow> Done (blockHash = h)
      | None \<Rightarrow>
          (case lo_blockNumber lg of
             None \<Rightarrow> Fail (engine_err VerificationError ''a returned log has no block number'')
           | Some n \<Rightarrow>
               bind_outcome (bound_number (fo_fromBlock fo)) (\<lambda>lo.
                 if lo \<le> n then bind_outcome (bound_number (fo_toBlock fo)) (\<lambda>hi. Done (n \<le> hi))
                 else Done False)))"

text \<open>The condition of the last \<open>if\<close>, whose operands are evaluated from left to right.\<close>

definition log_agrees ::
    "filter_options \<Rightarrow> log_object \<Rightarrow> log_object \<Rightarrow> bool \<Rightarrow> (error_tuple, bool) outcome" where
  "log_agrees fo rxLog lg inRange =
     (if lo_address rxLog \<noteq> lo_address lg \<or> lo_data rxLog \<noteq> lo_data lg \<or>
         lo_topics rxLog \<noteq> lo_topics lg \<or> \<not> inRange then Done False
      else match_log (toLog lg) (fo_address fo) (fo_topics fo))"

definition checkLog ::
    "filter_options \<Rightarrow> receipt_object list \<Rightarrow> hash32 \<Rightarrow> u64 \<Rightarrow> u64 \<Rightarrow> log_object \<Rightarrow> (error_tuple, unit) outcome" where
  "checkLog fo rxs blockHash txIdx logIndex lg =
     bind_outcome (receiptLog rxs txIdx logIndex) (\<lambda>rxLog.
     bind_outcome (inFilterRange fo blockHash lg) (\<lambda>inRange.
     bind_outcome (log_agrees fo rxLog lg inRange) (\<lambda>ok.
       if ok then Done ()
       else Fail (engine_err VerificationError ''one of the returned logs is invalid''))))"

text \<open>The loop of \<open>verifyLogs\<close>: the receipts last downloaded serve the logs of the same block.\<close>

fun verify_loop ::
    "'b env \<Rightarrow> filter_options \<Rightarrow> hash32 \<Rightarrow> receipt_object list \<Rightarrow> log_object list \<Rightarrow> ('b, unit) engine_proc" where
  "verify_loop env fo prevBlockHash rxs [] = ret ()"
| "verify_loop env fo prevBlockHash rxs (lg # logObjs) =
     (case (lo_blockHash lg, lo_transactionIndex lg, lo_logIndex lg) of
        (Some h, Some txIdx, Some logIndex) \<Rightarrow>
          andThen (if prevBlockHash \<noteq> h
                   then andThen (getReceipts_hash env h) (\<lambda>rs. ret (rs, h))
                   else ret (rxs, prevBlockHash)) (\<lambda>(rs, prev).
          andThen (ofOutcome (checkLog fo rs h txIdx logIndex lg)) (\<lambda>_.
            verify_loop env fo prev rs logObjs))
      | _ \<Rightarrow> verify_loop env fo prevBlockHash rxs logObjs)"

definition verifyLogs :: "'b env \<Rightarrow> filter_options \<Rightarrow> log_object list \<Rightarrow> ('b, unit) engine_proc" where
  "verifyLogs env fo logObjs = verify_loop env fo 0 [] logObjs"

definition getLogs :: "'b env \<Rightarrow> filter_options \<Rightarrow> ('b, log_object list) engine_proc" where
  "getLogs env fo =
     andThen (resolveFilterTags env fo) (\<lambda>resolvedFilter.
     andThen (ask env GetLogs (\<lambda>b. be_getLogs b resolvedFilter)) (\<lambda>(logObjs, idx).
     andThen (tagged idx (verifyLogs env resolvedFilter logObjs)) (\<lambda>_.
       ret logObjs)))"

section \<open>What matching decides\<close>

text \<open>
  The meaning of a filter: its addresses and topics are wildcards, single values or
  alternatives, and the topics constrain a prefix of the log's.
\<close>

fun allows :: "'a single_or_list \<Rightarrow> 'a \<Rightarrow> bool" where
  "allows SlkNull x \<longleftrightarrow> True"
| "allows (SlkSingle y) x \<longleftrightarrow> x = y"
| "allows (SlkList ys) x \<longleftrightarrow> ys = [] \<or> x \<in> set ys"

definition passes :: "filter_options \<Rightarrow> eth_log \<Rightarrow> bool" where
  "passes fo l \<longleftrightarrow>
     allows (fo_address fo) (log_address l) \<and>
     length (fo_topics fo) \<le> length (log_topics l) \<and>
     list_all2 allows (fo_topics fo) (take (length (fo_topics fo)) (log_topics l))"

lemma refuses_address: "refuses_address f a \<longleftrightarrow> \<not> allows f a"
  by (cases f) auto

lemma any_topic_eq: "i < length topics \<Longrightarrow> any_topic topics i ts = Done (topics ! i \<in> set ts)"
  by (induction ts) auto

lemma matchTopic_eq: "i < length topics \<Longrightarrow> matchTopic topics i sub = Done (allows sub (topics ! i))"
  by (cases sub) (simp_all add: any_topic_eq)

lemma matchTopics_eq:
  "i + length subs \<le> length topics \<Longrightarrow>
   matchTopics topics i subs = Done (list_all2 allows subs (take (length subs) (drop i topics)))"
proof (induction subs arbitrary: i)
  case (Cons sub subs)
  then have i: "i < length topics" by simp
  then have "drop i topics = topics ! i # drop (Suc i) topics" by (simp add: Cons_nth_drop_Suc)
  with Cons i show ?case by (simp add: matchTopic_eq)
qed simp

lemma match_log_eq: "match_log l (fo_address fo) (fo_topics fo) = Done (passes fo l)"
  by (simp add: match_log_def passes_def refuses_address matchTopics_eq not_less)

section \<open>What is known of receipts and logs\<close>

text \<open>Receipts that evaluate to the receipts root of a header.\<close>

definition verified_receipts :: "'b env \<Rightarrow> block_header \<Rightarrow> receipt_object list \<Rightarrow> bool" where
  "verified_receipts env hdr rxs \<longleftrightarrow>
     (\<exists>recs. toReceipts rxs = Done recs \<and> receiptsTrieRoot env recs = receiptsRoot hdr)"

text \<open>A header commits to a log of its \<open>t\<close>-th transaction.\<close>

definition commits :: "'b env \<Rightarrow> block_header \<Rightarrow> nat \<Rightarrow> eth_log \<Rightarrow> bool" where
  "commits env hdr t l \<longleftrightarrow>
     (\<exists>recs. receiptsTrieRoot env recs = receiptsRoot hdr \<and> t < length recs \<and> l \<in> set (rc_logs (recs ! t)))"

definition in_range :: "filter_options \<Rightarrow> hash32 \<Rightarrow> log_object \<Rightarrow> bool" where
  "in_range fo h lg \<longleftrightarrow>
     (case fo_blockHash fo of
        Some h' \<Rightarrow> h = h'
      | None \<Rightarrow> \<exists>n lo hi. lo_blockNumber lg = Some n \<and> lo \<le> n \<and> n \<le> hi \<and>
          fo_fromBlock fo = Some (BidNumber lo) \<and> fo_toBlock fo = Some (BidNumber hi))"

definition placed :: "log_object \<Rightarrow> bool" where
  "placed lg \<longleftrightarrow> lo_blockHash lg \<noteq> None \<and> lo_transactionIndex lg \<noteq> None \<and> lo_logIndex lg \<noteq> None"

text \<open>
  What the check of a log establishes, if the log says where it is: a header with the hash it
  names commits to it, it passes the filter and claims a place in the range.
\<close>

definition log_ok :: "'b env \<Rightarrow> filter_options \<Rightarrow> log_object \<Rightarrow> bool" where
  "log_ok env fo lg \<longleftrightarrow>
     (placed lg \<longrightarrow>
        passes fo (toLog lg) \<and> in_range fo (the (lo_blockHash lg)) lg \<and>
        (\<exists>hdr. computeBlockHash env hdr = the (lo_blockHash lg) \<and>
           commits env hdr (unat (the (lo_transactionIndex lg))) (toLog lg)))"

lemma toReceipt_ends [simp]:
  "toReceipt r \<noteq> Stuck" "toReceipt r \<noteq> Cancelled" "toReceipt r \<noteq> Fail e"
  "toReceipt r = Defect \<longleftrightarrow> tx_type_of (orElse (ro_type r) 0) = None"
  by (simp_all add: toReceipt_def Let_def split: option.splits)

lemma toReceipt_logs: "toReceipt r = Done rec \<Longrightarrow> rc_logs rec = toLogs (ro_logs r)"
  by (auto simp: toReceipt_def Let_def split: option.splits)

lemma toReceipts_Done: "toReceipts rxs = Done recs \<longleftrightarrow> list_all2 (\<lambda>r rec. toReceipt r = Done rec) rxs recs"
  by (induction rxs arbitrary: recs) (auto simp: bind_outcome_Done list_all2_Cons1)

lemma toReceipts_not_Stuck [simp]: "toReceipts rxs \<noteq> Stuck"
  by (induction rxs) (simp_all add: bind_outcome_Stuck)

lemma verified_receipts_commit:
  assumes "verified_receipts env hdr rxs" and "t < length rxs" and "l \<in> set (ro_logs (rxs ! t))"
  shows "commits env hdr t (toLog l)"
proof -
  obtain recs where r: "list_all2 (\<lambda>r rec. toReceipt r = Done rec) rxs recs"
      "receiptsTrieRoot env recs = receiptsRoot hdr"
    using assms(1) by (auto simp: verified_receipts_def toReceipts_Done)
  then have "t < length recs" "toReceipt (rxs ! t) = Done (recs ! t)"
    using assms(2) by (auto simp: list_all2_conv_all_nth)
  with r(2) assms(3) show ?thesis
    by (auto simp: commits_def toReceipt_logs toLogs_def intro!: exI [of _ recs])
qed

lemma receiptLog_Done:
  assumes "receiptLog rxs t i = Done l"
  shows "unat t < length rxs \<and> l \<in> set (ro_logs (rxs ! unat t))"
proof -
  have t: "unat t < length rxs" using assms by (simp add: receiptLog_def not_le split: if_splits)
  with assms obtain first logs base where logs: "ro_logs (rxs ! unat t) = first # logs" and
      "lo_logIndex first = Some base"
    by (auto simp: receiptLog_def Let_def split: list.splits option.splits)
  with assms t have "unat (i - base) < length (ro_logs (rxs ! unat t))"
      "l = ro_logs (rxs ! unat t) ! unat (i - base)"
    by (simp_all add: receiptLog_def Let_def not_le split: if_splits)
  with t show ?thesis by simp
qed

lemma bound_number_Done: "bound_number b = Done n \<longleftrightarrow> b = Some (BidNumber n)"
  by (induction b rule: bound_number.induct) auto

lemma inFilterRange_Done: "inFilterRange fo h lg = Done True \<longleftrightarrow> in_range fo h lg"
  by (auto simp: inFilterRange_def in_range_def bind_outcome_Done bound_number_Done split: option.splits)

lemma log_agrees_eq:
  "log_agrees fo rxLog lg inRange = Done (toLog rxLog = toLog lg \<and> inRange \<and> passes fo (toLog lg))"
  by (auto simp: log_agrees_def match_log_eq toLog_def)

lemma checkLog_Done:
  assumes "checkLog fo rxs h t i lg = Done ()"
  shows "unat t < length rxs \<and> toLog lg \<in> toLog ` set (ro_logs (rxs ! unat t)) \<and>
    in_range fo h lg \<and> passes fo (toLog lg)"
proof -
  obtain rxLog inRange where l: "receiptLog rxs t i = Done rxLog" "inFilterRange fo h lg = Done inRange"
      "toLog rxLog = toLog lg" "inRange" "passes fo (toLog lg)"
    using assms by (auto simp: checkLog_def bind_outcome_Done log_agrees_eq split: if_splits)
  with receiptLog_Done [OF l(1)] show ?thesis by (auto simp: inFilterRange_Done intro: image_eqI [of _ _ rxLog])
qed

lemma ends_not_Stuck [simp]:
  "receiptLog rxs t i \<noteq> Stuck" "bound_number b \<noteq> Stuck" "inFilterRange fo h lg \<noteq> Stuck"
  "log_agrees fo rxLog lg r \<noteq> Stuck" "checkLog fo rxs h t i lg \<noteq> Stuck"
proof -
  show b: "bound_number b \<noteq> Stuck" for b by (induction b rule: bound_number.induct) auto
  show l: "receiptLog rxs t i \<noteq> Stuck" for rxs
    by (simp add: receiptLog_def Let_def split: list.split option.split)
  show r: "inFilterRange fo h lg \<noteq> Stuck"
    by (auto simp: inFilterRange_def bind_outcome_Stuck b split: option.split)
  show a: "log_agrees fo rxLog lg r \<noteq> Stuck" for rxLog r by (simp add: log_agrees_eq)
  show "checkLog fo rxs h t i lg \<noteq> Stuck"
    by (simp add: checkLog_def bind_outcome_Stuck l r a)
qed

section \<open>Triples\<close>

lemma yields_getReceipts_header:
  assumes "calm env w"
  shows "yields (engine_ok env w) (getReceipts_header env hdr tag) (verified_receipts env hdr)"
  unfolding getReceipts_header_def split_def
  apply (rule yields_bind [OF yields_ask [OF assms]], rule yields_case_option)
   apply (rule yields_engine)
  subgoal for x rs
    by (rule yields_bind [OF yields_ofOutcome [where B = "\<lambda>recs. toReceipts rs = Done recs"]])
      (auto intro!: yields_if yields_engine yields_basic simp: verified_receipts_def)
  done

lemma yields_getVerifiedHeader:
  assumes "sound env w" and "\<And>a. snapshot = Some a \<Longrightarrow> anchors_ok env w a"
  shows "yields (engine_ok env w) (getVerifiedHeader env tag snapshot) (answers env w snapshot tag)"
  using header_kind.getVerified_answers [OF assms] by (simp add: getVerifiedHeader_def)

lemma yields_getReceipts_tag:
  assumes "sound env w"
  shows "yields (engine_ok env w) (getReceipts_tag env tag)
    (\<lambda>rxs. \<exists>hdr. answers env w None tag hdr \<and> verified_receipts env hdr rxs)"
  unfolding getReceipts_tag_def
  by (rule yields_bind [OF yields_getVerifiedHeader [OF assms]], simp)
    (rule yields_mono [OF yields_getReceipts_header [OF soundD(1) [OF assms]]], blast)

lemma yields_getReceipts_hash:
  assumes "sound env w"
  shows "yields (engine_ok env w) (getReceipts_hash env h)
    (\<lambda>rxs. \<exists>hdr. computeBlockHash env hdr = h \<and> verified_receipts env hdr rxs)"
  unfolding getReceipts_hash_def
  by (rule yields_bind [OF yields_getVerifiedHeader [OF assms]], simp)
    (rule yields_mono [OF yields_getReceipts_header [OF soundD(1) [OF assms]]], auto)

text \<open>The receipts at hand are those of the last block, or there are none yet.\<close>

definition cached_receipts :: "'b env \<Rightarrow> hash32 \<Rightarrow> receipt_object list \<Rightarrow> bool" where
  "cached_receipts env prev rxs \<longleftrightarrow>
     rxs = [] \<or> (\<exists>hdr. computeBlockHash env hdr = prev \<and> verified_receipts env hdr rxs)"

lemma checkLog_log_ok:
  assumes "cached_receipts env h rs" and "checkLog fo rs h t i lg = Done ()"
    and "lo_blockHash lg = Some h" and "lo_transactionIndex lg = Some t"
  shows "log_ok env fo lg"
proof -
  from checkLog_Done [OF assms(2)]
  obtain l where l: "unat t < length rs" "toLog lg = toLog l" "l \<in> set (ro_logs (rs ! unat t))"
      "in_range fo h lg" "passes fo (toLog lg)" by auto
  with assms(1) obtain hdr where "computeBlockHash env hdr = h" "verified_receipts env hdr rs"
    by (auto simp: cached_receipts_def)
  with l verified_receipts_commit [of env hdr rs "unat t" l] assms(3,4) show ?thesis
    by (auto simp: log_ok_def)
qed

lemma yields_verify_loop:
  assumes "sound env w"
  shows "cached_receipts env prev rxs \<Longrightarrow>
    yields (engine_ok env w) (verify_loop env fo prev rxs logs) (\<lambda>_. \<forall>lg \<in> set logs. log_ok env fo lg)"
proof (induction logs arbitrary: prev rxs)
  case Nil
  then show ?case by (simp add: yields_basic)
next
  case (Cons lg logs)
  show ?case
  proof (cases "placed lg")
    case False
    then have "log_ok env fo lg" by (simp add: log_ok_def)
    with False Cons.IH [OF Cons.prems] show ?thesis
      by (auto simp: placed_def split: option.split)
  next
    case True
    then obtain h t i where at: "lo_blockHash lg = Some h" "lo_transactionIndex lg = Some t" "lo_logIndex lg = Some i"
      by (auto simp: placed_def)
    have fetch: "yields (engine_ok env w)
        (if prev \<noteq> h then andThen (getReceipts_hash env h) (\<lambda>rs. ret (rs, h)) else ret (rxs, prev))
        (\<lambda>(rs, p). p = h \<and> cached_receipts env h rs)"
      using Cons.prems
      by (intro yields_if yields_bind [OF yields_getReceipts_hash [OF assms]] yields_basic)
        (auto simp: cached_receipts_def)
    have step: "yields (engine_ok env w)
        (andThen (ofOutcome (checkLog fo rs h t i lg)) (\<lambda>_. verify_loop env fo p rs logs))
        (\<lambda>_. \<forall>lg \<in> set (lg # logs). log_ok env fo lg)" if "p = h \<and> cached_receipts env h rs" for rs p
      using that checkLog_log_ok [OF _ _ at(1,2), of env rs fo i]
      by (intro yields_bind [OF yields_ofOutcome [where B = "\<lambda>_. checkLog fo rs h t i lg = Done ()"]])
        (auto intro: yields_mono [OF Cons.IH])
    show ?thesis
      unfolding verify_loop.simps at option.case prod.case
      by (rule yields_bind [OF fetch], rule yields_case_prod) (use step in auto)
  qed
qed

text \<open>
  Resolving the tags of a filter keeps what it selects; the range becomes the numbers of the
  headers that answer its tags, by default the latest, all under the same anchors.
\<close>

definition resolved :: "'b env \<Rightarrow> truth \<Rightarrow> filter_options \<Rightarrow> filter_options \<Rightarrow> bool" where
  "resolved env w fo fo' \<longleftrightarrow>
     fo_address fo' = fo_address fo \<and> fo_topics fo' = fo_topics fo \<and> fo_blockHash fo' = fo_blockHash fo \<and>
     (if fo_blockHash fo \<noteq> None then fo' = fo
      else \<exists>anchors lo hi. anchors_ok env w anchors \<and>
        answers env w (Some anchors) (orElse (fo_fromBlock fo) (BidAlias ''latest'')) lo \<and>
        answers env w (Some anchors) (orElse (fo_toBlock fo) (BidAlias ''latest'')) hi \<and>
        fo_fromBlock fo' = Some (BidNumber (number lo)) \<and> fo_toBlock fo' = Some (BidNumber (number hi)))"

lemma resolved_passes: "resolved env w fo fo' \<Longrightarrow> passes fo' l = passes fo l"
  by (simp add: resolved_def passes_def)

lemma yields_resolveFilterTags:
  assumes "sound env w"
  shows "yields (engine_ok env w) (resolveFilterTags env fo) (resolved env w fo)"
proof (cases "fo_blockHash fo = None")
  case False
  then show ?thesis by (simp add: resolveFilterTags_def resolved_def yields_basic)
next
  case True
  let ?lo = "orElse (fo_fromBlock fo) (BidAlias ''latest'')" and ?hi = "orElse (fo_toBlock fo) (BidAlias ''latest'')"
  have "yields (engine_ok env w)
      (andThen snapshotAnchors (\<lambda>anchors.
       andThen (getVerifiedHeader env ?lo (Some anchors)) (\<lambda>fromHeader.
       andThen (getVerifiedHeader env ?hi (Some anchors)) (\<lambda>toHeader.
         ret \<lparr>fo_fromBlock = Some (BidNumber (number fromHeader)),
              fo_toBlock = Some (BidNumber (number toHeader)), fo_address = fo_address fo,
              fo_topics = fo_topics fo, fo_blockHash = fo_blockHash fo\<rparr>))))
      (resolved env w fo)"
    apply (rule yields_bind [OF yields_snapshotAnchors])
    apply (rule yields_bind [OF yields_getVerifiedHeader [OF assms]], simp)
    apply (rule yields_bind [OF yields_getVerifiedHeader [OF assms]], simp)
    apply (rule yields_basic)
    using True by (auto simp: resolved_def)
  with True show ?thesis
    by (auto simp: resolveFilterTags_def Let_def intro!: yields_if yields_engine)
qed

lemma yields_verifyLogs:
  "sound env w \<Longrightarrow>
   yields (engine_ok env w) (verifyLogs env fo logs) (\<lambda>_. \<forall>lg \<in> set logs. log_ok env fo lg)"
  unfolding verifyLogs_def by (rule yields_verify_loop) (simp_all add: cached_receipts_def)

definition logs_ok :: "'b env \<Rightarrow> truth \<Rightarrow> filter_options \<Rightarrow> log_object list \<Rightarrow> bool" where
  "logs_ok env w fo logs \<longleftrightarrow> (\<exists>fo'. resolved env w fo fo' \<and> (\<forall>lg \<in> set logs. log_ok env fo' lg))"

lemma yields_getLogs:
  assumes "sound env w"
  shows "yields (engine_ok env w) (getLogs env fo) (logs_ok env w fo)"
  unfolding getLogs_def split_def
  apply (rule yields_bind [OF yields_resolveFilterTags [OF assms]])
  apply (rule yields_bind [OF yields_ask [OF soundD(1) [OF assms]]])
  apply (rule yields_bind [OF yields_tagged [OF yields_verifyLogs [OF assms]]])
  by (rule yields_basic) (auto simp: logs_ok_def)

section \<open>Receipts to try things on\<close>

text \<open>
  The chain with a receipts trie whose root is zero, the root in its headers, for the receipts
  below and seven for all others; and a block that is not of the chain, with root seven.
\<close>

lemma sound_receiptsTrieRoot [simp]: "sound (env\<lparr>receiptsTrieRoot := f\<rparr>) w = sound env w"
  by (simp add: sound_def calm_def engine_ok_def proofs_sound_def chain_sound_def genuine_at_def
      trie_key_def EMPTY_ACCOUNT_def)

lemma engine_ok_receiptsTrieRoot [simp]: "engine_ok (env\<lparr>receiptsTrieRoot := f\<rparr>) w e = engine_ok env w e"
  by (simp add: engine_ok_def)

definition demo_log :: "hash32 \<Rightarrow> log_object" where
  "demo_log h =
     \<lparr>lo_logIndex = Some 0, lo_transactionIndex = Some 0, lo_transactionHash = Some 5,
      lo_blockHash = Some h, lo_blockNumber = Some 10, lo_address = 11, lo_data = [1], lo_topics = [2, 3]\<rparr>"

definition demo_receipt :: "hash32 \<Rightarrow> receipt_object" where
  "demo_receipt h =
     \<lparr>ro_transactionHash = 5, ro_transactionIndex = 0, ro_blockHash = h, ro_blockNumber = 10, ro_from = 0,
      ro_to = None, ro_contractAddress = None, ro_gasUsed = 0, ro_effectiveGasPrice = 0,
      ro_cumulativeGasUsed = 0, ro_logs = [demo_log h], ro_logsBloom = 0, ro_type = None, ro_status = Some 1\<rparr>"

definition fake_log :: log_object where
  "fake_log = (demo_log (- 1))\<lparr>lo_data := [99]\<rparr>"

definition fake_receipt :: receipt_object where
  "fake_receipt = (demo_receipt (- 1))\<lparr>ro_logs := [fake_log]\<rparr>"

definition fake_block :: block_object where
  "fake_block = (chain_block 10)\<lparr>blk_hash := - 1, blk_receiptsRoot := 7\<rparr>"

definition receipts_env :: "unit env" where
  "receipts_env = chain_env
     \<lparr>receiptsTrieRoot := (\<lambda>rs. if map rc_logs rs = [toLogs [demo_log 10]] then 0 else 7)\<rparr>"

definition receipts_api :: "bool \<Rightarrow> execution_api" where
  "receipts_api honest = chain_api
     \<lparr>be_getBlockByHash := (\<lambda>h full t. Some (Inr (if h = - 1 then fake_block else chain_block (ucast h)))),
      be_getBlockReceipts := (\<lambda>tag t. Some (Inr (Some [if honest then demo_receipt 10 else fake_receipt]))),
      be_getTransactionReceipt := (\<lambda>h t. Some (Inr (Some (if honest then demo_receipt 10 else fake_receipt)))),
      be_getLogs := (\<lambda>fo t. Some (Inr [if honest then demo_log 10 else fake_log]))\<rparr>"

definition receipts_engine :: "bool \<Rightarrow> unit engine" where
  "receipts_engine honest = (chain_engine 10)\<lparr>executionBackends := [0 \<mapsto> receipts_api honest]\<rparr>"

definition demo_filter :: filter_options where
  "demo_filter =
     \<lparr>fo_fromBlock = None, fo_toBlock = None, fo_address = SlkSingle 11,
      fo_topics = [SlkNull, SlkList [3, 4]], fo_blockHash = None\<rparr>"

lemma sound_receipts: "sound receipts_env chain_truth"
  by (simp add: receipts_env_def sound_chain)

lemma pool_ok_backends:
  "pool_ok (e\<lparr>executionBackends := [0 \<mapsto> api]\<rparr>)" if "pool_ok e" "executionBackends e = [0 \<mapsto> api']"
  using that by (simp add: pool_ok_def)

lemma engine_ok_receipts: "engine_ok receipts_env chain_truth (receipts_engine honest)"
proof -
  have c: "engine_ok chain_env chain_truth (chain_engine 10)" by (rule engine_ok_chain)
  moreover have "pool_ok (receipts_engine honest)"
    unfolding receipts_engine_def
    by (rule pool_ok_backends [OF engine_okD(1) [OF c]]) (simp add: chain_engine_def demo_engine_def)
  ultimately show ?thesis
    by (simp add: receipts_env_def) (simp add: engine_ok_def receipts_engine_def)
qed

lemma fake_hash: "computeBlockHash receipts_env hdr \<noteq> - 1" if "hdr \<in> trusted chain_truth Optimistic"
  using that ucast_not_minus_one by (auto simp: chain_truth_def receipts_env_def chain_env_def)

section \<open>Properties\<close>

text \<open>
  C19: whatever the backends answer, the receipts returned for a block tag evaluate to the receipts
  root of a header that answers the tag; so for an alias or a number they are those of a block
  the light client's anchors vouch for.
\<close>

theorem getReceipts_evaluate_to_root:
  assumes "sound env w" and "engine_ok env w e"
  shows "engine_ok env w (snd (getReceipts_tag env tag e)) \<and> fst (getReceipts_tag env tag e) \<noteq> Stuck \<and>
    (\<forall>rxs. fst (getReceipts_tag env tag e) = Done rxs \<longrightarrow>
      (\<exists>hdr recs. answers env w None tag hdr \<and> toReceipts rxs = Done recs \<and>
         receiptsTrieRoot env recs = receiptsRoot hdr))"
  using yieldsD [OF yields_getReceipts_tag [OF assms(1), of tag] assms(2)]
  unfolding verified_receipts_def by (metis prod.collapse)

theorem getReceipts_evaluate_to_root_witness:
  "fst (getReceipts_tag receipts_env (BidNumber 10) (receipts_engine True)) = Done [demo_receipt 10] \<and>
   (\<exists>hdr recs. hdr \<in> trusted chain_truth Optimistic \<and> number hdr = 10 \<and>
      toReceipts [demo_receipt 10] = Done recs \<and> receiptsTrieRoot receipts_env recs = receiptsRoot hdr)"
proof -
  have run: "fst (getReceipts_tag receipts_env (BidNumber 10) (receipts_engine True)) = Done [demo_receipt 10]"
    by code_simp
  with getReceipts_evaluate_to_root [OF sound_receipts engine_ok_receipts [of True], of "BidNumber 10"]
  show ?thesis unfolding answers.simps by blast
qed

text \<open>
  C18: the logs returned for a filter. A log that says where it is has been looked up: its
  address, topics and data are those of a log in the receipts a header with the named hash
  commits to, at the named transaction; it passes the filter as given, and claims a block in
  the range that the filter's tags resolve to.
\<close>

theorem getLogs_are_committed:
  assumes "sound env w" and "engine_ok env w e"
  shows "engine_ok env w (snd (getLogs env fo e)) \<and> fst (getLogs env fo e) \<noteq> Stuck \<and>
    (\<forall>logs. fst (getLogs env fo e) = Done logs \<longrightarrow>
      (\<exists>fo'. resolved env w fo fo' \<and>
         (\<forall>lg \<in> set logs. placed lg \<longrightarrow>
            passes fo (toLog lg) \<and> in_range fo' (the (lo_blockHash lg)) lg \<and>
            (\<exists>hdr. computeBlockHash env hdr = the (lo_blockHash lg) \<and>
               commits env hdr (unat (the (lo_transactionIndex lg))) (toLog lg)))))"
proof (intro conjI allI impI)
  note D = yieldsD [OF yields_getLogs [OF assms(1), of fo] assms(2)]
  show "engine_ok env w (snd (getLogs env fo e))" "fst (getLogs env fo e) \<noteq> Stuck" using D by auto
  fix logs assume "fst (getLogs env fo e) = Done logs"
  then have "logs_ok env w fo logs" using D(3) by (metis prod.collapse)
  then show "\<exists>fo'. resolved env w fo fo' \<and>
         (\<forall>lg \<in> set logs. placed lg \<longrightarrow>
            passes fo (toLog lg) \<and> in_range fo' (the (lo_blockHash lg)) lg \<and>
            (\<exists>hdr. computeBlockHash env hdr = the (lo_blockHash lg) \<and>
               commits env hdr (unat (the (lo_transactionIndex lg))) (toLog lg)))"
    unfolding logs_ok_def log_ok_def by (elim exE conjE) (auto simp: resolved_passes)
qed

theorem getLogs_are_committed_witness:
  "fst (getLogs receipts_env demo_filter (receipts_engine True)) = Done [demo_log 10] \<and>
   passes demo_filter (toLog (demo_log 10)) \<and>
   (\<exists>hdr. computeBlockHash receipts_env hdr = 10 \<and> commits receipts_env hdr 0 (toLog (demo_log 10)))"
proof -
  have run: "fst (getLogs receipts_env demo_filter (receipts_engine True)) = Done [demo_log 10]"
    by code_simp
  have "placed (demo_log 10)" "lo_blockHash (demo_log 10) = Some 10" "lo_transactionIndex (demo_log 10) = Some 0"
    by (simp_all add: placed_def demo_log_def)
  with run getLogs_are_committed [OF sound_receipts engine_ok_receipts [of True], of demo_filter]
  show ?thesis by force
qed

text \<open>
  The matching of a log is exact and total: for every filter and log it gives the answer the
  filter means, and the indices into the topics stay in bounds.
\<close>

theorem match_log_exact:
  "match_log l (fo_address fo) (fo_topics fo) = Done (passes fo l)"
  by (rule match_log_eq)

text \<open>
  Logs that leave out a block hash, a transaction index or a log index are not looked up at
  all: \<open>verifyLogs\<close> accepts any list of them, whatever the filter, and asks nobody.
\<close>

theorem unplaced_logs_are_accepted:
  assumes "\<forall>lg \<in> set logs. lo_blockHash lg = None \<or> lo_transactionIndex lg = None \<or> lo_logIndex lg = None"
  shows "verifyLogs env fo logs e = (Done (), e)"
proof -
  have "verify_loop env fo prev rxs logs = ret ()" for prev rxs
    using assms by (induction logs) (auto split: option.split)
  then show ?thesis by (simp add: verifyLogs_def ret_def)
qed

theorem unplaced_logs_are_accepted_witness:
  "verifyLogs receipts_env demo_filter [(demo_log 10)\<lparr>lo_logIndex := None, lo_address := 666\<rparr>]
     (receipts_engine True) = (Done (), receipts_engine True)"
  by (rule unplaced_logs_are_accepted) simp

text \<open>
  A log whose block hash is zero is taken for one of the block last looked up, although there
  is none yet: as the first of an answer, it crashes the process.
\<close>

theorem zero_hash_log_crashes:
  assumes "lo_blockHash lg = Some 0" and "lo_transactionIndex lg = Some t" and "lo_logIndex lg = Some i"
  shows "fst (verifyLogs env fo (lg # logs) e) = Defect"
  using assms
  by (simp add: verifyLogs_def checkLog_def receiptLog_def andThen_def ret_def ofOutcome_def)

theorem zero_hash_log_crashes_witness:
  "fst (verifyLogs receipts_env demo_filter [demo_log 0] (receipts_engine True)) = Defect"
  by (rule zero_hash_log_crashes) (simp_all add: demo_log_def)

text \<open>
  The block hash a log names is only required to be the hash of some header, not of one on the
  trusted chain. A backend that makes up a block, its receipts and a log in them gets the log
  past the verification, here for a filter on the latest block and in a sound environment.
\<close>

theorem forged_log_is_accepted:
  "sound receipts_env chain_truth \<and> engine_ok receipts_env chain_truth (receipts_engine False) \<and>
   fst (getLogs receipts_env demo_filter (receipts_engine False)) = Done [fake_log] \<and>
   placed fake_log \<and> lo_blockHash fake_log = Some (- 1) \<and>
   \<not> (\<exists>hdr. hdr \<in> trusted chain_truth Optimistic \<and> computeBlockHash receipts_env hdr = - 1)"
proof (intro conjI)
  show "fst (getLogs receipts_env demo_filter (receipts_engine False)) = Done [fake_log]" by code_simp
  show "\<not> (\<exists>hdr. hdr \<in> trusted chain_truth Optimistic \<and> computeBlockHash receipts_env hdr = - 1)"
    using fake_hash by blast
qed (simp_all add: sound_receipts engine_ok_receipts placed_def fake_log_def demo_log_def)

end
