(* ===== verification/Fees.thy ===== *)
theory Fees
  imports Blocks "HOL-Library.Multiset"
begin

text \<open>
  The price suggestions (\<open>engine/fees.nim\<close>): the median of the prices paid in the latest block.
\<close>

section \<open>Definitions\<close>

definition avgWoOverflow :: "u64 \<Rightarrow> u64 \<Rightarrow> u64" where
  "avgWoOverflow a b = a div 2 + b div 2 + ((a mod 2 + b mod 2) div 2)"

definition median :: "u64 list \<Rightarrow> u64" where
  "median prices =
     (if 0 < length prices then
        let ps = sort prices; middle = length ps div 2 in
        if length ps mod 2 = 0 then avgWoOverflow (ps ! middle) (ps ! (middle - 1))
        else ps ! middle
      else 0)"

definition minGasPrice :: u64 where "minGasPrice = 1"

text \<open>The prices that are collected: those that are not zero, in the order of the block.\<close>

definition collected :: "(transaction \<Rightarrow> u64) \<Rightarrow> transaction list \<Rightarrow> u64 list" where
  "collected price txs = filter (\<lambda>p. 0 < p) (map price txs)"

definition suggestGasPrice :: "'b env \<Rightarrow> ('b, u64) engine_proc" where
  "suggestGasPrice env =
     andThen (getVerifiedBlock env (BidAlias ''latest'') True None) (\<lambda>blk.
     andThen (ofOutcome (toTransactions (blk_transactions blk))) (\<lambda>txs.
       ret (max minGasPrice (median (collected gasPrice txs)))))"

definition suggestMaxPriorityGasPrice :: "'b env \<Rightarrow> ('b, u64) engine_proc" where
  "suggestMaxPriorityGasPrice env =
     andThen (getVerifiedBlock env (BidAlias ''latest'') True None) (\<lambda>blk.
     andThen (ofOutcome (toTransactions (blk_transactions blk))) (\<lambda>txs.
       ret (median (collected maxPriorityFeePerGas txs))))"

section \<open>The average and the median\<close>

lemma unat_avg: "unat (avgWoOverflow a b) = (unat a + unat b) div 2"
proof -
  have two: "unat (2 :: u64) = 2" by simp
  have d: "unat (x div 2) = unat x div 2" "unat (x mod 2) = unat x mod 2" for x :: u64
    by (simp_all add: unat_div_distrib unat_mod_distrib)
  have m: "unat (a mod 2 + b mod 2) = unat a mod 2 + unat b mod 2"
    by (subst unat_add_lem [THEN iffD1]) (simp_all add: d)
  have lt: "unat a < 2 ^ 64" "unat b < 2 ^ 64"
    using unsigned_less [of a, where ?'a = nat] unsigned_less [of b, where ?'a = nat] by simp_all
  have h: "unat a div 2 + unat b div 2 + (unat a mod 2 + unat b mod 2) div 2 = (unat a + unat b) div 2"
    by presburger
  have s1: "unat (a div 2 + b div 2) = unat a div 2 + unat b div 2"
    by (subst unat_add_lem [THEN iffD1]) (use lt in \<open>simp_all add: d\<close>)
  have "unat (a div 2 + b div 2 + (a mod 2 + b mod 2) div 2) =
      unat a div 2 + unat b div 2 + (unat a mod 2 + unat b mod 2) div 2"
    by (subst unat_add_lem [THEN iffD1]) (use lt h in \<open>simp_all add: d m s1\<close>)
  with h show ?thesis by (simp add: avgWoOverflow_def)
qed

lemma avg_between: "a \<le> b \<Longrightarrow> a \<le> avgWoOverflow b a \<and> avgWoOverflow b a \<le> b"
  unfolding word_le_nat_alt unat_avg by arith

lemma sorted_below:
  assumes "sorted xs" and "k < length xs" and "xs ! k \<le> m"
  shows "Suc k \<le> length (filter (\<lambda>x. x \<le> m) xs)"
proof -
  have "\<forall>x \<in> set (take (Suc k) xs). x \<le> m"
    using assms order_trans [OF sorted_nth_mono [of xs _ k] assms(3)] by (auto simp: in_set_conv_nth)
  then have "filter (\<lambda>x. x \<le> m) (take (Suc k) xs) = take (Suc k) xs" by simp
  then have "length (filter (\<lambda>x. x \<le> m) (take (Suc k) xs)) = Suc k" using assms(2) by simp
  moreover have "filter (\<lambda>x. x \<le> m) xs =
      filter (\<lambda>x. x \<le> m) (take (Suc k) xs) @ filter (\<lambda>x. x \<le> m) (drop (Suc k) xs)"
    by (metis append_take_drop_id filter_append)
  ultimately show ?thesis by simp
qed

lemma sorted_above:
  assumes "sorted xs" and "k < length xs" and "m \<le> xs ! k"
  shows "length xs - k \<le> length (filter (\<lambda>x. m \<le> x) xs)"
proof -
  have "\<forall>x \<in> set (drop k xs). m \<le> x"
    using assms order_trans [OF assms(3) sorted_nth_mono [of xs k]] by (auto simp: in_set_conv_nth)
  then have "filter (\<lambda>x. m \<le> x) (drop k xs) = drop k xs" by simp
  moreover have "filter (\<lambda>x. m \<le> x) xs = filter (\<lambda>x. m \<le> x) (take k xs) @ filter (\<lambda>x. m \<le> x) (drop k xs)"
    by (metis append_take_drop_id filter_append)
  ultimately show ?thesis by simp
qed

lemma middle_less: "0 < n \<Longrightarrow> n div 2 < n \<and> (n - 1) div 2 < n" for n :: nat
  by auto

text \<open>The median lies between the two elements in the middle.\<close>

lemma median_middle:
  assumes "ps = sort prices" and "prices \<noteq> []"
  shows "ps ! ((length ps - 1) div 2) \<le> median prices \<and> median prices \<le> ps ! (length ps div 2)"
proof (cases "even (length prices)")
  case True
  then have i: "(length ps - 1) div 2 = length ps div 2 - 1" "length ps div 2 < length ps" "0 < length ps div 2"
    using assms by (auto elim!: evenE simp: length_greater_0_conv [symmetric] simp del: length_greater_0_conv)
  then have "ps ! (length ps div 2 - 1) \<le> ps ! (length ps div 2)"
    using assms(1) by (intro sorted_nth_mono) auto
  from avg_between [OF this] True i assms show ?thesis
    by (simp add: median_def Let_def even_iff_mod_2_eq_zero)
next
  case False
  then have "(length ps - 1) div 2 = length ps div 2" using assms(1) by (auto elim!: oddE)
  with False assms show ?thesis by (simp add: median_def Let_def odd_iff_mod_2_eq_one)
qed

lemma length_filter_sort: "length (filter P (sort xs)) = length (filter P xs)" for xs :: "'a::linorder list"
  by (metis mset_filter mset_sort size_mset)

lemma sort_of_mset: "mset xs = mset ys \<Longrightarrow> sort xs = sort ys" for xs :: "'a::linorder list"
  by (metis properties_for_sort mset_sort sorted_sort)

lemma yields_priced:
  assumes "sound env w"
  shows "yields (engine_ok env w)
    (andThen (getVerifiedBlock env tag True None) (\<lambda>blk.
     andThen (ofOutcome (toTransactions (blk_transactions blk))) (\<lambda>txs. ret (f txs))))
    (\<lambda>p. \<exists>hdr txs. answers env w None tag hdr \<and> txTrieRoot env txs = transactionsRoot hdr \<and> p = f txs)"
proof -
  have "yields (engine_ok env w) (getVerifiedBlock env tag True None)
      (\<lambda>blk. answers env w None tag (convHeader blk) \<and> content_ok env True blk)"
    using block_kind.getVerified_answers [OF assms, of None True tag] by (simp add: getVerifiedBlock_def)
  then show ?thesis
  proof (rule yields_bind)
    fix blk assume blk: "answers env w None tag (convHeader blk) \<and> content_ok env True blk"
    have "yields (engine_ok env w) (ofOutcome (toTransactions (blk_transactions blk)))
        (\<lambda>txs. toTransactions (blk_transactions blk) = Done txs)"
      by (rule yields_ofOutcome) simp_all
    then show "yields (engine_ok env w)
        (andThen (ofOutcome (toTransactions (blk_transactions blk))) (\<lambda>txs. ret (f txs)))
        (\<lambda>p. \<exists>hdr txs. answers env w None tag hdr \<and> txTrieRoot env txs = transactionsRoot hdr \<and> p = f txs)"
      by (rule yields_bind, intro yields_basic) (use blk in \<open>auto simp: content_ok_def\<close>)
  qed
qed

section \<open>Properties\<close>

text \<open>
  The average of two prices is the exact one, rounded down: no sum on the way to it wraps
  around, whatever the prices.
\<close>

theorem avgWoOverflow_exact: "unat (avgWoOverflow a b) = (unat a + unat b) div 2"
  by (rule unat_avg)

text \<open>
  The median of a list of prices does not depend on their order; at least half of them are at
  most the median, and at least half of them are at least the median.
\<close>

theorem median_halves:
  "(mset xs = mset prices \<longrightarrow> median xs = median prices) \<and>
   length prices \<le> 2 * length (filter (\<lambda>p. p \<le> median prices) prices) \<and>
   length prices \<le> 2 * length (filter (\<lambda>p. median prices \<le> p) prices)"
proof (intro conjI impI)
  assume "mset xs = mset prices"
  then have "sort xs = sort prices" "length xs = length prices"
    by (rule sort_of_mset, rule mset_eq_length)
  then show "median xs = median prices" by (simp add: median_def)
next
  let ?n = "length prices" and ?m = "median prices"
  have below: "?n \<le> 2 * length (filter (\<lambda>p. p \<le> ?m) prices) \<and>
      ?n \<le> 2 * length (filter (\<lambda>p. ?m \<le> p) prices)" if "prices \<noteq> []"
  proof -
    have n: "(?n - 1) div 2 < ?n" "?n div 2 < ?n" using middle_less [of ?n] that by auto
    note m = median_middle [OF refl that, unfolded length_sort]
    have "Suc ((?n - 1) div 2) \<le> length (filter (\<lambda>p. p \<le> ?m) prices)"
      using sorted_below [OF sorted_sort, of "(?n - 1) div 2" prices ?m] n m by (simp add: length_filter_sort)
    moreover have "?n - ?n div 2 \<le> length (filter (\<lambda>p. ?m \<le> p) prices)"
      using sorted_above [OF sorted_sort, of "?n div 2" prices ?m] n m by (simp add: length_filter_sort)
    ultimately show ?thesis by linarith
  qed
  then show "?n \<le> 2 * length (filter (\<lambda>p. p \<le> ?m) prices)" "?n \<le> 2 * length (filter (\<lambda>p. ?m \<le> p) prices)"
    by (cases "prices = []"; simp)+
qed

theorem median_halves_witness:
  "median [9, 5, 8, 6] = median [5, 6, 8, 9] \<and> median [5, 6, 8, 9] = 7"
proof -
  have "mset [9, 5, 8, 6 :: u64] = mset [5, 6, 8, 9]" by simp
  moreover have "median [5, 6, 8, 9] = 7" by code_simp
  ultimately show ?thesis using median_halves [of "[9, 5, 8, 6]" "[5, 6, 8, 9]"] by blast
qed

text \<open>
  A suggested gas price is computed from the latest block: the transactions it is the median
  of evaluate to the transactions root of a header that is the light client's latest; and it is
  never below the minimal price.
\<close>

theorem suggestGasPrice_of_latest:
  assumes "sound env w" and "engine_ok env w e"
  shows "engine_ok env w (snd (suggestGasPrice env e)) \<and> fst (suggestGasPrice env e) \<noteq> Stuck \<and>
    (\<forall>p. fst (suggestGasPrice env e) = Done p \<longrightarrow> minGasPrice \<le> p \<and>
      (\<exists>hdr txs. answers env w None (BidAlias ''latest'') hdr \<and> txTrieRoot env txs = transactionsRoot hdr \<and>
         p = max minGasPrice (median (collected gasPrice txs))))"
proof -
  note D = yieldsD [OF yields_priced [OF assms(1), where tag = "BidAlias ''latest''" and
      f = "\<lambda>txs. max minGasPrice (median (collected gasPrice txs))"] assms(2), folded suggestGasPrice_def]
  have "minGasPrice \<le> max minGasPrice m" for m by simp
  with D(1,2) D(3) [OF prod.collapse [symmetric, THEN trans, OF arg_cong2 [where f = Pair, OF _ refl]]]
  show ?thesis by blast
qed

definition fee_env :: "unit env" where
  "fee_env = chain_env
     \<lparr>txTrieRoot := \<lambda>txs. if map txType txs = replicate (length txs) TxEip1559 then 0 else 1\<rparr>"

definition fee_block :: "u64 list \<Rightarrow> block_object" where
  "fee_block prices = (chain_block 10)
     \<lparr>blk_transactions := map (\<lambda>p. TohTx (demo_tx_object\<lparr>txo_gasPrice := p, txo_type := Some 2\<rparr>)) prices\<rparr>"

definition fee_engine :: "u64 list \<Rightarrow> unit engine" where
  "fee_engine prices = (chain_engine 10)
     \<lparr>executionBackends := [0 \<mapsto> chain_api\<lparr>be_getBlockByHash := \<lambda>h full t. Some (Inr (fee_block prices))\<rparr>]\<rparr>"

lemma sound_txTrieRoot [simp]: "sound (env\<lparr>txTrieRoot := f\<rparr>) w = sound env w"
  by (simp add: sound_def calm_def engine_ok_def proofs_sound_def chain_sound_def genuine_at_def
      trie_key_def EMPTY_ACCOUNT_def)

lemma sound_fee: "sound fee_env chain_truth"
  by (simp add: fee_env_def sound_chain)

lemma engine_ok_fee: "engine_ok fee_env chain_truth (fee_engine prices)"
proof -
  have c: "engine_ok chain_env chain_truth (chain_engine 10)" by (rule engine_ok_chain)
  have "executionBackends (chain_engine 10) = [0 \<mapsto> chain_api]" by (simp add: chain_engine_def demo_engine_def)
  then have "pool_ok (fee_engine prices)"
    using engine_okD(1) [OF c] by (simp add: fee_engine_def pool_ok_def)
  with c show ?thesis by (simp add: engine_ok_def fee_engine_def fee_env_def)
qed

theorem suggestGasPrice_of_latest_witness:
  "fst (suggestGasPrice fee_env (fee_engine [5, 0, 9, 8, 6])) = Done 7 \<and>
   (\<exists>hdr txs. hdr \<in> trusted chain_truth Optimistic \<and> txTrieRoot fee_env txs = transactionsRoot hdr \<and>
      7 = max minGasPrice (median (collected gasPrice txs)))"
proof -
  have run: "fst (suggestGasPrice fee_env (fee_engine [5, 0, 9, 8, 6])) = Done 7" by code_simp
  with suggestGasPrice_of_latest [OF sound_fee engine_ok_fee [of "[5, 0, 9, 8, 6]"]]
  obtain hdr txs where "answers fee_env chain_truth None (BidAlias ''latest'') hdr"
      "txTrieRoot fee_env txs = transactionsRoot hdr" "7 = max minGasPrice (median (collected gasPrice txs))"
    by blast
  moreover from this(1) have "hdr \<in> trusted chain_truth Optimistic"
    by (rule alias_trusted [OF sound_fee])
  ultimately show ?thesis using run by blast
qed

text \<open>
  The gas price of a transaction with a dynamic fee is no field of the transaction that the trie
  commits to, so a backend chooses it freely. For every block of such transactions only that
  passes the check, the backend can write any price \<open>p\<close> into all of them: header and check stay
  the same, and the price suggested becomes \<open>p\<close>.
\<close>

definition dynamic_fee :: "transaction \<Rightarrow> bool" where
  "dynamic_fee tx \<longleftrightarrow> txType tx \<in> {TxEip1559, TxEip4844, TxEip7702}"

definition set_price :: "u64 \<Rightarrow> tx_or_hash \<Rightarrow> tx_or_hash" where
  "set_price p x = (case x of TohTx tx \<Rightarrow> TohTx (tx\<lparr>txo_gasPrice := p\<rparr>) | _ \<Rightarrow> x)"

definition repriced :: "u64 \<Rightarrow> block_object \<Rightarrow> block_object" where
  "repriced p blk = blk\<lparr>blk_transactions := map (set_price p) (blk_transactions blk)\<rparr>"

lemma toTransactions_set_price:
  "toTransactions xs = Done txs \<Longrightarrow>
   toTransactions (map (set_price p) xs) = Done (map (\<lambda>tx. tx\<lparr>gasPrice := p\<rparr>) txs)"
proof (induction xs arbitrary: txs rule: toTransactions.induct)
  case (2 tx xs)
  then show ?case
    by (auto simp: set_price_def bind_outcome_Done toTransaction_def split: option.splits)
qed simp_all

lemma median_same: "ps \<noteq> [] \<Longrightarrow> \<forall>x \<in> set ps. x = p \<Longrightarrow> median ps = p"
proof -
  assume "ps \<noteq> []" "\<forall>x \<in> set ps. x = p"
  then have all: "sort ps ! i = p" if "i < length ps" for i using that by (metis length_sort nth_mem set_sort)
  have "length ps div 2 < length ps" "(length ps - 1) div 2 < length ps"
    using middle_less [of "length ps"] \<open>ps \<noteq> []\<close> by auto
  then have e: "sort ps ! (length ps div 2) = p" "sort ps ! ((length ps - 1) div 2) = p"
    by (simp_all only: all)
  show ?thesis
    using median_middle [OF refl \<open>ps \<noteq> []\<close>] unfolding length_sort e by (rule conjE) (rule order_antisym)
qed

theorem suggested_price_is_the_backends:
  assumes "\<forall>txs p. list_all dynamic_fee txs \<longrightarrow>
      txTrieRoot env (map (\<lambda>tx. tx\<lparr>gasPrice := p\<rparr>) txs) = txTrieRoot env txs"
    and "content_ok env True blk" and "toTransactions (blk_transactions blk) = Done txs"
    and "list_all dynamic_fee txs" and "txs \<noteq> []" and "0 < p"
  shows "content_ok env True (repriced p blk) \<and> convHeader (repriced p blk) = convHeader blk \<and>
    (\<exists>txs'. toTransactions (blk_transactions (repriced p blk)) = Done txs' \<and>
       max minGasPrice (median (collected gasPrice txs')) = p)"
proof (intro conjI exI)
  show h: "convHeader (repriced p blk) = convHeader blk" by (simp add: repriced_def convHeader_def)
  show t: "toTransactions (blk_transactions (repriced p blk)) = Done (map (\<lambda>tx. tx\<lparr>gasPrice := p\<rparr>) txs)"
    using toTransactions_set_price [OF assms(3)] by (simp add: repriced_def)
  show "content_ok env True (repriced p blk)"
    using assms(1-4) by (simp add: content_ok_def t h) (simp add: repriced_def)
  have "minGasPrice \<le> p" using assms(6) by (simp add: minGasPrice_def word_le_nat_alt word_less_nat_alt)
  moreover have "median (collected gasPrice (map (\<lambda>tx. tx\<lparr>gasPrice := p\<rparr>) txs)) = p"
    using assms(5,6) by (intro median_same) (auto simp: collected_def filter_empty_conv)
  ultimately show "max minGasPrice (median (collected gasPrice (map (\<lambda>tx. tx\<lparr>gasPrice := p\<rparr>) txs))) = p"
    by (simp add: max_def)
qed

theorem suggested_price_is_the_backends_witness:
  "content_ok fee_env True (repriced 777 (fee_block [5, 6])) \<and>
   convHeader (repriced 777 (fee_block [5, 6])) = chain_hdr 10 \<and>
   (\<exists>txs. toTransactions (blk_transactions (repriced 777 (fee_block [5, 6]))) = Done txs \<and>
      max minGasPrice (median (collected gasPrice txs)) = 777)"
proof -
  let ?tx = "\<lambda>p. demo_tx\<lparr>gasPrice := p, txType := TxEip1559\<rparr>"
  have hdr: "convHeader (fee_block [5, 6]) = chain_hdr 10"
    by (simp add: fee_block_def convHeader_def chain_block_def chain_hdr_def empty_header_def)
  have txs: "toTransactions (blk_transactions (fee_block [5, 6])) = Done [?tx 5, ?tx 6]"
    by (simp add: fee_block_def demo_tx_object_def demo_tx_def toTransaction_def orElse_def tx_type_of_def)
  have content: "content_ok fee_env True (fee_block [5, 6])"
    by (simp add: content_ok_def txs hdr)
      (simp add: fee_env_def fee_block_def chain_block_def chain_hdr_def empty_header_def)
  have root: "\<forall>txs p. list_all dynamic_fee txs \<longrightarrow>
      txTrieRoot fee_env (map (\<lambda>tx. tx\<lparr>gasPrice := p\<rparr>) txs) = txTrieRoot fee_env txs"
    by (simp add: fee_env_def comp_def)
  show ?thesis
    using suggested_price_is_the_backends [OF root content txs, of 777]
    by (simp add: dynamic_fee_def hdr)
qed

end
