(* ===== verification/Rpc_Frontend.thy ===== *)
theory Rpc_Frontend
  imports Receipts Fees
begin

text \<open>
  The methods of the verified JSON-RPC frontend (\<open>engine/rpc_frontend.nim\<close>) and what gates them
  (\<open>isSynced\<close> and \<open>requireSynced\<close> of \<open>engine/engine.nim\<close>): each resolves its block by the
  procedures of the engine, reads the answer off the verified data, and has the backend of a
  failure penalised; and the filters a client installs.
\<close>

section \<open>Gate and penalty\<close>

text \<open>Whether the light client's store can be asked for headers at all.\<close>

definition lc_ready :: "light_client \<Rightarrow> bool" where
  "lc_ready lc \<longleftrightarrow> \<not> (beaconSlot lc = None \<or> \<not> lcStoreInitialized lc \<or> \<not> nextSyncCommitteeKnown lc)"

definition isSynced :: "'b env \<Rightarrow> 'b engine \<Rightarrow> bool" where
  "isSynced env e =
     (let lc = light_client_at env (clock e) in
      lc_ready lc \<and> the (beaconSlot lc) \<le> optimisticSlot lc + 1)"

definition not_synced :: error_tuple where
  "not_synced = engine_err UnavailableDataError
     ''light client doesn't know the current and next sync committees, sync first''"

definition requireSynced :: "'b env \<Rightarrow> ('b, unit) engine_proc" where
  "requireSynced env =
     andThen (gets (\<lambda>e. light_client_at env (clock e))) (\<lambda>lc.
       if \<not> lc_ready lc then fail not_synced
       else if sync_committee_period env (finalizedSlot lc) \<noteq> sync_committee_period env (the (beaconSlot lc))
       then fail not_synced
       else ret ())"

definition penaltyOr :: "('b, 'a) engine_proc \<Rightarrow> ('b, 'a) engine_proc" where
  "penaltyOr m = (\<lambda>e.
     (case m e of
        (Fail err, e') \<Rightarrow> (Fail err, applyPenalty err e')
      | r \<Rightarrow> r))"

section \<open>Chain\<close>

definition fe_chainId :: "('b, u256) engine_proc" where
  "fe_chainId = gets engine_chainId"

definition fe_blockNumber :: "'b env \<Rightarrow> ('b, u64) engine_proc" where
  "fe_blockNumber env =
     andThen (requireSynced env) (\<lambda>_.
     andThen (penaltyOr (getVerifiedHeader env (BidAlias ''latest'') None)) (\<lambda>latest.
       ret (number latest)))"

definition fe_syncing :: "'b env \<Rightarrow> ('b, bool) engine_proc" where
  "fe_syncing env = gets (\<lambda>e. \<not> isSynced env e)"

section \<open>State\<close>

definition fe_getBalance :: "'b env \<Rightarrow> address \<Rightarrow> block_tag \<Rightarrow> ('b, u256) engine_proc" where
  "fe_getBalance env addr quantityTag =
     andThen (requireSynced env) (\<lambda>_.
     andThen (penaltyOr (getVerifiedHeader env quantityTag None)) (\<lambda>header.
     andThen (penaltyOr (getAccount env addr (number header) (stateRoot header))) (\<lambda>account.
       ret (acc_balance account))))"

definition fe_getStorageAt :: "'b env \<Rightarrow> address \<Rightarrow> u256 \<Rightarrow> block_tag \<Rightarrow> ('b, u256) engine_proc" where
  "fe_getStorageAt env addr slot quantityTag =
     andThen (requireSynced env) (\<lambda>_.
     andThen (penaltyOr (getVerifiedHeader env quantityTag None)) (\<lambda>header.
     andThen (penaltyOr (getStorageAt env addr [slot] (number header) (stateRoot header))) (\<lambda>storage.
       case storage of [] \<Rightarrow> defect | v # _ \<Rightarrow> ret v)))"

definition fe_getTransactionCount :: "'b env \<Rightarrow> address \<Rightarrow> block_tag \<Rightarrow> ('b, u64) engine_proc" where
  "fe_getTransactionCount env addr quantityTag =
     andThen (requireSynced env) (\<lambda>_.
     andThen (penaltyOr (getVerifiedHeader env quantityTag None)) (\<lambda>header.
     andThen (penaltyOr (getAccount env addr (number header) (stateRoot header))) (\<lambda>account.
       ret (acc_nonce account))))"

definition fe_getCode :: "'b env \<Rightarrow> address \<Rightarrow> block_tag \<Rightarrow> ('b, byte list) engine_proc" where
  "fe_getCode env addr quantityTag =
     andThen (requireSynced env) (\<lambda>_.
     andThen (penaltyOr (getVerifiedHeader env quantityTag None)) (\<lambda>header.
     andThen (penaltyOr (getCode env addr (number header) (stateRoot header))) (\<lambda>code.
       ret code)))"

section \<open>Blocks and transactions\<close>

definition fe_getBlockByHash :: "'b env \<Rightarrow> hash32 \<Rightarrow> bool \<Rightarrow> ('b, block_object) engine_proc" where
  "fe_getBlockByHash env blockHash fullTransactions =
     andThen (requireSynced env) (\<lambda>_.
       penaltyOr (getVerifiedBlock env (BidHash blockHash False) fullTransactions None))"

definition fe_getBlockByNumber :: "'b env \<Rightarrow> block_tag \<Rightarrow> bool \<Rightarrow> ('b, block_object) engine_proc" where
  "fe_getBlockByNumber env blockTag fullTransactions =
     andThen (requireSynced env) (\<lambda>_. penaltyOr (getVerifiedBlock env blockTag fullTransactions None))"

definition fe_getUncleCountByBlockNumber :: "'b env \<Rightarrow> block_tag \<Rightarrow> ('b, nat) engine_proc" where
  "fe_getUncleCountByBlockNumber env blockTag =
     andThen (requireSynced env) (\<lambda>_.
     andThen (penaltyOr (getVerifiedBlock env blockTag False None)) (\<lambda>blk.
       ret (length (blk_uncles blk))))"

definition fe_getUncleCountByBlockHash :: "'b env \<Rightarrow> hash32 \<Rightarrow> ('b, nat) engine_proc" where
  "fe_getUncleCountByBlockHash env blockHash =
     andThen (requireSynced env) (\<lambda>_.
     andThen (penaltyOr (getVerifiedBlock env (BidHash blockHash False) False None)) (\<lambda>blk.
       ret (length (blk_uncles blk))))"

definition fe_getBlockTransactionCountByNumber :: "'b env \<Rightarrow> block_tag \<Rightarrow> ('b, nat) engine_proc" where
  "fe_getBlockTransactionCountByNumber env blockTag =
     andThen (requireSynced env) (\<lambda>_.
     andThen (penaltyOr (getVerifiedBlock env blockTag True None)) (\<lambda>blk.
       ret (length (blk_transactions blk))))"

definition fe_getBlockTransactionCountByHash :: "'b env \<Rightarrow> hash32 \<Rightarrow> ('b, nat) engine_proc" where
  "fe_getBlockTransactionCountByHash env blockHash =
     andThen (requireSynced env) (\<lambda>_.
     andThen (penaltyOr (getVerifiedBlock env (BidHash blockHash False) True None)) (\<lambda>blk.
       ret (length (blk_transactions blk))))"

text \<open>The transaction at an index; reading the wrong branch of \<open>TxOrHash\<close> is a \<open>FieldDefect\<close>.\<close>

definition transaction_at :: "block_object \<Rightarrow> u64 \<Rightarrow> ('b, transaction_object) engine_proc" where
  "transaction_at blk index =
     (if length (blk_transactions blk) \<le> unat index then
        engine_fail FrontendError ''provided transaction index is outside bounds''
      else case blk_transactions blk ! unat index of
             TohTx tx \<Rightarrow> ret tx
           | TohHash h \<Rightarrow> defect)"

definition fe_getTransactionByBlockNumberAndIndex ::
    "'b env \<Rightarrow> block_tag \<Rightarrow> u64 \<Rightarrow> ('b, transaction_object) engine_proc" where
  "fe_getTransactionByBlockNumberAndIndex env blockTag index =
     andThen (requireSynced env) (\<lambda>_.
     andThen (penaltyOr (getVerifiedBlock env blockTag True None)) (\<lambda>blk. transaction_at blk index))"

definition fe_getTransactionByBlockHashAndIndex ::
    "'b env \<Rightarrow> hash32 \<Rightarrow> u64 \<Rightarrow> ('b, transaction_object) engine_proc" where
  "fe_getTransactionByBlockHashAndIndex env blockHash index =
     andThen (requireSynced env) (\<lambda>_.
     andThen (penaltyOr (getVerifiedBlock env (BidHash blockHash False) True None)) (\<lambda>blk.
       transaction_at blk index))"

text \<open>
  \<open>?(engine.executionBackendFor(...))\<close> followed by a penalised call of the backend; a nil object
  is \<open>None\<close>.
\<close>

definition penalised_ask ::
    "'b env \<Rightarrow> capability \<Rightarrow> (execution_api \<Rightarrow> 'a reply) \<Rightarrow> ('b, 'a \<times> nat) engine_proc" where
  "penalised_ask env cap call =
     andThen (backendFor env cap) (\<lambda>(backend, idx).
     andThen (penaltyOr (tagged idx (await env (call backend)))) (\<lambda>x. ret (x, idx)))"

definition fe_getTransactionByHash :: "'b env \<Rightarrow> hash32 \<Rightarrow> ('b, transaction_object option) engine_proc" where
  "fe_getTransactionByHash env txHash =
     andThen (requireSynced env) (\<lambda>_.
     andThen (penalised_ask env GetTransactionByHash (\<lambda>b. be_getTransactionByHash b txHash)) (\<lambda>(answer, idx).
       case answer of
         None \<Rightarrow> ret None
       | Some tx \<Rightarrow>
           if txo_hash tx \<noteq> txHash then
             backend_fail VerificationError
               ''the downloaded transaction hash doesn't match the requested transaction hash'' idx
           else
             andThen (ofOutcome (checkTxHash env tx txHash)) (\<lambda>ok.
               if \<not> ok then
                 backend_fail VerificationError ''the transaction doesn't hash to the provided hash'' idx
               else ret (Some tx))))"

section \<open>Receipts and logs\<close>

definition fe_getBlockReceipts :: "'b env \<Rightarrow> block_tag \<Rightarrow> ('b, receipt_object list option) engine_proc" where
  "fe_getBlockReceipts env blockTag =
     andThen (requireSynced env) (\<lambda>_.
     andThen (penaltyOr (getReceipts_tag env blockTag)) (\<lambda>rxs. ret (Some rxs)))"

definition fe_getTransactionReceipt :: "'b env \<Rightarrow> hash32 \<Rightarrow> ('b, receipt_object option) engine_proc" where
  "fe_getTransactionReceipt env txHash =
     andThen (requireSynced env) (\<lambda>_.
     andThen (penalised_ask env GetTransactionReceipt (\<lambda>b. be_getTransactionReceipt b txHash)) (\<lambda>(answer, idx).
       case answer of
         None \<Rightarrow> ret None
       | Some rx \<Rightarrow>
           andThen (penaltyOr (getReceipts_hash env (ro_blockHash rx))) (\<lambda>rxs.
             case find (\<lambda>r. ro_transactionHash r = txHash) rxs of
               Some r \<Rightarrow> ret (Some r)
             | None \<Rightarrow> backend_fail VerificationError ''receipt couldn't be verified'' idx)))"

definition fe_getLogs :: "'b env \<Rightarrow> filter_options \<Rightarrow> ('b, log_object list) engine_proc" where
  "fe_getLogs env filterOptions =
     andThen (requireSynced env) (\<lambda>_. penaltyOr (getLogs env filterOptions))"

section \<open>Filters\<close>

definition MAX_ID_TRIES :: nat where "MAX_ID_TRIES = 10"

text \<open>The loop over the tries, each drawing eight random bytes; \<open>break\<close> ends it with the id.\<close>

fun find_id :: "'b env \<Rightarrow> nat list \<Rightarrow> string \<Rightarrow> ('b, string) engine_proc" where
  "find_id env [] strId = ret strId"
| "find_id env (i # tries) strId =
     andThen (gets (\<lambda>e. randomBytes env (clock e))) (\<lambda>id.
     andThen (update tick) (\<lambda>_.
       if length id \<noteq> 8 then
         engine_fail UnavailableDataError ''Couldn't generate a random identifier for the filter''
       else
         andThen (gets filterStore) (\<lambda>fs.
           if map_of fs (toHex env id) = None then ret (toHex env id)
           else if MAX_ID_TRIES \<le> i then
             engine_fail UnavailableDataError ''Couldn't create a unique identifier for the filter''
           else find_id env tries (toHex env id))))"

definition fe_newFilter :: "'b env \<Rightarrow> filter_options \<Rightarrow> ('b, string) engine_proc" where
  "fe_newFilter env filterOptions =
     andThen (requireSynced env) (\<lambda>_.
     andThen (gets filterStore) (\<lambda>fs.
       if MAX_FILTERS \<le> length fs then engine_fail UnavailableDataError ''FilterStore already full''
       else
         andThen (find_id env [0..<MAX_ID_TRIES + 2] []) (\<lambda>strId.
         andThen (update (\<lambda>e. e\<lparr>filterStore := AList.update strId
             \<lparr>fsi_filter = filterOptions, fsi_blockMarker = None\<rparr> (filterStore e)\<rparr>)) (\<lambda>_.
           ret strId))))"

definition fe_uninstallFilter :: "'b env \<Rightarrow> string \<Rightarrow> ('b, bool) engine_proc" where
  "fe_uninstallFilter env filterId =
     andThen (requireSynced env) (\<lambda>_.
     andThen (gets filterStore) (\<lambda>fs.
       if map_of fs filterId \<noteq> None then
         andThen (update (\<lambda>e. e\<lparr>filterStore := AList.delete filterId (filterStore e)\<rparr>)) (\<lambda>_. ret True)
       else ret False))"

definition no_filter :: "('b, 'a) engine_proc" where
  "no_filter = engine_fail FrontendError ''Filter doesn't exist''"

definition fe_getFilterLogs :: "'b env \<Rightarrow> string \<Rightarrow> ('b, log_object list) engine_proc" where
  "fe_getFilterLogs env filterId =
     andThen (requireSynced env) (\<lambda>_.
     andThen (gets (\<lambda>e. map_of (filterStore e) filterId)) (\<lambda>found.
       case found of
         None \<Rightarrow> no_filter
       | Some item \<Rightarrow> penaltyOr (getLogs env (fsi_filter item))))"

text \<open>The filter for the changes: from the marker on, if there is one.\<close>

definition changes_filter :: "filter_store_item \<Rightarrow> filter_options \<Rightarrow> filter_options" where
  "changes_filter item fo =
     \<lparr>fo_fromBlock = (case fsi_blockMarker item of Some m \<Rightarrow> Some (BidNumber m) | None \<Rightarrow> fo_fromBlock fo),
      fo_toBlock = fo_toBlock fo, fo_address = fo_address fo, fo_topics = fo_topics fo,
      fo_blockHash = fo_blockHash fo\<rparr>"

definition set_marker :: "string \<Rightarrow> u64 \<Rightarrow> ('b, unit) engine_proc" where
  "set_marker filterId toBlock =
     andThen (gets (\<lambda>e. map_of (filterStore e) filterId)) (\<lambda>found.
       case found of
         None \<Rightarrow> no_filter
       | Some item \<Rightarrow> update (\<lambda>e. e\<lparr>filterStore :=
           AList.update filterId (item\<lparr>fsi_blockMarker := Some toBlock\<rparr>) (filterStore e)\<rparr>))"

definition fe_getFilterChanges :: "'b env \<Rightarrow> string \<Rightarrow> ('b, log_object list) engine_proc" where
  "fe_getFilterChanges env filterId =
     andThen (requireSynced env) (\<lambda>_.
     andThen (gets (\<lambda>e. map_of (filterStore e) filterId)) (\<lambda>found.
       case found of
         None \<Rightarrow> no_filter
       | Some item \<Rightarrow>
           andThen (resolveFilterTags env (fsi_filter item)) (\<lambda>fo.
           andThen (ofOutcome (bound_number (fo_toBlock fo))) (\<lambda>toBlock.
             if fsi_blockMarker item \<noteq> None \<and> toBlock \<le> the (fsi_blockMarker item) then
               engine_fail UnavailableDataError ''No changes for the filter since the last query''
             else
               andThen (penaltyOr (getLogs env (changes_filter item fo))) (\<lambda>logObjs.
               andThen (set_marker filterId toBlock) (\<lambda>_.
                 ret logObjs))))))"

section \<open>Fees and what is passed on\<close>

definition fe_gasPrice :: "'b env \<Rightarrow> ('b, u64) engine_proc" where
  "fe_gasPrice env = andThen (requireSynced env) (\<lambda>_. penaltyOr (suggestGasPrice env))"

definition fe_maxPriorityFeePerGas :: "'b env \<Rightarrow> ('b, u64) engine_proc" where
  "fe_maxPriorityFeePerGas env =
     andThen (requireSynced env) (\<lambda>_. penaltyOr (suggestMaxPriorityGasPrice env))"

definition fe_getProof ::
    "'b env \<Rightarrow> address \<Rightarrow> u256 list \<Rightarrow> block_tag \<Rightarrow> ('b, proof_response) engine_proc" where
  "fe_getProof env addr slots blockId =
     andThen (requireSynced env) (\<lambda>_.
     andThen (penalised_ask env GetProof (\<lambda>b. be_getProof b addr slots blockId)) (\<lambda>(proof, idx). ret proof))"

definition fe_sendRawTransaction :: "'b env \<Rightarrow> byte list \<Rightarrow> ('b, hash32) engine_proc" where
  "fe_sendRawTransaction env txBytes =
     andThen (requireSynced env) (\<lambda>_.
     andThen (penalised_ask env SendRawTransaction (\<lambda>b. be_sendRawTransaction b txBytes)) (\<lambda>(txHash, idx). ret txHash))"

section \<open>Rules\<close>

lemma applyPenalty_scores:
  fixes e :: "'b engine"
  obtains sc where "applyPenalty err e = e\<lparr>scores := sc\<rparr>"
proof (cases "applyPenalty err e = e")
  case True
  then have "applyPenalty err e = e\<lparr>scores := scores e\<rparr>" by simp
  then show ?thesis by (rule that)
next
  case False
  then obtain s where "scores e (nat (backendIdx err)) = Some s" "\<not> backendIdx err < 0"
    by (auto simp: applyPenalty_def Let_def split: if_splits option.splits)
  then have "applyPenalty err e =
      e\<lparr>scores := (scores e)(nat (backendIdx err) \<mapsto> penalised (errType err) e s)\<rparr>"
    by (simp add: applyPenalty_def Let_def)
  then show ?thesis by (rule that)
qed

lemma engine_ok_applyPenalty:
  assumes "engine_ok env w e"
  shows "engine_ok env w (applyPenalty err e)"
proof -
  obtain sc where sc: "applyPenalty err e = e\<lparr>scores := sc\<rparr>" by (rule applyPenalty_scores)
  have "pool_ok (applyPenalty err e)"
    using engine_okD(1) [OF assms] by (rule pool_ok_applyPenalty)
  with assms show ?thesis unfolding sc by (rule engine_ok_scores)
qed

lemma engine_ok_filterStore:
  "engine_ok env w e \<Longrightarrow> filters_ok fs \<Longrightarrow> engine_ok env w (e\<lparr>filterStore := fs\<rparr>)"
  by (simp add: engine_ok_def)

lemma yields_penaltyOr:
  assumes "yields (engine_ok env w) m B"
  shows "yields (engine_ok env w) (penaltyOr m) B"
  unfolding yields_def
proof (rule hoareI)
  fix e assume "engine_ok env w e"
  from hoareD [OF assms [unfolded yields_def] this]
  show "ends (\<lambda>x s. engine_ok env w s \<and> B x) (engine_ok env w) (penaltyOr m e)"
    by (cases "m e"; cases "fst (m e)") (auto simp: penaltyOr_def engine_ok_applyPenalty)
qed

lemma crash_free_penaltyOr [crash_free_rules]: "crash_free m \<Longrightarrow> crash_free (penaltyOr m)"
  by (auto simp: crash_free_def penaltyOr_def split: prod.splits outcome.splits) (metis fst_conv)

lemma returns_penaltyOr: "returns m B \<Longrightarrow> returns (penaltyOr m) B"
  by (auto simp: returns_def penaltyOr_def split: prod.splits outcome.splits)

lemma requireSynced_cases:
  "requireSynced env e =
     ((let lc = light_client_at env (clock e) in
       if lc_ready lc \<and> sync_committee_period env (finalizedSlot lc) = sync_committee_period env (the (beaconSlot lc))
       then Done () else Fail not_synced), e)"
  by (simp add: requireSynced_def proc_simps andThen_def Let_def)

lemma yields_requireSynced: "yields I (requireSynced env) (\<lambda>_. True)"
  unfolding yields_def by (rule hoareI) (simp add: requireSynced_cases Let_def)

lemma crash_free_requireSynced [crash_free_rules]: "crash_free (requireSynced env)"
  by (simp add: crash_free_def requireSynced_cases Let_def)

lemma gate_refuses:
  "requireSynced env e = (Fail err, e) \<Longrightarrow> andThen (requireSynced env) f e = (Fail err, e)"
  by (simp add: andThen_def)

lemma andThen_Done:
  "andThen m f s = (Done y, s') \<longleftrightarrow> (\<exists>x s1. m s = (Done x, s1) \<and> f x s1 = (Done y, s'))"
  by (cases "m s"; cases "fst (m s)") (auto simp: andThen_def)

lemma penaltyOr_Done: "penaltyOr m e = (Done x, e') \<longleftrightarrow> m e = (Done x, e')"
  by (cases "m e"; cases "fst (m e)") (auto simp: penaltyOr_def)

lemma gate_DoneD: "andThen (requireSynced env) f e = (Done y, e') \<Longrightarrow> f () e = (Done y, e')"
  by (simp add: andThen_def requireSynced_cases Let_def split: if_splits)

lemma yields_gated:
  "yields I m B \<Longrightarrow> yields I (andThen (requireSynced env) (\<lambda>_. m)) B"
  by (rule yields_bind [OF yields_requireSynced])

lemma yields_penalised_ask:
  assumes "calm env w"
  shows "yields (engine_ok env w) (penalised_ask env cap call) (\<lambda>_. True)"
  unfolding penalised_ask_def split_def
proof (rule yields_bind)
  show "yields (engine_ok env w) (backendFor env cap) (\<lambda>_. True)"
    by (rule yields_keeping, rule hoare_backendFor)
next
  fix x :: "execution_api \<times> nat"
  have "yields (engine_ok env w) (await env (call (fst x))) (\<lambda>_. True)"
    by (rule yields_keeping, rule hoare_await [OF assms])
  then show "yields (engine_ok env w)
      (andThen (penaltyOr (tagged (snd x) (await env (call (fst x))))) (\<lambda>y. ret (y, snd x))) (\<lambda>_. True)"
    by (rule yields_bind [OF yields_penaltyOr [OF yields_tagged]]) (simp add: yields_basic)
qed

section \<open>Queries of the state\<close>

text \<open>A tag that asks for a header of the trusted chain: all but a hash that need not be canonical.\<close>

fun canonical :: "block_tag \<Rightarrow> bool" where
  "canonical (BidHash h requireCanonical) \<longleftrightarrow> requireCanonical"
| "canonical tag \<longleftrightarrow> True"

lemma canonical_trusted:
  assumes "sound env w" and "canonical tag" and "answers env w snapshot tag hdr"
  shows "hdr \<in> trusted w Optimistic"
  using assms(2,3) alias_trusted [OF assms(1)] by (cases tag) (simp_all del: answers.simps(1))

text \<open>
  A run that reports: what it returns is right for a header that answers the tag under the
  anchors, if the state of that header is genuine, as it is for headers of the trusted chain, which
  answer all tags but a hash that need not be canonical.
\<close>

definition reports ::
    "'b env \<Rightarrow> truth \<Rightarrow> anchor_hashes \<Rightarrow> block_tag \<Rightarrow> (block_header \<Rightarrow> 'a \<Rightarrow> bool) \<Rightarrow>
     (error_tuple, 'a) outcome \<times> 'b engine \<Rightarrow> bool" where
  "reports env w anchors tag correct r \<longleftrightarrow>
     engine_ok env w (snd r) \<and> fst r \<notin> {Stuck, Defect} \<and>
     (\<forall>x. fst r = Done x \<longrightarrow>
        (\<exists>hdr. answers env w (Some anchors) tag hdr \<and>
           (canonical tag \<longrightarrow> hdr \<in> trusted w Optimistic \<and> correct hdr x) \<and>
           (stateRoot hdr \<in> state_roots w \<longrightarrow> correct hdr x)))"

lemma getVerifiedHeader_snapshot:
  "fst (getVerifiedHeader env tag None e) = Done hdr \<Longrightarrow>
   getVerifiedHeader env tag None e = getVerifiedHeader env tag (Some (anchors_in_force None e)) e"
  by (auto simp: getVerifiedHeader_def getVerified_snapshot engine_fail_def fail_def split: if_splits)

lemma reports_query:
  assumes s: "sound env w" and e: "engine_ok env w e"
    and q: "\<And>hdr. yields (engine_ok env w) (m hdr) (\<lambda>x. stateRoot hdr \<in> state_roots w \<longrightarrow> correct hdr x)"
    and "\<And>hdr. crash_free (m hdr)"
  shows "reports env w (anchors_in_force None e) tag correct
    (andThen (requireSynced env) (\<lambda>_. andThen (penaltyOr (getVerifiedHeader env tag None)) m) e)"
proof -
  let ?p = "\<lambda>snapshot. andThen (requireSynced env) (\<lambda>_. andThen (penaltyOr (getVerifiedHeader env tag snapshot)) m)"
  let ?a = "anchors_in_force None e"
  let ?right = "\<lambda>snapshot x. \<exists>hdr. answers env w snapshot tag hdr \<and> (stateRoot hdr \<in> state_roots w \<longrightarrow> correct hdr x)"
  have run: "yields (engine_ok env w) (?p snapshot) (?right snapshot)"
    if "\<And>a. snapshot = Some a \<Longrightarrow> anchors_ok env w a" for snapshot
    by (intro yields_gated, rule yields_bind [OF yields_penaltyOr [OF yields_getVerifiedHeader [OF s that]]])
      (auto intro: yields_mono [OF q])
  have "crash_free (?p None)"
    by (intro crash_free_rules crash_free_getVerifiedHeader assms(4))
  note base = yieldsD(1,2) [OF run [of None, simplified] e] crash_freeD [OF this, of e]
  have "?right (Some ?a) x" if x: "fst (?p None e) = Done x" for x
  proof -
    obtain s' where "?p None e = (Done x, s')" using x by (metis prod.collapse)
    then have "andThen (penaltyOr (getVerifiedHeader env tag None)) m e = (Done x, s')"
      by (rule gate_DoneD)
    then obtain hdr s1 where h: "getVerifiedHeader env tag None e = (Done hdr, s1)" and m: "m hdr s1 = (Done x, s')"
      by (auto simp: andThen_Done penaltyOr_Done)
    have same: "getVerifiedHeader env tag (Some ?a) e = (Done hdr, s1)"
      using getVerifiedHeader_snapshot [of env tag e hdr] h by simp
    have ok: "anchors_ok env w ?a" by (rule anchors_in_force_ok [OF e]) simp
    note V = yields_getVerifiedHeader [OF s, of "Some ?a" tag]
    have "answers env w (Some ?a) tag hdr" "engine_ok env w s1"
      using yieldsD(1,3) [OF V e] same ok by auto
    moreover have "stateRoot hdr \<in> state_roots w \<longrightarrow> correct hdr x"
      using yieldsD(3) [OF q \<open>engine_ok env w s1\<close> m] .
    ultimately show ?thesis by blast
  qed
  moreover have "stateRoot hdr \<in> state_roots w" if "hdr \<in> trusted w Optimistic" for hdr
    by (rule soundD(5) [OF s _ that]) simp
  ultimately show ?thesis
    using base canonical_trusted [OF s] unfolding reports_def by blast
qed

lemma yields_getAccount:
  assumes "sound env w"
  shows "yields (engine_ok env w) (getAccount env addr n root)
    (\<lambda>acc. root \<in> state_roots w \<longrightarrow> acc = account_at w root addr)"
  using hoare_getAccount [OF soundD(1,2) [OF assms], of addr n root] by (simp add: yields_def true_account_def)

lemma yields_getCode:
  assumes "sound env w"
  shows "yields (engine_ok env w) (getCode env addr n root)
    (\<lambda>code. root \<in> state_roots w \<longrightarrow>
       (if acc_codeHash (account_at w root addr) = EMPTY_CODE_HASH env then code = []
        else keccak256 env code = acc_codeHash (account_at w root addr)))"
  using hoare_getCode [OF soundD(1,2) [OF assms], of addr n root] by (simp add: yields_def)

lemma yields_getStorageAt:
  assumes "sound env w"
  shows "yields (engine_ok env w) (getStorageAt env addr [slot] n root)
    (\<lambda>vs. \<exists>v. vs = [v] \<and> (root \<in> state_roots w \<longrightarrow> v = slot_at w (acc_storageRoot (account_at w root addr)) slot))"
  using hoare_getStorageAt [OF soundD(1,2) [OF assms], of addr "[slot]" n root]
  by (auto simp: yields_def true_slot_def length_Suc_conv elim!: hoare_post)

lemma find_id_run:
  assumes "find_id env tries strId e = (out, e')"
  shows "(\<exists>n. e' = e\<lparr>clock := n\<rparr>) \<and> out \<notin> {Stuck, Defect, Cancelled} \<and>
    (\<forall>name. out = Done name \<longrightarrow> (tries = [] \<and> name = strId) \<or>
       map_of (filterStore e) name = None \<or> (\<forall>i \<in> set tries. i < MAX_ID_TRIES))"
  using assms
proof (induction tries arbitrary: strId e)
  case Nil
  then show ?case by (auto simp: ret_def intro: exI [of _ "clock e"])
next
  case (Cons i tries)
  let ?id = "randomBytes env (clock e)"
  show ?case
  proof (cases "length ?id = 8 \<and> map_of (filterStore e) (toHex env ?id) \<noteq> None \<and> \<not> MAX_ID_TRIES \<le> i")
    case True
    with Cons.prems have "find_id env tries (toHex env ?id) (tick e) = (out, e')"
      by (auto simp: andThen_def proc_simps)
    from Cons.IH [OF this] True show ?thesis by (auto simp: tick_def)
  next
    case False
    with Cons.prems show ?thesis
      by (auto simp: andThen_def proc_simps engine_fail_def tick_def split: if_splits)
  qed
qed

lemma find_id_new:
  assumes "find_id env [0..<MAX_ID_TRIES + 2] strId e = (Done name, e')"
  shows "map_of (filterStore e) name = None"
  using find_id_run [OF assms] by (auto simp: MAX_ID_TRIES_def)

lemma length_update:
  "length (AList.update k v fs) = (if map_of fs k = None then Suc (length fs) else length fs)"
  by (induction fs) (auto simp: map_of_eq_None_iff)

lemma filters_ok_changes:
  "filters_ok fs \<Longrightarrow> map_of fs k \<noteq> None \<or> length fs < MAX_FILTERS \<Longrightarrow> filters_ok (AList.update k v fs)"
  "filters_ok fs \<Longrightarrow> filters_ok (AList.delete k fs)"
  using length_delete_le [of k fs]
  by (auto simp: filters_ok_def length_update distinct_update distinct_delete)

lemma newFilter_run:
  assumes "requireSynced env e = (Done (), e)" and "fe_newFilter env fo e = (out, e')"
  shows "out \<notin> {Stuck, Defect, Cancelled} \<and>
    (if MAX_FILTERS \<le> length (filterStore e) then e' = e \<and> (\<exists>err. out = Fail err)
     else (\<exists>err n. out = Fail err \<and> e' = e\<lparr>clock := n\<rparr>) \<or>
       (\<exists>name n. out = Done name \<and> map_of (filterStore e) name = None \<and>
          e' = e\<lparr>clock := n, filterStore :=
            AList.update name \<lparr>fsi_filter = fo, fsi_blockMarker = None\<rparr> (filterStore e)\<rparr>))"
proof (cases "MAX_FILTERS \<le> length (filterStore e)")
  case True
  with assms show ?thesis
    by (auto simp: fe_newFilter_def andThen_def proc_simps engine_fail_def)
next
  case False
  obtain r e1 where f: "find_id env [0..<MAX_ID_TRIES + 2] [] e = (r, e1)"
    by (cases "find_id env [0..<MAX_ID_TRIES + 2] [] e")
  obtain n where n: "e1 = e\<lparr>clock := n\<rparr>" "r \<notin> {Stuck, Defect, Cancelled}"
    using find_id_run [OF f] by auto
  show ?thesis
  proof (cases r)
    case (Done name)
    with find_id_new f have "map_of (filterStore e) name = None" by blast
    with Done False assms f n(1) show ?thesis
      by (auto simp: fe_newFilter_def andThen_def proc_simps simp del: upt_Suc find_id.simps)
  next
    case (Fail err)
    with False assms f n(1) show ?thesis
      by (auto simp: fe_newFilter_def andThen_def proc_simps simp del: upt_Suc find_id.simps)
  qed (use n(2) in auto)
qed

lemma newFilter_keeps:
  assumes "engine_ok env w e" and "requireSynced env e = (Done (), e)" and "fe_newFilter env fo e = (out, e1)"
  shows "engine_ok env w e1 \<and> out \<notin> {Stuck, Defect, Cancelled}"
proof -
  have ok: "engine_ok env w (x\<lparr>clock := n\<rparr>) = engine_ok env w x" for x n
    by (simp add: engine_ok_def pool_ok_def)
  show ?thesis
    using newFilter_run [OF assms(2,3)] assms(1) filters_ok_changes(1) [OF engine_okD(6) [OF assms(1)]]
    by (auto simp: ok not_le intro!: engine_ok_filterStore split: if_splits)
qed

lemma uninstallFilter_run:
  assumes "fe_uninstallFilter env name e = (Done ok, e')"
  shows "ok = (map_of (filterStore e) name \<noteq> None) \<and>
    map_of (filterStore e') = (map_of (filterStore e))(name := None)"
  using gate_DoneD [OF assms [unfolded fe_uninstallFilter_def]]
  by (auto simp: andThen_def gets_def update_def ret_def delete_conv' fun_upd_idem split: if_splits)

lemma getBalance_reports:
  assumes "sound env w" and "engine_ok env w e"
  shows "reports env w (anchors_in_force None e) tag
    (\<lambda>hdr b. b = acc_balance (account_at w (stateRoot hdr) addr)) (fe_getBalance env addr tag e)"
  unfolding fe_getBalance_def
  by (intro reports_query [OF assms] yields_bind [OF yields_penaltyOr [OF yields_getAccount [OF assms(1)]]]
      yields_basic crash_free_rules) simp_all

section \<open>Properties\<close>

text \<open>
  C1: the queries of the state, end to end. Whatever the backends answer and other tasks do, the
  balance, the nonce, the storage slot and the code that are returned for a block tag are those
  of the account in the state of a header that answers the tag under the anchors in the store; for
  every tag but a hash that need not be canonical, that is a header the light client vouches for,
  and for such a hash they are right if the state root of the header with that hash is genuine. No
  answer crashes the query, it ends, and the engine keeps its invariant, also when a backend is
  penalised.
\<close>

theorem state_queries_are_true:
  assumes "sound env w" and "engine_ok env w e"
  shows "reports env w (anchors_in_force None e) tag
      (\<lambda>hdr b. b = acc_balance (account_at w (stateRoot hdr) addr)) (fe_getBalance env addr tag e) \<and>
    reports env w (anchors_in_force None e) tag
      (\<lambda>hdr n. n = acc_nonce (account_at w (stateRoot hdr) addr)) (fe_getTransactionCount env addr tag e) \<and>
    reports env w (anchors_in_force None e) tag
      (\<lambda>hdr v. v = slot_at w (acc_storageRoot (account_at w (stateRoot hdr) addr)) slot)
      (fe_getStorageAt env addr slot tag e) \<and>
    reports env w (anchors_in_force None e) tag
      (\<lambda>hdr code.
        if acc_codeHash (account_at w (stateRoot hdr) addr) = EMPTY_CODE_HASH env then code = []
        else keccak256 env code = acc_codeHash (account_at w (stateRoot hdr) addr))
      (fe_getCode env addr tag e)"
proof (intro conjI)
  note q = reports_query [OF assms] and s = assms(1)
  show "reports env w (anchors_in_force None e) tag
      (\<lambda>hdr b. b = acc_balance (account_at w (stateRoot hdr) addr)) (fe_getBalance env addr tag e)"
    by (rule getBalance_reports [OF assms])
  show "reports env w (anchors_in_force None e) tag
      (\<lambda>hdr n. n = acc_nonce (account_at w (stateRoot hdr) addr)) (fe_getTransactionCount env addr tag e)"
    unfolding fe_getTransactionCount_def
    by (intro q yields_bind [OF yields_penaltyOr [OF yields_getAccount [OF s]]] yields_basic crash_free_rules) simp_all
  show "reports env w (anchors_in_force None e) tag
      (\<lambda>hdr v. v = slot_at w (acc_storageRoot (account_at w (stateRoot hdr) addr)) slot)
      (fe_getStorageAt env addr slot tag e)"
    unfolding fe_getStorageAt_def
  proof (rule q)
    show "yields (engine_ok env w)
        (andThen (penaltyOr (getStorageAt env addr [slot] (number hdr) (stateRoot hdr)))
          (\<lambda>storage. case storage of [] \<Rightarrow> defect | v # _ \<Rightarrow> ret v))
        (\<lambda>v. stateRoot hdr \<in> state_roots w \<longrightarrow>
          v = slot_at w (acc_storageRoot (account_at w (stateRoot hdr) addr)) slot)" for hdr
      by (rule yields_bind [OF yields_penaltyOr [OF yields_getStorageAt [OF s]]]) (auto simp: yields_basic)
    show "crash_free (andThen (penaltyOr (getStorageAt env addr [slot] (number hdr) (stateRoot hdr)))
          (\<lambda>storage. case storage of [] \<Rightarrow> defect | v # _ \<Rightarrow> ret v))" for hdr
      by (rule crash_free_bind [OF crash_free_penaltyOr [OF crash_free_getStorageAt]
            returns_penaltyOr [OF returns_getStorageAt]])
        (auto simp: length_Suc_conv intro: crash_free_rules)
  qed
  show "reports env w (anchors_in_force None e) tag
      (\<lambda>hdr code.
        if acc_codeHash (account_at w (stateRoot hdr) addr) = EMPTY_CODE_HASH env then code = []
        else keccak256 env code = acc_codeHash (account_at w (stateRoot hdr) addr))
      (fe_getCode env addr tag e)"
    unfolding fe_getCode_def
    by (intro q yields_bind [OF yields_penaltyOr [OF yields_getCode [OF s]]] yields_basic crash_free_rules) assumption
qed

definition state_engine :: "unit engine" where
  "state_engine = (chain_engine 10)\<lparr>accountsCache := [(0, 17) \<mapsto> demo_account]\<rparr>"

lemma engine_ok_state: "engine_ok chain_env chain_truth state_engine"
  using engine_ok_chain [of 10]
  by (auto simp: engine_ok_def state_engine_def chain_truth_def split: if_splits)

theorem state_queries_are_true_witness:
  "fst (fe_getBalance chain_env 17 (BidNumber 8) state_engine) = Done 42 \<and>
   (\<exists>hdr. number hdr = 8 \<and> hdr \<in> trusted chain_truth Optimistic \<and>
      42 = acc_balance (account_at chain_truth (stateRoot hdr) 17))"
proof -
  have run: "fst (fe_getBalance chain_env 17 (BidNumber 8) state_engine) = Done 42" by code_simp
  from state_queries_are_true [OF sound_chain engine_ok_state, of "BidNumber 8" 17]
  have "reports chain_env chain_truth (anchors_in_force None state_engine) (BidNumber 8)
      (\<lambda>hdr b. b = acc_balance (account_at chain_truth (stateRoot hdr) 17))
      (fe_getBalance chain_env 17 (BidNumber 8) state_engine)" by simp
  with run show ?thesis unfolding reports_def answers.simps by fastforce
qed

text \<open>
  Before the light client is synced, no query is answered from the chain: every method gives
  the same error, asks no backend and leaves the engine as it is.
\<close>

theorem unsynced_frontend_refuses:
  assumes "\<not> lc_ready (light_client_at env (clock e)) \<or>
    sync_committee_period env (finalizedSlot (light_client_at env (clock e))) \<noteq>
    sync_committee_period env (the (beaconSlot (light_client_at env (clock e))))"
  shows "fe_blockNumber env e = (Fail not_synced, e) \<and> fe_getBalance env addr tag e = (Fail not_synced, e) \<and>
    fe_getStorageAt env addr slot tag e = (Fail not_synced, e) \<and>
    fe_getTransactionCount env addr tag e = (Fail not_synced, e) \<and>
    fe_getCode env addr tag e = (Fail not_synced, e) \<and>
    fe_getBlockByHash env h full e = (Fail not_synced, e) \<and>
    fe_getBlockByNumber env tag full e = (Fail not_synced, e) \<and>
    fe_getTransactionByBlockNumberAndIndex env tag i e = (Fail not_synced, e) \<and>
    fe_getTransactionByHash env h e = (Fail not_synced, e) \<and>
    fe_getBlockReceipts env tag e = (Fail not_synced, e) \<and>
    fe_getTransactionReceipt env h e = (Fail not_synced, e) \<and>
    fe_getLogs env fo e = (Fail not_synced, e) \<and> fe_newFilter env fo e = (Fail not_synced, e) \<and>
    fe_uninstallFilter env name e = (Fail not_synced, e) \<and>
    fe_getFilterLogs env name e = (Fail not_synced, e) \<and>
    fe_getFilterChanges env name e = (Fail not_synced, e) \<and>
    fe_gasPrice env e = (Fail not_synced, e) \<and> fe_maxPriorityFeePerGas env e = (Fail not_synced, e) \<and>
    fe_getProof env addr slots tag e = (Fail not_synced, e) \<and>
    fe_sendRawTransaction env bytes e = (Fail not_synced, e)"
proof -
  have "requireSynced env e = (Fail not_synced, e)"
    using assms by (auto simp: requireSynced_cases Let_def)
  note r = gate_refuses [OF this]
  show ?thesis
    unfolding fe_blockNumber_def fe_getBalance_def fe_getStorageAt_def fe_getTransactionCount_def fe_getCode_def
      fe_getBlockByHash_def fe_getBlockByNumber_def fe_getTransactionByBlockNumberAndIndex_def
      fe_getTransactionByHash_def fe_getBlockReceipts_def fe_getTransactionReceipt_def fe_getLogs_def
      fe_newFilter_def fe_uninstallFilter_def fe_getFilterLogs_def fe_getFilterChanges_def fe_gasPrice_def
      fe_maxPriorityFeePerGas_def fe_getProof_def fe_sendRawTransaction_def
    by (intro conjI r)
qed

definition unsynced_env :: "unit env" where
  "unsynced_env = chain_env
     \<lparr>light_client_at := \<lambda>_. \<lparr>beaconSlot = Some 9000, lcStoreInitialized = True,
        nextSyncCommitteeKnown = True, finalizedSlot = 8191, optimisticSlot = 9000\<rparr>\<rparr>"

theorem unsynced_frontend_refuses_witness:
  "fe_getBalance unsynced_env 17 (BidNumber 8) state_engine = (Fail not_synced, state_engine)"
proof -
  have "sync_committee_period unsynced_env 8191 \<noteq> sync_committee_period unsynced_env 9000" by code_simp
  then show ?thesis
    using unsynced_frontend_refuses [of unsynced_env state_engine 17 "BidNumber 8"]
    by (simp add: unsynced_env_def)
qed

text \<open>
  Installing a filter. The name given out is new, the store holds the filter under it and
  everything it held before, with at most 256 entries; installing ends without a crash, and a
  full store refuses without any change. Uninstalling the filter again restores the store.
\<close>

theorem filter_install_uninstall:
  assumes "engine_ok env w e" and "requireSynced env e = (Done (), e)" and "fe_newFilter env fo e = (out, e1)"
  shows "engine_ok env w e1 \<and> length (filterStore e1) \<le> MAX_FILTERS \<and> out \<notin> {Stuck, Defect, Cancelled} \<and>
    (length (filterStore e) = MAX_FILTERS \<longrightarrow> (\<exists>err. out = Fail err) \<and> e1 = e) \<and>
    (\<forall>name. out = Done name \<longrightarrow>
       map_of (filterStore e) name = None \<and>
       map_of (filterStore e1) = (map_of (filterStore e))(name \<mapsto> \<lparr>fsi_filter = fo, fsi_blockMarker = None\<rparr>) \<and>
       (\<forall>ok e2. fe_uninstallFilter env name e1 = (Done ok, e2) \<longrightarrow>
          ok \<and> map_of (filterStore e2) = map_of (filterStore e)))"
proof -
  note r = newFilter_run [OF assms(2,3)]
  note k = newFilter_keeps [OF assms]
  have "\<forall>ok e2. fe_uninstallFilter env name e1 = (Done ok, e2) \<longrightarrow>
      ok \<and> map_of (filterStore e2) = map_of (filterStore e)" if "out = Done name" for name
    using r that uninstallFilter_run [of env name e1]
    by (fastforce simp: update_conv' fun_upd_idem split: if_splits)
  then show ?thesis
    using r k engine_okD(6) [of env w e1] by (auto simp: update_conv' filters_ok_def split: if_splits)
qed

theorem filter_install_uninstall_witness:
  "fst (fe_newFilter chain_env demo_filter (chain_engine 10)) = Done ''0000000000000000'' \<and>
   map_of (filterStore (snd (fe_newFilter chain_env demo_filter (chain_engine 10)))) ''0000000000000000'' =
     Some \<lparr>fsi_filter = demo_filter, fsi_blockMarker = None\<rparr>"
proof -
  have run: "fst (fe_newFilter chain_env demo_filter (chain_engine 10)) = Done ''0000000000000000''" by code_simp
  have "requireSynced chain_env (chain_engine 10) = (Done (), chain_engine 10)"
    by (simp add: requireSynced_cases chain_env_def quiet_env_def lc_ready_def Let_def)
  from filter_install_uninstall [OF engine_ok_chain this, of demo_filter _
      "snd (fe_newFilter chain_env demo_filter (chain_engine 10))"] run
  show ?thesis by (metis fun_upd_same prod.collapse)
qed

text \<open>
  The changes of a filter. If they are returned, they are logs verified for the filter from
  the last marker on, the last block of the range is beyond that marker, and it becomes the
  marker of the filter as it is installed then.
\<close>

theorem filter_changes_advance:
  assumes "sound env w" and "engine_ok env w e" and "fe_getFilterChanges env name e = (Done logs, e')"
  shows "\<exists>item fo n item'. map_of (filterStore e) name = Some item \<and> resolved env w (fsi_filter item) fo \<and>
    fo_toBlock fo = Some (BidNumber n) \<and> (\<forall>m. fsi_blockMarker item = Some m \<longrightarrow> m < n) \<and>
    logs_ok env w (changes_filter item fo) logs \<and>
    map_of (filterStore e') name = Some item' \<and> fsi_blockMarker item' = Some n"
proof -
  from gate_DoneD [OF assms(3) [unfolded fe_getFilterChanges_def]]
  obtain item where item: "map_of (filterStore e) name = Some item" and run:
      "andThen (resolveFilterTags env (fsi_filter item)) (\<lambda>fo.
       andThen (ofOutcome (bound_number (fo_toBlock fo))) (\<lambda>toBlock.
         if fsi_blockMarker item \<noteq> None \<and> toBlock \<le> the (fsi_blockMarker item) then
           engine_fail UnavailableDataError ''No changes for the filter since the last query''
         else
           andThen (penaltyOr (getLogs env (changes_filter item fo))) (\<lambda>logObjs.
           andThen (set_marker name toBlock) (\<lambda>_.
             ret logObjs)))) e = (Done logs, e')"
    by (auto simp: andThen_Done gets_def no_filter_def engine_fail_def fail_def split: option.splits)
  then obtain fo n e1 e2 u where r: "resolveFilterTags env (fsi_filter item) e = (Done fo, e1)"
      "bound_number (fo_toBlock fo) = Done n" "\<not> (fsi_blockMarker item \<noteq> None \<and> n \<le> the (fsi_blockMarker item))"
      "getLogs env (changes_filter item fo) e1 = (Done logs, e2)" "set_marker name n e2 = (Done u, e')"
    by (auto simp: andThen_Done penaltyOr_Done ofOutcome_def engine_fail_def fail_def ret_def split: if_splits)
  note resolve = yieldsD [OF yields_resolveFilterTags [OF assms(1), of "fsi_filter item"] assms(2)]
  have e1: "engine_ok env w e1" and fo: "resolved env w (fsi_filter item) fo"
    using resolve(1) resolve(3) [OF r(1)] r(1) by auto
  have logs: "logs_ok env w (changes_filter item fo) logs"
    using yieldsD(3) [OF yields_getLogs [OF assms(1)] e1 r(4)] .
  from r(5) obtain item' where "map_of (filterStore e') name = Some item'" "fsi_blockMarker item' = Some n"
    by (auto simp: set_marker_def andThen_Done gets_def update_def no_filter_def engine_fail_def fail_def
        update_conv' split: option.splits)
  with item fo logs r(2,3) show ?thesis
    by (intro exI [of _ item] exI [of _ fo] exI [of _ n] exI [of _ item'])
      (auto simp: bound_number_Done not_le)
qed

definition polled_engine :: "unit engine" where
  "polled_engine = (receipts_engine True)
     \<lparr>filterStore := [(''f'', \<lparr>fsi_filter = demo_filter, fsi_blockMarker = Some 9\<rparr>)]\<rparr>"

theorem filter_changes_advance_witness:
  "fst (fe_getFilterChanges receipts_env ''f'' polled_engine) = Done [demo_log 10] \<and>
   (\<exists>item n. map_of (filterStore (snd (fe_getFilterChanges receipts_env ''f'' polled_engine))) ''f'' = Some item \<and>
      fsi_blockMarker item = Some n \<and> 9 < n)"
proof -
  have run: "fst (fe_getFilterChanges receipts_env ''f'' polled_engine) = Done [demo_log 10]" by code_simp
  have "engine_ok receipts_env chain_truth polled_engine"
    unfolding polled_engine_def
    by (rule engine_ok_filterStore [OF engine_ok_receipts]) (simp add: filters_ok_def MAX_FILTERS_def)
  from filter_changes_advance [OF sound_receipts this, of "''f''" "[demo_log 10]"] run
  obtain item n item' where "map_of (filterStore polled_engine) ''f'' = Some item"
      "\<forall>m. fsi_blockMarker item = Some m \<longrightarrow> m < n" "fsi_blockMarker item' = Some n"
      "map_of (filterStore (snd (fe_getFilterChanges receipts_env ''f'' polled_engine))) ''f'' = Some item'"
    by (metis prod.collapse)
  with run show ?thesis by (auto simp: polled_engine_def)
qed

text \<open>
  A filter by block hash has no range, and its changes cannot be asked for: \<open>resolveFilterTags\<close>
  gives such a filter back as it is, and taking the end of its range is a \<open>Defect\<close>. A client
  brings the proxy down with two requests.
\<close>

theorem changes_of_block_hash_filter_crash:
  assumes "requireSynced env e = (Done (), e)" and "map_of (filterStore e) name = Some item"
    and "fo_blockHash (fsi_filter item) \<noteq> None" and "fo_toBlock (fsi_filter item) = None"
  shows "fst (fe_getFilterChanges env name e) = Defect"
  using assms
  by (simp add: fe_getFilterChanges_def resolveFilterTags_def andThen_def proc_simps)

text \<open>The two requests: install the filter, ask for its changes.\<close>

theorem changes_of_block_hash_filter_crash_witness:
  "let fo = demo_filter\<lparr>fo_blockHash := Some 10\<rparr>; r = fe_newFilter chain_env fo (chain_engine 10)
   in fst r = Done ''0000000000000000'' \<and>
      fst (fe_getFilterChanges chain_env ''0000000000000000'' (snd r)) = Defect"
proof -
  let ?fo = "demo_filter\<lparr>fo_blockHash := Some 10\<rparr>"
  let ?e = "snd (fe_newFilter chain_env ?fo (chain_engine 10))"
  have id: "fst (fe_newFilter chain_env ?fo (chain_engine 10)) = Done ''0000000000000000''" by code_simp
  have synced: "requireSynced chain_env e = (Done (), e)" for e
    by (simp add: requireSynced_cases chain_env_def quiet_env_def lc_ready_def Let_def)
  have "map_of (filterStore ?e) ''0000000000000000'' = Some \<lparr>fsi_filter = ?fo, fsi_blockMarker = None\<rparr>"
    using newFilter_run [OF synced, where e = "chain_engine 10" and fo = ?fo] id
    by (cases "fe_newFilter chain_env ?fo (chain_engine 10)") (auto simp: update_conv' split: if_splits)
  from changes_of_block_hash_filter_crash [OF synced this] id show ?thesis
    by (simp add: demo_filter_def)
qed

text \<open>
  A transaction returned for a hash has it: the hash it claims and the one its fields evaluate to
  are the one asked for. If a backend's answer fails the check, the error says so and names
  the backend, but the engine is left as the call left it: the backend is not penalised.
\<close>

theorem transaction_by_hash:
  assumes "requireSynced env e = (Done (), e)"
    and "penalised_ask env GetTransactionByHash (\<lambda>b. be_getTransactionByHash b txHash) e = (Done (Some tx, idx), e1)"
  shows "(\<forall>tx'. fst (fe_getTransactionByHash env txHash e) = Done (Some tx') \<longrightarrow> tx' = tx \<and> txo_hash tx = txHash \<and>
      (\<exists>t. toTransaction tx = Done t \<and> computeRlpHash env t = txHash)) \<and>
    (txo_hash tx \<noteq> txHash \<or> checkTxHash env tx txHash = Done False \<longrightarrow>
      (\<exists>msg. fe_getTransactionByHash env txHash e =
         (Fail \<lparr>errType = VerificationError, errMsg = msg, backendIdx = int idx\<rparr>, e1)))"
proof -
  have run: "fe_getTransactionByHash env txHash e =
      (if txo_hash tx \<noteq> txHash then
         backend_fail VerificationError
           ''the downloaded transaction hash doesn't match the requested transaction hash'' idx
       else
         andThen (ofOutcome (checkTxHash env tx txHash)) (\<lambda>ok.
           if \<not> ok then
             backend_fail VerificationError ''the transaction doesn't hash to the provided hash'' idx
           else ret (Some tx))) e1"
    using assms by (simp add: fe_getTransactionByHash_def andThen_def)
  show ?thesis
  proof (cases "checkTxHash env tx txHash")
    case (Done ok)
    then obtain t where "toTransaction tx = Done t" "ok = (computeRlpHash env t = txHash)"
      by (auto simp: checkTxHash_Done)
    with Done show ?thesis by (auto simp: run backend_fail_def proc_simps andThen_def)
  qed (auto simp: run backend_fail_def proc_simps andThen_def)
qed

definition liar_api :: execution_api where
  "liar_api = silent_api\<lparr>be_getTransactionByHash := \<lambda>h t. Some (Inr (Some (demo_tx_object\<lparr>txo_hash := 6\<rparr>)))\<rparr>"

text \<open>The same lie about two hashes: one is refused, and the liar's scores are as after an answer.\<close>

theorem transaction_by_hash_witness:
  "fst (fe_getTransactionByHash quiet_env 6 (demo_engine liar_api)) = Done (Some (demo_tx_object\<lparr>txo_hash := 6\<rparr>)) \<and>
   (\<exists>err. fst (fe_getTransactionByHash quiet_env 9 (demo_engine liar_api)) = Fail err \<and>
      errType err = VerificationError \<and> backendIdx err = 0) \<and>
   scores (snd (fe_getTransactionByHash quiet_env 9 (demo_engine liar_api))) 0 =
   scores (snd (fe_getTransactionByHash quiet_env 6 (demo_engine liar_api))) 0"
proof -
  let ?tx = "demo_tx_object\<lparr>txo_hash := 6\<rparr>" and ?e = "demo_engine liar_api"
  have synced: "requireSynced quiet_env e = (Done (), e)" for e
    by (simp add: requireSynced_cases quiet_env_def lc_ready_def Let_def)
  have "\<exists>e1. backendFor quiet_env GetTransactionByHash ?e = (Done (liar_api, 0), e1)"
    by (simp add: backendFor_def executionBackendFor_def selectBackend_def demo_engine_def quiet_env_def
        fullExecutionCapabilities_def andThen_def ret_def Let_def eligible_def decay_def decay_score_def tick_def
        rewarded_def)
  then obtain e1 where b: "backendFor quiet_env GetTransactionByHash ?e = (Done (liar_api, 0), e1)" ..
  have ask: "penalised_ask quiet_env GetTransactionByHash (\<lambda>b. be_getTransactionByHash b h) ?e =
      (Done (Some ?tx, 0), tick e1)" for h
  proof -
    have "await quiet_env (be_getTransactionByHash liar_api h) e1 = (Done (Some ?tx), tick e1)"
      by (simp add: await_def liar_api_def quiet_env_def)
    then show ?thesis by (simp add: penalised_ask_def andThen_def b penaltyOr_def tagged_def ret_def)
  qed
  obtain t where t: "toTransaction ?tx = Done t" by (simp add: toTransaction_def tx_type_of_def demo_tx_object_def orElse_def)
  have "fe_getTransactionByHash quiet_env 6 ?e = (Done (Some ?tx), tick e1)"
  proof -
    have "computeRlpHash quiet_env t = 6" by (simp add: quiet_env_def)
    then show ?thesis
      by (simp add: fe_getTransactionByHash_def andThen_def synced ask checkTxHash_def t proc_simps)
  qed
  moreover have "txo_hash ?tx \<noteq> 9" by simp
  then have "\<exists>msg. fe_getTransactionByHash quiet_env 9 ?e =
      (Fail \<lparr>errType = VerificationError, errMsg = msg, backendIdx = int 0\<rparr>, tick e1)"
    using transaction_by_hash [OF synced ask, of 9] by blast
  ultimately show ?thesis by auto
qed

text \<open>
  The receipt of a transaction is looked up in the block that the backend names. As for logs,
  any header with that hash will do: in a sound environment, a backend that makes up a block
  and its receipts has its receipt returned as verified.
\<close>

theorem forged_receipt_is_returned:
  "sound receipts_env chain_truth \<and> engine_ok receipts_env chain_truth (receipts_engine False) \<and>
   fst (fe_getTransactionReceipt receipts_env 5 (receipts_engine False)) = Done (Some fake_receipt) \<and>
   ro_blockHash fake_receipt = - 1 \<and>
   \<not> (\<exists>hdr. hdr \<in> trusted chain_truth Optimistic \<and> computeBlockHash receipts_env hdr = - 1)"
proof (intro conjI)
  show "fst (fe_getTransactionReceipt receipts_env 5 (receipts_engine False)) = Done (Some fake_receipt)"
    by code_simp
  show "\<not> (\<exists>hdr. hdr \<in> trusted chain_truth Optimistic \<and> computeBlockHash receipts_env hdr = - 1)"
    using fake_hash by blast
qed (simp_all add: sound_receipts engine_ok_receipts fake_receipt_def demo_receipt_def)

definition uncle_engine :: "hash32 list \<Rightarrow> unit engine" where
  "uncle_engine us = (chain_engine 10)
     \<lparr>executionBackends := [0 \<mapsto> chain_api
        \<lparr>be_getBlockByHash := \<lambda>h full t. Some (Inr ((chain_block 10)\<lparr>blk_uncles := us\<rparr>))\<rparr>]\<rparr>"

text \<open>
  The uncles of a block are not checked against the hash of uncles in its header: whatever list
  a backend gives with a block, the check and the header are the same, and the number of uncles
  that is reported for the same latest block is the backend's.
\<close>

theorem uncle_count_is_the_backends:
  "verifyBlock env (blk\<lparr>blk_uncles := us\<rparr>) full = verifyBlock env blk full \<and>
   convHeader (blk\<lparr>blk_uncles := us\<rparr>) = convHeader blk \<and>
   fst (fe_getUncleCountByBlockNumber chain_env (BidAlias ''latest'') (uncle_engine [])) = Done 0 \<and>
   fst (fe_getUncleCountByBlockNumber chain_env (BidAlias ''latest'') (uncle_engine [1, 2, 3])) = Done 3"
proof (intro conjI)
  show "fst (fe_getUncleCountByBlockNumber chain_env (BidAlias ''latest'') (uncle_engine [])) = Done 0" by code_simp
  show "fst (fe_getUncleCountByBlockNumber chain_env (BidAlias ''latest'') (uncle_engine [1, 2, 3])) = Done 3"
    by code_simp
qed (simp_all add: verifyBlock_def convHeader_def)

end
