(* ===== verification/Op_Engine.thy ===== *)
theory Op_Engine
  imports Rpc_Frontend
begin

text \<open>
  The engine for an OP-stack chain (\<open>op/op_anchor.nim\<close>, \<open>op/op_anchor_utils.nim\<close>,
  \<open>op/op_chain_params.nim\<close>): its anchors are L2 headers that match output roots posted in
  contracts on L1, which are read at headers the L1 engine has verified. What the EVM returns
  for a call of such a contract is an argument, as are the decoders of the ABI package.
\<close>

section \<open>Networks\<close>

record op_params =
  opNetwork :: string
  l1Network :: string
  l1ChainId :: u256
  l2ChainId :: u256
  op_systemConfig :: address
  op_eip2935ForkTime :: "u64 option"

definition opMainnet :: op_params where
  "opMainnet =
     \<lparr>opNetwork = ''op-mainnet'', l1Network = ''mainnet'', l1ChainId = 1, l2ChainId = 10,
      op_systemConfig = 0x229047fed2591dbec1eF1118d64F7aF3dB9EB290, op_eip2935ForkTime = Some 1746806401\<rparr>"

definition baseMainnet :: op_params where
  "baseMainnet =
     \<lparr>opNetwork = ''base-mainnet'', l1Network = ''mainnet'', l1ChainId = 1, l2ChainId = 8453,
      op_systemConfig = 0x73a79Fab69143498Ed3712e519A88a918e1f4072, op_eip2935ForkTime = Some 1746806401\<rparr>"

definition opSepolia :: op_params where
  "opSepolia =
     \<lparr>opNetwork = ''op-sepolia'', l1Network = ''sepolia'', l1ChainId = 11155111, l2ChainId = 11155420,
      op_systemConfig = 0x034edD2A225f7f429A63E0f1D2084B9E0A93b538, op_eip2935ForkTime = Some 1744905600\<rparr>"

definition opChainParamsForNetwork :: "string \<Rightarrow> string + op_params" where
  "opChainParamsForNetwork name =
     (if name = ''op-mainnet'' then Inr opMainnet
      else if name = ''base-mainnet'' then Inr baseMainnet
      else if name = ''op-sepolia'' then Inr opSepolia
      else Inl (''unknown op-network preset: '' @ name))"

fun find_params :: "op_params list \<Rightarrow> u256 \<Rightarrow> op_params option" where
  "find_params [] chainId = None"
| "find_params (p # ps) chainId = (if l2ChainId p = chainId then Some p else find_params ps chainId)"

definition unknown_chain :: "u256 \<Rightarrow> string" where
  "unknown_chain chainId = ''unknown op  chainId: '' @ decimal (unat chainId)"

definition getSystemConfig :: "u256 \<Rightarrow> string + address" where
  "getSystemConfig chainId =
     (case find_params [opMainnet, baseMainnet, opSepolia] chainId of
        Some p \<Rightarrow> Inr (op_systemConfig p)
      | None \<Rightarrow> Inl (unknown_chain chainId))"

definition opL1ChainId :: "u256 \<Rightarrow> string + u256" where
  "opL1ChainId chainId =
     (case find_params [opMainnet, baseMainnet, opSepolia] chainId of
        Some p \<Rightarrow> Inr (l1ChainId p)
      | None \<Rightarrow> Inl (unknown_chain chainId))"

definition L2L1_MESSAGE_PASSER_CONTRACT :: address where
  "L2L1_MESSAGE_PASSER_CONTRACT = 0x4200000000000000000000000000000000000016"

section \<open>Reading the contracts on L1\<close>

text \<open>A call of a contract at a header: no result, or an error of the call and its output.\<close>

type_synonym evm_call = "block_header \<Rightarrow> address \<Rightarrow> byte list \<Rightarrow> (string + string \<times> byte list) reply"

record abi =
  dec_address :: "byte list \<Rightarrow> string + address"
  dec_u256 :: "byte list \<Rightarrow> string + u256"
  dec_bytes32 :: "byte list \<Rightarrow> string + hash32"
  dec_game :: "byte list \<Rightarrow> string + u32 \<times> u64 \<times> address"
  dec_anchor :: "byte list \<Rightarrow> string + hash32 \<times> u256"
  enc_u256 :: "u256 \<Rightarrow> string + byte list"

record op_contracts =
  disputeGameFactory :: address
  optimismPortal :: address
  anchorStateRegistry :: address
  unsafeBlockSigner :: address

record l1_output_proposal =
  outputRoot :: hash32
  l2BlockNumber :: u64

definition hashFnSig :: "'b env \<Rightarrow> string \<Rightarrow> byte list" where
  "hashFnSig env sig = take 4 (word_bytes (keccak256 env (map of_char sig)))"

definition abiEncode :: "string + byte list \<Rightarrow> ('b, byte list) engine_proc" where
  "abiEncode r = ofResult (case r of
     Inl msg \<Rightarrow> Inl (engine_err InvalidDataError (''calldata ABI encode failed: '' @ msg))
   | Inr x \<Rightarrow> Inr x)"

definition abiDecode :: "string + 'a \<Rightarrow> ('b, 'a) engine_proc" where
  "abiDecode r = ofResult (case r of
     Inl msg \<Rightarrow> Inl (engine_err InvalidDataError (''call return ABI decode failed: '' @ msg))
   | Inr x \<Rightarrow> Inr x)"

definition makeCall ::
    "'b env \<Rightarrow> evm_call \<Rightarrow> address \<Rightarrow> byte list \<Rightarrow> block_header \<Rightarrow> ('b, byte list) engine_proc" where
  "makeCall env evm to calldata l1Header =
     andThen (await env (evm l1Header to calldata)) (\<lambda>r.
       case r of
         Inl error \<Rightarrow> engine_fail VerificationError (''L1 eth_call for op-stack failed: '' @ error)
       | Inr (error, output) \<Rightarrow>
           if 0 < length error then
             engine_fail VerificationError (''L1 eth_call for op-stack reverted: '' @ error)
           else ret output)"

text \<open>A call without arguments and the decoding of what it returns.\<close>

definition callAndDecode ::
    "'b env \<Rightarrow> evm_call \<Rightarrow> (byte list \<Rightarrow> string + 'a) \<Rightarrow> address \<Rightarrow> byte list \<Rightarrow> block_header \<Rightarrow> ('b, 'a) engine_proc" where
  "callAndDecode env evm dec to calldata l1Header =
     andThen (makeCall env evm to calldata l1Header) (\<lambda>out. abiDecode (dec out))"

definition resolveContracts ::
    "'b env \<Rightarrow> evm_call \<Rightarrow> abi \<Rightarrow> address \<Rightarrow> block_header \<Rightarrow> ('b, op_contracts) engine_proc" where
  "resolveContracts env evm c systemConfigContract l1Header =
     andThen (callAndDecode env evm (dec_address c) systemConfigContract (hashFnSig env ''disputeGameFactory()'') l1Header) (\<lambda>dgf.
     andThen (callAndDecode env evm (dec_address c) systemConfigContract (hashFnSig env ''optimismPortal()'') l1Header) (\<lambda>portal.
     andThen (callAndDecode env evm (dec_address c) systemConfigContract (hashFnSig env ''unsafeBlockSigner()'') l1Header) (\<lambda>signer.
     andThen (callAndDecode env evm (dec_address c) portal (hashFnSig env ''anchorStateRegistry()'') l1Header) (\<lambda>asr.
       ret \<lparr>disputeGameFactory = dgf, optimismPortal = portal, anchorStateRegistry = asr,
            unsafeBlockSigner = signer\<rparr>))))"

definition readLatestGame ::
    "'b env \<Rightarrow> evm_call \<Rightarrow> abi \<Rightarrow> address \<Rightarrow> block_header \<Rightarrow> ('b, l1_output_proposal) engine_proc" where
  "readLatestGame env evm c dgfContract l1Header =
     andThen (callAndDecode env evm (dec_u256 c) dgfContract (hashFnSig env ''gameCount()'') l1Header) (\<lambda>count.
       if count = 0 then engine_fail UnavailableDataError ''no dispute games posted yet''
       else
         andThen (abiEncode (enc_u256 c (count - 1))) (\<lambda>index.
         andThen (callAndDecode env evm (dec_game c) dgfContract
                    (hashFnSig env ''gameAtIndex(uint256)'' @ index) l1Header) (\<lambda>(gameType, timestamp, proxy).
         andThen (callAndDecode env evm (dec_bytes32 c) proxy (hashFnSig env ''rootClaim()'') l1Header) (\<lambda>root.
         andThen (callAndDecode env evm (dec_u256 c) proxy (hashFnSig env ''l2BlockNumber()'') l1Header) (\<lambda>l2n.
           ret \<lparr>outputRoot = root, l2BlockNumber = ucast l2n\<rparr>)))))"

definition readAnchorRoot ::
    "'b env \<Rightarrow> evm_call \<Rightarrow> abi \<Rightarrow> address \<Rightarrow> block_header \<Rightarrow> ('b, l1_output_proposal) engine_proc" where
  "readAnchorRoot env evm c anchorRegistryContract l1Header =
     andThen (callAndDecode env evm (dec_anchor c) anchorRegistryContract (hashFnSig env ''getAnchorRoot()'') l1Header)
       (\<lambda>(root, l2n). ret \<lparr>outputRoot = root, l2BlockNumber = ucast l2n\<rparr>)"

section \<open>Output roots\<close>

definition computeOutputRoot :: "'b env \<Rightarrow> hash32 \<Rightarrow> hash32 \<Rightarrow> hash32 \<Rightarrow> hash32" where
  "computeOutputRoot env root messagePasserStorageRoot blockHash =
     keccak256 env (replicate 32 0 @ word_bytes root @ word_bytes messagePasserStorageRoot @ word_bytes blockHash)"

definition matchesOutputRoot :: "'b env \<Rightarrow> hash32 \<Rightarrow> hash32 \<Rightarrow> hash32 \<Rightarrow> hash32 \<Rightarrow> bool" where
  "matchesOutputRoot env postedRoot root messagePasserStorageRoot blockHash \<longleftrightarrow>
     computeOutputRoot env root messagePasserStorageRoot blockHash = postedRoot"

definition verifyOutputRoot ::
    "'b env \<Rightarrow> hash32 \<Rightarrow> u64 \<Rightarrow> ('b, block_header \<times> hash32) engine_proc" where
  "verifyOutputRoot env proposedOutputRoot blkNum =
     andThen (ask env GetBlockByNumber (\<lambda>b. be_getBlockByNumber b (BidNumber blkNum) False)) (\<lambda>(blk, idx).
       let header = convHeader blk in
       if number header \<noteq> blkNum then
         penaltyOr (backend_fail VerificationError ''op-stack block number mismatch'' idx)
       else if computeBlockHash env header \<noteq> blk_hash blk then
         penaltyOr (backend_fail VerificationError ''op-stack header hash mismatch'' idx)
       else
         andThen (getAccount env L2L1_MESSAGE_PASSER_CONTRACT (number header) (stateRoot header)) (\<lambda>account.
           if \<not> matchesOutputRoot env proposedOutputRoot (stateRoot header) (acc_storageRoot account) (blk_hash blk) then
             penaltyOr (backend_fail VerificationError
               ''recomputed op-stack output root does not match the root posted on L1'' idx)
           else ret (header, blk_hash blk)))"

section \<open>Synchronisation\<close>

text \<open>
  The state of both engines, the one of the OP chain first. While a procedure of one awaits,
  other tasks may change the other, too.
\<close>

type_synonym ('b, 'a) op_proc = "('b engine \<times> 'b engine, error_tuple, 'a) proc"

definition on_op :: "'b env \<Rightarrow> ('b, 'a) engine_proc \<Rightarrow> ('b, 'a) op_proc" where
  "on_op env1 m = (\<lambda>(op, l1).
     let (out, op') = m op in (out, op', interfere env1 (clock l1) (tick l1)))"

definition on_l1 :: "'b env \<Rightarrow> ('b, 'a) engine_proc \<Rightarrow> ('b, 'a) op_proc" where
  "on_l1 env2 m = (\<lambda>(op, l1).
     let (out, l1') = m l1 in (out, interfere env2 (clock op) (tick op), l1'))"

text \<open>What does not await.\<close>

definition at_op :: "('b, 'a) engine_proc \<Rightarrow> ('b, 'a) op_proc" where
  "at_op m = (\<lambda>(op, l1). let (out, op') = m op in (out, op', l1))"

definition at_l1 :: "('b, 'a) engine_proc \<Rightarrow> ('b, 'a) op_proc" where
  "at_l1 m = (\<lambda>(op, l1). let (out, l1') = m l1 in (out, op, l1'))"

text \<open>The lock serialises synchronisations: waiting for it is one more await that may be cancelled.\<close>

definition acquire :: "'b env \<Rightarrow> ('b, unit) engine_proc" where
  "acquire env e =
     ((if cancels env (clock e) then Cancelled else Done ()), interfere env (clock e) (tick e))"

definition adopt :: "'b env \<Rightarrow> block_header \<Rightarrow> hash32 \<Rightarrow> header_trust \<Rightarrow> ('b, unit) engine_proc" where
  "adopt env header hash t =
     andThen (store_put env header hash t) (\<lambda>_.
       update (\<lambda>e. e\<lparr>headerStore := putHash hash t (headerStore e)\<rparr>))"

definition anchor_at :: "'b env \<Rightarrow> 'b env \<Rightarrow> l1_output_proposal \<Rightarrow> header_trust \<Rightarrow> ('b, unit) op_proc" where
  "anchor_at env1 env2 proposal t =
     andThen (on_op env1 (verifyOutputRoot env2 (outputRoot proposal) (l2BlockNumber proposal))) (\<lambda>(header, hash).
       at_op (adopt env2 header hash t))"

definition opSyncOnce :: "'b env \<Rightarrow> 'b env \<Rightarrow> evm_call \<Rightarrow> abi \<Rightarrow> ('b, unit) op_proc" where
  "opSyncOnce env1 env2 evm c =
     andThen (on_op env1 (acquire env2)) (\<lambda>_.
     andThen (at_l1 snapshotAnchors) (\<lambda>l1Anchors.
     andThen (on_l1 env2 (getVerifiedHeader env1 (BidAlias ''latest'') (Some l1Anchors))) (\<lambda>l1LatestHeader.
     andThen (on_l1 env2 (getVerifiedHeader env1 (BidAlias ''finalized'') (Some l1Anchors))) (\<lambda>l1FinalizedHeader.
     andThen (at_op (gets engine_chainId)) (\<lambda>chainId.
       case getSystemConfig chainId of
         Inl error \<Rightarrow> fail (engine_err InvalidDataError (''no system config for chainId: '' @ error))
       | Inr systemConfig \<Rightarrow>
           andThen (on_l1 env2 (resolveContracts env1 evm c systemConfig l1LatestHeader)) (\<lambda>contracts.
           andThen (on_l1 env2 (readLatestGame env1 evm c (disputeGameFactory contracts) l1LatestHeader)) (\<lambda>proposal.
           andThen (anchor_at env1 env2 proposal Safe) (\<lambda>_.
           andThen (valueOr
               (andThen (on_l1 env2 (readAnchorRoot env1 evm c (anchorStateRegistry contracts) l1FinalizedHeader))
                  (\<lambda>p. ret (Some p)))
               (\<lambda>_. ret None)) (\<lambda>anchor.
             case anchor of
               None \<Rightarrow> ret ()
             | Some p \<Rightarrow> anchor_at env1 env2 p Finalized)))))))))"

section \<open>What a posted root commits to\<close>

text \<open>A root posted on L1 that binds a block: no preimage of it has another block hash.\<close>

definition posts :: "'b env \<Rightarrow> hash32 \<Rightarrow> block_header \<Rightarrow> bool" where
  "posts env root b \<longleftrightarrow>
     (\<forall>sr mr bh. computeOutputRoot env sr mr bh = root \<longrightarrow> bh = computeBlockHash env b)"

lemma yields_verifyOutputRoot:
  assumes s: "sound env w" and b: "b \<in> trusted w t" "t \<noteq> NoTrust" and p: "posts env root b"
  shows "yields (engine_ok env w) (verifyOutputRoot env root n)
    (\<lambda>(header, hash). header = b \<and> hash = computeBlockHash env b \<and> number b = n)"
proof -
  have "header = b" if "computeBlockHash env header = blk_hash blk"
      "matchesOutputRoot env root (stateRoot header) mr (blk_hash blk)" for header blk mr
    using p that trustsD(3) [OF soundD(3) [OF s] b, of header]
    by (auto simp: posts_def matchesOutputRoot_def)
  then show ?thesis
    unfolding verifyOutputRoot_def split_def Let_def
    by (intro yields_bind [OF yields_ask [OF soundD(1) [OF s]]] yields_if yields_penaltyOr yields_engine
        yields_bind [OF hoare_getAccount [OF soundD(1,2) [OF s], folded yields_def]] yields_basic)
      (auto simp: posts_def)
qed

section \<open>Both engines\<close>

definition both_ok :: "'b env \<Rightarrow> truth \<Rightarrow> 'b env \<Rightarrow> truth \<Rightarrow> 'b engine \<times> 'b engine \<Rightarrow> bool" where
  "both_ok env1 w1 env2 w2 s \<longleftrightarrow> engine_ok env2 w2 (fst s) \<and> engine_ok env1 w1 (snd s)"

lemma yields_on_op:
  assumes "calm env1 w1" and "yields (engine_ok env2 w2) m B"
  shows "yields (both_ok env1 w1 env2 w2) (on_op env1 m) B" "yields (both_ok env1 w1 env2 w2) (at_op m) B"
proof -
  have "ends (\<lambda>x s. both_ok env1 w1 env2 w2 s \<and> B x) (both_ok env1 w1 env2 w2) (on_op env1 m s) \<and>
      ends (\<lambda>x s. both_ok env1 w1 env2 w2 s \<and> B x) (both_ok env1 w1 env2 w2) (at_op m s)"
    if "both_ok env1 w1 env2 w2 s" for s
    using that assms(1) hoareD [OF assms(2) [unfolded yields_def], of "fst s"]
    by (cases s; cases "m (fst s)"; cases "fst (m (fst s))")
      (auto simp: both_ok_def on_op_def at_op_def calm_def)
  then show "yields (both_ok env1 w1 env2 w2) (on_op env1 m) B" "yields (both_ok env1 w1 env2 w2) (at_op m) B"
    by (auto simp: yields_def hoare_def)
qed

lemma yields_on_l1:
  assumes "calm env2 w2" and "yields (engine_ok env1 w1) m B"
  shows "yields (both_ok env1 w1 env2 w2) (on_l1 env2 m) B" "yields (both_ok env1 w1 env2 w2) (at_l1 m) B"
proof -
  have "ends (\<lambda>x s. both_ok env1 w1 env2 w2 s \<and> B x) (both_ok env1 w1 env2 w2) (on_l1 env2 m s) \<and>
      ends (\<lambda>x s. both_ok env1 w1 env2 w2 s \<and> B x) (both_ok env1 w1 env2 w2) (at_l1 m s)"
    if "both_ok env1 w1 env2 w2 s" for s
    using that assms(1) hoareD [OF assms(2) [unfolded yields_def], of "snd s"]
    by (cases s; cases "m (snd s)"; cases "fst (m (snd s))")
      (auto simp: both_ok_def on_l1_def at_l1_def calm_def)
  then show "yields (both_ok env1 w1 env2 w2) (on_l1 env2 m) B" "yields (both_ok env1 w1 env2 w2) (at_l1 m) B"
    by (auto simp: yields_def hoare_def)
qed

lemma yields_callAndDecode:
  assumes "calm env w"
  shows "yields (engine_ok env w) (callAndDecode env evm dec to data hdr) (\<lambda>_. True)"
proof -
  have await: "yields (engine_ok env w) (await env (evm hdr to data)) (\<lambda>_. True)"
    by (rule yields_keeping, rule hoare_await [OF assms])
  have "yields (engine_ok env w) (makeCall env evm to data hdr) (\<lambda>_. True)"
    unfolding makeCall_def
    by (rule yields_bind [OF await]) (auto split: sum.split intro!: yields_if yields_engine yields_basic)
  then show ?thesis
    unfolding callAndDecode_def by (rule yields_bind) (auto simp: abiDecode_def intro: yields_ofResult)
qed

lemma yields_reads:
  assumes "calm env w"
  shows "yields (engine_ok env w) (resolveContracts env evm c sc hdr) (\<lambda>_. True)"
    "yields (engine_ok env w) (readLatestGame env evm c a hdr) (\<lambda>_. True)"
    "yields (engine_ok env w) (readAnchorRoot env evm c a hdr) (\<lambda>_. True)"
proof -
  have enc: "yields (engine_ok env w) (abiEncode r) (\<lambda>_. True)" for r
    by (auto simp: abiEncode_def intro: yields_ofResult)
  note rules = yields_bind [OF yields_callAndDecode [OF assms]] yields_if yields_case_prod yields_engine
    yields_bind [OF enc] yields_basic
  show "yields (engine_ok env w) (resolveContracts env evm c sc hdr) (\<lambda>_. True)"
    unfolding resolveContracts_def by (intro rules) simp
  show "yields (engine_ok env w) (readLatestGame env evm c a hdr) (\<lambda>_. True)"
    unfolding readLatestGame_def by (intro rules) simp
  show "yields (engine_ok env w) (readAnchorRoot env evm c a hdr) (\<lambda>_. True)"
    unfolding readAnchorRoot_def by (intro rules) simp
qed

lemma yields_returns:
  assumes "yields I m A" and "returns m B"
  shows "yields I m (\<lambda>x. A x \<and> B x)"
  unfolding yields_def
proof (rule hoareI)
  fix s assume "I s"
  from hoareD [OF assms(1) [unfolded yields_def] this] assms(2)
  show "ends (\<lambda>x s. I s \<and> A x \<and> B x) I (m s)"
    by (cases "m s"; cases "fst (m s)") (auto simp: returns_def)
qed

text \<open>
  What is relied on of L1: at trusted L1 headers, the roots that can be read from the contracts of a
  known system configuration are posted for L2 headers that deserve the trust they are given.
\<close>

definition posts_genuine :: "'b env \<Rightarrow> truth \<Rightarrow> 'b env \<Rightarrow> truth \<Rightarrow> evm_call \<Rightarrow> abi \<Rightarrow> bool" where
  "posts_genuine env1 w1 env2 w2 evm c \<longleftrightarrow>
     (\<forall>chainId sc hdr. getSystemConfig chainId = Inr sc \<longrightarrow> hdr \<in> trusted w1 Optimistic \<longrightarrow>
        returns (resolveContracts env1 evm c sc hdr) (\<lambda>cs.
          returns (readLatestGame env1 evm c (disputeGameFactory cs) hdr)
            (\<lambda>p. \<exists>b \<in> trusted w2 Safe. posts env2 (outputRoot p) b) \<and>
          (\<forall>fhdr \<in> trusted w1 Finalized.
             returns (readAnchorRoot env1 evm c (anchorStateRegistry cs) fhdr)
               (\<lambda>p. \<exists>b \<in> trusted w2 Finalized. posts env2 (outputRoot p) b))))"

lemma yields_adopt:
  assumes "sound env w" and "hdr \<in> trusted w t" and "computeBlockHash env hdr = h"
  shows "yields (engine_ok env w) (adopt env hdr h t) (\<lambda>_. True)"
  unfolding adopt_def
proof (rule yields_bind [OF yields_store_put [OF soundD(3) [OF assms(1)] assms(3,2)]], rule yields_update)
  fix e assume "engine_ok env w e"
  with store_ok_putHash [OF engine_okD(2) [OF this] assms(2,3)]
  show "engine_ok env w (e\<lparr>headerStore := putHash h t (headerStore e)\<rparr>)" by (simp add: engine_ok_def)
qed

lemma yields_anchor_at:
  assumes "sound env1 w1" and "sound env2 w2"
    and "\<exists>b \<in> trusted w2 t. posts env2 (outputRoot p) b" and "t \<noteq> NoTrust"
  shows "yields (both_ok env1 w1 env2 w2) (anchor_at env1 env2 p t) (\<lambda>_. True)"
proof -
  obtain b where b: "b \<in> trusted w2 t" "posts env2 (outputRoot p) b" using assms(3) by blast
  note c1 = soundD(1) [OF assms(1)]
  show ?thesis
    unfolding anchor_at_def
    apply (rule yields_bind [OF yields_on_op(1) [OF c1 yields_verifyOutputRoot [OF assms(2) b(1) assms(4) b(2)]]])
    apply (rule yields_case_prod)
    apply (rule yields_on_op(2) [OF c1 yields_adopt [OF assms(2)]])
    using b(1) by auto
qed

lemma yields_acquire: "calm env w \<Longrightarrow> yields (engine_ok env w) (acquire env) (\<lambda>_. True)"
  by (auto simp: yields_def hoare_def acquire_def calm_def)

lemma aliased_trust:
  assumes "answers env w snapshot (BidAlias txt) hdr"
  shows "(txt = ''latest'' \<longrightarrow> hdr \<in> trusted w Optimistic) \<and> (txt = ''finalized'' \<longrightarrow> hdr \<in> trusted w Finalized)"
  using assms by (auto simp: block_names_def toLowerAscii_def)

lemma yields_opSyncOnce:
  assumes s1: "sound env1 w1" and s2: "sound env2 w2" and g: "posts_genuine env1 w1 env2 w2 evm c"
  shows "yields (both_ok env1 w1 env2 w2) (opSyncOnce env1 env2 evm c) (\<lambda>_. True)"
proof -
  let ?I = "both_ok env1 w1 env2 w2"
  note c = soundD(1) [OF s1] soundD(1) [OF s2]
  note l1 = yields_on_l1 [OF c(2)] and op = yields_on_op [OF c(1)]
  have known: "yields ?I
      (andThen (on_l1 env2 (resolveContracts env1 evm c sc hdr)) (\<lambda>contracts.
       andThen (on_l1 env2 (readLatestGame env1 evm c (disputeGameFactory contracts) hdr)) (\<lambda>proposal.
       andThen (anchor_at env1 env2 proposal Safe) (\<lambda>_.
       andThen (valueOr
           (andThen (on_l1 env2 (readAnchorRoot env1 evm c (anchorStateRegistry contracts) fhdr)) (\<lambda>p. ret (Some p)))
           (\<lambda>_. ret None)) (\<lambda>anchor.
         case anchor of None \<Rightarrow> ret () | Some p \<Rightarrow> anchor_at env1 env2 p Finalized)))))
      (\<lambda>_. True)"
    if sc: "getSystemConfig chainId = Inr sc" and h: "hdr \<in> trusted w1 Optimistic" "fhdr \<in> trusted w1 Finalized"
    for chainId sc hdr fhdr
  proof (rule yields_bind [OF l1(1) [OF yields_returns [OF yields_reads(1) [OF c(1)]]]])
    show "returns (resolveContracts env1 evm c sc hdr) (\<lambda>cs.
          returns (readLatestGame env1 evm c (disputeGameFactory cs) hdr)
            (\<lambda>p. \<exists>b \<in> trusted w2 Safe. posts env2 (outputRoot p) b) \<and>
          (\<forall>fhdr \<in> trusted w1 Finalized.
             returns (readAnchorRoot env1 evm c (anchorStateRegistry cs) fhdr)
               (\<lambda>p. \<exists>b \<in> trusted w2 Finalized. posts env2 (outputRoot p) b)))"
      using g sc h(1) unfolding posts_genuine_def by blast
  next
    fix cs assume cs: "True \<and> (returns (readLatestGame env1 evm c (disputeGameFactory cs) hdr)
            (\<lambda>p. \<exists>b \<in> trusted w2 Safe. posts env2 (outputRoot p) b) \<and>
          (\<forall>fhdr \<in> trusted w1 Finalized.
             returns (readAnchorRoot env1 evm c (anchorStateRegistry cs) fhdr)
               (\<lambda>p. \<exists>b \<in> trusted w2 Finalized. posts env2 (outputRoot p) b)))"
    note game = l1(1) [OF yields_returns [OF yields_reads(2) [OF c(1)] cs [THEN conjunct2, THEN conjunct1]]]
    note root = l1(1) [OF yields_returns [OF yields_reads(3) [OF c(1)]
          cs [THEN conjunct2, THEN conjunct2, THEN bspec, OF h(2)]]]
    show "yields ?I
      (andThen (on_l1 env2 (readLatestGame env1 evm c (disputeGameFactory cs) hdr)) (\<lambda>proposal.
       andThen (anchor_at env1 env2 proposal Safe) (\<lambda>_.
       andThen (valueOr
           (andThen (on_l1 env2 (readAnchorRoot env1 evm c (anchorStateRegistry cs) fhdr)) (\<lambda>p. ret (Some p)))
           (\<lambda>_. ret None)) (\<lambda>anchor.
         case anchor of None \<Rightarrow> ret () | Some p \<Rightarrow> anchor_at env1 env2 p Finalized))))
      (\<lambda>_. True)"
    proof (rule yields_bind [OF game], rule yields_bind [OF yields_anchor_at [OF s1 s2]])
      show "yields ?I
       (andThen (valueOr
           (andThen (on_l1 env2 (readAnchorRoot env1 evm c (anchorStateRegistry cs) fhdr)) (\<lambda>p. ret (Some p)))
           (\<lambda>_. ret None)) (\<lambda>anchor.
         case anchor of None \<Rightarrow> ret () | Some p \<Rightarrow> anchor_at env1 env2 p Finalized))
      (\<lambda>_. True)"
        by (rule yields_bind [where A = "\<lambda>r. \<forall>p. r = Some p \<longrightarrow> (\<exists>b \<in> trusted w2 Finalized. posts env2 (outputRoot p) b)"],
            rule yields_valueOr, rule yields_bind [OF root])
          (auto intro!: yields_basic yields_anchor_at [OF s1 s2] split: option.split)
    qed auto
  qed
  show ?thesis
    unfolding opSyncOnce_def
    apply (rule yields_bind [OF op(1) [OF yields_acquire [OF c(2)]]])
    apply (rule yields_bind [OF l1(2) [OF yields_snapshotAnchors]])
    apply (rule yields_bind [OF l1(1) [OF yields_getVerifiedHeader [OF s1]]], simp)
    apply (rule yields_bind [OF l1(1) [OF yields_getVerifiedHeader [OF s1]]], simp)
    apply (rule yields_bind [OF op(2) [OF yields_gets [where B = "\<lambda>_. True"]]], simp)
    subgoal premises prems for u a latest final chainId
    proof (cases "getSystemConfig chainId")
      case (Inl err)
      then show ?thesis by (simp add: yields_basic)
    next
      case (Inr sc)
      have "latest \<in> trusted w1 Optimistic" "final \<in> trusted w1 Finalized"
        using aliased_trust prems(3,4) by blast+
      from known [OF Inr this] show ?thesis unfolding Inr by simp
    qed
    done
qed

section \<open>The anchor that is never set\<close>

text \<open>Procedures that save a property of the state, however they end.\<close>

definition saves :: "('s \<Rightarrow> bool) \<Rightarrow> ('s, 'e, 'a) proc \<Rightarrow> bool" where
  "saves U m \<longleftrightarrow> (\<forall>s. U s \<longrightarrow> U (snd (m s)))"

named_theorems saves_rules \<comment> \<open>introduction rules for \<open>saves\<close>\<close>

lemma saves_basic [saves_rules]:
  "saves U (ret x)" "saves U (fail e)" "saves U (gets f)" "saves U (ofResult r)"
  by (auto simp: saves_def proc_simps split: sum.split)

lemma saves_andThen [saves_rules]:
  assumes "saves U m" and "\<And>x. saves U (f x)"
  shows "saves U (andThen m f)"
  unfolding saves_def
proof (intro allI impI)
  fix s assume "U s"
  then have "U (snd (m s))" using assms(1) by (simp add: saves_def)
  with assms(2) show "U (snd (andThen m f s))"
    by (cases "m s"; cases "fst (m s)") (auto simp: andThen_def saves_def)
qed

lemma saves_valueOr [saves_rules]:
  assumes "saves U m" and "\<And>e. saves U (h e)"
  shows "saves U (valueOr m h)"
  unfolding saves_def
proof (intro allI impI)
  fix s assume "U s"
  then have "U (snd (m s))" using assms(1) by (simp add: saves_def)
  with assms(2) show "U (snd (valueOr m h s))"
    by (cases "m s"; cases "fst (m s)") (auto simp: valueOr_def saves_def)
qed

lemma saves_cases [saves_rules]:
  "saves U m \<Longrightarrow> saves U n \<Longrightarrow> saves U (if b then m else n)"
  "saves U n \<Longrightarrow> (\<And>y. saves U (f y)) \<Longrightarrow> saves U (case x of None \<Rightarrow> n | Some y \<Rightarrow> f y)"
  "(\<And>a b. saves U (g a b)) \<Longrightarrow> saves U (case p of (a, b) \<Rightarrow> g a b)"
  "(\<And>a. saves U (l a)) \<Longrightarrow> (\<And>a. saves U (r a)) \<Longrightarrow> saves U (case z of Inl a \<Rightarrow> l a | Inr a \<Rightarrow> r a)"
  by (auto split: option.split prod.split sum.split)

definition unset :: "'b engine \<Rightarrow> bool" where
  "unset e \<longleftrightarrow> latestHash (headerStore e) = None"

lemma unset_put [simp]: "latestHash (put ev hdr h t s) = latestHash s"
  by (simp add: put_def putCache_def Let_def)

lemma saves_unset_engine [saves_rules]:
  "saves unset (engine_fail t msg)" "saves unset (backend_fail t msg idx)" "saves unset (accounts_put env k acc)"
  "saves unset (provenAccount env addr root proof idx)" "saves unset (store_put env hdr h tr)"
  by (simp_all add: saves_def unset_def engine_fail_def backend_fail_def accounts_put_def store_put_def
      provenAccount_def proc_simps split: sum.split)

lemma saves_unset_wrap [saves_rules]:
  fixes m :: "('b, 'a) engine_proc"
  assumes "saves unset m"
  shows "saves unset (tagged idx m)" "saves unset (penaltyOr m)"
proof -
  have "unset (snd (tagged idx m e)) \<and> unset (snd (penaltyOr m e))" if "unset e" for e
  proof -
    have e: "unset (snd (m e))" using assms that by (simp add: saves_def)
    have "unset (applyPenalty err e')" if "unset e'" for err and e' :: "'b engine"
      by (rule applyPenalty_scores [of err e']) (use that in \<open>simp add: unset_def\<close>)
    with e show ?thesis
      by (cases "m e"; cases "fst (m e)") (auto simp: tagged_def penaltyOr_def)
  qed
  then show "saves unset (tagged idx m)" "saves unset (penaltyOr m)" by (simp_all add: saves_def)
qed

lemma saves_unset_ask:
  assumes "\<And>n e. unset e \<Longrightarrow> unset (interfere env n e)"
  shows "saves unset (ask env cap call)"
proof -
  have "unset (snd (backendFor env cap e))" if "unset e" for e
  proof -
    obtain sc where "snd (selectBackend (draw env (clock e)) cap (tick e)) = (tick e)\<lparr>scores := sc\<rparr>"
      using selectBackend_only_scores by blast
    with that show ?thesis by (simp add: backendFor_def executionBackendFor_state unset_def)
  qed
  then have "saves unset (backendFor env cap)" by (simp add: saves_def)
  moreover have "saves unset (await env reply)" for reply :: "'y reply"
    using assms by (simp add: saves_def await_def unset_def)
  ultimately show ?thesis
    unfolding ask_def split_def by (intro saves_rules)
qed

lemma saves_unset_anchor:
  assumes "\<And>n e. unset e \<Longrightarrow> unset (interfere env n e)" and "t \<noteq> Optimistic"
  shows "saves unset (verifyOutputRoot env root n)" "saves unset (adopt env hdr h t)"
proof -
  note ask = saves_unset_ask [OF assms(1)]
  show "saves unset (verifyOutputRoot env root n)"
    unfolding verifyOutputRoot_def getAccount_def Let_def by (intro saves_rules ask) (use assms(1) in auto)
  have "saves unset (update (\<lambda>e. e\<lparr>headerStore := putHash h t (headerStore e)\<rparr>))"
    using assms(2) by (auto simp: saves_def unset_def proc_simps putHash_def Let_def split: header_trust.split)
  then show "saves unset (adopt env hdr h t)"
    unfolding adopt_def by (intro saves_rules)
qed

lemma saves_both:
  assumes "\<And>n e. unset e \<Longrightarrow> unset (interfere env2 n e)"
  shows "saves (\<lambda>s. unset (fst s)) (on_l1 env2 m)" "saves (\<lambda>s. unset (fst s)) (at_l1 m)"
    "saves unset k \<Longrightarrow> saves (\<lambda>s. unset (fst s)) (on_op env1 k)"
    "saves unset k \<Longrightarrow> saves (\<lambda>s. unset (fst s)) (at_op k)"
  using assms
  by (auto simp: saves_def on_l1_def at_l1_def on_op_def at_op_def unset_def split: prod.split)
    (metis snd_conv)+

lemma saves_opSyncOnce:
  assumes i: "\<And>n e. unset e \<Longrightarrow> unset (interfere env2 n e)"
  shows "saves (\<lambda>s. unset (fst s)) (opSyncOnce env1 env2 evm c)"
proof -
  have "saves unset (acquire env2)" using i by (simp add: saves_def acquire_def unset_def)
  moreover have "saves (\<lambda>s. unset (fst s)) (anchor_at env1 env2 p t)" if "t \<noteq> Optimistic" for p t
    unfolding anchor_at_def
    by (intro saves_rules saves_both [OF i] saves_unset_anchor [OF i that]) (use i in auto)
  ultimately show ?thesis
    unfolding opSyncOnce_def by (intro saves_rules saves_both [OF i]) auto
qed

lemma no_latest:
  "latestHash (headerStore e) = None \<Longrightarrow>
   \<exists>err. getVerified f g h env (BidAlias ''latest'') None e = (Fail err, e)"
  by (simp add: getVerified_def andThen_def snapshotAnchors_def aliasAnchor_def toLowerAscii_def getHash_def
      engine_fail_def fail_def ret_def)

section \<open>An OP chain to try things on\<close>

lemma length_word_bytes: "length (word_bytes (x :: hash32)) = 32"
  by (simp add: word_bytes_def)

lemma word_bytes_inject: "word_bytes x = word_bytes y \<Longrightarrow> x = y" for x y :: hash32
proof -
  assume e: "word_bytes x = word_bytes y"
  show "x = y"
  proof (rule bit_word_eqI)
    fix n assume n: "n < LENGTH(256)"
    have "ucast (drop_bit (8 * (n div 8)) x) = (ucast (drop_bit (8 * (n div 8)) y) :: byte)"
      using e n by (auto simp: word_bytes_def less_mult_imp_div_less)
    then have "bit (ucast (drop_bit (8 * (n div 8)) x) :: byte) (n mod 8) =
        bit (ucast (drop_bit (8 * (n div 8)) y) :: byte) (n mod 8)" by simp
    with n show "bit x n = bit y n"
      by (simp add: bit_simps)
  qed
qed

definition root_keccak :: "byte list \<Rightarrow> hash32" where
  "root_keccak bs =
     (if bs = replicate 32 0 @ word_bytes (0 :: hash32) @ word_bytes (9 :: hash32) @ word_bytes (5 :: hash32)
      then 77 else 3)"

definition op_env :: "unit env" where
  "op_env = chain_env\<lparr>keccak256 := root_keccak\<rparr>"

definition op_engine :: "unit engine" where
  "op_engine = (demo_engine chain_api)
     \<lparr>engine_chainId := 10, accountsCache := [(0, L2L1_MESSAGE_PASSER_CONTRACT) \<mapsto> demo_account]\<rparr>"

lemma posts_demo: "posts op_env 77 (chain_hdr 5)"
proof -
  have "bh = 5" if "computeOutputRoot op_env sr mr bh = 77" for sr mr bh
  proof -
    from that have "replicate 32 0 @ word_bytes sr @ word_bytes mr @ word_bytes bh =
        replicate 32 0 @ word_bytes (0 :: hash32) @ word_bytes (9 :: hash32) @ word_bytes (5 :: hash32)"
      by (simp add: computeOutputRoot_def op_env_def root_keccak_def split: if_splits)
    then have "word_bytes bh = word_bytes (5 :: hash32)" by (simp add: length_word_bytes)
    then show ?thesis by (rule word_bytes_inject)
  qed
  then show ?thesis by (simp add: posts_def op_env_def chain_env_def)
qed

lemma sound_op: "sound op_env chain_truth"
proof -
  have "chain_sound op_env chain_truth"
    using soundD [OF sound_chain] sound_chain
    by (simp add: sound_def chain_sound_def genuine_at_def op_env_def)
  moreover have "proofs_sound op_env chain_truth"
    by (simp add: proofs_sound_def op_env_def chain_env_def chain_truth_def)
  moreover have "calm op_env chain_truth" by (rule calm_quiet) (simp add: op_env_def chain_env_def quiet_env_def)
  ultimately show ?thesis by (simp add: sound_def)
qed

lemma engine_ok_op: "engine_ok op_env chain_truth op_engine"
proof -
  have d: "engine_ok op_env chain_truth (demo_engine chain_api)" by (rule engine_ok_demo)
  have "pool_ok op_engine" using engine_okD(1) [OF d] by (simp add: op_engine_def pool_ok_def)
  with d show ?thesis by (auto simp: engine_ok_def op_engine_def chain_truth_def split: if_splits)
qed

definition demo_evm :: evm_call where
  "demo_evm = (\<lambda>hdr to data t. Some (Inr (Inr ([], []))))"

definition demo_abi :: abi where
  "demo_abi =
     \<lparr>dec_address = (\<lambda>_. Inr 1), dec_u256 = (\<lambda>_. Inr 5), dec_bytes32 = (\<lambda>_. Inr 77),
      dec_game = (\<lambda>_. Inr (0, 0, 2)), dec_anchor = (\<lambda>_. Inr (77, 5)), enc_u256 = (\<lambda>_. Inr [])\<rparr>"

definition l1_engine :: "unit engine" where
  "l1_engine = (chain_engine 10)
     \<lparr>headerStore := putHash 10 Finalized
        (put (\<lambda>_. False) (chain_hdr 10) 10 Finalized (headerStore (chain_engine 10)))\<rparr>"

lemma engine_ok_l1: "engine_ok chain_env chain_truth l1_engine"
proof -
  have c: "engine_ok chain_env chain_truth (chain_engine 10)" by (rule engine_ok_chain)
  have t: "chain_hdr 10 \<in> trusted chain_truth Finalized" "computeBlockHash chain_env (chain_hdr 10) = 10"
    by (simp_all add: chain_truth_def chain_env_def)
  from store_ok_putHash [OF store_ok_put [OF trusts_chain engine_okD(2) [OF c] t(2,1)] t] c
  show ?thesis by (simp add: engine_ok_def l1_engine_def)
qed

lemma returns_callAndDecode:
  "returns (callAndDecode env evm dec to data hdr) (\<lambda>x. \<exists>out. dec out = Inr x)"
  unfolding callAndDecode_def
  by (rule returns_andThen) (auto simp: returns_def abiDecode_def proc_simps split: sum.splits)

lemma posts_genuine_demo: "posts_genuine chain_env chain_truth op_env chain_truth demo_evm demo_abi"
proof -
  have b: "\<exists>b \<in> trusted chain_truth t. posts op_env 77 b" for t
    using posts_demo by (auto simp: chain_truth_def)
  have game: "returns (readLatestGame chain_env demo_evm demo_abi a hdr)
      (\<lambda>p. \<exists>b \<in> trusted chain_truth Safe. posts op_env (outputRoot p) b)" for a hdr
    unfolding readLatestGame_def
    apply (rule returns_andThen)
    subgoal for count
      apply (cases "count = 0")
       apply (simp add: returns_def engine_fail_def fail_def)
      apply simp
      apply (rule returns_andThen, rule returns_andThen)
      apply (clarsimp split: prod.split)
      apply (rule returns_bind [OF returns_callAndDecode])
      apply (rule returns_andThen)
      using b by (auto simp: demo_abi_def intro: returns_basic)
    done
  have root: "returns (readAnchorRoot chain_env demo_evm demo_abi a hdr)
      (\<lambda>p. \<exists>b \<in> trusted chain_truth Finalized. posts op_env (outputRoot p) b)" for a hdr
    unfolding readAnchorRoot_def
    by (rule returns_bind [OF returns_callAndDecode]) (use b in \<open>auto simp: demo_abi_def intro: returns_basic\<close>)
  show ?thesis
    using game root by (simp add: posts_genuine_def returns_def)
qed

section \<open>Properties\<close>

text \<open>
  C23: a posted output root pins its block. If the root commits to a header of the L2 chain, whatever
  a backend answers, the header and the hash that pass the check are that header and its hash,
  and the header has the number posted with the root.
\<close>

theorem verifyOutputRoot_pins_block:
  assumes "sound env w" and "engine_ok env w e" and "b \<in> trusted w t" and "t \<noteq> NoTrust" and "posts env root b"
  shows "engine_ok env w (snd (verifyOutputRoot env root n e)) \<and> fst (verifyOutputRoot env root n e) \<noteq> Stuck \<and>
    (\<forall>header hash. fst (verifyOutputRoot env root n e) = Done (header, hash) \<longrightarrow>
       header = b \<and> hash = computeBlockHash env b \<and> number b = n)"
  using yieldsD [OF yields_verifyOutputRoot [OF assms(1,3,4,5), of n] assms(2)]
  by (cases "verifyOutputRoot env root n e") auto

theorem verifyOutputRoot_pins_block_witness:
  "fst (verifyOutputRoot op_env 77 5 op_engine) = Done (chain_hdr 5, 5) \<and>
   fst (verifyOutputRoot op_env 77 6 op_engine) \<noteq> Done (chain_hdr 6, 6)"
proof -
  have "fst (verifyOutputRoot op_env 77 5 op_engine) = Done (chain_hdr 5, 5)" by code_simp
  moreover have "chain_hdr 5 \<in> trusted chain_truth Safe" by (auto simp: chain_truth_def)
  from verifyOutputRoot_pins_block [OF sound_op engine_ok_op this _ posts_demo, of 6]
  have "fst (verifyOutputRoot op_env 77 6 op_engine) \<noteq> Done (chain_hdr 6, 6)"
    by (auto simp: chain_hdr_def)
  ultimately show ?thesis by blast
qed

text \<open>
  A synchronisation of the OP engine ends, and whatever the backends of both chains answer, it
  puts only headers into the store of the OP engine that deserve the trust they get: safe ones
  for the root of the latest game, finalized ones for the root of the anchor registry. The L1
  engine keeps its invariant too, also if the synchronisation fails half way.
\<close>

theorem op_sync_keeps_trust:
  assumes "sound env1 w1" and "sound env2 w2" and "posts_genuine env1 w1 env2 w2 evm c"
    and "engine_ok env2 w2 op" and "engine_ok env1 w1 l1"
  shows "case opSyncOnce env1 env2 evm c (op, l1) of (out, op', l1') \<Rightarrow>
    out \<noteq> Stuck \<and> engine_ok env2 w2 op' \<and> engine_ok env1 w1 l1'"
proof -
  have "both_ok env1 w1 env2 w2 (op, l1)" using assms(4,5) by (simp add: both_ok_def)
  from yieldsD(1,2) [OF yields_opSyncOnce [OF assms(1-3)] this] show ?thesis
    by (auto simp: both_ok_def split: prod.split)
qed

theorem op_sync_keeps_trust_witness:
  "case opSyncOnce chain_env op_env demo_evm demo_abi (op_engine, l1_engine) of (out, op', l1') \<Rightarrow>
     out = Done () \<and> safeHash (headerStore op') = Some 5 \<and> finalizedHash (headerStore op') = Some 5 \<and>
     engine_ok op_env chain_truth op'"
proof -
  let ?r = "opSyncOnce chain_env op_env demo_evm demo_abi (op_engine, l1_engine)"
  have "(case ?r of (out, op', l1') \<Rightarrow>
      (out, safeHash (headerStore op'), finalizedHash (headerStore op'))) = (Done (), Some 5, Some 5)"
    by code_simp
  then show ?thesis
    using op_sync_keeps_trust [OF sound_chain sound_op posts_genuine_demo engine_ok_op engine_ok_l1]
    by (auto split: prod.splits)
qed

text \<open>
  A synchronisation sets the safe and the finalized anchor of the OP engine, never the latest
  one. So the OP engine has no latest block: every query for it fails, and with it those that
  use it by default, as the number of the latest block and the suggested gas price.
\<close>

theorem op_latest_is_never_available:
  assumes "\<And>n e. latestHash (headerStore e) = None \<Longrightarrow> latestHash (headerStore (interfere env2 n e)) = None"
    and "latestHash (headerStore op) = None"
    and "opSyncOnce env1 env2 evm c (op, l1) = (out, op', l1')"
  shows "latestHash (headerStore op') = None \<and>
    (\<exists>err. fst (getVerifiedHeader env2 (BidAlias ''latest'') None op') = Fail err) \<and>
    (\<exists>err. fst (fe_blockNumber env2 op') = Fail err) \<and> (\<exists>err. fst (fe_gasPrice env2 op') = Fail err)"
proof -
  have "saves (\<lambda>s. unset (fst s)) (opSyncOnce env1 env2 evm c)"
    by (rule saves_opSyncOnce) (use assms(1) in \<open>simp add: unset_def\<close>)
  then have n: "latestHash (headerStore op') = None"
    using assms(2) unfolding saves_def unset_def by (metis assms(3) fst_conv snd_conv)
  have h: "\<exists>err. getVerifiedHeader env2 (BidAlias ''latest'') None op' = (Fail err, op')"
    using n by (simp add: getVerifiedHeader_def no_latest)
  have "\<exists>err. getVerifiedBlock env2 (BidAlias ''latest'') True None op' = (Fail err, op')"
    using n by (simp add: getVerifiedBlock_def no_latest)
  then have p: "\<exists>err. suggestGasPrice env2 op' = (Fail err, op')"
    by (auto simp: suggestGasPrice_def andThen_def)
  have gate: "\<exists>err. fst (andThen (requireSynced env2) (\<lambda>_. m) op') = Fail err" if "\<exists>err. fst (m op') = Fail err"
    for m :: "('a, u64) engine_proc"
    using that by (auto simp: andThen_def requireSynced_cases Let_def)
  show ?thesis
    using n h gate [of "andThen (penaltyOr (getVerifiedHeader env2 (BidAlias ''latest'') None)) (\<lambda>latest. ret (number latest))"]
      gate [of "penaltyOr (suggestGasPrice env2)"] p
    by (auto simp: fe_blockNumber_def fe_gasPrice_def andThen_def penaltyOr_def)
qed

theorem op_latest_is_never_available_witness:
  "\<exists>out op' l1' err. opSyncOnce chain_env op_env demo_evm demo_abi (op_engine, l1_engine) = (out, op', l1') \<and>
     fst (fe_blockNumber op_env op') = Fail err"
proof -
  obtain out op' l1' where r: "opSyncOnce chain_env op_env demo_evm demo_abi (op_engine, l1_engine) = (out, op', l1')"
    by (rule prod_cases3)
  have "latestHash (headerStore op_engine) = None"
    by (simp add: op_engine_def demo_engine_def new_store_def)
  from op_latest_is_never_available [OF _ this r] r show ?thesis
    by (auto simp: op_env_def chain_env_def quiet_env_def)
qed

text \<open>
  The tables agree: a network found by its name is found by its chain id, with the same system
  configuration and the same L1 chain.
\<close>

theorem op_networks_consistent:
  assumes "opChainParamsForNetwork name = Inr p"
  shows "opNetwork p = name \<and> getSystemConfig (l2ChainId p) = Inr (op_systemConfig p) \<and>
    opL1ChainId (l2ChainId p) = Inr (l1ChainId p)"
  using assms
  by (auto simp: opChainParamsForNetwork_def getSystemConfig_def opL1ChainId_def opMainnet_def baseMainnet_def
      opSepolia_def split: if_splits)

end
