(* ===== verification/Hard_Forks.thy ===== *)
theory Hard_Forks
  imports Prelude
begin

text \<open>
  The fork schedule of the execution client, as the stateless guest uses it: the hard forks and
  the table of their thresholds (\<open>common/hardforks.nim\<close>), which fork a block is in
  (\<open>toHardFork\<close> of \<open>common/chain_config.nim\<close>, the predicates of \<open>common/common.nim\<close>), the blob
  schedule, and the configuration the guest runs with (\<open>chainConfigForStateless\<close> of
  \<open>stateless/stateless_execution.nim\<close>).
\<close>

section \<open>Hard forks\<close>

datatype hard_fork =
    Frontier | Homestead | DAOFork | Tangerine | Spurious | Byzantium | Constantinople | Petersburg
  | Istanbul | MuirGlacier | Berlin | London | ArrowGlacier | GrayGlacier | MergeFork | Shanghai
  | Cancun | Prague | Osaka | Bpo1 | Bpo2 | Bpo3 | Bpo4 | Bpo5 | Amsterdam | Bogota

text \<open>The order of the enumeration. The list is the one a loop over the enumeration visits.\<close>

definition all_forks :: "hard_fork list" where
  "all_forks =
     [Frontier, Homestead, DAOFork, Tangerine, Spurious, Byzantium, Constantinople, Petersburg,
      Istanbul, MuirGlacier, Berlin, London, ArrowGlacier, GrayGlacier, MergeFork, Shanghai,
      Cancun, Prague, Osaka, Bpo1, Bpo2, Bpo3, Bpo4, Bpo5, Amsterdam, Bogota]"

primrec ord_fork :: "hard_fork \<Rightarrow> nat" where
  "ord_fork Frontier = 0" | "ord_fork Homestead = 1" | "ord_fork DAOFork = 2"
| "ord_fork Tangerine = 3" | "ord_fork Spurious = 4" | "ord_fork Byzantium = 5"
| "ord_fork Constantinople = 6" | "ord_fork Petersburg = 7" | "ord_fork Istanbul = 8"
| "ord_fork MuirGlacier = 9" | "ord_fork Berlin = 10" | "ord_fork London = 11"
| "ord_fork ArrowGlacier = 12" | "ord_fork GrayGlacier = 13" | "ord_fork MergeFork = 14"
| "ord_fork Shanghai = 15" | "ord_fork Cancun = 16" | "ord_fork Prague = 17" | "ord_fork Osaka = 18"
| "ord_fork Bpo1 = 19" | "ord_fork Bpo2 = 20" | "ord_fork Bpo3 = 21" | "ord_fork Bpo4 = 22"
| "ord_fork Bpo5 = 23" | "ord_fork Amsterdam = 24" | "ord_fork Bogota = 25"

lemma inj_ord_fork: "ord_fork f = ord_fork g \<Longrightarrow> f = g"
  by (cases f; cases g; simp)

instantiation hard_fork :: linorder
begin

definition less_eq_hard_fork :: "hard_fork \<Rightarrow> hard_fork \<Rightarrow> bool" where
  "less_eq_hard_fork f g \<longleftrightarrow> ord_fork f \<le> ord_fork g"

definition less_hard_fork :: "hard_fork \<Rightarrow> hard_fork \<Rightarrow> bool" where
  "less_hard_fork f g \<longleftrightarrow> ord_fork f < ord_fork g"

instance
  by intro_classes (auto simp: less_eq_hard_fork_def less_hard_fork_def dest: inj_ord_fork)

end

lemma all_forks_complete: "f \<in> set all_forks"
  by (cases f) (simp_all add: all_forks_def)

lemma sorted_all_forks: "sorted_wrt (<) all_forks"
  by (simp add: all_forks_def less_hard_fork_def)

definition lastPurelyBlockNumberBasedFork :: hard_fork where
  "lastPurelyBlockNumberBasedFork = GrayGlacier"

definition firstTimeBasedFork :: hard_fork where
  "firstTimeBasedFork = Shanghai"

section \<open>Thresholds and configuration\<close>

text \<open>The arrays of the table are functions; outside their index range they are not used.\<close>

record fork_transition_table =
  blockNumberThresholds :: "hard_fork \<Rightarrow> u64 option"
  mergeNumber :: "u64 option"
  mergeTtd :: "u256 option"
  mergeNetsplit :: "u64 option"
  timeThresholds :: "hard_fork \<Rightarrow> u64 option"

record fork_determination_info =
  fdi_number :: u64
  fdi_time :: "u64 option"
  fdi_td :: "u256 option"

definition forkDeterminationInfo :: "u64 \<Rightarrow> u64 \<Rightarrow> fork_determination_info" where
  "forkDeterminationInfo n t = \<lparr>fdi_number = n, fdi_time = Some t, fdi_td = None\<rparr>"

definition reached :: "'a::linorder option \<Rightarrow> 'a \<Rightarrow> bool" where
  "reached threshold x = (case threshold of None \<Rightarrow> False | Some t \<Rightarrow> t \<le> x)"

definition isGTETransitionThreshold ::
    "fork_transition_table \<Rightarrow> fork_determination_info \<Rightarrow> hard_fork \<Rightarrow> bool" where
  "isGTETransitionThreshold table d fork =
     (if fork \<le> lastPurelyBlockNumberBasedFork then reached (blockNumberThresholds table fork) (fdi_number d)
      else if fork = MergeFork then
        (if mergeNumber table \<noteq> None then reached (mergeNumber table) (fdi_number d)
         else case fdi_td d of None \<Rightarrow> False | Some td \<Rightarrow> reached (mergeTtd table) td)
      else case fdi_time d of None \<Rightarrow> False | Some t \<Rightarrow> reached (timeThresholds table fork) t)"

text \<open>\<open>toHardFork\<close>: the loop counts down; no match is a failed assertion.\<close>

fun first_match :: "('a \<Rightarrow> bool) \<Rightarrow> 'a list \<Rightarrow> 'a option" where
  "first_match p [] = None"
| "first_match p (x # xs) = (if p x then Some x else first_match p xs)"

definition toHardFork :: "fork_transition_table \<Rightarrow> fork_determination_info \<Rightarrow> (string, hard_fork) outcome" where
  "toHardFork table d =
     (case first_match (isGTETransitionThreshold table d) (rev all_forks) of
        None \<Rightarrow> Defect
      | Some fork \<Rightarrow> Done fork)"

record blob_schedule =
  bs_target :: u64
  bs_max :: u64
  bs_baseFeeUpdateFraction :: u64

text \<open>
  The configuration. The activation blocks of the forks up to the merge are one function of the
  fork (\<open>homesteadBlock\<close> ... \<open>grayGlacierBlock\<close>, with \<open>eip155Block\<close> apart), and so are the
  activation times (\<open>shanghaiTime\<close> ... \<open>bogotaTime\<close>).
\<close>

record chain_config =
  cc_chainId :: u256
  cc_forkBlock :: "hard_fork \<Rightarrow> u64 option"
  cc_eip155Block :: "u64 option"
  cc_daoForkSupport :: bool
  cc_posBlock :: "u64 option"
  cc_mergeNetsplitBlock :: "u64 option"
  cc_forkTime :: "hard_fork \<Rightarrow> u64 option"
  cc_terminalTotalDifficulty :: "u256 option"
  cc_depositContractAddress :: "address option"
  cc_blobSchedule :: "hard_fork \<Rightarrow> blob_schedule option"

definition mergeForkTransitionNumber :: "chain_config \<Rightarrow> u64 option" where
  "mergeForkTransitionNumber conf =
     (if cc_posBlock conf \<noteq> None \<and> cc_mergeNetsplitBlock conf \<noteq> None then cc_posBlock conf
      else cc_mergeNetsplitBlock conf)"

definition toForkTransitionTable :: "chain_config \<Rightarrow> fork_transition_table" where
  "toForkTransitionTable conf =
     \<lparr>blockNumberThresholds = (cc_forkBlock conf)(Frontier := Some 0),
      mergeNumber = mergeForkTransitionNumber conf,
      mergeTtd = cc_terminalTotalDifficulty conf,
      mergeNetsplit = cc_mergeNetsplitBlock conf,
      timeThresholds = cc_forkTime conf\<rparr>"

text \<open>
  \<open>populateFromForkTransitionTable\<close> leaves \<open>posBlock\<close>, the chain id and the rest as they are;
  \<open>Frontier\<close> has no field of its own.
\<close>

definition populateFromForkTransitionTable ::
    "chain_config \<Rightarrow> fork_transition_table \<Rightarrow> chain_config" where
  "populateFromForkTransitionTable conf t =
     conf\<lparr>cc_forkBlock := (blockNumberThresholds t)(Frontier := cc_forkBlock conf Frontier),
          cc_eip155Block := blockNumberThresholds t Spurious,
          cc_mergeNetsplitBlock := mergeNetsplit t,
          cc_terminalTotalDifficulty := mergeTtd t,
          cc_forkTime := timeThresholds t\<rparr>"

text \<open>\<open>daoCheck\<close>, run when a chain is initialized; its second test can no longer succeed.\<close>

definition daoCheck :: "chain_config \<Rightarrow> chain_config" where
  "daoCheck conf =
     (let conf1 = (if \<not> cc_daoForkSupport conf \<or> cc_forkBlock conf DAOFork = None
                   then conf\<lparr>cc_forkBlock := (cc_forkBlock conf)(DAOFork := cc_forkBlock conf Homestead)\<rparr>
                   else conf)
      in if cc_daoForkSupport conf1 \<and> cc_forkBlock conf1 DAOFork = None
         then conf1\<lparr>cc_forkBlock := (cc_forkBlock conf1)(DAOFork := cc_forkBlock conf1 Homestead)\<rparr>
         else conf1)"

section \<open>The chain's predicates\<close>

text \<open>What of \<open>CommonRef\<close> block validation reads: the configuration and its table.\<close>

record common =
  com_config :: chain_config
  com_forkTransitionTable :: fork_transition_table

definition newCommon :: "chain_config \<Rightarrow> common" where
  "newCommon config =
     (let conf = daoCheck config
      in \<lparr>com_config = conf, com_forkTransitionTable = toForkTransitionTable conf\<rparr>)"

definition isLondonOrLater :: "common \<Rightarrow> u64 \<Rightarrow> u64 \<Rightarrow> (string, bool) outcome" where
  "isLondonOrLater com n t =
     bind_outcome (toHardFork (com_forkTransitionTable com) (forkDeterminationInfo n t))
       (\<lambda>fork. Done (London \<le> fork))"

definition isTimeForkOrLater :: "hard_fork \<Rightarrow> common \<Rightarrow> u64 \<Rightarrow> bool" where
  "isTimeForkOrLater fork com t = reached (cc_forkTime (com_config com) fork) t"

abbreviation isShanghaiOrLater :: "common \<Rightarrow> u64 \<Rightarrow> bool" where
  "isShanghaiOrLater \<equiv> isTimeForkOrLater Shanghai"

abbreviation isCancunOrLater :: "common \<Rightarrow> u64 \<Rightarrow> bool" where
  "isCancunOrLater \<equiv> isTimeForkOrLater Cancun"

abbreviation isAmsterdamOrLater :: "common \<Rightarrow> u64 \<Rightarrow> bool" where
  "isAmsterdamOrLater \<equiv> isTimeForkOrLater Amsterdam"

text \<open>
  \<open>proofOfStake\<close>. Only a chain without either block consults the total difficulty of the
  database; it is an argument.
\<close>

definition proofOfStake :: "common \<Rightarrow> bool \<Rightarrow> u64 \<Rightarrow> bool" where
  "proofOfStake com isBlockAfterTtd n =
     (if cc_posBlock (com_config com) \<noteq> None then reached (cc_posBlock (com_config com)) n
      else if cc_mergeNetsplitBlock (com_config com) \<noteq> None
      then reached (cc_mergeNetsplitBlock (com_config com)) n
      else isBlockAfterTtd)"

text \<open>The schedule of a fork; forks before Cancun and forks without a schedule are assertions.\<close>

definition blobScheduleOf :: "common \<Rightarrow> hard_fork \<Rightarrow> (string, blob_schedule) outcome" where
  "blobScheduleOf com fork =
     (if fork < Cancun then Defect
      else case cc_blobSchedule (com_config com) fork of None \<Rightarrow> Defect | Some bs \<Rightarrow> Done bs)"

definition defaultBlobSchedule :: "hard_fork \<Rightarrow> blob_schedule option" where
  "defaultBlobSchedule fork =
     (case fork of
        Cancun \<Rightarrow> Some \<lparr>bs_target = 3, bs_max = 6, bs_baseFeeUpdateFraction = 3338477\<rparr>
      | Prague \<Rightarrow> Some \<lparr>bs_target = 6, bs_max = 9, bs_baseFeeUpdateFraction = 5007716\<rparr>
      | Osaka \<Rightarrow> Some \<lparr>bs_target = 6, bs_max = 9, bs_baseFeeUpdateFraction = 5007716\<rparr>
      | Bpo1 \<Rightarrow> Some \<lparr>bs_target = 10, bs_max = 15, bs_baseFeeUpdateFraction = 8346193\<rparr>
      | Bpo2 \<Rightarrow> Some \<lparr>bs_target = 14, bs_max = 21, bs_baseFeeUpdateFraction = 11684671\<rparr>
      | Amsterdam \<Rightarrow> Some \<lparr>bs_target = 14, bs_max = 21, bs_baseFeeUpdateFraction = 11684671\<rparr>
      | Bogota \<Rightarrow> Some \<lparr>bs_target = 14, bs_max = 21, bs_baseFeeUpdateFraction = 11684671\<rparr>
      | _ \<Rightarrow> None)"

section \<open>The guest's configuration\<close>

text \<open>
  The transitions: every fork up to Amsterdam is active from the start. The deposit contract is
  the one of the known network with this id; \<open>deposit_contract_of\<close> stands for
  \<open>chainConfigForNetwork\<close>.
\<close>

definition statelessTransitions :: fork_transition_table where
  "statelessTransitions =
     \<lparr>blockNumberThresholds =
        (\<lambda>f. if f \<le> lastPurelyBlockNumberBasedFork then Some 0 else None),
      mergeNumber = Some 0, mergeTtd = Some 0, mergeNetsplit = Some 0,
      timeThresholds = (\<lambda>f. if firstTimeBasedFork \<le> f \<and> f \<le> Amsterdam then Some 0 else None)\<rparr>"

definition chainConfigForStateless :: "(u256 \<Rightarrow> address option) \<Rightarrow> u64 \<Rightarrow> chain_config" where
  "chainConfigForStateless deposit_contract_of chainId =
     populateFromForkTransitionTable
       \<lparr>cc_chainId = ucast chainId, cc_forkBlock = (\<lambda>_. None), cc_eip155Block = None,
        cc_daoForkSupport = False, cc_posBlock = None, cc_mergeNetsplitBlock = None,
        cc_forkTime = (\<lambda>_. None), cc_terminalTotalDifficulty = None,
        cc_depositContractAddress = deposit_contract_of (ucast chainId),
        cc_blobSchedule = defaultBlobSchedule\<rparr> statelessTransitions"

definition statelessCommon :: "(u256 \<Rightarrow> address option) \<Rightarrow> u64 \<Rightarrow> common" where
  "statelessCommon deposit_contract_of chainId =
     newCommon (chainConfigForStateless deposit_contract_of chainId)"

section \<open>Lemmas\<close>

lemma first_match_None: "first_match p xs = None \<longleftrightarrow> (\<forall>x \<in> set xs. \<not> p x)"
  by (induction xs) auto

lemma first_match_rev_sorted:
  fixes xs :: "'a::linorder list"
  assumes "sorted_wrt (<) xs" and "first_match p (rev xs) = Some x"
  shows "p x \<and> x \<in> set xs \<and> (\<forall>y \<in> set xs. p y \<longrightarrow> y \<le> x)"
  using assms
proof (induction xs rule: rev_induct)
  case (snoc z zs)
  then show ?case by (cases "p z") (auto simp: sorted_wrt_append dest: less_imp_le)
qed simp

text \<open>\<open>toHardFork\<close> finds the latest fork whose threshold the block has reached.\<close>

lemma toHardFork_Done:
  "toHardFork table d = Done f \<longleftrightarrow>
     isGTETransitionThreshold table d f \<and> (\<forall>g. isGTETransitionThreshold table d g \<longrightarrow> g \<le> f)"
proof -
  let ?p = "isGTETransitionThreshold table d"
  have found: "?p x \<and> (\<forall>g. ?p g \<longrightarrow> g \<le> x)" if "first_match ?p (rev all_forks) = Some x" for x
    using first_match_rev_sorted [OF sorted_all_forks that] all_forks_complete by blast
  show ?thesis
  proof (cases "first_match ?p (rev all_forks)")
    case None
    then have "\<not> ?p f" using all_forks_complete by (auto simp: first_match_None)
    with None show ?thesis by (simp add: toHardFork_def)
  next
    case (Some x)
    with found [OF Some] show ?thesis by (auto simp: toHardFork_def intro: order.antisym)
  qed
qed

lemma toHardFork_total:
  assumes "blockNumberThresholds table Frontier = Some 0"
  shows "\<exists>f. toHardFork table d = Done f"
proof -
  have "isGTETransitionThreshold table d Frontier"
    using assms by (simp add: isGTETransitionThreshold_def lastPurelyBlockNumberBasedFork_def
        less_eq_hard_fork_def reached_def)
  then have "first_match (isGTETransitionThreshold table d) (rev all_forks) \<noteq> None"
    using all_forks_complete by (auto simp: first_match_None)
  then show ?thesis by (auto simp: toHardFork_def)
qed

lemma newCommon_total: "\<exists>f. toHardFork (com_forkTransitionTable (newCommon conf)) d = Done f"
  by (rule toHardFork_total) (simp add: newCommon_def toForkTransitionTable_def Let_def)

lemma reached_mono: "reached threshold x \<Longrightarrow> x \<le> y \<Longrightarrow> reached threshold y"
  by (auto simp: reached_def split: option.splits)

lemma threshold_mono:
  assumes "isGTETransitionThreshold table (forkDeterminationInfo n t) f" and "n \<le> n'" and "t \<le> t'"
  shows "isGTETransitionThreshold table (forkDeterminationInfo n' t') f"
  using assms
  by (auto simp: isGTETransitionThreshold_def forkDeterminationInfo_def
      split: if_splits intro: reached_mono)

lemma threshold_time:
  "Shanghai \<le> f \<Longrightarrow>
     isGTETransitionThreshold (toForkTransitionTable conf) (forkDeterminationInfo n t) f =
     reached (cc_forkTime conf f) t"
  by (cases f) (simp_all add: isGTETransitionThreshold_def lastPurelyBlockNumberBasedFork_def
      less_eq_hard_fork_def forkDeterminationInfo_def toForkTransitionTable_def)

text \<open>In the guest's configuration every block is an Amsterdam block after the merge.\<close>

lemma stateless_fork:
  "toHardFork (com_forkTransitionTable (statelessCommon dep cid)) (forkDeterminationInfo n t) = Done Amsterdam"
proof -
  have "g \<le> Amsterdam" if "isGTETransitionThreshold (com_forkTransitionTable (statelessCommon dep cid))
      (forkDeterminationInfo n t) g" for g
    using that by (cases g)
      (simp_all add: statelessCommon_def newCommon_def chainConfigForStateless_def daoCheck_def
        populateFromForkTransitionTable_def toForkTransitionTable_def statelessTransitions_def
        isGTETransitionThreshold_def lastPurelyBlockNumberBasedFork_def firstTimeBasedFork_def
        less_eq_hard_fork_def forkDeterminationInfo_def reached_def Let_def)
  moreover have "isGTETransitionThreshold (com_forkTransitionTable (statelessCommon dep cid))
      (forkDeterminationInfo n t) Amsterdam"
    by (simp add: statelessCommon_def newCommon_def chainConfigForStateless_def daoCheck_def
        populateFromForkTransitionTable_def toForkTransitionTable_def statelessTransitions_def
        isGTETransitionThreshold_def lastPurelyBlockNumberBasedFork_def firstTimeBasedFork_def
        less_eq_hard_fork_def forkDeterminationInfo_def reached_def Let_def)
  ultimately show ?thesis by (subst toHardFork_Done) blast
qed

lemma stateless_predicates [simp]:
  "Shanghai \<le> f \<Longrightarrow> f \<le> Amsterdam \<Longrightarrow> isTimeForkOrLater f (statelessCommon dep cid) t"
  "isLondonOrLater (statelessCommon dep cid) n t = Done True"
  "proofOfStake (statelessCommon dep cid) ttd n"
  "blobScheduleOf (statelessCommon dep cid) Amsterdam =
     Done \<lparr>bs_target = 14, bs_max = 21, bs_baseFeeUpdateFraction = 11684671\<rparr>"
  "cc_daoForkSupport (com_config (statelessCommon dep cid)) = False"
proof -
  show "isLondonOrLater (statelessCommon dep cid) n t = Done True"
    by (simp add: isLondonOrLater_def stateless_fork less_eq_hard_fork_def)
qed (simp_all add: isTimeForkOrLater_def statelessCommon_def newCommon_def daoCheck_def Let_def
    chainConfigForStateless_def populateFromForkTransitionTable_def statelessTransitions_def
    firstTimeBasedFork_def reached_def proofOfStake_def blobScheduleOf_def defaultBlobSchedule_def
    less_hard_fork_def)

section \<open>Properties\<close>

text \<open>
  The two ways to ask for a fork agree. On a configuration whose activation times never
  decrease from one fork to the next, a time reaches the activation time of a fork after the
  merge exactly if \<open>toHardFork\<close> puts the block in that fork or a later one.
\<close>

theorem fork_predicates_agree:
  assumes "Shanghai \<le> f" and "conf = com_config com" and "com_forkTransitionTable com = toForkTransitionTable conf"
    and "\<forall>g. f \<le> g \<longrightarrow> cc_forkTime conf g \<noteq> None \<longrightarrow>
      (\<exists>tf. cc_forkTime conf f = Some tf \<and> tf \<le> the (cc_forkTime conf g))"
  shows "\<exists>fork. toHardFork (com_forkTransitionTable com) (forkDeterminationInfo n t) = Done fork \<and>
    (isTimeForkOrLater f com t \<longleftrightarrow> f \<le> fork)"
proof -
  let ?d = "forkDeterminationInfo n t" and ?table = "toForkTransitionTable conf"
  obtain fork where fork: "toHardFork ?table ?d = Done fork"
    using toHardFork_total [of ?table ?d] by (auto simp: toForkTransitionTable_def)
  then have top: "isGTETransitionThreshold ?table ?d fork"
      "\<And>g. isGTETransitionThreshold ?table ?d g \<Longrightarrow> g \<le> fork"
    by (auto simp: toHardFork_Done)
  have "isTimeForkOrLater f com t \<longleftrightarrow> f \<le> fork"
  proof
    assume "isTimeForkOrLater f com t"
    then show "f \<le> fork"
      using top(2) [of f] threshold_time [OF assms(1)] assms(2) by (simp add: isTimeForkOrLater_def)
  next
    assume "f \<le> fork"
    moreover from this assms(1) have "Shanghai \<le> fork" by simp
    ultimately show "isTimeForkOrLater f com t"
      using top(1) threshold_time [of fork conf n t] assms(2,4)
      by (fastforce simp: isTimeForkOrLater_def reached_def split: option.splits)
  qed
  with fork assms(3) show ?thesis by auto
qed

theorem fork_predicates_agree_witness:
  "\<exists>fork. toHardFork (com_forkTransitionTable (statelessCommon (\<lambda>_. None) 1)) (forkDeterminationInfo 7 9) = Done fork \<and>
    (isTimeForkOrLater Cancun (statelessCommon (\<lambda>_. None) 1) 9 \<longleftrightarrow> Cancun \<le> fork)"
proof (rule fork_predicates_agree)
  show "com_forkTransitionTable (statelessCommon (\<lambda>_. None) 1) =
      toForkTransitionTable (com_config (statelessCommon (\<lambda>_. None) 1))"
    by (simp add: statelessCommon_def newCommon_def Let_def)
  show "\<forall>g. Cancun \<le> g \<longrightarrow> cc_forkTime (com_config (statelessCommon (\<lambda>_. None) 1)) g \<noteq> None \<longrightarrow>
      (\<exists>tf. cc_forkTime (com_config (statelessCommon (\<lambda>_. None) 1)) Cancun = Some tf \<and>
        tf \<le> the (cc_forkTime (com_config (statelessCommon (\<lambda>_. None) 1)) g))"
    by (simp add: statelessCommon_def newCommon_def daoCheck_def Let_def chainConfigForStateless_def
        populateFromForkTransitionTable_def statelessTransitions_def firstTimeBasedFork_def
        less_eq_hard_fork_def)
qed (simp_all add: less_eq_hard_fork_def)

text \<open>
  Forks only move forward: of two blocks, the one with the greater number and the later time
  is never in an earlier fork, whatever the table, ordered or not.
\<close>

theorem forks_move_forward:
  assumes "n \<le> n'" and "t \<le> t'"
    and "toHardFork table (forkDeterminationInfo n t) = Done f"
    and "toHardFork table (forkDeterminationInfo n' t') = Done f'"
  shows "f \<le> f'"
  using assms threshold_mono unfolding toHardFork_Done by blast

theorem forks_move_forward_witness:
  "Amsterdam \<le> Amsterdam"
  using forks_move_forward [of 1 2 5 6 "com_forkTransitionTable (statelessCommon (\<lambda>_. None) 1)" Amsterdam Amsterdam]
  by (simp add: stateless_fork)

end
