(* ===== verification/Word_Bytes.thy ===== *)
theory Word_Bytes
  imports Prelude
begin

text \<open>
  Words as byte strings of fixed length, in both byte orders (\<open>toBytesBE\<close>, \<open>toBytesLE\<close>,
  \<open>fromBytesBE\<close>), and what makes a concatenation of such strings readable: encoders of fixed
  length that are injective.
\<close>

fun toBytesBE :: "nat \<Rightarrow> 'a::len word \<Rightarrow> byte list" where
  "toBytesBE 0 w = []"
| "toBytesBE (Suc n) w = toBytesBE n (drop_bit 8 w) @ [ucast w]"

definition toBytesLE :: "nat \<Rightarrow> 'a::len word \<Rightarrow> byte list" where
  "toBytesLE n w = rev (toBytesBE n w)"

definition fromBytesBE :: "byte list \<Rightarrow> 'a::len word" where
  "fromBytesBE bytes = foldl (\<lambda>w b. or (push_bit 8 w) (ucast b)) 0 bytes"

lemma length_toBytes [simp]: "length (toBytesBE n w) = n" "length (toBytesLE n w) = n"
  by (induction n arbitrary: w) (simp_all add: toBytesLE_def)

lemma fromBytesBE_snoc [simp]:
  "fromBytesBE (bytes @ [b]) = or (push_bit 8 (fromBytesBE bytes)) (ucast b)"
  by (simp add: fromBytesBE_def)

lemma fromBytesBE_ucast:
  fixes w :: "'a::len word"
  shows "(fromBytesBE (toBytesBE n w) :: 'b::len word) = ucast (take_bit (8 * n) w)"
proof (induction n arbitrary: w)
  case 0
  then show ?case by (simp add: fromBytesBE_def)
next
  case (Suc n)
  have "(fromBytesBE (toBytesBE (Suc n) w) :: 'b word) =
      or (push_bit 8 (ucast (take_bit (8 * n) (drop_bit 8 w)))) (ucast (ucast w :: byte))"
    by (simp add: Suc)
  also have "\<dots> = ucast (take_bit (8 * Suc n) w)"
    by (rule bit_word_eqI) (auto simp: bit_simps le_diff_conv2)
  finally show ?case .
qed

lemma fromBytesBE_toBytesBE: "fromBytesBE (toBytesBE n w) = take_bit (8 * n) w"
  by (simp add: fromBytesBE_ucast)

lemma toBytesBE_roundtrip:
  fixes w :: "'a::len word"
  shows "LENGTH('a) \<le> 8 * n \<Longrightarrow> fromBytesBE (toBytesBE n w) = w"
  by (simp add: fromBytesBE_toBytesBE take_bit_word_eq_self)

lemma fromBytesBE_bounded:
  "take_bit (8 * length bytes) (fromBytesBE bytes :: 'a::len word) = fromBytesBE bytes"
proof (induction bytes rule: rev_induct)
  case (snoc b bytes)
  have byte: "bit b n \<Longrightarrow> n < 8" for n using bit_imp_le_length [of b n] by simp
  have "take_bit (8 * length (bytes @ [b])) (fromBytesBE (bytes @ [b]) :: 'a word) =
      or (push_bit 8 (take_bit (8 * length bytes) (fromBytesBE bytes))) (ucast b)"
    by (rule bit_word_eqI) (auto simp: bit_simps dest: byte)
  then show ?case by (simp add: snoc)
qed (simp add: fromBytesBE_def)

lemma toBytesBE_fromBytesBE:
  "8 * length bytes \<le> LENGTH('a) \<Longrightarrow> toBytesBE (length bytes) (fromBytesBE bytes :: 'a::len word) = bytes"
proof (induction bytes rule: rev_induct)
  case (snoc b bytes)
  let ?w = "fromBytesBE bytes :: 'a word"
  have byte: "\<not> bit b (8 + n)" for n using bit_imp_le_length [of b "8 + n"] by auto
  have "drop_bit 8 (or (push_bit 8 (take_bit (8 * length bytes) ?w)) (ucast b)) = take_bit (8 * length bytes) ?w"
    using snoc.prems by (intro bit_word_eqI) (auto simp: bit_simps byte)
  moreover have "(ucast (or (push_bit 8 ?w) (ucast b)) :: byte) = b"
    using snoc.prems by (intro bit_word_eqI) (auto simp: bit_simps)
  ultimately show ?case using snoc by (simp add: fromBytesBE_bounded)
qed simp

lemma fromBytesBE_inject:
  assumes "8 * length bytes \<le> LENGTH('a)" and "length bytes = length bytes'"
  shows "(fromBytesBE bytes :: 'a::len word) = fromBytesBE bytes' \<longleftrightarrow> bytes = bytes'"
  by (metis assms toBytesBE_fromBytesBE)

lemma fromBytesBE_address:
  fixes a :: "160 word"
  shows "(fromBytesBE (toBytesBE 20 a) :: 256 word) = ucast a"
  by (simp add: fromBytesBE_ucast take_bit_word_eq_self)

lemma ucast_address_eq_1:
  fixes a :: "160 word"
  shows "(ucast a :: 256 word) = 1 \<longleftrightarrow> a = 1"
  by transfer (simp add: take_bit_take_bit)

lemma toBytesBE_inject:
  fixes v w :: "'a::len word"
  assumes "LENGTH('a) \<le> 8 * n"
  shows "toBytesBE n v = toBytesBE n w \<longleftrightarrow> v = w"
  by (metis toBytesBE_roundtrip [OF assms])

lemma toBytesLE_inject:
  fixes v w :: "'a::len word"
  shows "LENGTH('a) \<le> 8 * n \<Longrightarrow> toBytesLE n v = toBytesLE n w \<longleftrightarrow> v = w"
  by (simp add: toBytesLE_def toBytesBE_inject)

text \<open>The contract of an encoder of fixed length: what it encodes can be told apart, in sequence too.\<close>

locale fixed_encoder =
  fixes enc :: "'a \<Rightarrow> 'b list"
    and size_of :: nat
  assumes length_enc: "length (enc x) = size_of"
    and size_pos: "0 < size_of"
    and inj_enc: "enc x = enc y \<Longrightarrow> x = y"
begin

lemma length_concat: "length (concat (map enc xs)) = size_of * length xs"
  by (induction xs) (simp_all add: length_enc)

lemma enc_append: "enc x @ bs = enc y @ cs \<longleftrightarrow> x = y \<and> bs = cs"
  using inj_enc by (auto simp: append_eq_append_conv length_enc)

lemma concat_inject: "concat (map enc xs) = concat (map enc ys) \<longleftrightarrow> xs = ys"
proof
  show "concat (map enc xs) = concat (map enc ys) \<Longrightarrow> xs = ys"
  proof (induction xs arbitrary: ys)
    case Nil
    have "length (concat (map enc ys)) = 0" using Nil by simp
    then show ?case using size_pos by (simp only: length_concat) simp
  next
    case (Cons x xs)
    from Cons.prems have "length (concat (map enc ys)) = size_of * Suc (length xs)"
      using length_concat [of "x # xs"] by simp
    then obtain y zs where ys: "ys = y # zs"
      using size_pos by (cases ys) auto
    with Cons show ?case by (simp add: enc_append)
  qed
qed simp

lemma concat_nonempty: "concat (map enc xs) = [] \<longleftrightarrow> xs = []"
  using concat_inject [of xs "[]"] by simp

end

end
