(* ===== verification/Execution_Requests.thy ===== *)
theory Execution_Requests
  imports Word_Bytes
begin

text \<open>
  The execution requests of a block (EIP-7685): how the guest encodes the requests of a payload
  (\<open>encodeDeposits\<close> ... \<open>encodeBuilderExits\<close> of \<open>stateless/stateless_execution.nim\<close>) and the
  hash that the block header commits to them with (\<open>calcRequestsHash\<close> of \<open>utils/utils.nim\<close>).
  The request types are those of nimbus-eth2, with BLS keys of 48 and signatures of 96 bytes.
\<close>

section \<open>Requests and their encodings\<close>

type_synonym pubkey = "384 word"
type_synonym signature = "768 word"

record deposit_request =
  dr_pubkey :: pubkey
  dr_withdrawal_credentials :: hash32
  dr_amount :: u64
  dr_signature :: signature
  dr_index :: u64

record withdrawal_request =
  wr_source_address :: address
  wr_validator_pubkey :: pubkey
  wr_amount :: u64

record consolidation_request =
  cr_source_address :: address
  cr_source_pubkey :: pubkey
  cr_target_pubkey :: pubkey

record builder_deposit_request =
  bd_pubkey :: pubkey
  bd_withdrawal_credentials :: hash32
  bd_amount :: u64
  bd_signature :: signature

record builder_exit_request =
  be_source_address :: address
  be_pubkey :: pubkey

record execution_requests =
  er_deposits :: "deposit_request list"
  er_withdrawals :: "withdrawal_request list"
  er_consolidations :: "consolidation_request list"
  er_builder_deposits :: "builder_deposit_request list"
  er_builder_exits :: "builder_exit_request list"

definition depositBytes :: "deposit_request \<Rightarrow> byte list" where
  "depositBytes d =
     toBytesBE 48 (dr_pubkey d) @ toBytesBE 32 (dr_withdrawal_credentials d) @
     toBytesLE 8 (dr_amount d) @ toBytesBE 96 (dr_signature d) @ toBytesLE 8 (dr_index d)"

definition encodeDeposits :: "deposit_request list \<Rightarrow> byte list" where
  "encodeDeposits deposits = concat (map depositBytes deposits)"

definition withdrawalBytes :: "withdrawal_request \<Rightarrow> byte list" where
  "withdrawalBytes w =
     toBytesBE 20 (wr_source_address w) @ toBytesBE 48 (wr_validator_pubkey w) @ toBytesLE 8 (wr_amount w)"

definition encodeWithdrawals :: "withdrawal_request list \<Rightarrow> byte list" where
  "encodeWithdrawals withdrawals = concat (map withdrawalBytes withdrawals)"

definition consolidationBytes :: "consolidation_request \<Rightarrow> byte list" where
  "consolidationBytes c =
     toBytesBE 20 (cr_source_address c) @ toBytesBE 48 (cr_source_pubkey c) @ toBytesBE 48 (cr_target_pubkey c)"

definition encodeConsolidations :: "consolidation_request list \<Rightarrow> byte list" where
  "encodeConsolidations consolidations = concat (map consolidationBytes consolidations)"

definition builderDepositBytes :: "builder_deposit_request \<Rightarrow> byte list" where
  "builderDepositBytes d =
     toBytesBE 48 (bd_pubkey d) @ toBytesBE 32 (bd_withdrawal_credentials d) @
     toBytesLE 8 (bd_amount d) @ toBytesBE 96 (bd_signature d)"

definition encodeBuilderDeposits :: "builder_deposit_request list \<Rightarrow> byte list" where
  "encodeBuilderDeposits deposits = concat (map builderDepositBytes deposits)"

definition builderExitBytes :: "builder_exit_request \<Rightarrow> byte list" where
  "builderExitBytes e = toBytesBE 20 (be_source_address e) @ toBytesBE 48 (be_pubkey e)"

definition encodeBuilderExits :: "builder_exit_request list \<Rightarrow> byte list" where
  "encodeBuilderExits exits = concat (map builderExitBytes exits)"

section \<open>The requests hash\<close>

text \<open>
  SHA-256 is an argument; a hash fed piece by piece is the hash of the concatenation. Requests
  of an empty kind are left out.
\<close>

definition calcRequestsHash ::
    "(byte list \<Rightarrow> byte list) \<Rightarrow> (byte \<times> byte list) list \<Rightarrow> byte list" where
  "calcRequestsHash sha256 requests =
     sha256 (concat (map (\<lambda>(reqType, data). if 0 < length data then sha256 (reqType # data) else []) requests))"

text \<open>The type bytes of the five kinds of requests, constants of nim-eth.\<close>

record request_types =
  DEPOSIT_REQUEST_TYPE :: byte
  WITHDRAWAL_REQUEST_TYPE :: byte
  CONSOLIDATION_REQUEST_TYPE :: byte
  BUILDER_DEPOSIT_REQUEST_TYPE :: byte
  BUILDER_EXIT_REQUEST_TYPE :: byte

text \<open>The argument of \<open>calcRequestsHash\<close> in \<open>executeNewPayload\<close>.\<close>

definition payloadRequests :: "request_types \<Rightarrow> execution_requests \<Rightarrow> (byte \<times> byte list) list" where
  "payloadRequests ty reqs =
     [(DEPOSIT_REQUEST_TYPE ty, encodeDeposits (er_deposits reqs)),
      (WITHDRAWAL_REQUEST_TYPE ty, encodeWithdrawals (er_withdrawals reqs)),
      (CONSOLIDATION_REQUEST_TYPE ty, encodeConsolidations (er_consolidations reqs)),
      (BUILDER_DEPOSIT_REQUEST_TYPE ty, encodeBuilderDeposits (er_builder_deposits reqs)),
      (BUILDER_EXIT_REQUEST_TYPE ty, encodeBuilderExits (er_builder_exits reqs))]"

section \<open>Lemmas\<close>

lemmas bytes_inject = toBytesBE_inject toBytesLE_inject

interpretation dr: fixed_encoder depositBytes 192
  by unfold_locales (auto simp: depositBytes_def bytes_inject)

interpretation wr: fixed_encoder withdrawalBytes 76
  by unfold_locales (auto simp: withdrawalBytes_def bytes_inject)

interpretation cr: fixed_encoder consolidationBytes 116
  by unfold_locales (auto simp: consolidationBytes_def bytes_inject)

interpretation bd: fixed_encoder builderDepositBytes 184
  by unfold_locales (auto simp: builderDepositBytes_def bytes_inject)

interpretation bx: fixed_encoder builderExitBytes 68
  by unfold_locales (auto simp: builderExitBytes_def bytes_inject)

lemmas encoders = encodeDeposits_def encodeWithdrawals_def encodeConsolidations_def
  encodeBuilderDeposits_def encodeBuilderExits_def

lemmas encoders_inject = dr.concat_inject wr.concat_inject cr.concat_inject bd.concat_inject bx.concat_inject

lemma payloadRequests_inject: "payloadRequests ty r = payloadRequests ty r' \<longleftrightarrow> r = r'"
  by (auto simp: payloadRequests_def encoders encoders_inject)

text \<open>The strings that \<open>calcRequestsHash\<close> hashes.\<close>

definition request_digests :: "(byte list \<Rightarrow> byte list) \<Rightarrow> (byte \<times> byte list) list \<Rightarrow> byte list" where
  "request_digests sha256 rs = concat (map (\<lambda>(ty, data). if 0 < length data then sha256 (ty # data) else []) rs)"

definition request_preimages :: "(byte list \<Rightarrow> byte list) \<Rightarrow> (byte \<times> byte list) list \<Rightarrow> byte list set" where
  "request_preimages sha256 rs = {request_digests sha256 rs} \<union> {ty # data | ty data. (ty, data) \<in> set rs}"

lemma calcRequestsHash_digests: "calcRequestsHash sha256 rs = sha256 (request_digests sha256 rs)"
  by (simp add: calcRequestsHash_def request_digests_def)

lemma request_digests_inject:
  assumes "\<And>bs. length (sha256 bs) = 32"
    and "inj_on sha256 S" and "\<forall>(ty, data) \<in> set rs \<union> set rs'. ty # data \<in> S"
    and "map fst rs = map fst rs'" and "distinct (map fst rs)"
    and "request_digests sha256 rs = request_digests sha256 rs'"
  shows "rs = rs'"
  using assms(3-6)
proof (induction rs arbitrary: rs')
  case (Cons r rs)
  obtain ty data where r: "r = (ty, data)" by (cases r)
  from Cons.prems(2) r obtain data' rs1 where rs': "rs' = (ty, data') # rs1" and tys: "map fst rs = map fst rs1"
    by (cases rs') auto
  have head: "\<exists>t d. sha256 (t # d) = take 32 (request_digests sha256 xs) \<and> (t, d) \<in> set xs"
    if "request_digests sha256 xs \<noteq> []" for xs
    using that
  proof (induction xs)
    case (Cons x xs)
    then show ?case
      by (cases x; cases "snd x = []") (auto simp: request_digests_def assms(1))
  qed (simp add: request_digests_def)
  have other: "sha256 (ty # d) \<noteq> take 32 (request_digests sha256 xs)"
    if "request_digests sha256 xs \<noteq> []" "ty \<notin> fst ` set xs" "ty # d \<in> S" "\<forall>(t, e) \<in> set xs. t # e \<in> S" for d xs
  proof
    assume eq: "sha256 (ty # d) = take 32 (request_digests sha256 xs)"
    from head [OF that(1)] obtain t e where te: "sha256 (t # e) = take 32 (request_digests sha256 xs)" "(t, e) \<in> set xs"
      by blast
    with that(4) have "t # e \<in> S" by auto
    with inj_onD [OF assms(2)] eq te(1) that(3) have "ty # d = t # e" by metis
    with te(2) that(2) show False by force
  qed
  have fresh: "ty \<notin> fst ` set rs" "ty \<notin> fst ` set rs1"
    using Cons.prems(3) r arg_cong [OF tys, of set] by auto
  have inS: "ty # data \<in> S" "ty # data' \<in> S" "\<forall>(t, e) \<in> set rs. t # e \<in> S" "\<forall>(t, e) \<in> set rs1. t # e \<in> S"
    using Cons.prems(1) r rs' by auto
  have digests: "request_digests sha256 ((t, e) # xs) =
      (if e = [] then [] else sha256 (t # e)) @ request_digests sha256 xs" for t e xs
    by (simp add: request_digests_def)
  have nonempty: "sha256 bs @ xs \<noteq> []" for bs xs using assms(1) [of bs] by (cases "sha256 bs") auto
  have "data = data' \<and> request_digests sha256 rs = request_digests sha256 rs1"
  proof (cases "data = []"; cases "data' = []")
    assume "data \<noteq> []" "data' = []"
    then have eq: "sha256 (ty # data) @ request_digests sha256 rs = request_digests sha256 rs1"
      using Cons.prems(4) by (simp add: r rs' digests)
    then have "request_digests sha256 rs1 \<noteq> []" using nonempty by metis
    from other [OF this fresh(2) inS(1,4)] eq assms(1) show ?thesis by (metis append_eq_conv_conj)
  next
    assume "data = []" "data' \<noteq> []"
    then have eq: "sha256 (ty # data') @ request_digests sha256 rs1 = request_digests sha256 rs"
      using Cons.prems(4) by (simp add: r rs' digests)
    then have "request_digests sha256 rs \<noteq> []" using nonempty by metis
    from other [OF this fresh(1) inS(2,3)] eq assms(1) show ?thesis by (metis append_eq_conv_conj)
  next
    assume "data \<noteq> []" "data' \<noteq> []"
    then have "sha256 (ty # data) = sha256 (ty # data')" "request_digests sha256 rs = request_digests sha256 rs1"
      using Cons.prems(4) assms(1) by (auto simp: r rs' digests append_eq_append_conv)
    with inj_onD [OF assms(2)] inS(1,2) show ?thesis by fastforce
  qed (use Cons.prems(4) in \<open>simp add: r rs' digests\<close>)
  moreover have "rs = rs1"
    if "request_digests sha256 rs = request_digests sha256 rs1"
    using Cons.IH [of rs1] that Cons.prems(1,3) r rs' tys by auto
  ultimately show ?case using r rs' by simp
qed simp

definition distinct_types :: "request_types \<Rightarrow> bool" where
  "distinct_types ty \<longleftrightarrow>
     distinct [DEPOSIT_REQUEST_TYPE ty, WITHDRAWAL_REQUEST_TYPE ty, CONSOLIDATION_REQUEST_TYPE ty,
       BUILDER_DEPOSIT_REQUEST_TYPE ty, BUILDER_EXIT_REQUEST_TYPE ty]"

text \<open>SHA-256 has digests of 32 bytes and does not collide on a given set of strings.\<close>

definition collision_free :: "(byte list \<Rightarrow> byte list) \<Rightarrow> byte list set \<Rightarrow> bool" where
  "collision_free sha256 S \<longleftrightarrow> (\<forall>bs. length (sha256 bs) = 32) \<and> inj_on sha256 S"

lemma requests_hash_binds:
  assumes "distinct_types ty"
    and "collision_free sha256
      (request_preimages sha256 (payloadRequests ty r) \<union> request_preimages sha256 (payloadRequests ty r'))"
    and "calcRequestsHash sha256 (payloadRequests ty r) = calcRequestsHash sha256 (payloadRequests ty r')"
  shows "r = r'"
proof -
  let ?rs = "payloadRequests ty r" and ?rs' = "payloadRequests ty r'"
  let ?S = "request_preimages sha256 ?rs \<union> request_preimages sha256 ?rs'"
  have sha: "\<And>bs. length (sha256 bs) = 32" "inj_on sha256 ?S"
    using assms(2) by (auto simp: collision_free_def)
  have "sha256 (request_digests sha256 ?rs) = sha256 (request_digests sha256 ?rs')"
    using assms(3) by (simp add: calcRequestsHash_digests)
  then have "request_digests sha256 ?rs = request_digests sha256 ?rs'"
    by (rule inj_onD [OF sha(2)]) (simp_all add: request_preimages_def)
  moreover have "\<forall>(t, data) \<in> set ?rs \<union> set ?rs'. t # data \<in> ?S"
    by (auto simp: request_preimages_def)
  moreover have "map fst ?rs = map fst ?rs'" "distinct (map fst ?rs)"
    using assms(1) by (simp_all add: payloadRequests_def distinct_types_def)
  ultimately have "?rs = ?rs'" using request_digests_inject [OF sha] by metis
  then show ?thesis by (simp add: payloadRequests_inject)
qed

section \<open>Properties\<close>

text \<open>
  C16: the requests hash commits to the requests: if SHA-256 does not collide on what is hashed
  here and the five kinds have different type bytes, two lists of requests have the same hash
  exactly if they are the same, kind by kind and in the same order. The kinds left out because
  they are empty and the missing separators between requests give nothing to confuse.
\<close>

theorem requests_hash_commits:
  assumes "distinct_types ty"
    and "collision_free sha256
      (request_preimages sha256 (payloadRequests ty r) \<union> request_preimages sha256 (payloadRequests ty r'))"
  shows "calcRequestsHash sha256 (payloadRequests ty r) = calcRequestsHash sha256 (payloadRequests ty r')
    \<longleftrightarrow> r = r'"
  using requests_hash_binds [OF assms] by auto

definition demo_types :: request_types where
  "demo_types =
     \<lparr>DEPOSIT_REQUEST_TYPE = 0, WITHDRAWAL_REQUEST_TYPE = 1, CONSOLIDATION_REQUEST_TYPE = 2,
      BUILDER_DEPOSIT_REQUEST_TYPE = 3, BUILDER_EXIT_REQUEST_TYPE = 4\<rparr>"

text \<open>A digest that tells short strings apart: the length and the first bytes.\<close>

definition demo_sha256 :: "byte list \<Rightarrow> byte list" where
  "demo_sha256 bs = of_nat (length bs) # take 31 (bs @ replicate 31 0)"

definition no_requests :: execution_requests where
  "no_requests =
     \<lparr>er_deposits = [], er_withdrawals = [], er_consolidations = [], er_builder_deposits = [],
      er_builder_exits = []\<rparr>"

definition one_exit :: execution_requests where
  "one_exit = no_requests\<lparr>er_builder_exits := [\<lparr>be_source_address = 7, be_pubkey = 9\<rparr>]\<rparr>"

definition preimage_list :: "(byte list \<Rightarrow> byte list) \<Rightarrow> (byte \<times> byte list) list \<Rightarrow> byte list list" where
  "preimage_list sha256 rs = request_digests sha256 rs # map (\<lambda>(ty, data). ty # data) rs"

lemma request_preimages_list: "request_preimages sha256 rs = set (preimage_list sha256 rs)"
  by (force simp: request_preimages_def preimage_list_def)

lemma collision_free_list:
  assumes "\<And>bs. length (sha256 bs) = 32" and "set xs = S" and "distinct (map sha256 (remdups xs))"
  shows "collision_free sha256 S"
  using assms by (auto simp: collision_free_def distinct_map)

lemma demo_collision_free:
  "collision_free demo_sha256
     (request_preimages demo_sha256 (payloadRequests demo_types no_requests) \<union>
      request_preimages demo_sha256 (payloadRequests demo_types one_exit))"
proof (rule collision_free_list)
  show "set (preimage_list demo_sha256 (payloadRequests demo_types no_requests) @
      preimage_list demo_sha256 (payloadRequests demo_types one_exit)) =
    request_preimages demo_sha256 (payloadRequests demo_types no_requests) \<union>
      request_preimages demo_sha256 (payloadRequests demo_types one_exit)"
    by (simp add: request_preimages_list)
  show "distinct (map demo_sha256 (remdups (preimage_list demo_sha256 (payloadRequests demo_types no_requests) @
      preimage_list demo_sha256 (payloadRequests demo_types one_exit))))"
    by code_simp
qed (simp add: demo_sha256_def)

theorem requests_hash_commits_witness:
  "calcRequestsHash demo_sha256 (payloadRequests demo_types no_requests) \<noteq>
   calcRequestsHash demo_sha256 (payloadRequests demo_types one_exit)"
  using requests_hash_commits [OF _ demo_collision_free]
  by (simp add: distinct_types_def demo_types_def no_requests_def one_exit_def)

text \<open>
  Every kind of request has a fixed length: the encoding of a list has 192 bytes for each
  deposit, 76 for each withdrawal, 116 for each consolidation, 184 for each builder deposit and
  68 for each builder exit, and is empty only for no requests at all.
\<close>

theorem request_encodings_length:
  "length (encodeDeposits ds) = 192 * length ds \<and> length (encodeWithdrawals ws) = 76 * length ws \<and>
   length (encodeConsolidations cs) = 116 * length cs \<and> length (encodeBuilderDeposits bs) = 184 * length bs \<and>
   length (encodeBuilderExits es) = 68 * length es \<and>
   (\<forall>ty data. (ty, data) \<in> set (payloadRequests types reqs) \<longrightarrow> data = [] \<or> 68 \<le> length data)"
proof -
  have 1: "length (encodeDeposits xs) = 192 * length xs" "length (encodeWithdrawals ys) = 76 * length ys"
    "length (encodeConsolidations zs) = 116 * length zs" "length (encodeBuilderDeposits us) = 184 * length us"
    "length (encodeBuilderExits vs) = 68 * length vs" for xs ys zs us vs
    by (simp_all add: encoders dr.length_concat wr.length_concat cr.length_concat bd.length_concat bx.length_concat)
  have 2: "n = 0 \<or> 68 \<le> k * n" if "68 \<le> k" for n k :: nat
    using that mult_le_mono [of 68 k 1 n] by (cases n) auto
  have "data = [] \<or> 68 \<le> length data" if "(ty, data) \<in> set (payloadRequests types reqs)" for ty data
    using that 1 2 [of 192 "length (er_deposits reqs)"] 2 [of 76 "length (er_withdrawals reqs)"]
      2 [of 116 "length (er_consolidations reqs)"] 2 [of 184 "length (er_builder_deposits reqs)"]
      2 [of 68 "length (er_builder_exits reqs)"]
    by (auto simp: payloadRequests_def encoders)
  with 1 show ?thesis by blast
qed

theorem request_encodings_length_witness:
  "68 \<le> length (encodeBuilderExits (er_builder_exits one_exit))"
  using request_encodings_length [of "[]" "[]" "[]" "[]" "er_builder_exits one_exit" demo_types one_exit]
  by (simp add: one_exit_def no_requests_def)

end
