(* ===== verification/Stateless_Types.thy ===== *)
theory Stateless_Types
  imports Chain_Data Execution_Requests Zkvm_Io
begin

text \<open>
  The data of stateless validation: headers of the Amsterdam fork and blocks (nim-eth), the
  execution payload (nimbus-eth2), and the types of \<open>stateless/stateless_types.nim\<close> and
  \<open>stateless/witness_types.nim\<close>. The functions of the packages, hashing, RLP, SSZ, trie roots,
  are one record of arguments, with what is relied on of them as named hypotheses.
\<close>

section \<open>Blocks\<close>

record header = block_header +
  blockAccessListHash :: "hash32 option"
  slotNumber :: "u64 option"

record eth_block =
  bk_header :: header
  bk_uncles :: "header list"
  bk_transactions :: "transaction list"
  bk_withdrawals :: "withdrawal list option"

section \<open>Block access lists\<close>

text \<open>
  What an account or slot is changed to, by which transaction of the block. Only the order of
  the indices matters, not their width.
\<close>

record 'v bal_change =
  blockAccessIndex :: nat
  newValue :: 'v

record slot_changes =
  sl_slot :: u256
  sl_changes :: "u256 bal_change list"

record account_changes =
  ac_address :: address
  storageChanges :: "slot_changes list"
  storageReads :: "u256 list"
  balanceChanges :: "u256 bal_change list"
  nonceChanges :: "u64 bal_change list"
  codeChanges :: "byte list bal_change list"

type_synonym block_access_list = "account_changes list"

section \<open>Payloads and witnesses\<close>

record execution_payload =
  parent_hash :: hash32
  fee_recipient :: address
  state_root :: hash32
  receipts_root :: hash32
  logs_bloom :: "2048 word"
  prev_randao :: hash32
  block_number :: u64
  gas_limit :: u64
  gas_used :: u64
  payload_timestamp :: u64
  extra_data :: "byte list"
  base_fee_per_gas :: u256
  block_hash :: hash32
  payload_transactions :: "byte list list"
  payload_withdrawals :: "withdrawal list"
  blob_gas_used :: u64
  excess_blob_gas :: u64
  payload_block_access_list :: "byte list"
  slot_number :: u64

record new_payload_request =
  executionPayload :: execution_payload
  npr_versionedHashes :: "hash32 list"
  npr_parentBeaconBlockRoot :: hash32
  executionRequests :: execution_requests

record execution_witness =
  ew_state :: "byte list list"
  ew_codes :: "byte list list"
  ew_headers :: "byte list list"

record stateless_input =
  si_new_payload_request :: new_payload_request
  si_witness :: execution_witness
  si_chain_id :: u64

definition MAX_WITNESS_HEADERS :: nat where
  "MAX_WITNESS_HEADERS = 256"

text \<open>The witness as it is stored, by hashes, and with the bytes.\<close>

record witness =
  wit_state :: "byte list list"
  wit_codeHashes :: "hash32 list"
  wit_keys :: "byte list list"
  wit_headerHashes :: "hash32 list"

record witness_with_keys =
  wk_state :: "byte list list"
  wk_codes :: "byte list list"
  wk_keys :: "byte list list"
  wk_headers :: "byte list list"

section \<open>The packages\<close>

text \<open>
  \<open>ssz_list_add limit xs x\<close> is the list after \<open>List.add\<close> of the SSZ package, for a list of the
  given limit. Encoders that can fail return their error message.
\<close>

record packages =
  keccak :: "byte list \<Rightarrow> hash32"
  sha256 :: "byte list \<Rightarrow> byte list"
  request_type_bytes :: request_types
  rlp_encode_header :: "header \<Rightarrow> byte list"
  rlp_decode_header :: "byte list \<Rightarrow> string + header"
  header_hash :: "header \<Rightarrow> hash32"
  rlp_encode_tx :: "transaction \<Rightarrow> byte list"
  rlp_decode_tx :: "byte list \<Rightarrow> string + transaction"
  rlp_decode_account :: "byte list \<Rightarrow> string + account"
  txs_root :: "transaction list \<Rightarrow> hash32"
  wds_root :: "withdrawal list \<Rightarrow> hash32"
  no_uncles_hash :: hash32
  empty_trie_root :: hash32
  bal_decode :: "byte list \<Rightarrow> string + block_access_list"
  bal_hash :: "block_access_list \<Rightarrow> hash32"
  elasticity_multiplier :: u64
  initial_base_fee :: u256
  next_base_fee :: "u64 \<Rightarrow> u64 \<Rightarrow> u256 \<Rightarrow> u256"
  request_root :: "new_payload_request \<Rightarrow> hash32"
  ssz_list_add :: "nat \<Rightarrow> byte list list \<Rightarrow> byte list \<Rightarrow> byte list list"

text \<open>A 32-byte digest as a \<open>Hash32\<close>.\<close>

definition toHash32 :: "byte list \<Rightarrow> hash32" where
  "toHash32 = fromBytesBE"

section \<open>A concrete chain\<close>

text \<open>A chain of headers and packages for it, to evaluate the definitions on.\<close>

definition demo_header :: "u64 \<Rightarrow> hash32 \<Rightarrow> header" where
  "demo_header n parent =
     \<lparr>parentHash = parent, ommersHash = 9, coinbase = 3, stateRoot = 50 + ucast n, transactionsRoot = 4,
      receiptsRoot = 7, logsBloom = 0, difficulty = 0, number = n, gasLimit = 30000000, gasUsed = 0,
      timestamp = 12 * n, extraData = [], mixHash = 8, nonce = 0, baseFeePerGas = Some 7,
      withdrawalsRoot = Some 5, blobGasUsed = Some 0, excessBlobGas = Some 0,
      parentBeaconBlockRoot = Some 6, requestsHash = Some (toHash32 (demo_sha256 [])),
      blockAccessListHash = Some (fromBytesBE [12] + 1000), slotNumber = Some n\<rparr>"

definition demo_packages :: packages where
  "demo_packages =
     \<lparr>keccak = (\<lambda>bs. fromBytesBE bs + 1000), sha256 = demo_sha256, request_type_bytes = demo_types,
      rlp_encode_header = (\<lambda>h. [ucast (number h)]),
      rlp_decode_header = (\<lambda>bs. if bs = [8] then Inr (demo_header 8 1007)
        else if bs = [9] then Inr (demo_header 9 1008) else Inl ''not a header''),
      header_hash = (\<lambda>h. fromBytesBE [ucast (number h)] + 1000),
      rlp_encode_tx = (\<lambda>_. [1]), rlp_decode_tx = (\<lambda>_. Inl ''not a transaction''),
      rlp_decode_account = (\<lambda>bs. if bs = [1]
        then Inr \<lparr>acc_nonce = 0, acc_balance = 2, acc_storageRoot = 1, acc_codeHash = 1077\<rparr>
        else Inl ''not an account''),
      txs_root = (\<lambda>_. 4), wds_root = (\<lambda>_. 5), no_uncles_hash = 9, empty_trie_root = 1,
      bal_decode = (\<lambda>_. Inr []), bal_hash = (\<lambda>_. fromBytesBE [12] + 1000),
      elasticity_multiplier = 2, initial_base_fee = 1000000000, next_base_fee = (\<lambda>_ _ fee. fee),
      request_root = (\<lambda>_. 99),
      ssz_list_add = (\<lambda>limit xs x. if length xs < limit then xs @ [x] else xs)\<rparr>"

end
