(* ===== verification/Bal_Validation.thy ===== *)
theory Bal_Validation
  imports Stateless_Types
begin

text \<open>
  Block access lists (EIP-7928): the structural validation
  (\<open>block_access_list/bal_validation.nim\<close>, \<open>isDelegation\<close> of \<open>core/eip7702.nim\<close>) and the lookups
  that rely on it (\<open>block_access_list/bal_utils.nim\<close>).
\<close>

section \<open>Order\<close>

text \<open>
  Nim's \<open>isSorted\<close>: no element compares greater than its successor. With a comparison that
  never answers "equal" this also rules out duplicates.
\<close>

fun isSorted :: "('a \<Rightarrow> 'a \<Rightarrow> int) \<Rightarrow> 'a list \<Rightarrow> bool" where
  "isSorted compare (x # y # zs) = (if 0 < compare x y then False else isSorted compare (y # zs))"
| "isSorted compare _ = True"

definition cmpTreatEqualAsGreater :: "'a::linorder \<Rightarrow> 'a \<Rightarrow> int" where
  "cmpTreatEqualAsGreater x y = (if x < y then - 1 else 1)"

definition accChangesCmpTreatEqualAsGreater :: "account_changes \<Rightarrow> account_changes \<Rightarrow> int" where
  "accChangesCmpTreatEqualAsGreater x y = cmpTreatEqualAsGreater (ac_address x) (ac_address y)"

definition slotChangesCmpTreatEqualAsGreater :: "slot_changes \<Rightarrow> slot_changes \<Rightarrow> int" where
  "slotChangesCmpTreatEqualAsGreater x y = cmpTreatEqualAsGreater (sl_slot x) (sl_slot y)"

definition balIndexCmpTreatEqualAsGreater :: "'v bal_change \<Rightarrow> 'v bal_change \<Rightarrow> int" where
  "balIndexCmpTreatEqualAsGreater x y = cmpTreatEqualAsGreater (blockAccessIndex x) (blockAccessIndex y)"

definition storageKeyCmpTreatEqualAsGreater :: "u256 \<Rightarrow> u256 \<Rightarrow> int" where
  "storageKeyCmpTreatEqualAsGreater x y = cmpTreatEqualAsGreater x y"

lemma isSorted_by:
  "isSorted (\<lambda>x y. cmpTreatEqualAsGreater (f x) (f y)) xs \<longleftrightarrow> sorted_wrt (<) (map f xs)"
  by (induction xs rule: induct_list012)
    (auto simp: cmpTreatEqualAsGreater_def intro: less_trans)

lemmas cmp_defs = accChangesCmpTreatEqualAsGreater_def slotChangesCmpTreatEqualAsGreater_def
  balIndexCmpTreatEqualAsGreater_def storageKeyCmpTreatEqualAsGreater_def

lemma isSorted_strict:
  "isSorted accChangesCmpTreatEqualAsGreater accs \<longleftrightarrow> sorted_wrt (<) (map ac_address accs)"
  "isSorted slotChangesCmpTreatEqualAsGreater slots \<longleftrightarrow> sorted_wrt (<) (map sl_slot slots)"
  "isSorted balIndexCmpTreatEqualAsGreater changes \<longleftrightarrow> sorted_wrt (<) (map blockAccessIndex changes)"
  "isSorted storageKeyCmpTreatEqualAsGreater ks \<longleftrightarrow> sorted_wrt (<) ks"
  using isSorted_by [of ac_address accs] isSorted_by [of sl_slot slots] isSorted_by [of blockAccessIndex changes]
    isSorted_by [of "\<lambda>x. x" ks]
  by (simp_all add: cmp_defs [abs_def])

section \<open>Validation\<close>

definition BAL_ITEM_COST :: u64 where "BAL_ITEM_COST = 2000"

definition EIP7954_MAX_CODE_SIZE :: nat where "EIP7954_MAX_CODE_SIZE = 0x10000"

definition EIP7702_DELEGATION_PREFIX :: "byte list" where "EIP7702_DELEGATION_PREFIX = [0xEF, 0x01, 0x00]"

definition EIP7702_DELEGATION_SIZE :: nat where "EIP7702_DELEGATION_SIZE = 23"

definition isDelegation :: "byte list \<Rightarrow> bool" where
  "isDelegation code \<longleftrightarrow>
     length code = EIP7702_DELEGATION_SIZE \<and> code ! 0 = EIP7702_DELEGATION_PREFIX ! 0 \<and>
     code ! 1 = EIP7702_DELEGATION_PREFIX ! 1 \<and> code ! 2 = EIP7702_DELEGATION_PREFIX ! 2"

definition checkCodeChange :: "byte list \<Rightarrow> string + unit" where
  "checkCodeChange newCode =
     (if EIP7954_MAX_CODE_SIZE < length newCode
      then Inl ''Code change exceeds the maximum contract code size''
      else if 0 < length newCode \<and> newCode ! 0 = 0xEF \<and> \<not> isDelegation newCode
      then Inl ''Code change starting with 0xEF must be a valid EIP-7702 delegation (EIP-3541)''
      else Inr ())"

text \<open>Addresses and storage keys; a sum of list lengths does not exceed a Nim \<open>int\<close>.\<close>

definition balItemCount :: "block_access_list \<Rightarrow> nat" where
  "balItemCount bal =
     length bal + sum_list (map (\<lambda>changes. length (storageChanges changes) + length (storageReads changes)) bal)"

definition checkBalSize :: "block_access_list \<Rightarrow> u64 \<Rightarrow> string + unit" where
  "checkBalSize bal blockGasLimit =
     (if balItemCount bal \<le> unat (blockGasLimit div BAL_ITEM_COST) then Inr ()
      else Inl ''BAL exceeds max items cap'')"

text \<open>A loop whose body returns early on an error.\<close>

fun for_each :: "('a \<Rightarrow> 'e + unit) \<Rightarrow> 'a list \<Rightarrow> 'e + unit" where
  "for_each f [] = Inr ()"
| "for_each f (x # xs) = (case f x of Inl e \<Rightarrow> Inl e | Inr _ \<Rightarrow> for_each f xs)"

definition checkSlotChanges :: "slot_changes \<Rightarrow> string + unit" where
  "checkSlotChanges slotChanges =
     (if length (sl_changes slotChanges) = 0
      then Inl ''Each slot in storage changes must have at least one change''
      else if \<not> isSorted balIndexCmpTreatEqualAsGreater (sl_changes slotChanges)
      then Inl ''Slot changes should be unique and sorted by blockAccessIndex''
      else Inr ())"

definition checkSlotRead :: "u256 set \<Rightarrow> u256 \<Rightarrow> string + unit" where
  "checkSlotRead changedSlots slot =
     (if slot \<in> changedSlots then Inl ''A slot should not be in both changes and reads'' else Inr ())"

definition both :: "'e + unit \<Rightarrow> 'e + 'a \<Rightarrow> 'e + 'a" where
  "both r k = (case r of Inl e \<Rightarrow> Inl e | Inr _ \<Rightarrow> k)"

definition checkAccount :: "account_changes \<Rightarrow> string + unit" where
  "checkAccount a =
     (if \<not> isSorted slotChangesCmpTreatEqualAsGreater (storageChanges a)
      then Inl ''Storage changes slots should be unique and sorted lexicographically''
      else both (for_each checkSlotChanges (storageChanges a))
       (both (for_each (checkSlotRead (set (map sl_slot (storageChanges a)))) (storageReads a))
         (if \<not> isSorted storageKeyCmpTreatEqualAsGreater (storageReads a)
          then Inl ''Storage reads should be unique and sorted lexicographically''
          else if \<not> isSorted balIndexCmpTreatEqualAsGreater (balanceChanges a)
          then Inl ''Balance changes should be unique and sorted by blockAccessIndex''
          else if \<not> isSorted balIndexCmpTreatEqualAsGreater (nonceChanges a)
          then Inl ''Nonce changes should be unique and sorted by blockAccessIndex''
          else if \<not> isSorted balIndexCmpTreatEqualAsGreater (codeChanges a)
          then Inl ''Code changes should be unique and sorted by blockAccessIndex''
          else for_each (\<lambda>codeChange. checkCodeChange (newValue codeChange)) (codeChanges a))))"

definition validateBal :: "packages \<Rightarrow> block_access_list \<Rightarrow> hash32 \<Rightarrow> u64 \<Rightarrow> string + unit" where
  "validateBal pk bal expectedHash blockGasLimit =
     both (checkBalSize bal blockGasLimit)
      (if \<not> isSorted accChangesCmpTreatEqualAsGreater bal
       then Inl ''Addresses should be unique and sorted lexicographically''
       else both (for_each checkAccount bal)
         (if bal_hash pk bal \<noteq> expectedHash
          then Inl ''Computed block access list hash does not match the expected hash''
          else Inr ()))"

section \<open>Lookups\<close>

text \<open>
  The binary search for the last change before a transaction. The bounds are Nim \<open>int\<close>s; \<open>hi\<close>
  starts at \<open>- 1\<close> for an empty list. An index out of range would be a crash, so it is a branch.
\<close>

function lastWrite_loop :: "'v bal_change list \<Rightarrow> int \<Rightarrow> int \<Rightarrow> int \<Rightarrow> int \<Rightarrow> int option" where
  "lastWrite_loop changes balIndex lo hi foundAt =
     (if lo \<le> hi then
        let mid = (lo + hi) div 2 in
        if mid < 0 \<or> int (length changes) \<le> mid then None
        else if int (blockAccessIndex (changes ! nat mid)) < balIndex
        then lastWrite_loop changes balIndex (mid + 1) hi mid
        else lastWrite_loop changes balIndex lo (mid - 1) foundAt
      else Some foundAt)"
  by pat_completeness auto
termination
  by (relation "measure (\<lambda>(_, _, lo, hi, _). nat (hi - lo + 1))") auto

declare lastWrite_loop.simps [simp del]

definition findLastWriteBefore :: "'v bal_change list \<Rightarrow> int \<Rightarrow> int option" where
  "findLastWriteBefore changes balIndex = lastWrite_loop changes balIndex 0 (int (length changes) - 1) (- 1)"

definition SLOTS_PER_EPOCH :: u64 where "SLOTS_PER_EPOCH = 32"

definition BAL_RETENTION_EPOCHS :: u64 where "BAL_RETENTION_EPOCHS = 14299"

definition isWithinBalRetentionPeriod :: "header \<Rightarrow> u64 \<Rightarrow> bool" where
  "isWithinBalRetentionPeriod hdr headSlot =
     (case slotNumber hdr of
        None \<Rightarrow> False
      | Some blockSlot \<Rightarrow>
          headSlot div SLOTS_PER_EPOCH < blockSlot div SLOTS_PER_EPOCH + BAL_RETENTION_EPOCHS)"

section \<open>Lemmas\<close>

lemma both_ok: "both r k = Inr x \<longleftrightarrow> r = Inr () \<and> k = Inr x"
  by (cases r) (simp_all add: both_def)

lemma for_each_ok: "for_each f xs = Inr () \<longleftrightarrow> (\<forall>x \<in> set xs. f x = Inr ())"
proof (induction xs)
  case (Cons x xs)
  then show ?case by (cases "f x") simp_all
qed simp

text \<open>What the code of a change may be: short, and a delegation if it starts like one.\<close>

definition code_ok :: "byte list \<Rightarrow> bool" where
  "code_ok code \<longleftrightarrow> length code \<le> EIP7954_MAX_CODE_SIZE \<and>
     (take 1 code = [0xEF] \<longrightarrow> length code = 23 \<and> take 3 code = EIP7702_DELEGATION_PREFIX)"

lemma isDelegation_prefix:
  "isDelegation code \<longleftrightarrow> length code = 23 \<and> take 3 code = EIP7702_DELEGATION_PREFIX"
proof (cases "length code = 23")
  case True
  then obtain x y z rest where "code = x # y # z # rest"
    by (cases code; cases "tl code"; cases "tl (tl code)") auto
  with True show ?thesis
    by (auto simp: isDelegation_def EIP7702_DELEGATION_SIZE_def EIP7702_DELEGATION_PREFIX_def)
qed (simp add: isDelegation_def EIP7702_DELEGATION_SIZE_def)

lemma checkCodeChange_ok: "checkCodeChange code = Inr () \<longleftrightarrow> code_ok code"
  by (cases code) (auto simp: checkCodeChange_def code_ok_def isDelegation_prefix)

definition strictly_by :: "('a \<Rightarrow> 'b::linorder) \<Rightarrow> 'a list \<Rightarrow> bool" where
  "strictly_by key xs \<longleftrightarrow> sorted_wrt (<) (map key xs)"

definition account_ok :: "account_changes \<Rightarrow> bool" where
  "account_ok a \<longleftrightarrow>
     strictly_by sl_slot (storageChanges a) \<and> strictly_by (\<lambda>k. k) (storageReads a) \<and>
     strictly_by blockAccessIndex (balanceChanges a) \<and> strictly_by blockAccessIndex (nonceChanges a) \<and>
     strictly_by blockAccessIndex (codeChanges a) \<and>
     list_all (\<lambda>s. sl_changes s \<noteq> [] \<and> strictly_by blockAccessIndex (sl_changes s)) (storageChanges a) \<and>
     set (map sl_slot (storageChanges a)) \<inter> set (storageReads a) = {} \<and>
     list_all (\<lambda>c. code_ok (newValue c)) (codeChanges a)"

lemma checkSlotChanges_ok:
  "checkSlotChanges s = Inr () \<longleftrightarrow> sl_changes s \<noteq> [] \<and> strictly_by blockAccessIndex (sl_changes s)"
  by (simp add: checkSlotChanges_def isSorted_strict strictly_by_def)

lemma checkSlotRead_ok: "checkSlotRead S slot = Inr () \<longleftrightarrow> slot \<notin> S"
  by (simp add: checkSlotRead_def)

lemma checkAccount_ok: "checkAccount a = Inr () \<longleftrightarrow> account_ok a"
  by (auto simp: checkAccount_def account_ok_def both_ok for_each_ok checkSlotChanges_ok
      checkSlotRead_ok checkCodeChange_ok isSorted_strict strictly_by_def list_all_iff)

lemma strictly_by_distinct: "strictly_by key xs \<Longrightarrow> distinct (map key xs)"
  unfolding strictly_by_def by (induction xs) auto

lemma strictly_by_nth: "strictly_by key xs \<Longrightarrow> i < j \<Longrightarrow> j < length xs \<Longrightarrow> key (xs ! i) < key (xs ! j)"
  by (auto simp: strictly_by_def sorted_wrt_iff_nth_less)

lemma lastWrite_loop_finds:
  fixes lo hi :: int
  assumes "strictly_by blockAccessIndex changes"
    and "0 \<le> lo" and "lo \<le> hi + 1" and "hi < int (length changes)" and "foundAt = lo - 1"
    and "\<forall>j. int j < lo \<longrightarrow> int (blockAccessIndex (changes ! j)) < balIndex"
    and "\<forall>j < length changes. hi < int j \<longrightarrow> \<not> int (blockAccessIndex (changes ! j)) < balIndex"
  shows "lastWrite_loop changes balIndex lo hi foundAt = Some (int (length (takeWhile (\<lambda>c. int (blockAccessIndex c) < balIndex) changes)) - 1)"
  using assms
proof (induction changes balIndex lo hi foundAt rule: lastWrite_loop.induct)
  case (1 changes balIndex lo hi foundAt)
  let ?early = "\<lambda>c. int (blockAccessIndex c) < balIndex"
  let ?mid = "(lo + hi) div 2"
  show ?case
  proof (cases "lo \<le> hi")
    case False
    with 1 have hi: "hi = lo - 1" by simp
    have "takeWhile ?early changes = take (nat lo) changes"
      using 1(4,8,9) hi by (intro takeWhile_eq_take_P_nth) auto
    moreover have "nat lo \<le> length changes" using 1(6) hi by simp
    ultimately show ?thesis using False 1(4,7) by (simp add: lastWrite_loop.simps)
  next
    case True
    with 1(4) have mid: "lo \<le> ?mid" "?mid \<le> hi" "0 \<le> ?mid" by auto
    then obtain m where m: "?mid = int m" using nonneg_int_cases by blast
    with mid 1(6) have m_less: "m < length changes" by simp
    have below: "blockAccessIndex (changes ! j) \<le> blockAccessIndex (changes ! nat ?mid)"
      if "int j \<le> ?mid" for j
      using strictly_by_nth [OF 1(3), of j m] that m m_less by (cases "j = m") auto
    have above: "blockAccessIndex (changes ! nat ?mid) \<le> blockAccessIndex (changes ! j)"
      if "?mid \<le> int j" "j < length changes" for j
      using strictly_by_nth [OF 1(3), of m j] that m by (cases "j = m") auto
    have inside: "\<not> (?mid < 0 \<or> int (length changes) \<le> ?mid)" using mid 1(6) by simp
    show ?thesis
    proof (cases "?early (changes ! nat ?mid)")
      case e: True
      have "\<forall>j. int j < ?mid + 1 \<longrightarrow> ?early (changes ! j)"
      proof (intro allI impI)
        fix j assume "int j < ?mid + 1"
        then have "int j \<le> ?mid" by simp
        from below [OF this] e show "?early (changes ! j)" by simp
      qed
      with 1(1) [OF True refl inside e 1(3)] mid 1(6,9)
      have "lastWrite_loop changes balIndex (?mid + 1) hi ?mid =
          Some (int (length (takeWhile ?early changes)) - 1)" by simp
      with True e inside show ?thesis
        by (subst lastWrite_loop.simps) (simp add: Let_def)
    next
      case e: False
      have "\<forall>j < length changes. ?mid - 1 < int j \<longrightarrow> \<not> ?early (changes ! j)"
      proof (intro allI impI)
        fix j assume "j < length changes" "?mid - 1 < int j"
        then have "?mid \<le> int j" "j < length changes" by simp_all
        from above [OF this] e show "\<not> ?early (changes ! j)" by simp
      qed
      with 1(2) [OF True refl inside e 1(3)] mid 1(4,6-8)
      have "lastWrite_loop changes balIndex lo (?mid - 1) foundAt =
          Some (int (length (takeWhile ?early changes)) - 1)" by simp
      with True e inside show ?thesis
        by (subst lastWrite_loop.simps) (simp add: Let_def)
    qed
  qed
qed

lemma validateBal_accepts:
  "validateBal pk bal expectedHash gas = Inr () \<longleftrightarrow>
     strictly_by ac_address bal \<and> list_all account_ok bal \<and> 2000 * balItemCount bal \<le> unat gas \<and>
     bal_hash pk bal = expectedHash"
proof -
  have "checkBalSize bal gas = Inr () \<longleftrightarrow> 2000 * balItemCount bal \<le> unat gas"
    by (simp add: checkBalSize_def BAL_ITEM_COST_def unat_div less_eq_div_iff_mult_less_eq mult.commute)
  then show ?thesis
    by (auto simp: validateBal_def both_ok for_each_ok checkAccount_ok isSorted_strict strictly_by_def
        list_all_iff)
qed

section \<open>Properties\<close>

text \<open>
  C14: the validation of a block access list is exact. It accepts a list if and only if the
  accounts are in strictly ascending order and each of them is well formed (all lists strictly
  ascending, so without duplicates, no slot both read and changed, no empty change, code within
  the limits), there is at most one item for every 2000 gas of the block, and the hash is the
  expected one.
\<close>

theorem validateBal_exact:
  "validateBal pk bal expectedHash gas = Inr () \<longleftrightarrow>
     strictly_by ac_address bal \<and> list_all account_ok bal \<and> 2000 * balItemCount bal \<le> unat gas \<and>
     bal_hash pk bal = expectedHash"
  by (rule validateBal_accepts)

text \<open>
  C25: on every list of changes that is strictly ordered by index, as all the lists of a validated
  block access list are (balances, nonces, code, and the changes of each slot), the binary search
  ends, without reading outside the list, and gives the position of the last change before the
  transaction asked for, or \<open>- 1\<close> if there is none.
\<close>

theorem findLastWriteBefore_finds:
  assumes "strictly_by blockAccessIndex changes"
  shows "\<exists>k. findLastWriteBefore changes balIndex = Some k \<and> - 1 \<le> k \<and> k < int (length changes) \<and>
    (\<forall>j < length changes. int (blockAccessIndex (changes ! j)) < balIndex \<longleftrightarrow> int j \<le> k)"
proof -
  let ?early = "\<lambda>c. int (blockAccessIndex c) < balIndex"
  let ?n = "length (takeWhile ?early changes)"
  note sorted = assms
  from sorted have "findLastWriteBefore changes balIndex = Some (int ?n - 1)"
    unfolding findLastWriteBefore_def by (rule lastWrite_loop_finds) auto
  moreover have "?early (changes ! j) \<longleftrightarrow> j < ?n" if j: "j < length changes" for j
  proof
    assume "j < ?n"
    then show "?early (changes ! j)" using set_takeWhileD takeWhile_nth nth_mem by metis
  next
    assume e: "?early (changes ! j)"
    show "j < ?n"
    proof (rule ccontr)
      assume "\<not> j < ?n"
      then have n: "?n \<le> j" "?n < length changes" using j by simp_all
      have "\<not> ?early (changes ! ?n)" by (rule nth_length_takeWhile) (rule n(2))
      moreover have "blockAccessIndex (changes ! ?n) \<le> blockAccessIndex (changes ! j)"
        using strictly_by_nth [OF sorted, of ?n j] n j by (cases "?n = j") auto
      ultimately show False using e by simp
    qed
  qed
  ultimately show ?thesis
    using length_takeWhile_le [of ?early changes] by (intro exI [of _ "int ?n - 1"]) (auto simp: less_le_trans)
qed

definition demo_account_changes :: account_changes where
  "demo_account_changes =
     \<lparr>ac_address = 5, storageChanges = [], storageReads = [],
      balanceChanges = [\<lparr>blockAccessIndex = 1, newValue = 10\<rparr>, \<lparr>blockAccessIndex = 4, newValue = 20\<rparr>],
      nonceChanges = [], codeChanges = []\<rparr>"

theorem findLastWriteBefore_finds_witness:
  "\<exists>k. findLastWriteBefore (balanceChanges demo_account_changes) 4 = Some k \<and> 0 \<le> k \<and> k < 1"
proof -
  have "strictly_by blockAccessIndex (balanceChanges demo_account_changes)"
    by (simp add: demo_account_changes_def strictly_by_def)
  from findLastWriteBefore_finds [OF this, of 4]
  obtain k where k: "findLastWriteBefore (balanceChanges demo_account_changes) 4 = Some k"
    and early: "\<forall>j < length (balanceChanges demo_account_changes).
      int (blockAccessIndex (balanceChanges demo_account_changes ! j)) < 4 \<longleftrightarrow> int j \<le> k"
    by blast
  from early [rule_format, of 0] early [rule_format, of 1] have "0 \<le> k \<and> k < 1"
    by (simp add: demo_account_changes_def)
  with k show ?thesis by blast
qed

text \<open>
  The retention test is exact: the sum does not wrap around, and a block without a slot
  number, from before Amsterdam, is never within the period.
\<close>

theorem retention_exact:
  "isWithinBalRetentionPeriod hdr headSlot =
     (case slotNumber hdr of None \<Rightarrow> False
      | Some slot \<Rightarrow> unat headSlot div 32 < unat slot div 32 + 14299)"
proof -
  have "unat (slot div 32 + 14299 :: u64) = unat slot div 32 + 14299" for slot :: u64
  proof -
    have "unat slot < 2 ^ 64" using uint_bounded [of slot] by (simp add: nat_less_iff flip: nat_uint_eq)
    then have "unat slot div 32 + 14299 < 2 ^ 64" by simp
    then show ?thesis by (simp add: unat_word_ariths unat_div)
  qed
  then show ?thesis
    by (auto simp: isWithinBalRetentionPeriod_def SLOTS_PER_EPOCH_def BAL_RETENTION_EPOCHS_def
        word_less_nat_alt unat_div split: option.split)
qed

end
