(* ===== verification/Block_Validation.thy ===== *)
theory Block_Validation
  imports Complex_Main Hard_Forks Bal_Validation
begin

text \<open>
  The validation of a block header against its parent (\<open>validateHeader\<close> of \<open>core/validate.nim\<close>)
  and its parts: gas limit and base fee (\<open>core/gaslimit.nim\<close>), withdrawals
  (\<open>core/withdrawals.nim\<close>), blob gas and its price (\<open>core/eip4844.nim\<close>, \<open>core/eip7691.nim\<close>). Gas
  is a 64-bit word, prices are 256-bit words; both wrap around.

  A missing blob schedule and a fork table without a match are failed assertions. Before the
  merge the header is held against its difficulty (\<open>core/pow\<close>), an argument. Of the messages
  only those printing an optional value are cut short.
\<close>

section \<open>Gas limit and base fee\<close>

definition GAS_LIMIT_ADJUSTMENT_FACTOR :: u64 where "GAS_LIMIT_ADJUSTMENT_FACTOR = 1024"
definition GAS_LIMIT_MINIMUM :: u64 where "GAS_LIMIT_MINIMUM = 5000"
definition GAS_LIMIT_MAXIMUM :: u64 where "GAS_LIMIT_MAXIMUM = 0x7FFFFFFFFFFFFFFF"

definition dec :: "'a::len word \<Rightarrow> string" where
  "dec w = decimal (unat w)"

definition orDefault :: "'a option \<Rightarrow> 'a \<Rightarrow> 'a" where
  "orDefault x d = (case x of None \<Rightarrow> d | Some y \<Rightarrow> y)"

definition validateGasLimit :: "header \<Rightarrow> u64 \<Rightarrow> (string, unit) outcome" where
  "validateGasLimit hdr limit =
     (let diff = (if gasLimit hdr < limit then limit - gasLimit hdr else gasLimit hdr - limit);
          upperLimit = limit div GAS_LIMIT_ADJUSTMENT_FACTOR
      in if upperLimit \<le> diff then
           Fail (''invalid gas limit: have '' @ dec (gasLimit hdr) @ '', want '' @ dec limit @ '' +-= '' @
             dec (upperLimit - 1))
         else if gasLimit hdr < GAS_LIMIT_MINIMUM then Fail ''invalid gas limit below 5000''
         else Done ())"

definition calcEip1599BaseFee :: "packages \<Rightarrow> common \<Rightarrow> header \<Rightarrow> (string, u256) outcome" where
  "calcEip1599BaseFee pk com parent =
     bind_outcome (isLondonOrLater com (number parent) (timestamp parent)) (\<lambda>london.
       Done (if london
             then next_base_fee pk (gasLimit parent) (gasUsed parent) (orDefault (baseFeePerGas parent) 0)
             else initial_base_fee pk))"

definition verifyEip1559Header :: "packages \<Rightarrow> common \<Rightarrow> header \<Rightarrow> header \<Rightarrow> (string, unit) outcome" where
  "verifyEip1559Header pk com parent hdr =
     bind_outcome (isLondonOrLater com (number parent) (timestamp parent)) (\<lambda>london.
     bind_outcome (validateGasLimit hdr
         (if london then gasLimit parent else gasLimit parent * elasticity_multiplier pk)) (\<lambda>_.
       let headerBaseFee = orDefault (baseFeePerGas hdr) 0
       in if headerBaseFee = 0 then Fail ''Post EIP-1559 header expected to have base fee''
          else bind_outcome (calcEip1599BaseFee pk com parent) (\<lambda>expectedBaseFee.
            if headerBaseFee \<noteq> expectedBaseFee
            then Fail (''invalid baseFee: have '' @ dec expectedBaseFee)
            else Done ())))"

definition validateGasLimitOrBaseFee ::
    "packages \<Rightarrow> common \<Rightarrow> header \<Rightarrow> header \<Rightarrow> (string, unit) outcome" where
  "validateGasLimitOrBaseFee pk com hdr parent =
     bind_outcome (isLondonOrLater com (number hdr) (timestamp hdr)) (\<lambda>london.
       if \<not> london then
         let fee = orDefault (baseFeePerGas hdr) 0
         in if fee \<noteq> 0
            then Fail (''invalid baseFee before London fork: have '' @ dec fee @ '', want <0>'')
            else validateGasLimit hdr (gasLimit parent)
       else verifyEip1559Header pk com parent hdr)"

section \<open>Withdrawals\<close>

definition validateWithdrawals ::
    "packages \<Rightarrow> common \<Rightarrow> header \<Rightarrow> withdrawal list option \<Rightarrow> (string, unit) outcome" where
  "validateWithdrawals pk com hdr wds =
     (if isShanghaiOrLater com (timestamp hdr) then
        (case (withdrawalsRoot hdr, wds) of
           (None, _) \<Rightarrow> Fail ''Post-Shanghai block header must have withdrawalsRoot''
         | (_, None) \<Rightarrow> Fail ''Post-Shanghai block body must have withdrawals''
         | (Some wdRoot, Some ws) \<Rightarrow>
             if wds_root pk ws \<noteq> wdRoot
             then Fail (''Mismatched withdrawalsRoot blockNumber = '' @ dec (number hdr))
             else Done ())
      else if withdrawalsRoot hdr \<noteq> None
      then Fail ''Pre-Shanghai block header must not have withdrawalsRoot''
      else if wds \<noteq> None then Fail ''Pre-Shanghai block body must not have withdrawals''
      else Done ())"

section \<open>Blob gas\<close>

definition GAS_PER_BLOB :: u64 where "GAS_PER_BLOB = push_bit 17 1"
definition BLOB_BASE_COST :: u64 where "BLOB_BASE_COST = push_bit 13 1"
definition MIN_BLOB_GASPRICE :: u64 where "MIN_BLOB_GASPRICE = 1"

text \<open>
  The Taylor expansion of \<open>fakeExponential\<close>; the loop goes on until a term is zero. The division
  by a denominator that is zero, or has become zero by wrapping, is a \<open>Defect\<close>.
\<close>

fun fakeExp_loop :: "nat \<Rightarrow> u256 \<Rightarrow> u256 \<Rightarrow> u256 \<Rightarrow> u256 \<Rightarrow> u256 \<Rightarrow> (string, u256) outcome" where
  "fakeExp_loop 0 numerator denominator i output numeratorAccum = Stuck"
| "fakeExp_loop (Suc fuel) numerator denominator i output numeratorAccum =
     (if numeratorAccum > 0 then
        let output = output + numeratorAccum in
        if denominator * i = 0 then Defect
        else fakeExp_loop fuel numerator denominator (i + 1) output
               ((numeratorAccum * numerator) div (denominator * i))
      else if denominator = 0 then Defect
      else Done (output div denominator))"

definition fakeExponential :: "nat \<Rightarrow> u256 \<Rightarrow> u256 \<Rightarrow> u256 \<Rightarrow> (string, u256) outcome" where
  "fakeExponential fuel factor numerator denominator =
     fakeExp_loop fuel numerator denominator 1 0 (factor * denominator)"

definition getTotalBlobGas :: "transaction \<Rightarrow> u64" where
  "getTotalBlobGas tx = GAS_PER_BLOB * of_nat (length (versionedHashes tx))"

definition schedule_field ::
    "(blob_schedule \<Rightarrow> u64) \<Rightarrow> common \<Rightarrow> hard_fork \<Rightarrow> (string, u64) outcome" where
  "schedule_field field com fork =
     (if fork < Cancun then Done 0 else bind_outcome (blobScheduleOf com fork) (\<lambda>bs. Done (field bs)))"

abbreviation getMaxBlobsPerBlock :: "common \<Rightarrow> hard_fork \<Rightarrow> (string, u64) outcome" where
  "getMaxBlobsPerBlock \<equiv> schedule_field bs_max"

abbreviation getTargetBlobsPerBlock :: "common \<Rightarrow> hard_fork \<Rightarrow> (string, u64) outcome" where
  "getTargetBlobsPerBlock \<equiv> schedule_field bs_target"

abbreviation getBlobBaseFeeUpdateFraction :: "common \<Rightarrow> hard_fork \<Rightarrow> (string, u64) outcome" where
  "getBlobBaseFeeUpdateFraction \<equiv> schedule_field bs_baseFeeUpdateFraction"

definition getMaxBlobGasPerBlock :: "common \<Rightarrow> hard_fork \<Rightarrow> (string, u64) outcome" where
  "getMaxBlobGasPerBlock com fork =
     bind_outcome (getMaxBlobsPerBlock com fork) (\<lambda>m. Done (m * GAS_PER_BLOB))"

text \<open>Fuel for the expansion: twice the quotient of the arguments, and the digits of a word.\<close>

definition expansion_fuel :: "u64 \<Rightarrow> u64 \<Rightarrow> nat" where
  "expansion_fuel excess fraction = 2 * (unat excess div unat fraction) + 260"

definition getBlobBaseFee :: "u64 \<Rightarrow> common \<Rightarrow> hard_fork \<Rightarrow> (string, u256) outcome" where
  "getBlobBaseFee excess com fork =
     (if Cancun \<le> fork then
        bind_outcome (getBlobBaseFeeUpdateFraction com fork) (\<lambda>fraction.
          fakeExponential (expansion_fuel excess fraction) (ucast MIN_BLOB_GASPRICE) (ucast excess) (ucast fraction))
      else Done 0)"

definition sumBlobGasUsed :: "transaction list \<Rightarrow> u64" where
  "sumBlobGasUsed txs = foldl (\<lambda>total tx. total + getTotalBlobGas tx) 0 txs"

definition calcExcessBlobGas :: "common \<Rightarrow> header \<Rightarrow> hard_fork \<Rightarrow> (string, u64) outcome" where
  "calcExcessBlobGas com parent fork =
     (let excess = orDefault (excessBlobGas parent) 0; used = orDefault (blobGasUsed parent) 0
      in bind_outcome (getTargetBlobsPerBlock com fork) (\<lambda>targetBlobs.
         bind_outcome (getMaxBlobsPerBlock com fork) (\<lambda>maxBlobs.
           let targetGas = targetBlobs * GAS_PER_BLOB
           in if excess + used < targetGas then Done 0
              else if Osaka \<le> fork then
                bind_outcome (getBlobBaseFee excess com fork) (\<lambda>blobFee.
                  if ucast BLOB_BASE_COST * orDefault (baseFeePerGas parent) 0 > ucast GAS_PER_BLOB * blobFee
                  then if maxBlobs = 0 then Defect
                       else Done (excess + used * (maxBlobs - targetBlobs) div maxBlobs)
                  else Done (excess + used - targetGas))
              else Done (excess + used - targetGas))))"

definition validateEip4844Header ::
    "common \<Rightarrow> header \<Rightarrow> header \<Rightarrow> transaction list \<Rightarrow> (string, unit) outcome" where
  "validateEip4844Header com hdr parent txs =
     (if \<not> isCancunOrLater com (timestamp hdr) then
        if blobGasUsed hdr \<noteq> None then Fail ''unexpected EIP-4844 blobGasUsed in block header''
        else if excessBlobGas hdr \<noteq> None then Fail ''unexpected EIP-4844 excessBlobGas in block header''
        else Done ()
      else case (blobGasUsed hdr, excessBlobGas hdr) of
        (None, _) \<Rightarrow> Fail ''expect EIP-4844 blobGasUsed in block header''
      | (_, None) \<Rightarrow> Fail ''expect EIP-4844 excessBlobGas in block header''
      | (Some headerUsed, Some headerExcess) \<Rightarrow>
          bind_outcome (toHardFork (com_forkTransitionTable com)
              (forkDeterminationInfo (number hdr) (timestamp hdr))) (\<lambda>fork.
          let used = sumBlobGasUsed txs in
          bind_outcome (calcExcessBlobGas com parent fork) (\<lambda>excess.
          bind_outcome (getMaxBlobGasPerBlock com fork) (\<lambda>maxGas.
            if maxGas < used
            then Fail (''blobGasUsed '' @ dec used @ '' exceeds maximum allowance '' @ dec maxGas)
            else if headerUsed \<noteq> used
            then Fail (''calculated blobGas: '' @ dec used @ '' not equal header.blobGasUsed: '' @ dec headerUsed)
            else if headerExcess \<noteq> excess
            then Fail (''calculated excessBlobGas: '' @ dec excess @ '' not equal header.excessBlobGas: '' @
              dec headerExcess)
            else Done ()))))"

section \<open>The header\<close>

definition validateBlockAccessList ::
    "packages \<Rightarrow> common \<Rightarrow> header \<Rightarrow> block_access_list option \<Rightarrow> bool \<Rightarrow> (string, unit) outcome" where
  "validateBlockAccessList pk com hdr bal skipPreExecBalCheck =
     (if isAmsterdamOrLater com (timestamp hdr) then
        (case blockAccessListHash hdr of
           None \<Rightarrow> Fail ''Post-Amsterdam block header must have blockAccessListHash''
         | Some hash \<Rightarrow>
             if skipPreExecBalCheck then Done ()
             else case bal of
                None \<Rightarrow> Fail ''Post-Amsterdam block must have blockAccessList''
              | Some b \<Rightarrow>
                  (case validateBal pk b hash (gasLimit hdr) of
                     Inl e \<Rightarrow> Fail (''blockAccessList failed pre-execution validation: '' @ e)
                   | Inr _ \<Rightarrow> Done ()))
      else if blockAccessListHash hdr \<noteq> None
      then Fail ''Pre-Amsterdam block header must not have blockAccessListHash''
      else if bal \<noteq> None then Fail ''Pre-Amsterdam block must not have blockAccessList''
      else Done ())"

definition daoForkBlockExtraData :: "byte list" where
  "daoForkBlockExtraData =
     [0x64, 0x61, 0x6f, 0x2d, 0x68, 0x61, 0x72, 0x64, 0x2d, 0x66, 0x6f, 0x72, 0x6b]"

definition DAOForkExtraRange :: u64 where "DAOForkExtraRange = 10"

text \<open>\<open>com.daoForkBlock.get\<close> of a chain that supports the fork without a block is a crash.\<close>

definition inDAOExtraRange :: "common \<Rightarrow> u64 \<Rightarrow> (string, bool) outcome" where
  "inDAOExtraRange com n =
     (case cc_forkBlock (com_config com) DAOFork of
        None \<Rightarrow> Defect
      | Some b \<Rightarrow> Done (b \<le> n \<and> n < b + DAOForkExtraRange))"

definition checkDaoExtra :: "common \<Rightarrow> header \<Rightarrow> (string, unit) outcome" where
  "checkDaoExtra com hdr =
     (if cc_daoForkSupport (com_config com) then
        bind_outcome (inDAOExtraRange com (number hdr)) (\<lambda>inRange.
          if inRange \<and> \<not> isShanghaiOrLater com (timestamp hdr) \<and> extraData hdr \<noteq> daoForkBlockExtraData
          then Fail ''header extra data should be marked DAO''
          else Done ())
      else Done ())"

text \<open>What the check of a block before the merge asks of the database and of \<open>core/pow\<close>.\<close>

record pow_chain =
  isBlockAfterTtd :: "header \<Rightarrow> bool"
  calcDifficulty :: "u64 \<Rightarrow> header \<Rightarrow> u256"

definition checkConsensus :: "packages \<Rightarrow> pow_chain \<Rightarrow> common \<Rightarrow> header \<Rightarrow> header \<Rightarrow> (string, unit) outcome" where
  "checkConsensus pk pow com hdr parent =
     (if proofOfStake com (isBlockAfterTtd pow hdr) (number hdr) then
        if difficulty hdr \<noteq> 0 then Fail ''Non-zero difficulty in a post-merge block''
        else if nonce hdr \<noteq> 0 then Fail ''Non-zero nonce in a post-merge block''
        else if ommersHash hdr \<noteq> no_uncles_hash pk then Fail ''Invalid ommers hash in a post-merge block''
        else Done ()
      else if difficulty hdr < calcDifficulty pow (timestamp hdr) parent
      then Fail ''provided header difficulty is too low''
      else Done ())"

definition validateHeader ::
    "packages \<Rightarrow> pow_chain \<Rightarrow> common \<Rightarrow> eth_block \<Rightarrow> block_access_list option \<Rightarrow> bool \<Rightarrow> header \<Rightarrow>
     (string, unit) outcome" where
  "validateHeader pk pow com blk bal skipPreExecBalCheck parent =
     (let hdr = bk_header blk in
      if 32 < length (extraData hdr) then Fail ''Header.extraData larger than 32 bytes''
      else if gasUsed hdr = 0 \<and> 0 < length (bk_transactions blk)
      then Fail ''zero gasUsed but transactions present''
      else if gasUsed hdr < 0 \<or> gasLimit hdr < gasUsed hdr
      then Fail ''gasUsed should be non negative and smaller or equal gasLimit''
      else if number hdr \<noteq> number parent + 1 then Fail ''Blocks must be numbered consecutively''
      else if timestamp hdr \<le> timestamp parent then Fail ''timestamp must be strictly later than parent''
      else if GAS_LIMIT_MAXIMUM < gasLimit hdr then Fail ''gasLimit exceeds GAS_LIMIT_MAXIMUM''
      else
        bind_outcome (checkDaoExtra com hdr) (\<lambda>_.
        bind_outcome (checkConsensus pk pow com hdr parent) (\<lambda>_.
        bind_outcome (validateWithdrawals pk com hdr (bk_withdrawals blk)) (\<lambda>_.
        bind_outcome (validateEip4844Header com hdr parent (bk_transactions blk)) (\<lambda>_.
        bind_outcome (validateGasLimitOrBaseFee pk com hdr parent) (\<lambda>_.
        validateBlockAccessList pk com hdr bal skipPreExecBalCheck))))))"

section \<open>The expansion\<close>

text \<open>The terms of the expansion: as the code computes them, and as the EIP defines them.\<close>

primrec word_term :: "u256 \<Rightarrow> u256 \<Rightarrow> nat \<Rightarrow> u256" where
  "word_term num den 0 = den"
| "word_term num den (Suc k) = word_term num den k * num div (den * of_nat (Suc k))"

primrec exp_term :: "nat \<Rightarrow> nat \<Rightarrow> nat \<Rightarrow> nat" where
  "exp_term num den 0 = den"
| "exp_term num den (Suc k) = exp_term num den k * num div (den * Suc k)"

lemma word_term_stays_0: "word_term num den k = 0 \<Longrightarrow> k \<le> n \<Longrightarrow> word_term num den n = 0"
  by (induction n) (auto simp: le_Suc_eq)

lemma fakeExp_loop_sum:
  assumes "word_term num den n = 0" and "\<forall>j \<le> n. den * of_nat (Suc j) \<noteq> 0" and "n < k + fuel" and "k \<le> n"
  shows "fakeExp_loop fuel num den (of_nat (Suc k)) out (word_term num den k) =
    Done ((out + (\<Sum>j = k..<n. word_term num den j)) div den)"
  using assms(3,4)
proof (induction fuel arbitrary: k out)
  case (Suc fuel)
  have den: "den \<noteq> 0" using assms(2) [rule_format, of 0] by auto
  show ?case
  proof (cases "word_term num den k = 0")
    case True
    then have "(\<Sum>j = k..<n. word_term num den j) = 0"
      by (intro sum.neutral) (auto intro: word_term_stays_0)
    with True den show ?thesis by simp
  next
    case False
    then have "k \<noteq> n" using assms(1) by auto
    with Suc.prems have k: "Suc k \<le> n" "n < Suc k + fuel" by simp_all
    have "den * of_nat (Suc k) \<noteq> 0" using assms(2) k(1) by auto
    moreover have "(of_nat (Suc k) :: u256) + 1 = of_nat (Suc (Suc k))" by simp
    moreover have "(\<Sum>j = k..<n. word_term num den j) =
        word_term num den k + (\<Sum>j = Suc k..<n. word_term num den j)"
      using k(1) by (simp add: sum.atLeast_Suc_lessThan)
    moreover have "0 < word_term num den k" using False by (simp add: word_gt_0)
    moreover note Suc.IH [OF k(2,1), of "out + word_term num den k"]
    ultimately show ?thesis
      by (simp add: Let_def add.assoc del: of_nat_Suc)
  qed
qed simp

lemma div_halves:
  fixes a n d b :: nat
  assumes "2 * n \<le> d" and "a < 2 ^ Suc b"
  shows "a * n div d < 2 ^ b"
proof (cases "d = 0")
  case False
  have "a * n * 2 \<le> a * d" using assms(1) mult_le_mono2 [of "2 * n" d a] by (simp add: mult_ac)
  then have "a * n div d * d * 2 \<le> a * d"
    using div_times_less_eq_dividend [of "a * n" d] by (meson le_trans mult_le_mono1)
  then have "(a * n div d * 2) * d \<le> a * d" by (simp add: mult_ac)
  with False have "a * n div d * 2 \<le> a" by simp
  with assms(2) show ?thesis by simp
qed simp

lemma unat_den:
  fixes num den :: u256
  assumes "unat den * m < 2 ^ 256" and "m < 2 ^ 256"
  shows "unat (den * of_nat m) = unat den * m"
  using assms by (simp add: unat_word_ariths unat_of_nat)

lemma unat_mult_le: "unat (a * b) \<le> unat a * unat b"
  by (simp add: unat_word_ariths)

lemma word_term_vanishes:
  fixes num den :: u256
  defines "q \<equiv> unat num div unat den"
  assumes "0 < unat den" and "unat den < 2 ^ 64" and "unat num < 2 ^ 64" and "j \<le> 256"
  shows "unat (word_term num den (2 * q + 1 + j)) < 2 ^ (256 - j)"
  using assms(5)
proof (induction j)
  case 0
  then show ?case using uint_bounded [of "word_term num den (2 * q + 1)"] by (simp add: nat_less_iff flip: nat_uint_eq)
next
  case (Suc j)
  let ?k = "2 * q + 1 + j"
  let ?a = "word_term num den ?k"
  have step: "word_term num den (2 * q + 1 + Suc j) = ?a * num div (den * of_nat (Suc ?k))"
    by (simp only: add_Suc_right word_term.simps)
  have qden: "q * unat den \<le> unat num" "unat num < unat den * (q + 1)"
    using assms(2) by (simp_all add: q_def dividend_less_times_div algebra_simps)
  have q: "q < 2 ^ 64" using assms(4) unfolding q_def by (meson div_le_dividend le_less_trans)
  then have i: "Suc ?k < 2 ^ 66" using Suc.prems by simp
  have "unat den * Suc ?k < 2 ^ 64 * 2 ^ 66"
    using assms(3) i by (intro mult_strict_mono) simp_all
  then have den: "unat (den * of_nat (Suc ?k)) = unat den * Suc ?k"
    using i by (intro unat_den) (simp_all del: of_nat_Suc)
  have "2 * unat num \<le> unat den * Suc ?k"
  proof -
    have "2 * unat num \<le> unat den * (2 * q + 2)" using qden(2) by (simp add: algebra_simps)
    also have "\<dots> \<le> unat den * Suc ?k" by (intro mult_le_mono2) simp
    finally show ?thesis .
  qed
  moreover have "unat ?a < 2 ^ Suc (255 - j)"
  proof -
    have "256 - j = Suc (255 - j)" using Suc.prems by simp
    with Suc.IH Suc.prems show ?thesis by (simp del: power_Suc word_term.simps)
  qed
  ultimately have small: "unat ?a * unat num div (unat den * Suc ?k) < 2 ^ (255 - j)" by (rule div_halves)
  from div_le_mono [OF unat_mult_le] small
  have "unat (?a * num div (den * of_nat (Suc ?k))) < 2 ^ (255 - j)"
    unfolding unat_div den by (rule le_less_trans)
  moreover have "256 - Suc j = 255 - j" by simp
  ultimately show ?case by (simp only: step)
qed

lemma den_nonzero:
  fixes den :: u256
  assumes "0 < unat den" and "unat den < 2 ^ 64" and "m < 2 ^ 67" and "0 < m"
  shows "den * of_nat m \<noteq> 0"
proof -
  have "unat den * m < 2 ^ 64 * 2 ^ 67" using assms by (intro mult_strict_mono) simp_all
  then have "unat (den * of_nat m) = unat den * m" using assms(3) by (intro unat_den) simp_all
  with assms(1,4) show ?thesis by (metis mult_pos_pos neq0_conv unat_0)
qed

lemma fakeExponential_sum:
  fixes num den :: u256
  assumes "0 < unat den" and "unat den < 2 ^ 64" and "unat num < 2 ^ 64"
  shows "\<exists>n < 2 * (unat num div unat den) + 260. word_term num den n = 0 \<and>
    fakeExponential (2 * (unat num div unat den) + 260) 1 num den =
      Done ((\<Sum>j < n. word_term num den j) div den)"
proof -
  let ?q = "unat num div unat den"
  let ?n = "2 * ?q + 1 + 256"
  have q: "?q < 2 ^ 64" using assms(3) by (meson div_le_dividend le_less_trans)
  have "unat (word_term num den ?n) < 2 ^ (256 - 256)"
    by (rule word_term_vanishes [OF assms]) simp
  then have "unat (word_term num den ?n) = 0" by simp
  then have zero: "word_term num den ?n = 0" by (simp only: unat_eq_0)
  have dens: "\<forall>j \<le> ?n. den * of_nat (Suc j) \<noteq> 0"
    using q by (intro allI impI den_nonzero [OF assms(1,2)]) simp_all
  have "fakeExp_loop (2 * ?q + 260) num den (of_nat (Suc 0)) 0 (word_term num den 0) =
      Done ((0 + (\<Sum>j = 0..<?n. word_term num den j)) div den)"
    by (rule fakeExp_loop_sum [OF zero dens]) simp_all
  then show ?thesis
    using zero by (intro exI [of _ ?n]) (simp add: fakeExponential_def atLeast0LessThan)
qed

text \<open>The expansion of the EIP stays small when the quotient of the arguments is small.\<close>

lemma exp_term_real:
  assumes "0 < den"
  shows "real (exp_term num den k) \<le> real den * ((real num / real den) ^ k / fact k)"
proof (induction k)
  case (Suc k)
  have "real (exp_term num den (Suc k)) \<le> real (exp_term num den k * num) / real (den * Suc k)"
    by (simp only: exp_term.simps of_nat_div_le_of_nat)
  also have "\<dots> = real (exp_term num den k) * (real num / real (den * Suc k))" by simp
  also have "\<dots> \<le> (real den * ((real num / real den) ^ k / fact k)) * (real num / real (den * Suc k))"
    by (rule mult_right_mono [OF Suc]) simp
  also have "\<dots> = real den * ((real num / real den) ^ Suc k / fact (Suc k))"
    by (simp add: field_simps)
  finally show ?case .
qed simp

lemma exp_terms_sum:
  assumes "0 < den" and "num \<le> c * den"
  shows "(\<Sum>k < n. exp_term num den k) \<le> den * 3 ^ c"
proof -
  let ?x = "real num / real den"
  have x: "0 \<le> ?x" "?x \<le> real c"
    using assms by (simp_all add: pos_divide_le_eq flip: of_nat_mult)
  have "real (\<Sum>k < n. exp_term num den k) \<le> (\<Sum>k < n. real den * (?x ^ k / fact k))"
    unfolding of_nat_sum by (intro sum_mono exp_term_real assms(1))
  also have "\<dots> = real den * (\<Sum>k < n. ?x ^ k / fact k)" by (simp add: sum_distrib_left)
  also have "(\<Sum>k < n. ?x ^ k / fact k) \<le> (\<Sum>k. ?x ^ k /\<^sub>R fact k)"
    using sum_le_suminf [OF summable_exp_generic [of ?x], of "{..<n}"] x(1)
    by (simp add: divide_inverse mult.commute)
  also have "\<dots> = exp ?x" by (simp add: exp_def)
  also have "exp ?x \<le> exp (real c * 1)" using x by simp
  also have "\<dots> = exp 1 ^ c" by (rule exp_of_nat_mult)
  also have "\<dots> \<le> 3 ^ c" by (rule power_mono [OF exp_le]) simp
  finally have "real (\<Sum>k < n. exp_term num den k) \<le> real (den * 3 ^ c)"
    by (simp add: mult_left_mono)
  then show ?thesis by (simp only: of_nat_le_iff)
qed

lemma exp_term_le_sum: "exp_term num den k \<le> (\<Sum>j < Suc k. exp_term num den j)"
  by simp

lemma word_term_exact:
  fixes num den :: u256
  assumes "0 < unat den" and "unat den < 2 ^ 32" and "unat num \<le> 100 * unat den" and "k < 2 ^ 67"
  shows "unat (word_term num den k) = exp_term (unat num) (unat den) k"
  using assms(4)
proof (induction k)
  case (Suc k)
  let ?a = "word_term num den k" and ?e = "exp_term (unat num) (unat den) k"
  have num: "unat num < 2 ^ 39" using assms(2,3) by simp
  have "?e \<le> unat den * 3 ^ 100"
    using exp_term_le_sum exp_terms_sum [OF assms(1,3)] le_trans by blast
  also have "\<dots> \<le> 2 ^ 32 * 3 ^ 100" using assms(2) by (intro mult_le_mono1) simp
  finally have "?e * unat num \<le> 2 ^ 32 * 3 ^ 100 * 2 ^ 39" using num by (intro mult_le_mono) simp_all
  moreover have "(2 ^ 32 * 3 ^ 100 * 2 ^ 39 :: nat) < 2 ^ 256" by simp
  ultimately have "?e * unat num < 2 ^ 256" by linarith
  then have prod: "unat (?a * num) = ?e * unat num"
    using Suc by (simp add: unat_word_ariths)
  have "unat den * Suc k < 2 ^ 32 * 2 ^ 67"
    using assms(2) Suc.prems by (intro mult_strict_mono) simp_all
  then have den: "unat (den * of_nat (Suc k)) = unat den * Suc k"
    using Suc.prems by (intro unat_den) simp_all
  show ?case unfolding word_term.simps exp_term.simps unat_div prod den ..
qed simp

lemma fakeExponential_exact:
  fixes num den :: u256
  assumes "0 < unat den" and "unat den < 2 ^ 32" and "unat num \<le> 100 * unat den"
  shows "\<exists>n fee. exp_term (unat num) (unat den) n = 0 \<and>
    fakeExponential (2 * (unat num div unat den) + 260) 1 num den = Done fee \<and>
    unat fee = (\<Sum>j < n. exp_term (unat num) (unat den) j) div unat den"
proof -
  have bounds: "unat den < 2 ^ 64" "unat num < 2 ^ 64" using assms by simp_all
  from fakeExponential_sum [OF assms(1) bounds]
  obtain n where n: "n < 2 * (unat num div unat den) + 260" "word_term num den n = 0"
    "fakeExponential (2 * (unat num div unat den) + 260) 1 num den = Done ((\<Sum>j < n. word_term num den j) div den)"
    by blast
  have "unat num div unat den < 2 ^ 64" using bounds(2) by (meson div_le_dividend le_less_trans)
  with n(1) have small: "n < 2 ^ 67" by simp
  have terms: "word_term num den j = of_nat (exp_term (unat num) (unat den) j)" if "j \<le> n" for j
  proof -
    have "of_nat (unat (word_term num den j)) = word_term num den j" by simp
    with word_term_exact [OF assms, of j] that small show ?thesis by simp
  qed
  have "(\<Sum>j < n. exp_term (unat num) (unat den) j) \<le> unat den * 3 ^ 100"
    by (rule exp_terms_sum [OF assms(1,3)])
  also have "\<dots> \<le> 2 ^ 32 * 3 ^ 100" using assms(2) by (intro mult_le_mono1) simp
  finally have "(\<Sum>j < n. exp_term (unat num) (unat den) j) < 2 ^ 256" by simp
  then have "unat (\<Sum>j < n. word_term num den j) = (\<Sum>j < n. exp_term (unat num) (unat den) j)"
    using terms by (simp add: unat_of_nat flip: of_nat_sum)
  moreover have "exp_term (unat num) (unat den) n = 0"
    using word_term_exact [OF assms small] n(2) by simp
  ultimately show ?thesis using n(3) by (auto simp: unat_div)
qed
section \<open>Lemmas\<close>

lemma unat_ucast_256 [simp]: "unat (ucast (x :: u64) :: u256) = unat x"
proof -
  have "unat x < 2 ^ 64" using uint_bounded [of x] by (simp add: nat_less_iff flip: nat_uint_eq)
  then show ?thesis by (simp add: unsigned_ucast_eq take_bit_eq_mod)
qed

text \<open>The price of blob gas, and the guest's blob schedule.\<close>

lemma getBlobBaseFee_Cancun:
  assumes "Cancun \<le> fork" and "getBlobBaseFeeUpdateFraction com fork = Done fraction"
  shows "getBlobBaseFee excess com fork =
    fakeExponential (2 * (unat excess div unat fraction) + 260) 1 (ucast excess) (ucast fraction)"
  using assms by (simp add: getBlobBaseFee_def expansion_fuel_def MIN_BLOB_GASPRICE_def)

lemma blob_fee_exact:
  assumes "Cancun \<le> fork" and "getBlobBaseFeeUpdateFraction com fork = Done fraction"
    and "0 < unat fraction" and "unat fraction < 2 ^ 32" and "unat excess \<le> 100 * unat fraction"
  shows "\<exists>n fee. exp_term (unat excess) (unat fraction) n = 0 \<and> getBlobBaseFee excess com fork = Done fee \<and>
    unat fee = (\<Sum>j < n. exp_term (unat excess) (unat fraction) j) div unat fraction"
  unfolding getBlobBaseFee_Cancun [OF assms(1,2)]
  using fakeExponential_exact [of "ucast fraction" "ucast excess"] assms(3-5) by simp

lemma stateless_schedule [simp]:
  "schedule_field field (statelessCommon dep cid) Amsterdam =
     Done (field \<lparr>bs_target = 14, bs_max = 21, bs_baseFeeUpdateFraction = 11684671\<rparr>)"
  by (simp add: schedule_field_def less_hard_fork_def)

lemma validateGasLimit_ok:
  "validateGasLimit hdr limit = Done () \<longleftrightarrow>
     5000 \<le> unat (gasLimit hdr) \<and> \<bar>int (unat (gasLimit hdr)) - int (unat limit)\<bar> < int (unat limit div 1024)"
proof -
  have diff: "int (unat (if gasLimit hdr < limit then limit - gasLimit hdr else gasLimit hdr - limit)) =
      \<bar>int (unat (gasLimit hdr)) - int (unat limit)\<bar>"
    by (auto simp: word_less_def uint_diff_small)
  have "limit div 1024 \<le> x \<longleftrightarrow> \<not> int (unat x) < int (unat limit div 1024)" for x
    by (simp only: word_le_nat_alt unat_div not_less of_nat_less_iff) simp
  note le = this
  let ?diff = "if gasLimit hdr < limit then limit - gasLimit hdr else gasLimit hdr - limit"
  have "validateGasLimit hdr limit = Done () \<longleftrightarrow> \<not> limit div 1024 \<le> ?diff \<and> \<not> gasLimit hdr < 5000"
    unfolding validateGasLimit_def Let_def GAS_LIMIT_ADJUSTMENT_FACTOR_def GAS_LIMIT_MINIMUM_def by simp
  also have "\<not> limit div 1024 \<le> ?diff \<longleftrightarrow>
      \<bar>int (unat (gasLimit hdr)) - int (unat limit)\<bar> < int (unat limit div 1024)"
    by (simp only: le diff not_not)
  also have "\<not> gasLimit hdr < 5000 \<longleftrightarrow> 5000 \<le> unat (gasLimit hdr)"
    by (simp add: word_less_nat_alt not_less)
  finally show ?thesis by blast
qed

lemma validateEip4844Header_ok:
  assumes "validateEip4844Header (statelessCommon dep cid) hdr parent txs = Done ()"
  shows "blobGasUsed hdr = Some (sumBlobGasUsed txs) \<and> unat (sumBlobGasUsed txs) \<le> 21 * 131072 \<and>
    (\<exists>excess. excessBlobGas hdr = Some excess \<and>
      calcExcessBlobGas (statelessCommon dep cid) parent Amsterdam = Done excess)"
proof -
  have forks: "Shanghai \<le> Cancun" "Cancun \<le> Amsterdam" by (simp_all add: less_eq_hard_fork_def)
  have "x \<le> 21 * GAS_PER_BLOB \<Longrightarrow> unat x \<le> 21 * 131072" for x
    by (simp add: GAS_PER_BLOB_def word_le_nat_alt)
  with assms show ?thesis
    by (auto simp: validateEip4844Header_def stateless_fork forks bind_outcome_Done getMaxBlobGasPerBlock_def
        Let_def not_less split: option.splits if_splits)
qed

lemma validateGasLimitOrBaseFee_ok:
  assumes "validateGasLimitOrBaseFee pk (statelessCommon dep cid) hdr parent = Done ()"
  shows "validateGasLimit hdr (gasLimit parent) = Done () \<and>
    (\<exists>fee. baseFeePerGas hdr = Some fee \<and> fee \<noteq> 0 \<and>
      fee = next_base_fee pk (gasLimit parent) (gasUsed parent) (orDefault (baseFeePerGas parent) 0))"
  using assms
  by (auto simp: validateGasLimitOrBaseFee_def verifyEip1559Header_def calcEip1599BaseFee_def bind_outcome_Done
      Let_def orDefault_def split: if_splits option.splits)

section \<open>Properties\<close>

text \<open>
  C9: what a header that the guest accepts satisfies. It follows its parent in number and time;
  its gas limit is at least 5000, at most $2^{63} - 1$ and within a 1024th of the parent's; its
  gas is within the limit and its blob gas that of its transactions and at most 21 blobs'
  worth; the base fee and the excess blob gas are those computed from the parent; it is a header
  after the merge, and its roots and hashes of withdrawals and access list are there.
\<close>

theorem validateHeader_bounds:
  assumes "validateHeader pk pow (statelessCommon dep cid) blk None True parent = Done ()"
  shows "\<exists>used excess fee ws. let hdr = bk_header blk in
    number hdr = number parent + 1 \<and> timestamp parent < timestamp hdr \<and> length (extraData hdr) \<le> 32 \<and>
    5000 \<le> unat (gasLimit hdr) \<and> unat (gasLimit hdr) < 2 ^ 63 \<and> gasUsed hdr \<le> gasLimit hdr \<and>
    \<bar>int (unat (gasLimit hdr)) - int (unat (gasLimit parent))\<bar> < int (unat (gasLimit parent) div 1024) \<and>
    baseFeePerGas hdr = Some fee \<and> fee \<noteq> 0 \<and>
    fee = next_base_fee pk (gasLimit parent) (gasUsed parent) (orDefault (baseFeePerGas parent) 0) \<and>
    blobGasUsed hdr = Some used \<and> used = sumBlobGasUsed (bk_transactions blk) \<and> unat used \<le> 21 * 131072 \<and>
    excessBlobGas hdr = Some excess \<and> calcExcessBlobGas (statelessCommon dep cid) parent Amsterdam = Done excess \<and>
    difficulty hdr = 0 \<and> nonce hdr = 0 \<and> ommersHash hdr = no_uncles_hash pk \<and>
    bk_withdrawals blk = Some ws \<and> withdrawalsRoot hdr = Some (wds_root pk ws) \<and>
    blockAccessListHash hdr \<noteq> None"
proof -
  let ?com = "statelessCommon dep cid" and ?hdr = "bk_header blk"
  have forks: "Shanghai \<le> Shanghai" "Shanghai \<le> Amsterdam" "Amsterdam \<le> Amsterdam"
    by (simp_all add: less_eq_hard_fork_def)
  from assms have simple: "length (extraData ?hdr) \<le> 32" "gasUsed ?hdr \<le> gasLimit ?hdr"
      "number ?hdr = number parent + 1" "timestamp parent < timestamp ?hdr"
      "gasLimit ?hdr \<le> GAS_LIMIT_MAXIMUM"
    and parts: "checkConsensus pk pow ?com ?hdr parent = Done ()"
      "validateWithdrawals pk ?com ?hdr (bk_withdrawals blk) = Done ()"
      "validateEip4844Header ?com ?hdr parent (bk_transactions blk) = Done ()"
      "validateGasLimitOrBaseFee pk ?com ?hdr parent = Done ()"
      "validateBlockAccessList pk ?com ?hdr None True = Done ()"
    by (auto simp: validateHeader_def Let_def bind_outcome_Done not_less not_le split: if_splits)
  have "unat (gasLimit ?hdr) < 2 ^ 63"
    using simple(5) by (simp add: GAS_LIMIT_MAXIMUM_def word_le_nat_alt)
  moreover from parts(1) have "difficulty ?hdr = 0" "nonce ?hdr = 0" "ommersHash ?hdr = no_uncles_hash pk"
    by (auto simp: checkConsensus_def split: if_splits)
  moreover from parts(2) obtain ws where "bk_withdrawals blk = Some ws" "withdrawalsRoot ?hdr = Some (wds_root pk ws)"
    using forks by (auto simp: validateWithdrawals_def split: option.splits if_splits)
  moreover from parts(5) have "blockAccessListHash ?hdr \<noteq> None"
    using forks by (auto simp: validateBlockAccessList_def split: option.splits)
  moreover note simple(1-4) validateEip4844Header_ok [OF parts(3)] validateGasLimitOrBaseFee_ok [OF parts(4)]
  ultimately show ?thesis unfolding Let_def by (auto simp: validateGasLimit_ok)
qed

definition demo_block :: eth_block where
  "demo_block =
     \<lparr>bk_header = demo_header 10 1009, bk_uncles = [], bk_transactions = [], bk_withdrawals = Some []\<rparr>"

lemma demo_block_valid:
  "validateHeader demo_packages pow (statelessCommon dep cid) demo_block None True (demo_header 9 1008) = Done ()"
proof -
  have forks: "Shanghai \<le> Shanghai" "Shanghai \<le> Cancun" "Cancun \<le> Amsterdam" "Shanghai \<le> Amsterdam"
    "Amsterdam \<le> Amsterdam"
    by (simp_all add: less_eq_hard_fork_def)
  have "calcExcessBlobGas (statelessCommon dep cid) (demo_header 9 1008) Amsterdam = Done 0"
    by (simp add: calcExcessBlobGas_def demo_header_def orDefault_def GAS_PER_BLOB_def)
  with forks show ?thesis
    by (simp add: validateHeader_def demo_block_def demo_header_def demo_packages_def checkDaoExtra_def
        checkConsensus_def validateWithdrawals_def validateEip4844Header_def stateless_fork
        sumBlobGasUsed_def getMaxBlobGasPerBlock_def validateGasLimitOrBaseFee_def verifyEip1559Header_def
        validateGasLimit_def calcEip1599BaseFee_def orDefault_def validateBlockAccessList_def
        GAS_LIMIT_MAXIMUM_def GAS_LIMIT_MINIMUM_def GAS_LIMIT_ADJUSTMENT_FACTOR_def GAS_PER_BLOB_def
        Let_def)
qed

theorem validateHeader_bounds_witness:
  "5000 \<le> unat (gasLimit (bk_header demo_block)) \<and>
   blobGasUsed (bk_header demo_block) = Some (sumBlobGasUsed (bk_transactions demo_block))"
  using validateHeader_bounds [OF demo_block_valid] by (auto simp: Let_def)

text \<open>
  The price of blob gas is computed, and is the right one. For any excess and any update
  fraction but zero the expansion ends within the fuel and no division fails, although its
  words wrap around. While the excess is at most 100 times the fraction nothing does wrap, and
  the result is the sum the EIP defines over natural numbers, up to its first zero term, divided
  by the fraction.
\<close>

theorem blob_fee_computed:
  assumes "Cancun \<le> fork" and "getBlobBaseFeeUpdateFraction com fork = Done fraction" and "fraction \<noteq> 0"
  shows "(\<exists>fee. getBlobBaseFee excess com fork = Done fee) \<and>
    (unat fraction < 2 ^ 32 \<and> unat excess \<le> 100 * unat fraction \<longrightarrow>
      (\<exists>n fee. exp_term (unat excess) (unat fraction) n = 0 \<and> getBlobBaseFee excess com fork = Done fee \<and>
        unat fee = (\<Sum>j < n. exp_term (unat excess) (unat fraction) j) div unat fraction))"
proof (intro conjI impI)
  have pos: "0 < unat fraction" using assms(3) by (simp add: unat_gt_0)
  have u64: "unat x < 2 ^ 64" for x :: u64 using uint_bounded [of x] by (simp add: nat_less_iff flip: nat_uint_eq)
  show "\<exists>fee. getBlobBaseFee excess com fork = Done fee"
    unfolding getBlobBaseFee_Cancun [OF assms(1,2)]
    using fakeExponential_sum [of "ucast fraction" "ucast excess"] pos u64 by auto
  show "\<exists>n fee. exp_term (unat excess) (unat fraction) n = 0 \<and> getBlobBaseFee excess com fork = Done fee \<and>
      unat fee = (\<Sum>j < n. exp_term (unat excess) (unat fraction) j) div unat fraction"
    if "unat fraction < 2 ^ 32 \<and> unat excess \<le> 100 * unat fraction"
    using blob_fee_exact [OF assms(1,2) pos] that by simp
qed

theorem blob_fee_computed_witness:
  "\<exists>n fee. exp_term 23369342 11684671 n = 0 \<and> getBlobBaseFee 23369342 (statelessCommon (\<lambda>_. None) 1) Amsterdam = Done fee \<and>
     unat fee = (\<Sum>j < n. exp_term 23369342 11684671 j) div 11684671"
  using blob_fee_computed [of Amsterdam "statelessCommon (\<lambda>_. None) 1" 11684671 23369342]
  by (simp add: less_eq_hard_fork_def)

end
