(* ===== verification/Blob_Fees.thy ===== *)
theory Blob_Fees
  imports Block_Validation Op_Engine
begin

text \<open>
  The blob base fee of the proxy (\<open>eth_blobBaseFee\<close> of \<open>engine/rpc_frontend.nim\<close> and
  \<open>op_blobBaseFee\<close> of \<open>op/op_frontend.nim\<close>), where the engine meets the execution client: the
  configurations of the public networks with their validation
  (\<open>execution_chain/common/chain_config.nim\<close>), the fork of the latest verified header in them,
  and the price of the EIP at that fork.
\<close>

section \<open>The public networks\<close>

definition MainNet :: u256 where "MainNet = 1"
definition SepoliaNet :: u256 where "SepoliaNet = 11155111"
definition HoodiNet :: u256 where "HoodiNet = 560048"

definition mainNetConfig :: chain_config where
  "mainNetConfig =
     \<lparr>cc_chainId = MainNet,
      cc_forkBlock = map_of
        [(Homestead, 1150000), (DAOFork, 1920000), (Tangerine, 2463000), (Spurious, 2675000), (Byzantium, 4370000),
         (Constantinople, 7280000), (Petersburg, 7280000), (Istanbul, 9069000), (MuirGlacier, 9200000),
         (Berlin, 12244000), (London, 12965000), (ArrowGlacier, 13773000), (GrayGlacier, 15050000)],
      cc_eip155Block = Some 2675000, cc_daoForkSupport = True, cc_posBlock = Some 15537394,
      cc_mergeNetsplitBlock = None,
      cc_forkTime = map_of
        [(Shanghai, 1681338455), (Cancun, 1710338135), (Prague, 1746612311), (Osaka, 1764798551),
         (Bpo1, 1765290071), (Bpo2, 1767747671)],
      cc_terminalTotalDifficulty = Some 58750000000000000000000,
      cc_depositContractAddress = Some 0x00000000219ab540356cbb839cbe05303d7705fa,
      cc_blobSchedule = defaultBlobSchedule\<rparr>"

definition sepoliaConfig :: chain_config where
  "sepoliaConfig =
     \<lparr>cc_chainId = SepoliaNet,
      cc_forkBlock = map_of
        [(Homestead, 0), (Tangerine, 0), (Spurious, 0), (Byzantium, 0), (Constantinople, 0), (Petersburg, 0),
         (Istanbul, 0), (MuirGlacier, 0), (Berlin, 0), (London, 0)],
      cc_eip155Block = Some 0, cc_daoForkSupport = False, cc_posBlock = Some 1450409,
      cc_mergeNetsplitBlock = Some 1735371,
      cc_forkTime = map_of
        [(Shanghai, 1677557088), (Cancun, 1706655072), (Prague, 1741159776), (Osaka, 1760427360),
         (Bpo1, 1761017184), (Bpo2, 1761607008), (Amsterdam, 1791294816)],
      cc_terminalTotalDifficulty = Some 17000000000000000,
      cc_depositContractAddress = Some 0x7f02C3E3c98b133055B8B348B2Ac625669Ed295D,
      cc_blobSchedule = defaultBlobSchedule\<rparr>"

definition hoodiConfig :: chain_config where
  "hoodiConfig =
     \<lparr>cc_chainId = HoodiNet,
      cc_forkBlock = map_of
        [(Homestead, 0), (Tangerine, 0), (Spurious, 0), (Byzantium, 0), (Constantinople, 0), (Petersburg, 0),
         (Istanbul, 0), (Berlin, 0), (London, 0)],
      cc_eip155Block = Some 0, cc_daoForkSupport = False, cc_posBlock = None, cc_mergeNetsplitBlock = Some 0,
      cc_forkTime = map_of
        [(Shanghai, 0), (Cancun, 0), (Prague, 1742999832), (Osaka, 1761677592), (Bpo1, 1762365720),
         (Bpo2, 1762955544), (Amsterdam, 1793036568)],
      cc_terminalTotalDifficulty = Some 0,
      cc_depositContractAddress = Some 0x00000000219ab540356cBB839Cbe05303d7705Fa,
      cc_blobSchedule = defaultBlobSchedule\<rparr>"

definition emptyConfig :: chain_config where
  "emptyConfig =
     \<lparr>cc_chainId = 0, cc_forkBlock = (\<lambda>_. None), cc_eip155Block = None, cc_daoForkSupport = False,
      cc_posBlock = None, cc_mergeNetsplitBlock = None, cc_forkTime = (\<lambda>_. None),
      cc_terminalTotalDifficulty = None, cc_depositContractAddress = None, cc_blobSchedule = (\<lambda>_. None)\<rparr>"

text \<open>
  \<open>validateChainConfig\<close>: a fork that is set may not come before the last one set; the fields are
  taken in the order of the declaration.
\<close>

fun in_order :: "u64 option \<Rightarrow> u64 option list \<Rightarrow> bool" where
  "in_order prev [] = True"
| "in_order prev (None # curs) = in_order prev curs"
| "in_order prev (Some c # curs) =
     (if (case prev of None \<Rightarrow> False | Some l \<Rightarrow> l > c) then False else in_order (Some c) curs)"

definition forkBlockFields :: "chain_config \<Rightarrow> u64 option list" where
  "forkBlockFields conf =
     map (cc_forkBlock conf) [Homestead, DAOFork, Tangerine] @ [cc_eip155Block conf] @
     map (cc_forkBlock conf)
       [Spurious, Byzantium, Constantinople, Petersburg, Istanbul, MuirGlacier, Berlin, London, ArrowGlacier, GrayGlacier] @
     [cc_posBlock conf, cc_mergeNetsplitBlock conf]"

definition forkTimeFields :: "chain_config \<Rightarrow> u64 option list" where
  "forkTimeFields conf =
     map (cc_forkTime conf) [Shanghai, Cancun, Prague, Osaka, Bpo1, Bpo2, Bpo3, Bpo4, Bpo5, Amsterdam, Bogota]"

definition validateChainConfig :: "chain_config \<Rightarrow> bool" where
  "validateChainConfig conf \<longleftrightarrow>
     in_order (hd (forkBlockFields conf)) (tl (forkBlockFields conf)) \<and>
     in_order (hd (forkTimeFields conf)) (tl (forkTimeFields conf))"

text \<open>\<open>chainConfigForNetwork\<close> asserts that its choice is valid.\<close>

definition net_config :: "u256 \<Rightarrow> chain_config" where
  "net_config nid =
     (if nid = MainNet then mainNetConfig else if nid = SepoliaNet then sepoliaConfig
      else if nid = HoodiNet then hoodiConfig else emptyConfig)"

definition chainConfigForNetwork :: "u256 \<Rightarrow> (string, chain_config) outcome" where
  "chainConfigForNetwork nid = (if validateChainConfig (net_config nid) then Done (net_config nid) else Defect)"

section \<open>The methods\<close>

text \<open>What cannot fail but crash, in a procedure.\<close>

fun infallible :: "(string, 'a) outcome \<Rightarrow> (error_tuple, 'a) outcome" where
  "infallible (Done x) = Done x"
| "infallible (Fail e) = Defect"
| "infallible Cancelled = Cancelled"
| "infallible Defect = Defect"
| "infallible Stuck = Stuck"

definition header_fork :: "common \<Rightarrow> 'z block_header_scheme \<Rightarrow> (string, hard_fork) outcome" where
  "header_fork com hdr =
     toHardFork (com_forkTransitionTable com) (forkDeterminationInfo (number hdr) (timestamp hdr))"

definition header_blob_fee :: "common \<Rightarrow> 'z block_header_scheme \<Rightarrow> u64 \<Rightarrow> (string, u256) outcome" where
  "header_blob_fee com hdr excess = bind_outcome (header_fork com hdr) (\<lambda>fork. getBlobBaseFee excess com fork)"

definition latest_blob_fee :: "'b env \<Rightarrow> chain_config \<Rightarrow> ('b, u256) engine_proc" where
  "latest_blob_fee env config =
     andThen (penaltyOr (getVerifiedHeader env (BidAlias ''latest'') None)) (\<lambda>hdr.
       case excessBlobGas hdr of
         None \<Rightarrow> engine_fail UnavailableDataError ''excessBlobGas missing from latest header''
       | Some excess \<Rightarrow> ofOutcome (infallible (header_blob_fee (newCommon config) hdr excess)))"

definition fe_blobBaseFee :: "'b env \<Rightarrow> ('b, u256) engine_proc" where
  "fe_blobBaseFee env =
     andThen (requireSynced env) (\<lambda>_.
     andThen (gets engine_chainId) (\<lambda>chainId.
     andThen (ofOutcome (infallible (chainConfigForNetwork chainId))) (\<lambda>config.
       latest_blob_fee env config)))"

text \<open>The gate of the OP frontend is the L1 light client, its schedule that of the L1 chain.\<close>

definition op_fe_blobBaseFee :: "'b env \<Rightarrow> 'b env \<Rightarrow> ('b, u256) op_proc" where
  "op_fe_blobBaseFee env1 env2 =
     andThen (at_l1 (requireSynced env1)) (\<lambda>_.
     andThen (at_op (gets engine_chainId)) (\<lambda>chainId.
       case opL1ChainId chainId of
         Inl error \<Rightarrow> fail (engine_err InvalidDataError (''unknown op chainId: '' @ error))
       | Inr l1Id \<Rightarrow>
           andThen (ofOutcome (infallible (chainConfigForNetwork l1Id))) (\<lambda>config.
             on_op env1 (latest_blob_fee env2 config))))"

section \<open>The schedules are complete\<close>

lemma valid_configs:
  "validateChainConfig mainNetConfig" "validateChainConfig sepoliaConfig" "validateChainConfig hoodiConfig"
  "validateChainConfig emptyConfig"
  by code_simp+

lemma chainConfigForNetwork_eq: "chainConfigForNetwork nid = Done (net_config nid)"
  using valid_configs by (simp add: chainConfigForNetwork_def net_config_def)

text \<open>A fork from Cancun on that has a time in one of the configurations has a schedule.\<close>

lemma scheduled:
  assumes "cc_forkTime (net_config nid) fork = Some t" and "Cancun \<le> fork"
  shows "\<exists>bs. cc_blobSchedule (net_config nid) fork = Some bs \<and> 0 < unat (bs_baseFeeUpdateFraction bs) \<and>
    unat (bs_baseFeeUpdateFraction bs) < 2 ^ 32"
  using assms
  by (cases fork) (auto simp: net_config_def mainNetConfig_def sepoliaConfig_def hoodiConfig_def emptyConfig_def
      defaultBlobSchedule_def less_eq_hard_fork_def split: if_splits)

lemma header_fork_net:
  "\<exists>fork. header_fork (newCommon (net_config nid)) hdr = Done fork \<and>
     (Cancun \<le> fork \<longrightarrow> (\<exists>bs. cc_blobSchedule (net_config nid) fork = Some bs \<and>
        0 < unat (bs_baseFeeUpdateFraction bs) \<and> unat (bs_baseFeeUpdateFraction bs) < 2 ^ 32))"
proof -
  let ?com = "newCommon (net_config nid)"
  obtain fork where fork: "header_fork ?com hdr = Done fork"
    using newCommon_total unfolding header_fork_def by blast
  have time: "reached (cc_forkTime (net_config nid) fork) (timestamp hdr)" if "Cancun \<le> fork"
  proof -
    have "isGTETransitionThreshold (com_forkTransitionTable ?com)
        (forkDeterminationInfo (number hdr) (timestamp hdr)) fork"
      using fork unfolding header_fork_def toHardFork_Done by blast
    moreover have "Shanghai \<le> fork"
      using that by (auto simp: less_eq_hard_fork_def)
    ultimately show ?thesis
      by (simp add: newCommon_def Let_def threshold_time daoCheck_def split: if_splits)
  qed
  show ?thesis
  proof (cases "Cancun \<le> fork")
    case True
    with time obtain t where "cc_forkTime (net_config nid) fork = Some t"
      by (auto simp: reached_def split: option.splits)
    from scheduled [OF this True] fork show ?thesis by blast
  next
    case False
    with fork show ?thesis by blast
  qed
qed

lemma daoCheck_schedule [simp]: "cc_blobSchedule (daoCheck conf) = cc_blobSchedule conf"
  by (simp add: daoCheck_def Let_def)

lemma fraction_net:
  assumes "Cancun \<le> fork" and "cc_blobSchedule conf fork = Some bs"
  shows "getBlobBaseFeeUpdateFraction (newCommon conf) fork = Done (bs_baseFeeUpdateFraction bs)"
  using assms by (auto simp: schedule_field_def blobScheduleOf_def newCommon_def Let_def dest: leD)

text \<open>
  The price at a header: nothing before Cancun, then the expansion of the EIP with the fraction of
  the fork, up to its first zero term, in words of 256 bits. Up to an excess of 100 fractions
  nothing wraps around, and the price is that of the EIP over natural numbers.
\<close>

definition word_price :: "u64 \<Rightarrow> u64 \<Rightarrow> u256 \<Rightarrow> bool" where
  "word_price excess fraction fee \<longleftrightarrow>
     (\<exists>n. word_term (ucast excess) (ucast fraction) n = 0 \<and>
        fee = (\<Sum>j < n. word_term (ucast excess) (ucast fraction) j) div ucast fraction)"

definition eip_price :: "u64 \<Rightarrow> u64 \<Rightarrow> u256 \<Rightarrow> bool" where
  "eip_price excess fraction fee \<longleftrightarrow>
     (\<exists>n. exp_term (unat excess) (unat fraction) n = 0 \<and>
        unat fee = (\<Sum>j < n. exp_term (unat excess) (unat fraction) j) div unat fraction)"

definition priced :: "u256 \<Rightarrow> 'z block_header_scheme \<Rightarrow> u64 \<Rightarrow> u256 \<Rightarrow> bool" where
  "priced nid hdr excess fee \<longleftrightarrow>
     (\<exists>fork. header_fork (newCommon (net_config nid)) hdr = Done fork \<and>
       (fork < Cancun \<and> fee = 0 \<or>
        Cancun \<le> fork \<and> (\<exists>bs. cc_blobSchedule (net_config nid) fork = Some bs \<and>
          (let fraction = bs_baseFeeUpdateFraction bs in
           word_price excess fraction fee \<and>
           (unat excess \<le> 100 * unat fraction \<longrightarrow> eip_price excess fraction fee)))))"

lemma header_blob_fee_net:
  "\<exists>fee. header_blob_fee (newCommon (net_config nid)) hdr excess = Done fee \<and> priced nid hdr excess fee"
proof -
  obtain fork where fork: "header_fork (newCommon (net_config nid)) hdr = Done fork"
    and sched: "Cancun \<le> fork \<longrightarrow> (\<exists>bs. cc_blobSchedule (net_config nid) fork = Some bs \<and>
        0 < unat (bs_baseFeeUpdateFraction bs) \<and> unat (bs_baseFeeUpdateFraction bs) < 2 ^ 32)"
    using header_fork_net by blast
  show ?thesis
  proof (cases "Cancun \<le> fork")
    case False
    with fork show ?thesis
      by (auto simp: header_blob_fee_def getBlobBaseFee_def priced_def not_le)
  next
    case True
    with sched obtain bs where bs: "cc_blobSchedule (net_config nid) fork = Some bs"
      "0 < unat (bs_baseFeeUpdateFraction bs)" "unat (bs_baseFeeUpdateFraction bs) < 2 ^ 32" by blast
    let ?f = "bs_baseFeeUpdateFraction bs"
    note fr = fraction_net [OF True bs(1)]
    have "\<exists>fee. getBlobBaseFee excess (newCommon (net_config nid)) fork = Done fee \<and> word_price excess ?f fee"
      unfolding getBlobBaseFee_Cancun [OF True fr] word_price_def
      using fakeExponential_sum [of "ucast ?f" "ucast excess"] bs(2,3) unsigned_less [of excess] by auto
    then obtain fee where fee: "getBlobBaseFee excess (newCommon (net_config nid)) fork = Done fee"
      and "word_price excess ?f fee" by blast
    moreover have "eip_price excess ?f fee" if "unat excess \<le> 100 * unat ?f"
      using blob_fee_exact [OF True fr bs(2,3) that] fee by (auto simp: eip_price_def)
    ultimately show ?thesis
      using fork True bs(1) by (auto simp: header_blob_fee_def priced_def Let_def)
  qed
qed

lemma yields_latest_blob_fee:
  assumes "sound env w"
  shows "yields (engine_ok env w) (latest_blob_fee env (net_config nid))
    (\<lambda>fee. \<exists>hdr \<in> trusted w Optimistic. \<exists>excess. excessBlobGas hdr = Some excess \<and> priced nid hdr excess fee)"
  unfolding latest_blob_fee_def
proof (rule yields_bind [OF yields_penaltyOr [OF yields_getVerifiedHeader [OF assms]]])
  fix hdr assume "answers env w None (BidAlias ''latest'') hdr"
  then have "hdr \<in> trusted w Optimistic" by (rule alias_trusted [OF assms])
  then show "yields (engine_ok env w)
     (case excessBlobGas hdr of None \<Rightarrow> engine_fail UnavailableDataError ''excessBlobGas missing from latest header''
      | Some excess \<Rightarrow> ofOutcome (infallible (header_blob_fee (newCommon (net_config nid)) hdr excess)))
     (\<lambda>fee. \<exists>hdr \<in> trusted w Optimistic. \<exists>excess. excessBlobGas hdr = Some excess \<and> priced nid hdr excess fee)"
  proof (cases "excessBlobGas hdr")
    case None
    then show ?thesis by (simp add: yields_engine)
  next
    case (Some excess)
    obtain fee where "header_blob_fee (newCommon (net_config nid)) hdr excess = Done fee" "priced nid hdr excess fee"
      using header_blob_fee_net by blast
    with Some \<open>hdr \<in> trusted w Optimistic\<close> show ?thesis
      by (auto intro!: yields_ofOutcome)
  qed
qed simp

lemma crash_free_latest_blob_fee: "crash_free (latest_blob_fee env (net_config nid))"
  unfolding latest_blob_fee_def
proof (intro crash_free_rules crash_free_getVerifiedHeader)
  fix hdr :: block_header and excess
  obtain fee where "header_blob_fee (newCommon (net_config nid)) hdr excess = Done fee"
    using header_blob_fee_net by blast
  then show "crash_free (ofOutcome (infallible (header_blob_fee (newCommon (net_config nid)) hdr excess)))"
    by (simp add: crash_free_def ofOutcome_def)
qed

lemma fe_blobBaseFee_eq:
  "fe_blobBaseFee env e = andThen (requireSynced env) (\<lambda>_. latest_blob_fee env (net_config (engine_chainId e))) e"
  by (simp add: fe_blobBaseFee_def andThen_def requireSynced_cases gets_def ofOutcome_def chainConfigForNetwork_eq
      Let_def)

section \<open>A header with blobs\<close>

text \<open>The first block of a chain, in Cancun on mainnet, with an excess of one fraction.\<close>

definition blob_hdr :: block_header where
  "blob_hdr = empty_header\<lparr>excessBlobGas := Some 3338477, timestamp := 1710338135\<rparr>"

definition blob_env :: "unit env" where
  "blob_env = (single_env blob_hdr)\<lparr>txTrieRoot := (\<lambda>_. 4)\<rparr>"

definition blob_engine :: "unit engine" where
  "blob_engine = single_engine blob_hdr Optimistic silent_api"

lemma sound_blob: "sound blob_env (single_truth blob_hdr)"
  unfolding blob_env_def by (rule sound_single) (simp add: blob_hdr_def empty_header_def)

lemma engine_ok_blob: "engine_ok blob_env (single_truth blob_hdr) blob_engine"
  unfolding blob_env_def blob_engine_def by (rule engine_ok_single) (simp_all add: blob_hdr_def empty_header_def)

text \<open>The proxy has this header as its latest one, and the query succeeds.\<close>

lemma blob_example: "\<exists>fee. fst (fe_blobBaseFee blob_env blob_engine) = Done fee"
proof -
  have "fst (requireSynced blob_env blob_engine) = Done ()" by code_simp
  then have open_gate: "requireSynced blob_env blob_engine = (Done (), blob_engine)"
    by (simp add: requireSynced_cases Let_def split: if_splits)
  have "fst (getVerifiedHeader blob_env (BidAlias ''latest'') None blob_engine) = Done blob_hdr" by code_simp
  then obtain s where latest: "getVerifiedHeader blob_env (BidAlias ''latest'') None blob_engine = (Done blob_hdr, s)"
    by (metis prod.collapse)
  obtain fee where "header_blob_fee (newCommon (net_config (engine_chainId blob_engine))) blob_hdr 3338477 = Done fee"
    using header_blob_fee_net by blast
  moreover have "excessBlobGas blob_hdr = Some 3338477" by (simp add: blob_hdr_def)
  ultimately show ?thesis
    unfolding fe_blobBaseFee_eq
    by (simp add: andThen_def open_gate latest_blob_fee_def penaltyOr_def latest ofOutcome_def)
qed

section \<open>Properties\<close>

text \<open>
  C15: the blob base fee the proxy answers is the price at a trusted header, whatever the backends
  answer: nothing before Cancun, from then on the expansion that the EIP defines, in words of 256
  bits, for the excess in the header and the fraction of the header's fork in the configuration of
  the network. Up to an excess of 100 fractions the words do not wrap around and it is the price of
  the EIP itself; no such claim is made beyond. Asking for it never crashes and always ends: the
  schedules of the public networks are in order and cover every fork they reach.
\<close>

theorem blob_base_fee_is_true:
  assumes "sound env w" and "engine_ok env w e"
  shows "engine_ok env w (snd (fe_blobBaseFee env e)) \<and> fst (fe_blobBaseFee env e) \<notin> {Stuck, Defect} \<and>
    (\<forall>fee. fst (fe_blobBaseFee env e) = Done fee \<longrightarrow>
       (\<exists>hdr \<in> trusted w Optimistic. \<exists>excess.
          excessBlobGas hdr = Some excess \<and> priced (engine_chainId e) hdr excess fee))"
proof -
  let ?p = "andThen (requireSynced env) (\<lambda>_. latest_blob_fee env (net_config (engine_chainId e)))"
  have "yields (engine_ok env w) ?p (\<lambda>fee. \<exists>hdr \<in> trusted w Optimistic. \<exists>excess.
      excessBlobGas hdr = Some excess \<and> priced (engine_chainId e) hdr excess fee)"
    by (rule yields_bind [OF yields_requireSynced]) (rule yields_latest_blob_fee [OF assms(1)])
  note D = yieldsD [OF this assms(2)]
  have "crash_free ?p" by (intro crash_free_rules crash_free_latest_blob_fee)
  from crash_freeD [OF this, of e] D show ?thesis
    unfolding fe_blobBaseFee_eq by (cases "?p e") auto
qed

theorem blob_base_fee_is_true_witness:
  "\<exists>fee. fst (fe_blobBaseFee blob_env blob_engine) = Done fee \<and> priced 1 blob_hdr 3338477 fee"
proof -
  obtain fee where run: "fst (fe_blobBaseFee blob_env blob_engine) = Done fee" using blob_example by blast
  have "engine_chainId blob_engine = 1" by (simp add: blob_engine_def single_engine_def demo_engine_def)
  with blob_base_fee_is_true [OF sound_blob engine_ok_blob] run
  obtain hdr excess where "hdr \<in> trusted (single_truth blob_hdr) Optimistic" "excessBlobGas hdr = Some excess" "priced 1 hdr excess fee"
    by auto
  then have "priced 1 blob_hdr 3338477 fee" by (simp add: single_truth_def) (simp add: blob_hdr_def)
  with run show ?thesis by blast
qed

end
