(* ===== verification/Served.thy ===== *)
theory Served
  imports Rpc_Frontend C_Frontend Blob_Fees
begin

text \<open>
  The C library and the engine together: the calls that the exported procedures start are served
  by the methods of the frontend. What the engine guarantees reaches the client of the C
  interface, from the text of a call on.
\<close>

section \<open>Serving calls\<close>

datatype frontend_result =
    R_word u256 | R_quantity u64 | R_count nat | R_bool bool | R_bytes "byte list"
  | R_block block_object | R_transaction "transaction_object option"
  | R_receipts "receipt_object list option" | R_receipt "receipt_object option"
  | R_logs "log_object list" | R_filter string | R_hash hash32

definition giving :: "('a \<Rightarrow> frontend_result) \<Rightarrow> ('b, 'a) engine_proc \<Rightarrow> ('b, frontend_result) engine_proc" where
  "giving C m = andThen m (\<lambda>x. ret (C x))"

text \<open>
  The method that serves a call; \<open>None\<close> for those that run the EVM, and for the fee history, which
  is passed on with floating-point arguments.
\<close>

fun serve ::
    "'b env \<Rightarrow> ('tx, filter_options, 'pct) rpc_call \<Rightarrow> ('b, frontend_result) engine_proc option" where
  "serve env Rpc_chainId = Some (giving R_word fe_chainId)"
| "serve env Rpc_blockNumber = Some (giving R_quantity (fe_blockNumber env))"
| "serve env Rpc_syncing = Some (giving R_bool (fe_syncing env))"
| "serve env (Rpc_getBalance a tag) = Some (giving R_word (fe_getBalance env a tag))"
| "serve env (Rpc_getStorageAt a slot tag) = Some (giving R_word (fe_getStorageAt env a slot tag))"
| "serve env (Rpc_getTransactionCount a tag) = Some (giving R_quantity (fe_getTransactionCount env a tag))"
| "serve env (Rpc_getCode a tag) = Some (giving R_bytes (fe_getCode env a tag))"
| "serve env (Rpc_getBlockByHash h full) = Some (giving R_block (fe_getBlockByHash env h full))"
| "serve env (Rpc_getBlockByNumber tag full) = Some (giving R_block (fe_getBlockByNumber env tag full))"
| "serve env (Rpc_getUncleCountByBlockNumber tag) = Some (giving R_count (fe_getUncleCountByBlockNumber env tag))"
| "serve env (Rpc_getUncleCountByBlockHash h) = Some (giving R_count (fe_getUncleCountByBlockHash env h))"
| "serve env (Rpc_getBlockTransactionCountByNumber tag) =
     Some (giving R_count (fe_getBlockTransactionCountByNumber env tag))"
| "serve env (Rpc_getBlockTransactionCountByHash h) =
     Some (giving R_count (fe_getBlockTransactionCountByHash env h))"
| "serve env (Rpc_getTransactionByBlockNumberAndIndex tag i) =
     Some (giving (R_transaction \<circ> Some) (fe_getTransactionByBlockNumberAndIndex env tag i))"
| "serve env (Rpc_getTransactionByBlockHashAndIndex h i) =
     Some (giving (R_transaction \<circ> Some) (fe_getTransactionByBlockHashAndIndex env h i))"
| "serve env (Rpc_call tx tag opt) = None"
| "serve env (Rpc_createAccessList tx tag opt) = None"
| "serve env (Rpc_estimateGas tx tag opt) = None"
| "serve env (Rpc_getTransactionByHash h) = Some (giving R_transaction (fe_getTransactionByHash env h))"
| "serve env (Rpc_getBlockReceipts tag) = Some (giving R_receipts (fe_getBlockReceipts env tag))"
| "serve env (Rpc_getTransactionReceipt h) = Some (giving R_receipt (fe_getTransactionReceipt env h))"
| "serve env (Rpc_getLogs fo) = Some (giving R_logs (fe_getLogs env fo))"
| "serve env (Rpc_newFilter fo) = Some (giving R_filter (fe_newFilter env fo))"
| "serve env (Rpc_uninstallFilter name) = Some (giving R_bool (fe_uninstallFilter env name))"
| "serve env (Rpc_getFilterLogs name) = Some (giving R_logs (fe_getFilterLogs env name))"
| "serve env (Rpc_getFilterChanges name) = Some (giving R_logs (fe_getFilterChanges env name))"
| "serve env Rpc_blobBaseFee = Some (giving R_word (fe_blobBaseFee env))"
| "serve env Rpc_gasPrice = Some (giving R_quantity (fe_gasPrice env))"
| "serve env Rpc_maxPriorityFeePerGas = Some (giving R_quantity (fe_maxPriorityFeePerGas env))"
| "serve env (Rpc_feeHistory n tag percentiles) = None"
| "serve env (Rpc_sendRawTransaction bytes) = Some (giving R_hash (fe_sendRawTransaction env bytes))"

section \<open>Every method keeps the invariant\<close>

definition keeps :: "'b env \<Rightarrow> truth \<Rightarrow> ('b, 'a) engine_proc \<Rightarrow> bool" where
  "keeps env w m \<longleftrightarrow> yields (engine_ok env w) m (\<lambda>_. True)"

named_theorems keeps_rules \<comment> \<open>introduction rules for \<open>keeps\<close>\<close>


lemma keeps_structure [keeps_rules]:
  "keeps env w (ret x)" "keeps env w (fail err)" "keeps env w defect" "keeps env w (gets f)"
  "keeps env w (engine_fail t msg)" "keeps env w (backend_fail t msg idx)" "keeps env w no_filter"
  "keeps env w (requireSynced env)"
  "keeps env w m \<Longrightarrow> (\<And>x. keeps env w (g x)) \<Longrightarrow> keeps env w (andThen m g)"
  "(b \<Longrightarrow> keeps env w m) \<Longrightarrow> (\<not> b \<Longrightarrow> keeps env w n) \<Longrightarrow> keeps env w (if b then m else n)"
  "keeps env w m \<Longrightarrow> keeps env w (penaltyOr m)" "keeps env w m \<Longrightarrow> keeps env w (giving C m)"
  "out \<noteq> Stuck \<Longrightarrow> keeps env w (ofOutcome out)"
  unfolding keeps_def giving_def no_filter_def
  by (auto intro!: yields_basic yields_engine yields_gets yields_if yields_requireSynced yields_ofOutcome
      intro: yields_bind yields_penaltyOr)

lemma keeps_cases [keeps_rules]:
  "(x = None \<Longrightarrow> keeps env w n) \<Longrightarrow> (\<And>y. x = Some y \<Longrightarrow> keeps env w (f y)) \<Longrightarrow>
   keeps env w (case x of None \<Rightarrow> n | Some y \<Rightarrow> f y)"
  "(\<And>a b. keeps env w (h a b)) \<Longrightarrow> keeps env w (case p of (a, b) \<Rightarrow> h a b)"
  "keeps env w n \<Longrightarrow> (\<And>y ys. keeps env w (k y ys)) \<Longrightarrow> keeps env w (case xs of [] \<Rightarrow> n | y # ys \<Rightarrow> k y ys)"
  "(\<And>hh. keeps env w (th hh)) \<Longrightarrow> (\<And>tx. keeps env w (tt tx)) \<Longrightarrow>
   keeps env w (case t of TohHash hh \<Rightarrow> th hh | TohTx tx \<Rightarrow> tt tx)"
  by (auto split: option.split prod.split list.split tx_or_hash.split)


lemma checkTxHash_not_Stuck [simp]: "checkTxHash env tx h \<noteq> Stuck"
  by (simp add: checkTxHash_def bind_outcome_Stuck)







section \<open>Properties\<close>



text \<open>
  C20: from text to truth. A client that calls \<open>eth_getBalance\<close> by name, with an address and a block
  tag that decode, has the dispatcher start one call; if serving it returns, it returns the
  balance of that address in the state of a header of the light client's chain that answers
  the tag.
\<close>

theorem balance_by_text_is_true:
  assumes "sound env w" and "engine_ok env w e"
    and "parseJson d params = Inr (JArray [JString a, JString t])"
    and "unpack_Address d a = Inr addr" and "unpack_BlockTag t = Inr tag" and "canonical tag"
  shows "\<exists>call m. proxyCall d ''eth_getBalance'' params = Start (Frontend_call Eth call) \<and>
    serve env call = Some m \<and> fst (m e) \<notin> {Stuck, Defect} \<and>
    (\<forall>r. fst (m e) = Done r \<longrightarrow>
      (\<exists>hdr. answers env w None tag hdr \<and> hdr \<in> trusted w Optimistic \<and>
         r = R_word (acc_balance (account_at w (stateRoot hdr) addr))))"
proof (intro exI conjI)
  show "proxyCall d ''eth_getBalance'' params = Start (Frontend_call Eth (Rpc_getBalance addr tag))"
    using assms(3-5) by (simp add: proxyCall_def dispatch_def getElems_def getStr_def eth_getBalance_def
        requireParams_def unpacked_def)
  show "serve env (Rpc_getBalance addr tag) = Some (giving R_word (fe_getBalance env addr tag))" by simp
  note r = getBalance_reports [OF assms(1,2), of tag addr]
  from r show "fst (giving R_word (fe_getBalance env addr tag) e) \<notin> {Stuck, Defect}"
    by (cases "fe_getBalance env addr tag e"; cases "fst (fe_getBalance env addr tag e)")
      (auto simp: giving_def andThen_def ret_def reports_def)
  show "\<forall>r. fst (giving R_word (fe_getBalance env addr tag) e) = Done r \<longrightarrow>
      (\<exists>hdr. answers env w None tag hdr \<and> hdr \<in> trusted w Optimistic \<and>
         r = R_word (acc_balance (account_at w (stateRoot hdr) addr)))"
    using r assms(6)
    by (cases "fe_getBalance env addr tag e"; cases "fst (fe_getBalance env addr tag e)")
      (auto simp: giving_def andThen_def ret_def reports_def dest: answers_unpinned)
qed

definition demo_decoders :: "(string, filter_options, string) decoders" where
  "demo_decoders =
     \<lparr>address_fromHex = (\<lambda>_. Inr 17), uint256_fromHex = (\<lambda>_. Inl ''no''),
      hash32_fromHex = (\<lambda>_. Inl ''no''), transactionArgs_decode = Inr, filterOptions_decode = (\<lambda>_. Inl ''no''),
      percentiles_decode = Inr, quantity_decode = (\<lambda>s. Inr (of_nat (length s))), hexToSeqByte = (\<lambda>_. Inr []),
      parseJson = (\<lambda>s. Inr (JArray [JString s, JString ''0x8''])),
      json_text = (\<lambda>n. case n of JString s \<Rightarrow> s | _ \<Rightarrow> [])\<rparr>"

theorem balance_by_text_is_true_witness:
  "\<exists>call m. proxyCall demo_decoders ''eth_getBalance'' ''0x11'' = Start (Frontend_call Eth call) \<and>
     serve chain_env call = Some m \<and> fst (m state_engine) \<notin> {Stuck, Defect}"
proof -
  have "parseJson demo_decoders ''0x11'' = Inr (JArray [JString ''0x11'', JString ''0x8''])"
      "unpack_Address demo_decoders ''0x11'' = Inr 17"
      "unpack_BlockTag ''0x8'' = Inr (BidNumber 8)"
    by (simp_all add: demo_decoders_def unpack_Address_def orMessage_def unpack_BlockTag_def fromHex_u64_def hex_body_def
        hex_digit_def)
  from balance_by_text_is_true [OF sound_chain engine_ok_state this] show ?thesis by fastforce
qed

end
