(* ===== verification/Stateless_Witness.thy ===== *)
theory Stateless_Witness
  imports Stateless_Types "HOL-Library.List_Lexorder" "HOL-Library.Multiset"
begin

text \<open>
  Witnesses: how a block's accesses to the state are recorded (\<open>db/ledger.nim\<close>), how a witness is
  built from the record (\<open>stateless/witness_generation.nim\<close>) and turned into the form the guest
  takes (\<open>toExecutionWitness\<close> of \<open>stateless/stateless_execution.nim\<close>), and how a witness is
  checked (\<open>stateless/witness_verification.nim\<close>).

  The state database answers as functions of an argument \<open>pre_state\<close>. The order in which a Nim
  \<open>Table\<close> is iterated is one of these functions.
\<close>

section \<open>The record of accesses\<close>

text \<open>
  \<open>WitnessTable\<close>: the keys in the order of their first insertion, each with the flag whether the
  account's code was touched.
\<close>

type_synonym witness_key = "address \<times> u256 option"
type_synonym witness_table = "(witness_key \<times> bool) list"

text \<open>An ordered table: an existing key keeps its place.\<close>

fun table_put :: "'k \<Rightarrow> 'v \<Rightarrow> ('k \<times> 'v) list \<Rightarrow> ('k \<times> 'v) list" where
  "table_put k v [] = [(k, v)]"
| "table_put k v ((k', v') # t) = (if k' = k then (k, v) # t else (k', v') # table_put k v t)"

definition record_absent :: "witness_key \<Rightarrow> witness_table \<Rightarrow> witness_table" where
  "record_absent k t = (if map_of t k \<noteq> None then t else table_put k False t)"

text \<open>
  The accesses, as \<open>getAccount\<close>, \<open>recordCodeRead\<close>, \<open>getOriginalCode\<close> and the storage procedures
  record them. A code deployed in the same block is not recorded (\<open>deployed\<close>).
\<close>

datatype access =
    GetAccount address
  | ReadCode address bool
  | GetOriginalCode address
  | AccessStorage address u256

fun record_access :: "access \<Rightarrow> witness_table \<Rightarrow> witness_table" where
  "record_access (GetAccount a) t = record_absent (a, None) t"
| "record_access (ReadCode a deployed) t =
     (let t = record_absent (a, None) t in if deployed then t else table_put (a, None) True t)"
| "record_access (GetOriginalCode a) t = record_absent (a, None) (table_put (a, None) True t)"
| "record_access (AccessStorage a slot) t = record_absent (a, Some slot) (record_absent (a, None) t)"

definition witnessKeys :: "access list \<Rightarrow> witness_table" where
  "witnessKeys accesses = fold record_access accesses []"

section \<open>Building\<close>

type_synonym proof_paths = "(hash32 \<times> hash32 list) list"

record pre_state =
  ps_getCodeHash :: "address \<Rightarrow> hash32"
  ps_multiProof :: "proof_paths \<Rightarrow> byte list list option"
  ps_emptyCodeHash :: hash32
  ps_iterate :: "proof_paths \<Rightarrow> proof_paths"
  ps_getCodeByHash :: "hash32 \<Rightarrow> byte list option"
  ps_getBlockHeader :: "hash32 \<Rightarrow> header option"
  ps_getBlockHash :: "u64 \<Rightarrow> hash32"

record builder =
  proofPaths :: proof_paths
  addedCodeHashes :: "hash32 list"
  accPreimages :: "hash32 \<rightharpoonup> byte list"
  stoPreimages :: "hash32 \<rightharpoonup> byte list"

definition path_touch :: "hash32 \<Rightarrow> proof_paths \<Rightarrow> proof_paths" where
  "path_touch p ps = (if map_of ps p \<noteq> None then ps else ps @ [(p, [])])"

definition path_add :: "hash32 \<Rightarrow> hash32 \<Rightarrow> proof_paths \<Rightarrow> proof_paths" where
  "path_add p s ps =
     (case map_of ps p of
        None \<Rightarrow> ps @ [(p, [s])]
      | Some ss \<Rightarrow> map (\<lambda>(q, qs). if q = p then (q, qs @ [s]) else (q, qs)) ps)"

text \<open>One iteration of the loop over the witness keys; code hashes are added to the witness in order.\<close>

fun build_step :: "packages \<Rightarrow> pre_state \<Rightarrow> witness_key \<times> bool \<Rightarrow> builder \<Rightarrow> builder" where
  "build_step pk pre ((a, None), codeTouched) b =
     (let addressBytes = toBytesBE 20 a;
          accPath = keccak pk addressBytes;
          b = b\<lparr>accPreimages := (accPreimages b)(accPath \<mapsto> addressBytes),
                proofPaths := path_touch accPath (proofPaths b)\<rparr>;
          codeHash = ps_getCodeHash pre a
      in if codeTouched \<and> codeHash \<noteq> ps_emptyCodeHash pre \<and> codeHash \<notin> set (addedCodeHashes b)
         then b\<lparr>addedCodeHashes := addedCodeHashes b @ [codeHash]\<rparr> else b)"
| "build_step pk pre ((a, Some slot), codeTouched) b =
     (let addressBytes = toBytesBE 20 a;
          accPath = keccak pk addressBytes;
          slotBytes = toBytesBE 32 slot;
          slotPath = keccak pk slotBytes
      in b\<lparr>accPreimages := (accPreimages b)(accPath \<mapsto> addressBytes),
           stoPreimages := (stoPreimages b)(slotPath \<mapsto> slotBytes),
           proofPaths := path_add accPath slotPath (proofPaths b)\<rparr>)"

definition empty_builder :: builder where
  "empty_builder = \<lparr>proofPaths = [], addedCodeHashes = [], accPreimages = Map.empty, stoPreimages = Map.empty\<rparr>"

definition run_builder :: "packages \<Rightarrow> pre_state \<Rightarrow> witness_table \<Rightarrow> builder" where
  "run_builder pk pre keys = fold (build_step pk pre) keys empty_builder"

definition getOrDefault :: "(hash32 \<rightharpoonup> byte list) \<Rightarrow> nat \<Rightarrow> hash32 \<Rightarrow> byte list" where
  "getOrDefault m n h = (case m h of None \<Rightarrow> replicate n 0 | Some bytes \<Rightarrow> bytes)"

text \<open>The keys of the witness: every address is followed by its slots.\<close>

definition witness_keys_of :: "pre_state \<Rightarrow> builder \<Rightarrow> byte list list" where
  "witness_keys_of pre b =
     concat (map (\<lambda>(accPath, stoPaths).
         getOrDefault (accPreimages b) 20 accPath # map (getOrDefault (stoPreimages b) 32) stoPaths)
       (ps_iterate pre (proofPaths b)))"

text \<open>The paths of branches collapsed by deletions join the proof, not the keys.\<close>

fun add_sibling :: "hash32 \<times> hash32 option \<Rightarrow> proof_paths \<Rightarrow> proof_paths" where
  "add_sibling (sibAccPath, None) ps = path_touch sibAccPath ps"
| "add_sibling (sibAccPath, Some sibStoPath) ps = path_add sibAccPath sibStoPath ps"

definition build_state ::
    "packages \<Rightarrow> pre_state \<Rightarrow> witness_table \<Rightarrow> (hash32 \<times> hash32 option) list \<Rightarrow> (string, witness) outcome" where
  "build_state pk pre keys collapsedSiblings =
     (let b = run_builder pk pre keys;
          paths = fold add_sibling collapsedSiblings (proofPaths b)
      in case ps_multiProof pre paths of
           None \<Rightarrow> Defect
         | Some nodes \<Rightarrow> Done
             \<lparr>wit_state = sort nodes, wit_codeHashes = addedCodeHashes b,
              wit_keys = witness_keys_of pre b, wit_headerHashes = []\<rparr>)"

definition getEarliestCachedBlockNumber :: "u64 list \<Rightarrow> u64 option" where
  "getEarliestCachedBlockNumber blockHashes =
     (if length blockHashes = 0 then None
      else Some (foldl (\<lambda>earliest n. if n < earliest then n else earliest) (- 1) blockHashes))"

lemma unat_next:
  fixes n p :: "'a::len word"
  assumes "n < p"
  shows "unat (n + 1) = unat n + 1"
proof -
  have "unat n + 1 \<le> unat p" using assms by (simp add: word_less_nat_alt)
  moreover have "unat p < 2 ^ LENGTH('a)" by simp
  ultimately have "unat n + 1 < 2 ^ LENGTH('a)" by (rule le_less_trans)
  then show ?thesis by (simp add: unat_word_ariths)
qed

text \<open>The hashes of the headers from \<open>n\<close> up to \<open>parent - 1\<close>; a missing one is a failed assertion.\<close>

function header_hashes :: "pre_state \<Rightarrow> u64 \<Rightarrow> u64 \<Rightarrow> (string, hash32 list) outcome" where
  "header_hashes pre n parentNumber =
     (if n < parentNumber then
        let blockHash = ps_getBlockHash pre n in
        if blockHash = 0 then Defect
        else bind_outcome (header_hashes pre (n + 1) parentNumber) (\<lambda>hs. Done (blockHash # hs))
      else Done [])"
  by pat_completeness auto
termination
proof (relation "measure (\<lambda>(_, n, p). unat p - unat n)")
  fix pre :: pre_state and n p :: u64 and blockHash
  assume "n < p"
  with unat_next [OF this] show "((pre, n + 1, p), pre, n, p) \<in> measure (\<lambda>(_, n, p). unat p - unat n)"
    by (simp add: word_less_nat_alt)
qed simp

declare header_hashes.simps [simp del]

text \<open>
  \<open>Witness.build\<close> of a block. \<open>validateStateRoot\<close>, off by default, compares the state root of the
  ledger, here an argument.
\<close>

definition build_witness ::
    "packages \<Rightarrow> pre_state \<Rightarrow> hash32 \<Rightarrow> witness_table \<Rightarrow> (hash32 \<times> hash32 option) list \<Rightarrow> u64 list \<Rightarrow>
     header \<Rightarrow> header \<Rightarrow> bool \<Rightarrow> (string, witness) outcome" where
  "build_witness pk pre ledgerRoot keys collapsedSiblings blockHashes parent hdr validateStateRoot =
     (if validateStateRoot \<and> 0 < number parent \<and> ledgerRoot \<noteq> stateRoot parent then Defect
      else bind_outcome (build_state pk pre keys collapsedSiblings) (\<lambda>w.
        bind_outcome
          (case getEarliestCachedBlockNumber blockHashes of
             None \<Rightarrow> Done []
           | Some n \<Rightarrow> header_hashes pre n (number parent)) (\<lambda>hs.
        Done (w\<lparr>wit_headerHashes := hs @ [parentHash hdr]\<rparr>))))"

fun mapM :: "('a \<Rightarrow> 'b option) \<Rightarrow> 'a list \<Rightarrow> 'b list option" where
  "mapM f [] = Some []"
| "mapM f (x # xs) =
     (case f x of None \<Rightarrow> None
      | Some y \<Rightarrow> (case mapM f xs of None \<Rightarrow> None | Some ys \<Rightarrow> Some (y # ys)))"

text \<open>\<open>ExecutionWitnessWithKeys.build\<close>: code and headers by their hashes, or an assertion fails.\<close>

definition build_with_keys :: "packages \<Rightarrow> pre_state \<Rightarrow> witness \<Rightarrow> (string, witness_with_keys) outcome" where
  "build_with_keys pk pre w =
     (case mapM (ps_getCodeByHash pre) (wit_codeHashes w) of
        None \<Rightarrow> Defect
      | Some codes \<Rightarrow>
         (case mapM (ps_getBlockHeader pre) (wit_headerHashes w) of
            None \<Rightarrow> Defect
          | Some hdrs \<Rightarrow> Done
              \<lparr>wk_state = wit_state w, wk_codes = sort codes, wk_keys = wit_keys w,
               wk_headers = map (rlp_encode_header pk) hdrs\<rparr>))"

text \<open>The result of \<open>List.add\<close> is discarded: a header too many is dropped silently.\<close>

definition toExecutionWitness :: "packages \<Rightarrow> witness_with_keys \<Rightarrow> execution_witness" where
  "toExecutionWitness pk w =
     \<lparr>ew_state = wk_state w, ew_codes = wk_codes w,
      ew_headers = foldl (ssz_list_add pk MAX_WITNESS_HEADERS) [] (wk_headers w)\<rparr>"

section \<open>Checking\<close>

definition isAddress :: "byte list \<Rightarrow> bool" where
  "isAddress bytes \<longleftrightarrow> length bytes = 20"

definition isSlot :: "byte list \<Rightarrow> bool" where
  "isSlot bytes \<longleftrightarrow> length bytes = 32"

type_synonym keys_table = "(address \<times> u256 list) list"

text \<open>Sets of slots are lists without duplicates; a slot belongs to the last address before it.\<close>

definition incl_slot :: "address \<Rightarrow> u256 \<Rightarrow> keys_table \<Rightarrow> keys_table" where
  "incl_slot a slot t =
     (case map_of t a of
        None \<Rightarrow> table_put a [slot] t
      | Some v \<Rightarrow> table_put a (List.insert slot v) t)"

fun putAll :: "address \<Rightarrow> byte list list \<Rightarrow> keys_table \<Rightarrow> string + keys_table" where
  "putAll currentAddress [] t = Inr t"
| "putAll currentAddress (key # rest) t =
     (if isAddress key then
        let a = fromBytesBE key
        in putAll a rest (if map_of t a \<noteq> None then t else table_put a [] t)
      else if isSlot key then putAll currentAddress rest (incl_slot currentAddress (fromBytesBE key) t)
      else Inl ''malformed key length'')"

fun check_expected :: "keys_table \<Rightarrow> witness_table \<Rightarrow> string + unit" where
  "check_expected t [] = Inr ()"
| "check_expected t (((a, slot), _) # rest) =
     (case map_of t a of
        None \<Rightarrow> Inl ''expected address missing from witness keys''
      | Some v \<Rightarrow>
          (case slot of
             Some s \<Rightarrow> if s \<notin> set v then Inl ''expected slot missing from witness keys''
                       else check_expected t rest
           | None \<Rightarrow> check_expected t rest))"

definition validateKeys :: "witness \<Rightarrow> witness_table \<Rightarrow> string + unit" where
  "validateKeys w expectedKeys =
     (if length expectedKeys \<noteq> length (wit_keys w)
      then Inl ''expectedKeys.len() should match witness.keys.len()''
      else if length (wit_keys w) = 0 then Inl ''witness.keys.len() == 0''
      else if \<not> isAddress (wit_keys w ! 0) then Inl ''first key should be an address''
      else case putAll 0 (wit_keys w) [] of
             Inl e \<Rightarrow> Inl e
           | Inr t \<Rightarrow> check_expected t expectedKeys)"

record verified_headers =
  vh_headers :: "header list"
  vh_hashes :: "hash32 list"

fun decode_headers :: "packages \<Rightarrow> byte list list \<Rightarrow> string + header list" where
  "decode_headers pk [] = Inr []"
| "decode_headers pk (h # hs) =
     (case rlp_decode_header pk h of
        Inl e \<Rightarrow> Inl (''Failed to decode header in witness: '' @ e)
      | Inr hdr \<Rightarrow>
         (case decode_headers pk hs of Inl e \<Rightarrow> Inl e | Inr hdrs \<Rightarrow> Inr (hdr # hdrs)))"

definition contiguous :: "header list \<Rightarrow> hash32 list \<Rightarrow> bool" where
  "contiguous headers hashes \<longleftrightarrow> list_all (\<lambda>i. parentHash (headers ! i) = hashes ! (i - 1)) [1..<length headers]"

definition verifyHeaders :: "packages \<Rightarrow> execution_witness \<Rightarrow> header \<Rightarrow> string + verified_headers" where
  "verifyHeaders pk w hdr =
     (if length (ew_headers w) < 1
      then Inl ''At least one header (the parent) is required in the witness''
      else if 256 < length (ew_headers w) then Inl ''Too many headers in witness''
      else case decode_headers pk (ew_headers w) of
             Inl e \<Rightarrow> Inl e
           | Inr headers \<Rightarrow>
               let hashes = map (keccak pk) (ew_headers w)
               in if \<not> contiguous headers hashes then Inl ''Witness headers are not contiguous''
                  else if last hashes \<noteq> parentHash hdr
                  then Inl ''Parent header is required in the witness''
                  else Inr \<lparr>vh_headers = headers, vh_hashes = hashes\<rparr>)"

text \<open>
  \<open>verifyState\<close>. \<open>prove\<close> is \<open>verifyProof\<close> of the trie code: an error, or the leaf under a path, or
  that there is none. The tables of keys are visited in the order \<open>visit\<close>.
\<close>

fun verify_slots ::
    "packages \<Rightarrow> (hash32 \<Rightarrow> hash32 \<Rightarrow> unit + byte list option) \<Rightarrow> hash32 \<Rightarrow> u256 list \<Rightarrow> string + unit" where
  "verify_slots pk prove storageRoot [] = Inr ()"
| "verify_slots pk prove storageRoot (slot # slots) =
     (case prove storageRoot (keccak pk (toBytesBE 32 slot)) of
        Inl _ \<Rightarrow> Inl ''Slot proof verification failed against pre-stateroot''
      | Inr _ \<Rightarrow> verify_slots pk prove storageRoot slots)"

fun verify_accounts ::
    "packages \<Rightarrow> (hash32 \<Rightarrow> hash32 \<Rightarrow> unit + byte list option) \<Rightarrow> hash32 \<Rightarrow> keys_table \<Rightarrow> hash32 list \<Rightarrow>
     string + hash32 list" where
  "verify_accounts pk prove preStateRoot [] codeHashes = Inr codeHashes"
| "verify_accounts pk prove preStateRoot ((a, slots) # rest) codeHashes =
     (case prove preStateRoot (keccak pk (toBytesBE 20 a)) of
        Inl _ \<Rightarrow> Inl ''Account proof verification failed against pre-stateroot''
      | Inr None \<Rightarrow> verify_accounts pk prove preStateRoot rest codeHashes
      | Inr (Some accLeaf) \<Rightarrow>
         (case rlp_decode_account pk accLeaf of
            Inl e \<Rightarrow> Inl (''Failed to decode account leaf from witness state: '' @ e)
          | Inr acc \<Rightarrow>
             (case (if acc_storageRoot acc \<noteq> empty_trie_root pk
                    then verify_slots pk prove (acc_storageRoot acc) slots else Inr ()) of
                Inl e \<Rightarrow> Inl e
              | Inr _ \<Rightarrow> verify_accounts pk prove preStateRoot rest (List.insert (acc_codeHash acc) codeHashes))))"

definition node_table :: "packages \<Rightarrow> byte list list \<Rightarrow> hash32 \<rightharpoonup> byte list" where
  "node_table pk nodes = foldl (\<lambda>t node. t(keccak pk node \<mapsto> node)) Map.empty nodes"

definition verifyState ::
    "packages \<Rightarrow> ((hash32 \<rightharpoonup> byte list) \<Rightarrow> hash32 \<Rightarrow> hash32 \<Rightarrow> unit + byte list option) \<Rightarrow>
     (keys_table \<Rightarrow> keys_table) \<Rightarrow> witness_with_keys \<Rightarrow> hash32 \<Rightarrow> string + unit" where
  "verifyState pk verifyProof visit w preStateRoot =
     (if preStateRoot = empty_trie_root pk then Inr ()
      else case putAll 0 (wk_keys w) [] of
             Inl e \<Rightarrow> Inl e
           | Inr keysTable \<Rightarrow>
              (case verify_accounts pk (verifyProof (node_table pk (wk_state w))) preStateRoot (visit keysTable) [] of
                 Inl e \<Rightarrow> Inl e
               | Inr codeHashes \<Rightarrow>
                   if list_all (\<lambda>code. keccak pk code \<in> set codeHashes) (wk_codes w) then Inr ()
                   else Inl ''Hash of code not found in witness state''))"

section \<open>Header chains\<close>

lemma decode_headers_ok:
  "decode_headers pk hs = Inr hdrs \<longleftrightarrow> list_all2 (\<lambda>h hdr. rlp_decode_header pk h = Inr hdr) hs hdrs"
proof (induction hs arbitrary: hdrs)
  case (Cons h hs)
  show ?case
  proof (cases "decode_headers pk hs")
    case (Inl e)
    with Cons show ?thesis by (auto simp: list_all2_Cons1 split: sum.split)
  next
    case (Inr ds)
    then have "list_all2 (\<lambda>h hdr. rlp_decode_header pk h = Inr hdr) hs zs \<longleftrightarrow> zs = ds" for zs
      using Cons by (metis sum.inject(2))
    with Inr show ?thesis by (auto simp: list_all2_Cons1 split: sum.split)
  qed
qed auto

lemma contiguous_iff:
  "contiguous headers hashes \<longleftrightarrow> (\<forall>i. Suc i < length headers \<longrightarrow> parentHash (headers ! Suc i) = hashes ! i)"
proof
  assume c: "contiguous headers hashes"
  show "\<forall>i. Suc i < length headers \<longrightarrow> parentHash (headers ! Suc i) = hashes ! i"
  proof (intro allI impI)
    fix i assume "Suc i < length headers"
    then have "Suc i \<in> set [1..<length headers]" by simp
    with c show "parentHash (headers ! Suc i) = hashes ! i"
      unfolding contiguous_def list_all_iff by (metis diff_Suc_1)
  qed
next
  assume all: "\<forall>i. Suc i < length headers \<longrightarrow> parentHash (headers ! Suc i) = hashes ! i"
  have "parentHash (headers ! i) = hashes ! (i - 1)" if "i \<in> set [1..<length headers]" for i
  proof -
    have "0 < i" "i < length headers" using that by (auto simp only: set_upt atLeastLessThan_iff)
    with all show ?thesis by (cases i) simp_all
  qed
  then show "contiguous headers hashes" by (simp add: contiguous_def list_all_iff)
qed

lemma verifyHeaders_ok:
  "verifyHeaders pk w hdr = Inr v \<longleftrightarrow>
     ew_headers w \<noteq> [] \<and> length (ew_headers w) \<le> 256 \<and>
     list_all2 (\<lambda>h d. rlp_decode_header pk h = Inr d) (ew_headers w) (vh_headers v) \<and>
     vh_hashes v = map (keccak pk) (ew_headers w) \<and> contiguous (vh_headers v) (vh_hashes v) \<and>
     last (vh_hashes v) = parentHash hdr"
proof (cases "decode_headers pk (ew_headers w)")
  case (Inl e)
  then have "\<not> list_all2 (\<lambda>h d. rlp_decode_header pk h = Inr d) (ew_headers w) (vh_headers v)"
    using decode_headers_ok by (metis sum.distinct(1))
  with Inl show ?thesis by (simp add: verifyHeaders_def)
next
  case (Inr hdrs)
  then have "list_all2 (\<lambda>h d. rlp_decode_header pk h = Inr d) (ew_headers w) (vh_headers v) \<longleftrightarrow> vh_headers v = hdrs"
    using decode_headers_ok by (metis sum.inject(2))
  with Inr show ?thesis
    by (cases v) (auto simp: verifyHeaders_def Let_def Suc_le_eq not_less)
qed

text \<open>
  Two accepted lists of headers agree, counted from the parent backwards, if Keccak does not
  collide on them.
\<close>

lemma verified_same_from_end:
  assumes "verifyHeaders pk w hdr = Inr v" and "verifyHeaders pk w' hdr = Inr v'"
    and "inj_on (keccak pk) (set (ew_headers w) \<union> set (ew_headers w'))"
    and "k < length (ew_headers w)" and "k < length (ew_headers w')"
  shows "rev (ew_headers w) ! k = rev (ew_headers w') ! k"
  using assms(4,5)
proof (induction k)
  case 0
  have "keccak pk (last (ew_headers w)) = keccak pk (last (ew_headers w'))"
    using assms(1,2) by (auto simp: verifyHeaders_ok last_map)
  with assms(3) 0 have "last (ew_headers w) = last (ew_headers w')"
    by (auto dest!: inj_onD)
  with 0 show ?case by (simp add: rev_nth last_conv_nth)
next
  case (Suc k)
  let ?bytes = "rev (ew_headers w) ! k" and ?i = "length (ew_headers w) - Suc (Suc k)"
  let ?i' = "length (ew_headers w') - Suc (Suc k)"
  have at: "keccak pk (ew_headers u ! i) = parentHash d"
    if "verifyHeaders pk u hdr = Inr x" "Suc i < length (ew_headers u)"
      "rlp_decode_header pk (ew_headers u ! Suc i) = Inr d" for u x i d
    using that by (auto simp: verifyHeaders_ok contiguous_iff list_all2_conv_all_nth)
  have dec: "\<exists>d. rlp_decode_header pk (ew_headers u ! i) = Inr d"
    if "verifyHeaders pk u hdr = Inr x" "i < length (ew_headers u)" for u x i
    using that by (auto simp: verifyHeaders_ok list_all2_conv_all_nth)
  have less: "Suc ?i < length (ew_headers w)" "Suc ?i' < length (ew_headers w')"
    using Suc.prems by linarith+
  have b: "?bytes = ew_headers w ! Suc ?i" "?bytes = ew_headers w' ! Suc ?i'"
    using Suc by (simp_all add: rev_nth Suc_diff_Suc)
  obtain d where d: "rlp_decode_header pk ?bytes = Inr d"
    using dec [OF assms(1) less(1)] b(1) by auto
  have "keccak pk (ew_headers w ! ?i) = keccak pk (ew_headers w' ! ?i')"
    using at [OF assms(1) less(1)] at [OF assms(2) less(2)] d b by simp
  then have "ew_headers w ! ?i = ew_headers w' ! ?i'"
    using Suc.prems by (intro inj_onD [OF assms(3)]) auto
  with Suc.prems show ?case by (simp add: rev_nth)
qed

lemma nth_equal_drop:
  assumes "length xs \<le> length ys" and "\<And>k. k < length xs \<Longrightarrow> rev xs ! k = rev ys ! k"
  shows "xs = drop (length ys - length xs) ys"
proof -
  have "rev xs = take (length xs) (rev ys)"
    using assms by (intro nth_equalityI) simp_all
  then show ?thesis by (metis drop_rev rev_rev_ident length_rev rev_swap take_rev)
qed

section \<open>The headers of a built witness\<close>

lemma header_hashes_run:
  assumes "unat n + m = unat p" and "\<And>i. i < m \<Longrightarrow> ps_getBlockHash pre (n + of_nat i) = f i \<and> f i \<noteq> 0"
  shows "header_hashes pre n p = Done (map f [0..<m])"
  using assms
proof (induction m arbitrary: n f)
  case 0
  then have "n = p" by (simp add: word_unat_eq_iff)
  then show ?case by (simp add: header_hashes.simps)
next
  case (Suc m)
  then have less: "n < p" by (simp add: word_less_nat_alt)
  have "header_hashes pre (n + 1) p = Done (map (f \<circ> Suc) [0..<m])"
    using Suc.prems(1) unat_next [OF less] Suc.prems(2) [of "Suc _"]
    by (intro Suc.IH) (simp_all add: add.assoc)
  moreover have "map f [0..<Suc m] = f 0 # map (f \<circ> Suc) [0..<m]"
    by (simp add: map_upt_Suc comp_def del: upt_Suc)
  ultimately show ?case
    using less Suc.prems(2) [of 0] by (simp add: header_hashes.simps)
qed

text \<open>
  The ancestors of a block, ending in its parent: the database has each of them by its hash, and
  all but the last by number; each is the parent of the next; RLP is read back.
\<close>

definition ancestors :: "packages \<Rightarrow> pre_state \<Rightarrow> header \<Rightarrow> header \<Rightarrow> header list \<Rightarrow> bool" where
  "ancestors pk pre parent hdr hs \<longleftrightarrow>
     hs \<noteq> [] \<and> last hs = parent \<and> parentHash hdr = header_hash pk parent \<and>
     list_all (\<lambda>h. ps_getBlockHeader pre (header_hash pk h) = Some h \<and>
       header_hash pk h = keccak pk (rlp_encode_header pk h) \<and> header_hash pk h \<noteq> 0 \<and>
       rlp_decode_header pk (rlp_encode_header pk h) = Inr h) hs \<and>
     contiguous hs (map (header_hash pk) hs) \<and>
     unat (number (hd hs)) + (length hs - 1) = unat (number parent) \<and>
     list_all (\<lambda>i. ps_getBlockHash pre (number (hd hs) + of_nat i) = header_hash pk (hs ! i)) [0..<length hs - 1]"

lemma ancestorsD:
  assumes "ancestors pk pre parent hdr hs" and "h \<in> set hs"
  shows "ps_getBlockHeader pre (header_hash pk h) = Some h" "header_hash pk h \<noteq> 0"
    "header_hash pk h = keccak pk (rlp_encode_header pk h)"
    "rlp_decode_header pk (rlp_encode_header pk h) = Inr h"
  using assms unfolding ancestors_def list_all_iff by blast+

definition honest_list_add :: "packages \<Rightarrow> bool" where
  "honest_list_add pk \<longleftrightarrow>
     (\<forall>limit xs x. ssz_list_add pk limit xs x = (if length xs < limit then xs @ [x] else xs))"

lemma foldl_list_add:
  assumes "honest_list_add pk"
  shows "foldl (ssz_list_add pk limit) xs ys = xs @ take (limit - length xs) ys"
  using assms
  by (induction ys arbitrary: xs)
    (auto simp: honest_list_add_def take_Cons' Suc_diff_Suc)

lemma mapM_map: "(\<And>x. x \<in> set xs \<Longrightarrow> f (g x) = Some x) \<Longrightarrow> mapM f (map g xs) = Some xs"
  by (induction xs) auto

lemma built_header_hashes:
  assumes "ancestors pk pre parent hdr hs"
    and "getEarliestCachedBlockNumber cached = Some (number (hd hs)) \<or> cached = [] \<and> length hs = 1"
    and "build_witness pk pre r keys sib cached parent hdr v = Done w"
  shows "wit_headerHashes w = map (header_hash pk) hs"
proof -
  let ?f = "\<lambda>i. header_hash pk (hs ! i)" and ?m = "length hs - 1"
  have hs: "hs \<noteq> []" "last hs = parent" "parentHash hdr = header_hash pk parent"
    using assms(1) by (auto simp: ancestors_def)
  have "header_hashes pre (number (hd hs)) (number parent) = Done (map ?f [0..<?m])"
  proof (rule header_hashes_run)
    show "unat (number (hd hs)) + ?m = unat (number parent)" using assms(1) by (simp add: ancestors_def)
    show "ps_getBlockHash pre (number (hd hs) + of_nat i) = ?f i \<and> ?f i \<noteq> 0" if "i < ?m" for i
    proof
      show "ps_getBlockHash pre (number (hd hs) + of_nat i) = ?f i"
        using assms(1) that by (simp add: ancestors_def list_all_iff)
      have "hs ! i \<in> set hs" using that by (intro nth_mem) simp
      then show "?f i \<noteq> 0" by (rule ancestorsD(2) [OF assms(1)])
    qed
  qed
  then have "(case getEarliestCachedBlockNumber cached of None \<Rightarrow> Done []
      | Some n \<Rightarrow> header_hashes pre n (number parent)) = Done (map ?f [0..<?m])"
    using assms(2) by (auto simp: getEarliestCachedBlockNumber_def)
  then have "wit_headerHashes w = map ?f [0..<?m] @ [parentHash hdr]"
    using assms(3) by (auto simp: build_witness_def bind_outcome_Done split: if_splits)
  also have "\<dots> = map (header_hash pk) (map ((!) hs) [0..<?m] @ [last hs])"
    using hs by simp
  also have "map ((!) hs) [0..<?m] @ [last hs] = hs"
    using hs(1) by (metis append_butlast_last_id length_butlast map_nth nth_butlast map_cong atLeastLessThan_iff set_upt)
  finally show ?thesis .
qed

lemma built_headers_accepted:
  assumes "ancestors pk pre parent hdr hs" and "honest_list_add pk" and "length hs \<le> 256"
    and "getEarliestCachedBlockNumber cached = Some (number (hd hs)) \<or> cached = [] \<and> length hs = 1"
    and "build_witness pk pre r keys sib cached parent hdr v = Done w" and "build_with_keys pk pre w = Done wk"
  shows "verifyHeaders pk (toExecutionWitness pk wk) hdr = Inr \<lparr>vh_headers = hs, vh_hashes = map (header_hash pk) hs\<rparr>"
proof -
  have hs: "hs \<noteq> []" "last hs = parent" "parentHash hdr = header_hash pk parent" "contiguous hs (map (header_hash pk) hs)"
    using assms(1) by (auto simp: ancestors_def)
  have "mapM (ps_getBlockHeader pre) (wit_headerHashes w) = Some hs"
    unfolding built_header_hashes [OF assms(1,4,5)] by (rule mapM_map) (rule ancestorsD(1) [OF assms(1)])
  then have "wk_headers wk = map (rlp_encode_header pk) hs"
    using assms(6) by (auto simp: build_with_keys_def split: option.splits)
  then have ew: "ew_headers (toExecutionWitness pk wk) = map (rlp_encode_header pk) hs"
    using assms(3) by (simp add: toExecutionWitness_def foldl_list_add [OF assms(2)] MAX_WITNESS_HEADERS_def)
  have hashes: "map (header_hash pk) hs = map (keccak pk \<circ> rlp_encode_header pk) hs"
    using ancestorsD(3) [OF assms(1)] by simp
  have "list_all2 (\<lambda>h d. rlp_decode_header pk h = Inr d) (map (rlp_encode_header pk) hs) hs"
    using ancestorsD(4) [OF assms(1)] by (simp add: list_all2_conv_all_nth)
  with hs assms(3) show ?thesis
    unfolding verifyHeaders_ok ew by (simp add: last_map flip: hashes)
qed

section \<open>The keys of a built witness\<close>

lemma fst_table_put:
  "map fst (table_put k v t) = (if k \<in> fst ` set t then map fst t else map fst t @ [k])"
  by (induction k v t rule: table_put.induct) auto

lemma fst_record_absent:
  "map fst (record_absent k t) = (if k \<in> fst ` set t then map fst t else map fst t @ [k])"
  by (simp add: record_absent_def fst_table_put map_of_eq_None_iff)

definition keys_ok :: "witness_key list \<Rightarrow> bool" where
  "keys_ok ks \<longleftrightarrow> distinct ks \<and> (\<forall>a slot. (a, Some slot) \<in> set ks \<longrightarrow> (a, None) \<in> set ks)"

lemma keys_ok_snoc:
  "keys_ok ks \<Longrightarrow> k \<notin> set ks \<Longrightarrow> (\<And>a slot. k = (a, Some slot) \<Longrightarrow> (a, None) \<in> set ks) \<Longrightarrow> keys_ok (ks @ [k])"
  by (auto simp: keys_ok_def)

lemma keys_ok_put: "keys_ok (map fst t) \<Longrightarrow> keys_ok (map fst (table_put (a, None) v t))"
  unfolding fst_table_put by (auto intro: keys_ok_snoc)

lemma keys_ok_absent: "keys_ok (map fst t) \<Longrightarrow> keys_ok (map fst (record_absent (a, None) t))"
  unfolding fst_record_absent by (auto intro: keys_ok_snoc)

lemma keys_ok_record: "keys_ok (map fst t) \<Longrightarrow> keys_ok (map fst (record_access acc t))"
proof (cases acc)
  case (AccessStorage a slot)
  assume "keys_ok (map fst t)"
  then have ok: "keys_ok (map fst (record_absent (a, None) t))" by (rule keys_ok_absent)
  have none: "(a, None) \<in> set (map fst (record_absent (a, None) t))" by (simp only: fst_record_absent) auto
  show ?thesis
  proof (cases "(a, Some slot) \<in> fst ` set (record_absent (a, None) t)")
    case True
    with ok show ?thesis by (simp only: AccessStorage record_access.simps fst_record_absent [of "(a, Some slot)"] if_True)
  next
    case False
    then have "(a, Some slot) \<notin> set (map fst (record_absent (a, None) t))" by simp
    from keys_ok_snoc [OF ok this] none False show ?thesis
      by (simp only: AccessStorage record_access.simps fst_record_absent [of "(a, Some slot)"] if_False) blast
  qed
qed (simp_all add: Let_def keys_ok_absent keys_ok_put)

lemma witnessKeys_ok: "keys_ok (map fst (witnessKeys accs))"
proof -
  have "keys_ok (map fst (fold record_access accs t))" if "keys_ok (map fst t)" for t
    using that by (induction accs arbitrary: t) (auto intro: keys_ok_record)
  then show ?thesis by (simp add: witnessKeys_def keys_ok_def)
qed

lemma puts_nonempty: "table_put k v t \<noteq> []" "record_absent k t \<noteq> []"
proof -
  show put: "table_put k v t \<noteq> []" for k :: 'a and v :: 'b and t
    by (cases t) (auto split: if_splits)
  show "record_absent k t \<noteq> []" for k t by (cases t) (auto simp: record_absent_def put)
qed

lemma record_access_nonempty: "record_access acc t \<noteq> []"
  by (cases acc) (simp_all add: Let_def puts_nonempty)

lemma witnessKeys_empty: "witnessKeys accs = [] \<longleftrightarrow> accs = []"
proof (cases accs rule: rev_cases)
  case (snoc xs x)
  then show ?thesis by (simp add: witnessKeys_def record_access_nonempty)
qed (simp add: witnessKeys_def)

text \<open>What the loop over the keys collects: the slots of each address, hashed, in order.\<close>

fun slots_of :: "address \<Rightarrow> witness_key list \<Rightarrow> u256 list" where
  "slots_of a [] = []"
| "slots_of a ((b, None) # ks) = slots_of a ks"
| "slots_of a ((b, Some slot) # ks) = (if b = a then slot # slots_of a ks else slots_of a ks)"

lemma slots_of_append [simp]: "slots_of a (ks @ js) = slots_of a ks @ slots_of a js"
  by (induction a ks rule: slots_of.induct) auto

lemma slots_of_set: "slot \<in> set (slots_of a ks) \<longleftrightarrow> (a, Some slot) \<in> set ks"
  by (induction a ks rule: slots_of.induct) auto

definition addrs :: "witness_key list \<Rightarrow> address set" where
  "addrs ks = fst ` set ks"

lemma addrs_simps [simp]: "addrs [] = {}" "addrs (ks @ [(c, ms)]) = insert c (addrs ks)"
  by (simp_all add: addrs_def)

lemma addrs_I: "(a, ms) \<in> set ks \<Longrightarrow> a \<in> addrs ks"
  by (metis addrs_def fst_conv image_eqI)

definition key_bytes :: "witness_key list \<Rightarrow> byte list set" where
  "key_bytes ks = toBytesBE 20 ` addrs ks \<union> {toBytesBE 32 slot | a slot. (a, Some slot) \<in> set ks}"

lemma key_bytes_I:
  "a \<in> addrs ks \<Longrightarrow> toBytesBE 20 a \<in> key_bytes ks"
  "(a, Some slot) \<in> set ks \<Longrightarrow> toBytesBE 32 slot \<in> key_bytes ks"
  by (auto simp: key_bytes_def)

lemma key_bytes_mono: "set ks \<subseteq> set js \<Longrightarrow> key_bytes ks \<subseteq> key_bytes js"
  unfolding key_bytes_def addrs_def by (intro Un_mono image_mono) auto

lemma slots_of_fresh: "a \<notin> addrs ks \<Longrightarrow> slots_of a ks = []"
proof (rule ccontr)
  assume "a \<notin> addrs ks" "slots_of a ks \<noteq> []"
  then obtain slot where "slot \<in> set (slots_of a ks)" by (cases "slots_of a ks") auto
  then have "(a, Some slot) \<in> set ks" by (simp add: slots_of_set)
  then have "a \<in> addrs ks" by (rule addrs_I)
  with \<open>a \<notin> addrs ks\<close> show False by simp
qed

lemma map_of_path_touch: "map_of (path_touch p ps) q = (if q = p \<and> map_of ps p = None then Some [] else map_of ps q)"
  by (auto simp: path_touch_def map_add_def split: option.splits)

lemma map_of_map_add:
  "map_of (map (\<lambda>(q, qs). if q = p then (q, qs @ [s]) else (q, qs)) ps) q =
     (if q = p then map_option (\<lambda>qs. qs @ [s]) (map_of ps p) else map_of ps q)"
  by (induction ps) auto

lemma map_of_path_add:
  "map_of (path_add p s ps) q =
     (if q = p then Some ((case map_of ps p of None \<Rightarrow> [] | Some qs \<Rightarrow> qs) @ [s]) else map_of ps q)"
  by (auto simp: path_add_def map_of_map_add map_add_def split: option.splits)

lemma distinct_path_touch: "distinct (map fst ps) \<Longrightarrow> distinct (map fst (path_touch p ps))"
  by (auto simp: path_touch_def map_of_eq_None_iff)

lemma distinct_path_add: "distinct (map fst ps) \<Longrightarrow> distinct (map fst (path_add p s ps))"
proof (cases "map_of ps p")
  case (Some ss)
  assume "distinct (map fst ps)"
  moreover have "map fst (path_add p s ps) = map fst ps"
    using Some by (simp add: path_add_def comp_def case_prod_beta if_distrib)
  ultimately show ?thesis by simp
next
  case None
  then have "p \<notin> fst ` set ps" by (simp add: map_of_eq_None_iff)
  moreover assume "distinct (map fst ps)"
  ultimately show ?thesis using None by (simp add: path_add_def)
qed

text \<open>The paths, over any hash of addresses and of slots.\<close>

definition paths_inv ::
    "(address \<Rightarrow> hash32) \<Rightarrow> (u256 \<Rightarrow> hash32) \<Rightarrow> witness_key list \<Rightarrow> proof_paths \<Rightarrow> bool" where
  "paths_inv K S ks ps \<longleftrightarrow>
     distinct (map fst ps) \<and>
     (\<forall>p qs. map_of ps p = Some qs \<longleftrightarrow> (\<exists>a \<in> addrs ks. p = K a \<and> qs = map S (slots_of a ks)))"

lemma paths_invD:
  assumes "paths_inv K S ks ps"
  shows "distinct (map fst ps)"
    "map_of ps p = Some qs \<Longrightarrow> \<exists>a \<in> addrs ks. p = K a \<and> qs = map S (slots_of a ks)"
    "a \<in> addrs ks \<Longrightarrow> map_of ps (K a) = Some (map S (slots_of a ks))"
  using assms unfolding paths_inv_def by blast+

lemma paths_inv_lookup:
  assumes inv: "paths_inv K S ks ps" and same: "\<And>a. a \<in> addrs ks \<Longrightarrow> K a = K c \<Longrightarrow> a = c"
  shows "map_of ps (K c) = (if c \<in> addrs ks then Some (map S (slots_of c ks)) else None)"
proof (cases "c \<in> addrs ks")
  case False
  show ?thesis
  proof (cases "map_of ps (K c)")
    case (Some qs)
    from paths_invD(2) [OF inv this] obtain a where "a \<in> addrs ks" "K c = K a" by blast
    with same [of a] False show ?thesis by simp
  qed (simp add: False)
qed (simp add: paths_invD(3) [OF inv])

text \<open>A table that holds the slots of \<open>c\<close> and agrees with the old one elsewhere.\<close>

lemma paths_inv_extend:
  assumes inv: "paths_inv K S ks ps" and same: "\<And>a. a \<in> addrs ks \<Longrightarrow> K a = K c \<Longrightarrow> a = c"
    and "distinct (map fst ps')"
    and look: "\<And>p. map_of ps' p = (if p = K c then Some (map S (slots_of c (ks @ [(c, ms)]))) else map_of ps p)"
    and rest: "\<And>a. a \<noteq> c \<Longrightarrow> slots_of a (ks @ [(c, ms)]) = slots_of a ks"
  shows "paths_inv K S (ks @ [(c, ms)]) ps'"
  unfolding paths_inv_def
proof (intro conjI allI iffI)
  fix p qs assume p: "map_of ps' p = Some qs"
  show "\<exists>a \<in> addrs (ks @ [(c, ms)]). p = K a \<and> qs = map S (slots_of a (ks @ [(c, ms)]))"
  proof (cases "p = K c")
    case True
    with p look show ?thesis by auto
  next
    case False
    with p look have "map_of ps p = Some qs" by simp
    from paths_invD(2) [OF inv this] obtain a where a: "a \<in> addrs ks" "p = K a" "qs = map S (slots_of a ks)"
      by blast
    with False have "a \<noteq> c" by auto
    with a rest show ?thesis by auto
  qed
next
  fix p qs assume "\<exists>a \<in> addrs (ks @ [(c, ms)]). p = K a \<and> qs = map S (slots_of a (ks @ [(c, ms)]))"
  then obtain a where a: "a \<in> insert c (addrs ks)" "p = K a" "qs = map S (slots_of a (ks @ [(c, ms)]))" by auto
  show "map_of ps' p = Some qs"
  proof (cases "a = c")
    case False
    with a(1) same [of a] have "a \<in> addrs ks" "K a \<noteq> K c" by auto
    with a(2,3) look rest [OF False] paths_invD(3) [OF inv] show ?thesis by simp
  qed (use a look in simp)
qed (rule assms(3))

lemma paths_inv_touch:
  assumes inv: "paths_inv K S ks ps" and same: "\<And>a. a \<in> addrs ks \<Longrightarrow> K a = K c \<Longrightarrow> a = c"
  shows "paths_inv K S (ks @ [(c, None)]) (path_touch (K c) ps)"
proof (rule paths_inv_extend [OF inv same])
  show "distinct (map fst (path_touch (K c) ps))"
    by (rule distinct_path_touch [OF paths_invD(1) [OF inv]])
  show "map_of (path_touch (K c) ps) p =
      (if p = K c then Some (map S (slots_of c (ks @ [(c, None)]))) else map_of ps p)" for p
    using paths_inv_lookup [OF inv same] slots_of_fresh [of c ks] by (simp add: map_of_path_touch)
qed simp_all

lemma paths_inv_add:
  assumes inv: "paths_inv K S ks ps" and same: "\<And>a. a \<in> addrs ks \<Longrightarrow> K a = K c \<Longrightarrow> a = c"
  shows "paths_inv K S (ks @ [(c, Some slot)]) (path_add (K c) (S slot) ps)"
proof (rule paths_inv_extend [OF inv same])
  show "distinct (map fst (path_add (K c) (S slot) ps))"
    by (rule distinct_path_add [OF paths_invD(1) [OF inv]])
  show "map_of (path_add (K c) (S slot) ps) p =
      (if p = K c then Some (map S (slots_of c (ks @ [(c, Some slot)]))) else map_of ps p)" for p
    using paths_inv_lookup [OF inv same] slots_of_fresh [of c ks] by (simp add: map_of_path_add)
qed simp_all

abbreviation address_path :: "packages \<Rightarrow> address \<Rightarrow> hash32" where
  "address_path pk a \<equiv> keccak pk (toBytesBE 20 a)"

abbreviation slot_path :: "packages \<Rightarrow> u256 \<Rightarrow> hash32" where
  "slot_path pk slot \<equiv> keccak pk (toBytesBE 32 slot)"

definition builder_inv :: "packages \<Rightarrow> witness_key list \<Rightarrow> builder \<Rightarrow> bool" where
  "builder_inv pk ks b \<longleftrightarrow>
     paths_inv (address_path pk) (slot_path pk) ks (proofPaths b) \<and>
     (\<forall>a \<in> addrs ks. accPreimages b (address_path pk a) = Some (toBytesBE 20 a)) \<and>
     (\<forall>a slot. (a, Some slot) \<in> set ks \<longrightarrow> stoPreimages b (slot_path pk slot) = Some (toBytesBE 32 slot))"

lemma build_step_fields:
  "proofPaths (build_step pk pre ((a, None), t) b) = path_touch (address_path pk a) (proofPaths b)"
  "accPreimages (build_step pk pre ((a, None), t) b) = (accPreimages b)(address_path pk a \<mapsto> toBytesBE 20 a)"
  "stoPreimages (build_step pk pre ((a, None), t) b) = stoPreimages b"
  "proofPaths (build_step pk pre ((a, Some slot), t) b) =
     path_add (address_path pk a) (slot_path pk slot) (proofPaths b)"
  "accPreimages (build_step pk pre ((a, Some slot), t) b) = (accPreimages b)(address_path pk a \<mapsto> toBytesBE 20 a)"
  "stoPreimages (build_step pk pre ((a, Some slot), t) b) = (stoPreimages b)(slot_path pk slot \<mapsto> toBytesBE 32 slot)"
  by (simp_all add: Let_def)

lemma builder_step_inv:
  assumes inv: "builder_inv pk ks b" and inj: "inj_on (keccak pk) (key_bytes (ks @ [(c, ms)]))"
  shows "builder_inv pk (ks @ [(c, ms)]) (build_step pk pre ((c, ms), touched) b)"
proof -
  let ?ks = "ks @ [(c, ms)]"
  have paths: "paths_inv (address_path pk) (slot_path pk) ks (proofPaths b)"
    and acc: "\<And>a. a \<in> addrs ks \<Longrightarrow> accPreimages b (address_path pk a) = Some (toBytesBE 20 a)"
    and sto: "\<And>a s. (a, Some s) \<in> set ks \<Longrightarrow> stoPreimages b (slot_path pk s) = Some (toBytesBE 32 s)"
    using inv unfolding builder_inv_def by blast+
  have same: "a = c" if "a \<in> addrs ks" "address_path pk a = address_path pk c" for a
  proof -
    have "toBytesBE 20 a \<in> key_bytes ?ks" "toBytesBE 20 c \<in> key_bytes ?ks"
      using that(1) by (simp_all add: key_bytes_I(1))
    with inj_onD [OF inj that(2)] show ?thesis by (simp add: toBytesBE_inject)
  qed
  have acc': "((accPreimages b)(address_path pk c \<mapsto> toBytesBE 20 c)) (address_path pk a) = Some (toBytesBE 20 a)"
    if "a \<in> addrs ?ks" for a
    using that same [of a] acc [of a] by (cases "a = c") auto
  show ?thesis
  proof (cases ms)
    case None
    from paths_inv_touch [OF paths same] acc' sto show ?thesis
      unfolding builder_inv_def None build_step_fields by simp
  next
    case (Some slot)
    have "s = slot" if "(a, Some s) \<in> set ks" "slot_path pk s = slot_path pk slot" for a s
    proof -
      have "toBytesBE 32 s \<in> key_bytes ?ks" "toBytesBE 32 slot \<in> key_bytes ?ks"
        using that(1) Some by (simp_all add: key_bytes_I(2) [of a] key_bytes_I(2) [of c])
      with inj_onD [OF inj that(2)] show ?thesis by (simp add: toBytesBE_inject)
    qed
    with sto have "((stoPreimages b)(slot_path pk slot \<mapsto> toBytesBE 32 slot)) (slot_path pk s) = Some (toBytesBE 32 s)"
      if "(a, Some s) \<in> set ?ks" for a s
      using that Some by (cases "s = slot") auto
    with paths_inv_add [OF paths same] acc' show ?thesis
      unfolding builder_inv_def Some build_step_fields by blast
  qed
qed

lemma run_builder_inv:
  assumes "inj_on (keccak pk) (key_bytes (map fst t))"
  shows "builder_inv pk (map fst t) (run_builder pk pre t)"
  using assms
proof (induction t rule: rev_induct)
  case Nil
  then show ?case by (simp add: builder_inv_def paths_inv_def run_builder_def empty_builder_def)
next
  case (snoc x t)
  obtain c ms touched where x: "x = ((c, ms), touched)" by (metis prod.collapse)
  have "key_bytes (map fst t) \<subseteq> key_bytes (map fst (t @ [x]))" by (rule key_bytes_mono) auto
  with snoc have "builder_inv pk (map fst t) (run_builder pk pre t)" by (blast intro: inj_on_subset)
  from builder_step_inv [OF this, of c ms pre touched] snoc.prems show ?case
    by (simp add: run_builder_def x)
qed

text \<open>The keys are groups of an address and its slots, one group for each address.\<close>

definition key_group :: "witness_key list \<Rightarrow> address \<Rightarrow> byte list list" where
  "key_group ks a = toBytesBE 20 a # map (toBytesBE 32) (slots_of a ks)"

definition some_order :: "pre_state \<Rightarrow> bool" where
  "some_order pre \<longleftrightarrow> (\<forall>ps. mset (ps_iterate pre ps) = mset ps)"

lemma distinct_mapI: "distinct (map f xs) \<Longrightarrow> distinct xs"
  by (simp add: distinct_map)

lemma witness_keys_groups:
  assumes inv: "builder_inv pk ks b" and ord: "some_order pre" and inj: "inj_on (keccak pk) (key_bytes ks)"
  shows "\<exists>as. distinct as \<and> set as = addrs ks \<and> witness_keys_of pre b = concat (map (key_group ks) as)"
proof -
  let ?K = "address_path pk" and ?S = "slot_path pk"
  let ?ps = "ps_iterate pre (proofPaths b)"
  define addr where "addr p = (SOME a. a \<in> addrs ks \<and> p = ?K a)" for p
  have mset: "mset ?ps = mset (proofPaths b)" using ord by (simp add: some_order_def)
  have paths: "paths_inv ?K ?S ks (proofPaths b)" using inv by (simp add: builder_inv_def)
  have K_inj: "inj_on ?K (addrs ks)"
  proof (rule inj_onI)
    fix x y assume xy: "x \<in> addrs ks" "y \<in> addrs ks" "?K x = ?K y"
    then have "toBytesBE 20 x = toBytesBE 20 y"
      by (intro inj_onD [OF inj]) (simp_all add: key_bytes_I(1))
    then show "x = y" by (simp add: toBytesBE_inject)
  qed
  have entry: "addr p \<in> addrs ks \<and> p = ?K (addr p) \<and> qs = map ?S (slots_of (addr p) ks)"
    if "(p, qs) \<in> set ?ps" for p qs
  proof -
    have "(p, qs) \<in> set (proofPaths b)" using that mset by (metis set_mset_mset)
    then have p: "map_of (proofPaths b) p = Some qs" by (simp add: paths_invD(1) [OF paths])
    from paths_invD(2) [OF paths this] have "\<exists>a. a \<in> addrs ks \<and> p = ?K a" by blast
    then have a: "addr p \<in> addrs ks \<and> p = ?K (addr p)" unfolding addr_def by (rule someI_ex)
    with paths_invD(3) [OF paths, of "addr p"] p show ?thesis by simp
  qed
  let ?as = "map (\<lambda>(p, qs). addr p) ?ps"
  have "distinct (map fst ?ps)"
    using paths_invD(1) [OF paths] mset by (metis mset_map mset_eq_imp_distinct_iff)
  then have "distinct (map ?K ?as)"
  proof -
    have "map ?K ?as = map fst ?ps" using entry by auto
    with \<open>distinct (map fst ?ps)\<close> show ?thesis by (simp only:)
  qed
  then have "distinct ?as" by (rule distinct_mapI)
  moreover have "set ?as = addrs ks"
  proof (intro equalityI subsetI)
    fix a assume "a \<in> set ?as"
    with entry show "a \<in> addrs ks" by auto
  next
    fix a assume a: "a \<in> addrs ks"
    from map_of_SomeD [OF paths_invD(3) [OF paths a]] mset
    have "(?K a, map ?S (slots_of a ks)) \<in> set ?ps" by (metis set_mset_mset)
    moreover from entry [OF this] K_inj a have "addr (?K a) = a" by (metis inj_onD)
    ultimately show "a \<in> set ?as" by (force intro: rev_image_eqI)
  qed
  moreover have "witness_keys_of pre b = concat (map (key_group ks) ?as)"
    unfolding witness_keys_of_def map_map
  proof (intro arg_cong [of _ _ concat] map_cong refl)
    fix x assume x_in: "x \<in> set ?ps"
    obtain p qs where "x = (p, qs)" by (cases x)
    with x_in have x: "x = (p, qs)" "(p, qs) \<in> set ?ps" by simp_all
    note e = entry [OF x(2)]
    have "accPreimages b p = Some (toBytesBE 20 (addr p))"
      using inv e unfolding builder_inv_def by metis
    moreover have "stoPreimages b (?S slot) = Some (toBytesBE 32 slot)" if "slot \<in> set (slots_of (addr p) ks)" for slot
      using inv that unfolding builder_inv_def slots_of_set by blast
    ultimately show "(case x of (accPath, stoPaths) \<Rightarrow>
        getOrDefault (accPreimages b) 20 accPath # map (getOrDefault (stoPreimages b) 32) stoPaths) =
      (key_group ks \<circ> (\<lambda>(p, qs). addr p)) x"
      using e by (simp add: x key_group_def getOrDefault_def)
  qed
  ultimately show ?thesis by blast
qed

text \<open>There are as many keys in the groups as in the table.\<close>

lemma sum_one_more:
  "distinct as \<Longrightarrow> c \<in> set as \<Longrightarrow>
     sum_list (map (\<lambda>a. if a = c then Suc (f a) else f a) as) = Suc (sum_list (map f as))"
proof (induction as)
  case (Cons a as)
  show ?case
  proof (cases "a = c")
    case True
    have "sum_list (map (\<lambda>a. if a = c then Suc (f a) else f a) as) = sum_list (map f as)"
      using True Cons.prems by (intro arg_cong [of _ _ sum_list] map_cong refl) auto
    with True show ?thesis by simp
  qed (use Cons in auto)
qed simp

lemma count_keys:
  assumes "distinct as" and "addrs ks \<subseteq> set as"
  shows "sum_list (map (\<lambda>a. length (filter (\<lambda>k. fst k = a) ks)) as) = length ks"
  using assms(2)
proof (induction ks rule: rev_induct)
  case (snoc k ks)
  obtain c ms where k: "k = (c, ms)" by (cases k)
  have "length (filter (\<lambda>k. fst k = a) (ks @ [k])) =
      (if a = c then Suc (length (filter (\<lambda>k. fst k = a) ks)) else length (filter (\<lambda>k. fst k = a) ks))" for a
    by (simp add: k)
  with snoc sum_one_more [OF assms(1), of c] show ?case by (simp add: k)
qed simp

lemma group_length:
  assumes "keys_ok ks" and "a \<in> addrs ks"
  shows "length (filter (\<lambda>k. fst k = a) ks) = length (key_group ks a)"
proof -
  have count: "length (filter (\<lambda>k. fst k = a) js) = length (filter (\<lambda>k. k = (a, None)) js) + length (slots_of a js)" for js
    by (induction a js rule: slots_of.induct) auto
  have "(a, None) \<in> set ks"
  proof -
    from assms(2) obtain ms where "(a, ms) \<in> set ks" by (auto simp: addrs_def)
    with assms(1) show ?thesis by (cases ms) (auto simp: keys_ok_def)
  qed
  moreover have "distinct ks" using assms(1) by (simp add: keys_ok_def)
  ultimately have "length (filter (\<lambda>k. k = (a, None)) ks) = 1"
    by (simp add: distinct_length_filter Collect_conv_if)
  with count show ?thesis by (simp add: key_group_def)
qed

lemma groups_length:
  assumes "keys_ok ks" and "distinct as" and "set as = addrs ks"
  shows "length (concat (map (key_group ks) as)) = length ks"
proof -
  have "map (\<lambda>a. length (key_group ks a)) as = map (\<lambda>a. length (filter (\<lambda>k. fst k = a) ks)) as"
    using group_length [OF assms(1)] assms(3) by simp
  with count_keys [OF assms(2), of ks] assms(3) show ?thesis
    by (simp only: length_concat map_map comp_def subset_refl)
qed

text \<open>Reading the groups back gives a table with all the addresses and slots.\<close>

definition holds :: "keys_table \<Rightarrow> address \<Rightarrow> u256 list \<Rightarrow> bool" where
  "holds t a slots \<longleftrightarrow> (\<exists>v. map_of t a = Some v \<and> set slots \<subseteq> set v)"

definition grows :: "keys_table \<Rightarrow> keys_table \<Rightarrow> bool" where
  "grows t t' \<longleftrightarrow> (\<forall>a slots. holds t a slots \<longrightarrow> holds t' a slots)"

lemma growsD: "grows t t' \<Longrightarrow> holds t a slots \<Longrightarrow> holds t' a slots"
  by (simp add: grows_def)

lemma map_of_table_put: "map_of (table_put k v t) k' = (if k' = k then Some v else map_of t k')"
  by (induction k v t rule: table_put.induct) auto

lemma grows_incl: "grows t (incl_slot a slot t)"
  by (auto simp: grows_def holds_def incl_slot_def map_of_table_put split: option.split)

lemma holds_incl: "holds t a slots \<Longrightarrow> holds (incl_slot a slot t) a (slot # slots)"
  by (auto simp: holds_def incl_slot_def map_of_table_put split: option.split)

lemma grows_trans: "grows t t' \<Longrightarrow> grows t' t'' \<Longrightarrow> grows t t''"
  by (simp add: grows_def)

lemma putAll_slots:
  assumes "holds t a seen"
  shows "\<exists>t'. putAll a (map (toBytesBE 32) slots @ rest) t = putAll a rest t' \<and> grows t t' \<and> holds t' a (rev slots @ seen)"
  using assms
proof (induction slots arbitrary: t seen)
  case Nil
  then show ?case by (auto simp: grows_def)
next
  case (Cons slot slots)
  from Cons.IH [OF holds_incl [OF Cons.prems, of slot]] obtain t' where
    "putAll a (map (toBytesBE 32) slots @ rest) (incl_slot a slot t) = putAll a rest t'"
    "grows (incl_slot a slot t) t'" "holds t' a (rev slots @ slot # seen)" by blast
  then show ?case
    by (intro exI [of _ t'])
      (auto simp: isAddress_def isSlot_def toBytesBE_roundtrip intro: grows_trans [OF grows_incl])
qed

lemma putAll_groups:
  "\<exists>t'. putAll c (concat (map (key_group ks) as)) t = Inr t' \<and> grows t t' \<and>
     (\<forall>a \<in> set as. holds t' a (slots_of a ks))"
proof (induction as arbitrary: c t)
  case Nil
  then show ?case by (simp add: grows_def)
next
  case (Cons a as)
  let ?t = "if map_of t a \<noteq> None then t else table_put a [] t"
  have "holds ?t a []" by (auto simp: holds_def map_of_table_put)
  from putAll_slots [OF this, of "slots_of a ks" "concat (map (key_group ks) as)"]
  obtain t1 where t1: "putAll a (map (toBytesBE 32) (slots_of a ks) @ concat (map (key_group ks) as)) ?t =
      putAll a (concat (map (key_group ks) as)) t1" "grows ?t t1" "holds t1 a (rev (slots_of a ks))"
    by auto
  from Cons.IH [of a t1] obtain t' where t': "putAll a (concat (map (key_group ks) as)) t1 = Inr t'" "grows t1 t'"
    "\<forall>b \<in> set as. holds t' b (slots_of b ks)" by blast
  have "grows t ?t" by (auto simp: grows_def holds_def map_of_table_put)
  then have "grows t t'" using t1(2) t'(2) by (blast intro: grows_trans)
  moreover have "holds t' a (slots_of a ks)"
    using growsD [OF t'(2) t1(3)] by (simp add: holds_def)
  moreover have "putAll c (concat (map (key_group ks) (a # as))) t = Inr t'"
    using t1(1) t'(1) by (simp add: key_group_def isAddress_def toBytesBE_roundtrip Let_def)
  ultimately show ?case using t'(3) by auto
qed

lemma check_expected_ok:
  "(\<And>a ms. (a, ms) \<in> fst ` set t \<Longrightarrow> holds kt a (case ms of None \<Rightarrow> [] | Some slot \<Rightarrow> [slot])) \<Longrightarrow>
     check_expected kt t = Inr ()"
proof (induction kt t rule: check_expected.induct)
  case (2 kt a slot b rest)
  have "holds kt a (case slot of None \<Rightarrow> [] | Some s \<Rightarrow> [s])" by (rule 2(3)) simp
  then obtain v where v: "map_of kt a = Some v" "slot = Some s \<Longrightarrow> s \<in> set v" for s
    by (auto simp: holds_def split: option.splits)
  have "check_expected kt rest = Inr ()"
  proof (cases slot)
    case None
    show ?thesis by (rule 2(1) [OF v(1) None]) (rule 2(3), simp)
  next
    case (Some s)
    with v(2) have in_v: "\<not> s \<notin> set v" by simp
    show ?thesis by (rule 2(2) [OF v(1) Some in_v]) (rule 2(3), simp)
  qed
  with v show ?case by (simp split: option.split)
qed simp

lemma build_witness_keys:
  "build_witness pk pre r keys sib cached parent hdr v = Done w \<Longrightarrow>
     wit_keys w = witness_keys_of pre (run_builder pk pre keys)"
  by (auto simp: build_witness_def build_state_def Let_def bind_outcome_Done split: if_splits option.splits)

text \<open>The preimages of the builder are bytes of an address or a slot, whatever Keccak does.\<close>

definition preimages_ok :: "builder \<Rightarrow> bool" where
  "preimages_ok b \<longleftrightarrow>
     (\<forall>h bytes. accPreimages b h = Some bytes \<longrightarrow> length bytes = 20) \<and>
     (\<forall>h bytes. stoPreimages b h = Some bytes \<longrightarrow> length bytes = 32)"

lemma build_step_shape:
  "preimages_ok b \<and> distinct (addedCodeHashes b) \<Longrightarrow>
   preimages_ok (build_step pk pre x b) \<and> distinct (addedCodeHashes (build_step pk pre x b))"
  by (cases "(pk, pre, x, b)" rule: build_step.cases)
    (auto simp: preimages_ok_def Let_def split: if_splits simp del: toBytesBE.simps)

lemma run_builder_shape: "preimages_ok (run_builder pk pre t) \<and> distinct (addedCodeHashes (run_builder pk pre t))"
proof (induction t rule: rev_induct)
  case (snoc x t)
  then show ?case using build_step_shape [of "run_builder pk pre t"] by (simp add: run_builder_def)
qed (simp add: run_builder_def empty_builder_def preimages_ok_def)

lemma getOrDefault_length:
  "preimages_ok b \<Longrightarrow>
     length (getOrDefault (accPreimages b) 20 h) = 20 \<and> length (getOrDefault (stoPreimages b) 32 h) = 32"
  by (auto simp: getOrDefault_def preimages_ok_def split: option.split)

lemma witness_keys_shape:
  "preimages_ok b \<Longrightarrow> list_all (\<lambda>k. isAddress k \<or> isSlot k) (witness_keys_of pre b)"
  by (auto simp: list_all_iff witness_keys_of_def isAddress_def isSlot_def getOrDefault_length)

lemma putAll_total:
  "list_all (\<lambda>k. isAddress k \<or> isSlot k) ks \<Longrightarrow> \<exists>t'. putAll a ks t = Inr t'"
  by (induction a ks t rule: putAll.induct) (auto simp: Let_def)

lemma built_keys_valid:
  assumes "inj_on (keccak pk) (key_bytes (map fst (witnessKeys accs)))" and "some_order pre"
    and "build_witness pk pre r (witnessKeys accs) sib cached parent hdr v = Done w"
  shows "validateKeys w (witnessKeys accs) = Inr () \<longleftrightarrow> accs \<noteq> []"
proof -
  let ?t = "witnessKeys accs"
  let ?ks = "map fst ?t"
  from witness_keys_groups [OF run_builder_inv [OF assms(1)] assms(2,1)] build_witness_keys [OF assms(3)]
  obtain as where as: "distinct as" "set as = addrs ?ks" "wit_keys w = concat (map (key_group ?ks) as)"
    by metis
  have len: "length (wit_keys w) = length ?t"
    using groups_length [OF witnessKeys_ok as(1,2)] as(3) by simp
  show ?thesis
  proof (cases "accs = []")
    case True
    with len show ?thesis by (simp add: validateKeys_def witnessKeys_def)
  next
    case False
    then have "?t \<noteq> []" by (simp add: witnessKeys_empty)
    with len as(3) obtain b bs where "as = b # bs" by (cases as) auto
    then have first: "isAddress (wit_keys w ! 0)" by (simp add: as(3) key_group_def isAddress_def)
    from putAll_groups [of 0 ?ks as "[]"] as(2,3) obtain kt where kt:
      "putAll 0 (wit_keys w) [] = Inr kt" "\<And>a. a \<in> addrs ?ks \<Longrightarrow> holds kt a (slots_of a ?ks)" by auto
    have "check_expected kt ?t = Inr ()"
    proof (rule check_expected_ok)
      fix a ms assume "(a, ms) \<in> fst ` set ?t"
      then have k: "(a, ms) \<in> set ?ks" by simp
      from kt(2) [OF addrs_I [OF this]] have "holds kt a (slots_of a ?ks)" .
      moreover have "set (case ms of None \<Rightarrow> [] | Some slot \<Rightarrow> [slot]) \<subseteq> set (slots_of a ?ks)"
      proof (cases ms)
        case (Some slot)
        with k have "slot \<in> set (slots_of a ?ks)" by (simp only: slots_of_set)
        with Some show ?thesis by simp
      qed simp
      ultimately show "holds kt a (case ms of None \<Rightarrow> [] | Some slot \<Rightarrow> [slot])"
        unfolding holds_def by blast
    qed
    with kt(1) first len False \<open>?t \<noteq> []\<close> show ?thesis by (simp add: validateKeys_def)
  qed
qed

section \<open>Accounts and codes of a witness\<close>

text \<open>What \<open>verifyProof\<close> is relied on for: what it finds under a genuine root is what is there.\<close>

definition proves_truly ::
    "packages \<Rightarrow> ((hash32 \<rightharpoonup> byte list) \<Rightarrow> hash32 \<Rightarrow> hash32 \<Rightarrow> unit + byte list option) \<Rightarrow> hash32 \<Rightarrow>
     (address \<Rightarrow> account option) \<Rightarrow> bool" where
  "proves_truly pk verifyProof stRoot account_of \<longleftrightarrow>
     (\<forall>nodes a leaf acc. verifyProof nodes stRoot (keccak pk (toBytesBE 20 a)) = Inr (Some leaf) \<longrightarrow>
        rlp_decode_account pk leaf = Inr acc \<longrightarrow> account_of a = Some acc)"

lemma verify_accounts_codes:
  assumes "verify_accounts pk prove stRoot kt codes = Inr codes'"
    and "\<And>a leaf acc. prove stRoot (keccak pk (toBytesBE 20 a)) = Inr (Some leaf) \<Longrightarrow>
      rlp_decode_account pk leaf = Inr acc \<Longrightarrow> account_of a = Some acc"
    and "c \<in> set codes'"
  shows "c \<in> set codes \<or> (\<exists>a acc. a \<in> fst ` set kt \<and> account_of a = Some acc \<and> acc_codeHash acc = c)"
  using assms(1,3)
proof (induction kt arbitrary: codes)
  case (Cons x kt)
  obtain a slots where x: "x = (a, slots)" by (cases x)
  show ?case
  proof (cases "prove stRoot (keccak pk (toBytesBE 20 a))")
    case (Inr leaf_opt)
    show ?thesis
    proof (cases leaf_opt)
      case None
      with Cons Inr x show ?thesis by auto
    next
      case (Some leaf)
      with Cons.prems(1) Inr x obtain acc where acc: "rlp_decode_account pk leaf = Inr acc"
        by (auto split: sum.splits)
      with Cons.prems(1) Inr Some x
      have "verify_accounts pk prove stRoot kt (List.insert (acc_codeHash acc) codes) = Inr codes'"
        by (auto split: sum.splits if_splits)
      from Cons.IH [OF this Cons.prems(2)] assms(2) [OF _ acc] Inr Some x show ?thesis by auto
    qed
  qed (use Cons.prems(1) x in simp)
qed simp

section \<open>A concrete chain\<close>

definition demo_pre_state :: pre_state where
  "demo_pre_state =
     \<lparr>ps_getCodeHash = (\<lambda>_. 1077), ps_multiProof = (\<lambda>_. Some [[3], [2]]), ps_emptyCodeHash = 2,
      ps_iterate = rev, ps_getCodeByHash = (\<lambda>h. if h = 1077 then Some [77] else None),
      ps_getBlockHeader = (\<lambda>h. if h = 1008 then Some (demo_header 8 1007)
        else if h = 1009 then Some (demo_header 9 1008) else None),
      ps_getBlockHash = (\<lambda>n. ucast n + 1000)\<rparr>"

definition demo_accesses :: "access list" where
  "demo_accesses = [ReadCode 1 False, AccessStorage 2 5, GetAccount 1]"

definition demo_witness :: witness where
  "demo_witness =
     \<lparr>wit_state = [[2], [3]], wit_codeHashes = [1077],
      wit_keys = [toBytesBE 20 (2 :: address), toBytesBE 32 (5 :: u256), toBytesBE 20 (1 :: address)],
      wit_headerHashes = [1008, 1009]\<rparr>"

definition demo_witness_with_keys :: witness_with_keys where
  "demo_witness_with_keys =
     \<lparr>wk_state = [[2], [3]], wk_codes = [[77]], wk_keys = wit_keys demo_witness, wk_headers = [[8], [9]]\<rparr>"

lemma demo_build:
  "build_witness demo_packages demo_pre_state 0 (witnessKeys demo_accesses) [] [8] (demo_header 9 1008)
     (demo_header 10 1009) False = Done demo_witness"
  "build_with_keys demo_packages demo_pre_state demo_witness = Done demo_witness_with_keys"
  by code_simp+

section \<open>Properties\<close>

text \<open>
  C12: the block pins the headers of its witness. Two witnesses whose headers are accepted for the
  same block have the same headers, counted back from the parent: the shorter list is the end of
  the longer one. So whoever supplies the witness cannot choose the pre-state, or any block hash
  the guest will look up.
\<close>

theorem witness_headers_are_pinned:
  assumes "verifyHeaders pk w hdr = Inr v" and "verifyHeaders pk w' hdr = Inr v'"
    and "inj_on (keccak pk) (set (ew_headers w) \<union> set (ew_headers w'))"
    and "length (ew_headers w) \<le> length (ew_headers w')"
  shows "ew_headers w = drop (length (ew_headers w') - length (ew_headers w)) (ew_headers w') \<and>
    vh_headers v = drop (length (ew_headers w') - length (ew_headers w)) (vh_headers v')"
proof -
  let ?d = "length (ew_headers w') - length (ew_headers w)"
  have eq: "ew_headers w = drop ?d (ew_headers w')"
    using verified_same_from_end [OF assms(1-3)] assms(4) by (intro nth_equal_drop) auto
  have "list_all2 (\<lambda>h d. rlp_decode_header pk h = Inr d) (drop ?d (ew_headers w')) (drop ?d (vh_headers v'))"
    using assms(2) by (auto simp: verifyHeaders_ok intro: list_all2_dropI)
  moreover have "list_all2 (\<lambda>h d. rlp_decode_header pk h = Inr d) (drop ?d (ew_headers w')) (vh_headers v)"
    using assms(1) eq by (simp add: verifyHeaders_ok)
  ultimately have "vh_headers v = drop ?d (vh_headers v')"
    unfolding list_all2_conv_all_nth by (metis nth_equalityI sum.inject(2))
  with eq show ?thesis by blast
qed

theorem witness_headers_are_pinned_witness:
  "[[9]] = drop (2 - 1) [[8], [9 :: byte]] \<and>
   [demo_header 9 1008] = drop (2 - 1) [demo_header 8 1007, demo_header 9 1008]"
proof -
  let ?w = "\<lambda>hs. \<lparr>ew_state = [], ew_codes = [], ew_headers = hs\<rparr>"
  have "verifyHeaders demo_packages (?w [[9]]) (demo_header 10 1009) =
      Inr \<lparr>vh_headers = [demo_header 9 1008], vh_hashes = [1009]\<rparr>"
    and "verifyHeaders demo_packages (?w [[8], [9]]) (demo_header 10 1009) =
      Inr \<lparr>vh_headers = [demo_header 8 1007, demo_header 9 1008], vh_hashes = [1008, 1009]\<rparr>"
    by code_simp+
  from witness_headers_are_pinned [OF this] show ?thesis
    by (simp add: demo_packages_def fromBytesBE_def)
qed

text \<open>
  C10: the headers of a witness that was built pass the check. If the database knows the ancestors
  back to the earliest block hash that execution has asked for, and there are at most 256 of
  them, the list of headers is neither cut short on the way nor refused, and what is read from
  it are those ancestors with their hashes.
\<close>

theorem built_headers_verify:
  assumes "ancestors pk pre parent hdr hs" and "honest_list_add pk" and "length hs \<le> 256"
    and "getEarliestCachedBlockNumber cached = Some (number (hd hs)) \<or> cached = [] \<and> length hs = 1"
    and "build_witness pk pre r keys sib cached parent hdr v = Done w" and "build_with_keys pk pre w = Done wk"
  shows "verifyHeaders pk (toExecutionWitness pk wk) hdr = Inr \<lparr>vh_headers = hs, vh_hashes = map (header_hash pk) hs\<rparr>"
  using assms by (rule built_headers_accepted)

lemma demo_ancestors:
  "ancestors demo_packages demo_pre_state (demo_header 9 1008) (demo_header 10 1009)
     [demo_header 8 1007, demo_header 9 1008]"
  by code_simp

lemma demo_list_add: "honest_list_add demo_packages"
  by (simp add: honest_list_add_def demo_packages_def)

theorem built_headers_verify_witness:
  "verifyHeaders demo_packages (toExecutionWitness demo_packages demo_witness_with_keys) (demo_header 10 1009) =
     Inr \<lparr>vh_headers = [demo_header 8 1007, demo_header 9 1008],
          vh_hashes = map (header_hash demo_packages) [demo_header 8 1007, demo_header 9 1008]\<rparr>"
  by (rule built_headers_verify [OF demo_ancestors demo_list_add _ _ demo_build])
    (simp_all add: getEarliestCachedBlockNumber_def demo_header_def)

text \<open>
  C11: the keys of a witness are those of the accesses. However a block has accessed the state, the
  keys of the witness built from the record pass \<open>validateKeys\<close> against it, with one
  exception: after no access at all the check reports an error. The node asserts that the check
  succeeds, so a block that touches no account brings it down.
\<close>

theorem built_keys_validate:
  assumes "inj_on (keccak pk) (key_bytes (map fst (witnessKeys accs)))" and "some_order pre"
    and "build_witness pk pre r (witnessKeys accs) sib cached parent hdr v = Done w"
  shows "validateKeys w (witnessKeys accs) = Inr () \<longleftrightarrow> accs \<noteq> []"
  using assms by (rule built_keys_valid)

theorem built_keys_validate_witness:
  "validateKeys demo_witness (witnessKeys demo_accesses) = Inr ()"
proof -
  have keys: "map fst (witnessKeys demo_accesses) = [(1, None), (2, None), (2, Some 5)]" by code_simp
  have "key_bytes [(1, None), (2, None), (2, Some 5)] =
      set [toBytesBE 20 (1 :: address), toBytesBE 20 (2 :: address), toBytesBE 32 (5 :: u256)]"
    by (auto simp: key_bytes_def addrs_def simp del: toBytesBE.simps)
  moreover have "distinct (map (keccak demo_packages)
      [toBytesBE 20 (1 :: address), toBytesBE 20 (2 :: address), toBytesBE 32 (5 :: u256)])" by code_simp
  ultimately have "inj_on (keccak demo_packages) (key_bytes (map fst (witnessKeys demo_accesses)))"
    unfolding keys by (simp only: distinct_map)
  moreover have "some_order demo_pre_state" by (simp add: some_order_def demo_pre_state_def)
  ultimately show ?thesis
    using built_keys_validate [OF _ _ demo_build(1)] by (simp add: demo_accesses_def)
qed

text \<open>
  C36: every witness that is built has its type: the keys are addresses or slots and start with an
  address, so that they can be read back into a table; the trie nodes are sorted, no code hash is
  listed twice, and the headers end in the parent of the block.
\<close>

theorem built_witness_shape:
  assumes "build_witness pk pre r keys sib cached parent hdr v = Done w"
  shows "list_all (\<lambda>k. isAddress k \<or> isSlot k) (wit_keys w) \<and>
    (wit_keys w = [] \<or> isAddress (hd (wit_keys w))) \<and> (\<exists>t. putAll 0 (wit_keys w) [] = Inr t) \<and>
    sorted (wit_state w) \<and> distinct (wit_codeHashes w) \<and>
    wit_headerHashes w \<noteq> [] \<and> last (wit_headerHashes w) = parentHash hdr"
proof -
  let ?b = "run_builder pk pre keys"
  have b: "preimages_ok ?b \<and> distinct (addedCodeHashes ?b)" by (rule run_builder_shape)
  have keys: "wit_keys w = witness_keys_of pre ?b" using assms by (rule build_witness_keys)
  have shape: "list_all (\<lambda>k. isAddress k \<or> isSlot k) (wit_keys w)"
    unfolding keys using b by (intro witness_keys_shape) simp
  moreover have "wit_keys w = [] \<or> isAddress (hd (wit_keys w))"
  proof (cases "ps_iterate pre (proofPaths ?b)")
    case (Cons x xs)
    with b show ?thesis unfolding keys
      by (cases x) (simp add: witness_keys_of_def isAddress_def getOrDefault_length)
  qed (simp add: keys witness_keys_of_def)
  ultimately show ?thesis
    using assms b putAll_total [OF shape]
    by (auto simp: build_witness_def build_state_def Let_def bind_outcome_Done split: if_splits option.splits)
qed

theorem built_witness_shape_witness:
  "isAddress (hd (wit_keys demo_witness)) \<and> last (wit_headerHashes demo_witness) = 1009"
  using built_witness_shape [OF demo_build(1)] by (auto simp: demo_witness_def demo_header_def)

lemma codes_belong:
  assumes "verifyState pk verifyProof visit w stRoot = Inr ()" and "stRoot \<noteq> empty_trie_root pk"
    and "proves_truly pk verifyProof stRoot account_of" and "\<forall>kt. set (visit kt) = set kt"
    and "code \<in> set (wk_codes w)"
  shows "\<exists>kt a acc. putAll 0 (wk_keys w) [] = Inr kt \<and> a \<in> fst ` set kt \<and> account_of a = Some acc \<and>
    acc_codeHash acc = keccak pk code"
proof -
  let ?prove = "verifyProof (node_table pk (wk_state w))"
  from assms(1,2) obtain kt codes where kt: "putAll 0 (wk_keys w) [] = Inr kt"
    and acc: "verify_accounts pk ?prove stRoot (visit kt) [] = Inr codes"
    and all: "list_all (\<lambda>code. keccak pk code \<in> set codes) (wk_codes w)"
    by (auto simp: verifyState_def split: sum.splits if_splits)
  have truly: "account_of a = Some ac"
    if "?prove stRoot (keccak pk (toBytesBE 20 a)) = Inr (Some leaf)" "rlp_decode_account pk leaf = Inr ac" for a leaf ac
    using that assms(3) unfolding proves_truly_def by blast
  have "keccak pk code \<in> set codes" using all assms(5) by (simp add: list_all_iff)
  from verify_accounts_codes [where account_of = account_of, OF acc truly this] kt assms(4) show ?thesis by auto
qed

text \<open>
  C13: what \<open>verifyState\<close> checks of the codes of a witness. On an empty pre-state it checks
  nothing: it accepts every witness, whatever codes and keys that carries. On any other, a witness
  that passes carries no foreign code: every contract code in it has the code hash of an account of
  the pre-state that its keys name, provided the trie proofs are sound.
\<close>

theorem witness_codes_belong:
  assumes "proves_truly pk verifyProof stRoot account_of" and "\<forall>kt. set (visit kt) = set kt"
  shows "if stRoot = empty_trie_root pk then verifyState pk verifyProof visit w stRoot = Inr ()
    else verifyState pk verifyProof visit w stRoot = Inr () \<longrightarrow>
      (\<forall>code \<in> set (wk_codes w). \<exists>kt a acc. putAll 0 (wk_keys w) [] = Inr kt \<and> a \<in> fst ` set kt \<and>
         account_of a = Some acc \<and> acc_codeHash acc = keccak pk code)"
proof (cases "stRoot = empty_trie_root pk")
  case False
  then show ?thesis using codes_belong [OF _ False assms] by (simp only: if_False) blast
qed (simp add: verifyState_def)

theorem witness_codes_belong_witness:
  "let w = \<lparr>wk_state = [[1]], wk_codes = [[77]], wk_keys = [toBytesBE 20 (1 :: address)], wk_headers = []\<rparr>;
       verifyProof = \<lambda>(nodes :: hash32 \<rightharpoonup> byte list) (rt :: hash32) path.
         if path = 1001 then (Inr (Some [1]) :: unit + byte list option) else Inr None
   in verifyState demo_packages verifyProof (\<lambda>kt. kt) w 59 = Inr () \<and>
    (\<exists>kt a acc. putAll 0 (wk_keys w) [] = Inr kt \<and> a \<in> fst ` set kt \<and>
     (if a = 1 then Some \<lparr>acc_nonce = 0, acc_balance = 2, acc_storageRoot = 1, acc_codeHash = 1077\<rparr> else None) =
       Some acc \<and> acc_codeHash acc = keccak demo_packages [77])"
proof -
  let ?w = "\<lparr>wk_state = [[1]], wk_codes = [[77]], wk_keys = [toBytesBE 20 (1 :: address)], wk_headers = []\<rparr>"
  let ?proof = "\<lambda>(nodes :: hash32 \<rightharpoonup> byte list) (rt :: hash32) path.
    if path = 1001 then (Inr (Some [1]) :: unit + byte list option) else Inr None"
  let ?account = "\<lambda>a :: address. if a = 1
    then Some \<lparr>acc_nonce = 0, acc_balance = 2, acc_storageRoot = 1, acc_codeHash = 1077\<rparr> else None"
  have run: "verifyState demo_packages ?proof (\<lambda>kt. kt) ?w 59 = Inr ()" by code_simp
  have "proves_truly demo_packages ?proof 59 ?account"
    by (auto simp: proves_truly_def demo_packages_def fromBytesBE_address ucast_address_eq_1 split: if_splits)
  from witness_codes_belong [OF this, of "\<lambda>kt. kt" ?w] run
  have "\<exists>kt a acc. putAll 0 (wk_keys ?w) [] = Inr kt \<and> a \<in> fst ` set kt \<and> ?account a = Some acc \<and>
      acc_codeHash acc = keccak demo_packages [77]"
    by (simp add: demo_packages_def del: toBytesBE.simps putAll.simps)
  with run show ?thesis unfolding Let_def by blast
qed

end
