(* ===== verification/Stateless_Execution.thy ===== *)
theory Stateless_Execution
  imports Block_Validation Stateless_Witness
begin

text \<open>
  The stateless execution of a payload (\<open>stateless/stateless_execution.nim\<close>), the host that
  prepares its input and checks its output (\<open>stateless/stateless_host.nim\<close>), and the guest program
  around both. The database of trie nodes and the EVM on it are arguments.
\<close>

section \<open>A block on a witness\<close>

text \<open>
  The in-memory database, and the execution of a block on it: \<open>init\<close> of a \<open>BaseVMState\<close> on the
  parent and \<open>processBlock\<close> with all validations, with or without tracking the access list. A
  successful execution has the state root of the ledger after it.
\<close>

record 'db database =
  newMemoryDb :: 'db
  putSubtrie :: "hash32 \<Rightarrow> (hash32 \<rightharpoonup> byte list) \<Rightarrow> 'db \<Rightarrow> string + 'db"
  getStateRoot :: "'db \<Rightarrow> hash32 option"
  persistCodeByHash :: "hash32 \<Rightarrow> byte list \<Rightarrow> 'db \<Rightarrow> string + 'db"
  addBlockNumberToHashLookup :: "u64 \<Rightarrow> hash32 \<Rightarrow> 'db \<Rightarrow> 'db"
  processBlock :: "common \<Rightarrow> header \<Rightarrow> bool \<Rightarrow> eth_block \<Rightarrow> 'db \<Rightarrow> (string, hash32) outcome"

text \<open>Code that cannot be stored is a failed assertion.\<close>

fun persist_codes :: "packages \<Rightarrow> 'db database \<Rightarrow> byte list list \<Rightarrow> 'db \<Rightarrow> (string, 'db) outcome" where
  "persist_codes pk dbs [] db = Done db"
| "persist_codes pk dbs (c # cs) db =
     (case persistCodeByHash dbs (keccak pk c) c db of
        Inl _ \<Rightarrow> Defect
      | Inr db' \<Rightarrow> persist_codes pk dbs cs db')"

definition put_block_hashes :: "'db database \<Rightarrow> verified_headers \<Rightarrow> 'db \<Rightarrow> 'db" where
  "put_block_hashes dbs verified db =
     foldl (\<lambda>d (h, hash). addBlockNumberToHashLookup dbs (number h) hash d) db
       (zip (vh_headers verified) (vh_hashes verified))"

definition statelessProcessBlock ::
    "packages \<Rightarrow> pow_chain \<Rightarrow> 'db database \<Rightarrow> execution_witness \<Rightarrow> common \<Rightarrow> eth_block \<Rightarrow> (string, unit) outcome" where
  "statelessProcessBlock pk pow dbs w com blk =
     (case verifyHeaders pk w (bk_header blk) of
        Inl e \<Rightarrow> Fail e
      | Inr verified \<Rightarrow>
          let parent = last (vh_headers verified);
              preStateRoot = stateRoot parent
          in case putSubtrie dbs preStateRoot (node_table pk (ew_state w)) (newMemoryDb dbs) of
               Inl e \<Rightarrow> Fail (''Unable to load subtrie: '' @ e)
             | Inr db1 \<Rightarrow>
                (case getStateRoot dbs db1 of
                   None \<Rightarrow> Defect
                 | Some loaded \<Rightarrow>
                     if loaded \<noteq> preStateRoot then Fail ''Witness subtrie state root mismatch''
                     else
                       bind_outcome (persist_codes pk dbs (ew_codes w) db1) (\<lambda>db2.
                       let db3 = put_block_hashes dbs verified db2 in
                       bind_outcome (validateHeader pk pow com blk None True parent) (\<lambda>_.
                       bind_outcome
                         (processBlock dbs com parent (isAmsterdamOrLater com (timestamp (bk_header blk))) blk db3) (\<lambda>root'.
                       if root' \<noteq> stateRoot (bk_header blk) then Defect else Done ())))))"

section \<open>A payload\<close>

fun decode_txs :: "packages \<Rightarrow> byte list list \<Rightarrow> string + transaction list" where
  "decode_txs pk [] = Inr []"
| "decode_txs pk (tx # txs) =
     (case rlp_decode_tx pk tx of
        Inl e \<Rightarrow> Inl e
      | Inr t \<Rightarrow> (case decode_txs pk txs of Inl e \<Rightarrow> Inl e | Inr ts \<Rightarrow> Inr (t # ts)))"

definition payload_header ::
    "packages \<Rightarrow> execution_payload \<Rightarrow> hash32 option \<Rightarrow> hash32 option \<Rightarrow> transaction list \<Rightarrow> header" where
  "payload_header pk p beaconRoot reqHash txs =
     \<lparr>parentHash = parent_hash p, ommersHash = no_uncles_hash pk, coinbase = fee_recipient p,
      stateRoot = state_root p, transactionsRoot = txs_root pk txs, receiptsRoot = receipts_root p,
      logsBloom = logs_bloom p, difficulty = 0, number = block_number p, gasLimit = gas_limit p,
      gasUsed = gas_used p, timestamp = payload_timestamp p, extraData = extra_data p,
      mixHash = prev_randao p, nonce = 0, baseFeePerGas = Some (base_fee_per_gas p),
      withdrawalsRoot = Some (wds_root pk (payload_withdrawals p)),
      blobGasUsed = Some (blob_gas_used p), excessBlobGas = Some (excess_blob_gas p),
      parentBeaconBlockRoot = beaconRoot, requestsHash = reqHash,
      blockAccessListHash = Some (keccak pk (payload_block_access_list p)),
      slotNumber = Some (slot_number p)\<rparr>"

definition toBlock ::
    "packages \<Rightarrow> execution_payload \<Rightarrow> hash32 option \<Rightarrow> hash32 option \<Rightarrow> string + eth_block" where
  "toBlock pk p beaconRoot reqHash =
     (case decode_txs pk (payload_transactions p) of
        Inl e \<Rightarrow> Inl e
      | Inr txs \<Rightarrow> Inr
          \<lparr>bk_header = payload_header pk p beaconRoot reqHash txs, bk_uncles = [], bk_transactions = txs,
           bk_withdrawals = Some (payload_withdrawals p)\<rparr>)"

definition blob_hashes :: "transaction list \<Rightarrow> hash32 list" where
  "blob_hashes txs = concat (map (\<lambda>tx. if txType tx = TxEip4844 then versionedHashes tx else []) txs)"

fun check_hashes :: "nat \<Rightarrow> hash32 list \<Rightarrow> hash32 list \<Rightarrow> string + unit" where
  "check_hashes i [] actual = Inr ()"
| "check_hashes i (x # xs) actual =
     (if x \<noteq> actual ! i then Inl (''Versioned hash at index '' @ decimal i @ '' does not match the payload'')
      else check_hashes (i + 1) xs actual)"

definition is_valid_versioned_hashes :: "hash32 list \<Rightarrow> eth_block \<Rightarrow> string + unit" where
  "is_valid_versioned_hashes expected blk =
     (let actual = blob_hashes (bk_transactions blk)
      in if length actual \<noteq> length expected then Inl ''Versioned hashes count does not match the payload''
         else check_hashes 0 expected actual)"

definition request_hash :: "packages \<Rightarrow> execution_requests \<Rightarrow> hash32" where
  "request_hash pk reqs = toHash32 (calcRequestsHash (sha256 pk) (payloadRequests (request_type_bytes pk) reqs))"

text \<open>The early check of the access list that comes with the payload.\<close>

definition check_payload_bal :: "packages \<Rightarrow> common \<Rightarrow> execution_payload \<Rightarrow> header \<Rightarrow> string + unit" where
  "check_payload_bal pk com p hdr =
     (if isAmsterdamOrLater com (timestamp hdr) then
        (case blockAccessListHash hdr of
           None \<Rightarrow> Inl ''Post-Amsterdam block header must have blockAccessListHash''
         | Some expectedBalHash \<Rightarrow>
            (case bal_decode pk (payload_block_access_list p) of
               Inl e \<Rightarrow> Inl (''Failed to decode block access list: '' @ e)
             | Inr bal \<Rightarrow> validateBal pk bal expectedBalHash (gasLimit hdr)))
      else Inr ())"

definition executeNewPayload ::
    "packages \<Rightarrow> pow_chain \<Rightarrow> 'db database \<Rightarrow> (u256 \<Rightarrow> address option) \<Rightarrow> stateless_input \<Rightarrow> (string, unit) outcome" where
  "executeNewPayload pk pow dbs dep input =
     (let req = si_new_payload_request input;
          p = executionPayload req;
          com = statelessCommon dep (si_chain_id input)
      in case toBlock pk p (Some (npr_parentBeaconBlockRoot req)) (Some (request_hash pk (executionRequests req))) of
           Inl e \<Rightarrow> Fail (''Failed to decode execution payload: '' @ e)
         | Inr blk \<Rightarrow>
             if header_hash pk (bk_header blk) \<noteq> block_hash p then Fail ''Invalid block hash''
             else case is_valid_versioned_hashes (npr_versionedHashes req) blk of
                Inl e \<Rightarrow> Fail e
              | Inr _ \<Rightarrow>
                 (case check_payload_bal pk com p (bk_header blk) of
                    Inl e \<Rightarrow> Fail e
                  | Inr _ \<Rightarrow> statelessProcessBlock pk pow dbs (si_witness input) com blk))"

text \<open>\<open>isOk()\<close> of a result; a crash is a crash.\<close>

fun isOk :: "('e, 'a) outcome \<Rightarrow> ('e, bool) outcome" where
  "isOk (Done _) = Done True"
| "isOk (Fail _) = Done False"
| "isOk Cancelled = Cancelled"
| "isOk Defect = Defect"
| "isOk Stuck = Stuck"

definition verify_stateless_new_payload ::
    "packages \<Rightarrow> pow_chain \<Rightarrow> 'db database \<Rightarrow> (u256 \<Rightarrow> address option) \<Rightarrow> stateless_input \<Rightarrow>
     (string, stateless_validation_result) outcome" where
  "verify_stateless_new_payload pk pow dbs dep input =
     bind_outcome (isOk (executeNewPayload pk pow dbs dep input)) (\<lambda>ok. Done
       \<lparr>new_payload_request_root = request_root pk (si_new_payload_request input),
        successful_validation = ok, chain_id = si_chain_id input, schema_id = STATELESS_INPUT_SCHEMA_ID\<rparr>)"

section \<open>The host\<close>

text \<open>The SSZ package, on the two types that cross the boundary.\<close>

record ssz =
  ssz_encode_input :: "stateless_input \<Rightarrow> byte list"
  ssz_decode_input :: "byte list \<Rightarrow> string + stateless_input"
  ssz_encode_result :: "stateless_validation_result \<Rightarrow> byte list"
  ssz_decode_result :: "byte list \<Rightarrow> string + stateless_validation_result"

definition serialize_stateless_input :: "ssz \<Rightarrow> stateless_input \<Rightarrow> byte list" where
  "serialize_stateless_input z input = toBytesBE 2 STATELESS_INPUT_SCHEMA_ID @ ssz_encode_input z input"

definition deserialize_stateless_output :: "ssz \<Rightarrow> byte list \<Rightarrow> string + stateless_validation_result" where
  "deserialize_stateless_output z data =
     (case ssz_decode_result z data of
        Inl e \<Rightarrow> Inl (''Failed to deserialize StatelessValidationResult: '' @ e)
      | Inr res \<Rightarrow> Inr res)"

definition block_payload ::
    "packages \<Rightarrow> eth_block \<Rightarrow> withdrawal list \<Rightarrow> byte list \<Rightarrow> u256 \<Rightarrow> u64 \<Rightarrow> u64 \<Rightarrow> u64 \<Rightarrow> execution_payload" where
  "block_payload pk blk wds balBytes baseFee blobGas excess slot =
     (let hdr = bk_header blk in
      \<lparr>parent_hash = parentHash hdr, fee_recipient = coinbase hdr, state_root = stateRoot hdr,
       receipts_root = receiptsRoot hdr, logs_bloom = logsBloom hdr, prev_randao = mixHash hdr,
       block_number = number hdr, gas_limit = gasLimit hdr, gas_used = gasUsed hdr,
       payload_timestamp = timestamp hdr, extra_data = extraData hdr, base_fee_per_gas = baseFee,
       block_hash = header_hash pk hdr,
       payload_transactions = map (rlp_encode_tx pk) (bk_transactions blk), payload_withdrawals = wds,
       blob_gas_used = blobGas, excess_blob_gas = excess, payload_block_access_list = balBytes,
       slot_number = slot\<rparr>)"

definition build_stateless_input ::
    "packages \<Rightarrow> eth_block \<Rightarrow> execution_witness \<Rightarrow> execution_requests \<Rightarrow> byte list \<Rightarrow> u64 \<Rightarrow> string + stateless_input" where
  "build_stateless_input pk blk w reqs balBytes chainId =
     (let hdr = bk_header blk in
      case baseFeePerGas hdr of None \<Rightarrow> Inl ''Post-Amsterdam block header must have baseFeePerGas''
      | Some baseFee \<Rightarrow>
     (case blobGasUsed hdr of None \<Rightarrow> Inl ''Post-Amsterdam block header must have blobGasUsed''
      | Some blobGas \<Rightarrow>
     (case excessBlobGas hdr of None \<Rightarrow> Inl ''Post-Amsterdam block header must have excessBlobGas''
      | Some excess \<Rightarrow>
     (case parentBeaconBlockRoot hdr of None \<Rightarrow> Inl ''Post-Amsterdam block header must have parentBeaconBlockRoot''
      | Some beaconRoot \<Rightarrow>
     (case slotNumber hdr of None \<Rightarrow> Inl ''Post-Amsterdam block header must have slotNumber''
      | Some slot \<Rightarrow>
     (case bk_withdrawals blk of None \<Rightarrow> Inl ''Post-Amsterdam block body must have withdrawals''
      | Some wds \<Rightarrow> Inr
          \<lparr>si_new_payload_request =
             \<lparr>executionPayload = block_payload pk blk wds balBytes baseFee blobGas excess slot,
              npr_versionedHashes = blob_hashes (bk_transactions blk),
              npr_parentBeaconBlockRoot = beaconRoot, executionRequests = reqs\<rparr>,
           si_witness = w, si_chain_id = chainId\<rparr>))))))"

definition verify_new_payload_request_root ::
    "packages \<Rightarrow> stateless_input \<Rightarrow> stateless_validation_result \<Rightarrow> string + unit" where
  "verify_new_payload_request_root pk input output =
     (if new_payload_request_root output \<noteq> request_root pk (si_new_payload_request input)
      then Inl ''Stateless output root does not match the submitted payload request''
      else Inr ())"

text \<open>The guest program, as it is linked.\<close>

definition guest_program ::
    "packages \<Rightarrow> pow_chain \<Rightarrow> 'db database \<Rightarrow> (u256 \<Rightarrow> address option) \<Rightarrow> ssz \<Rightarrow> byte list \<Rightarrow>
     (string, byte list) outcome" where
  "guest_program pk pow dbs dep z =
     run_stateless_guest (ssz_decode_input z) (ssz_encode_result z) (verify_stateless_new_payload pk pow dbs dep)"

section \<open>Lemmas\<close>

lemma decode_txs_encoded:
  "\<forall>tx \<in> set txs. rlp_decode_tx pk (rlp_encode_tx pk tx) = Inr tx \<Longrightarrow>
   decode_txs pk (map (rlp_encode_tx pk) txs) = Inr txs"
  by (induction txs) auto

lemma check_hashes_ok:
  "length actual = i + length xs \<Longrightarrow> check_hashes i xs actual = Inr () \<longleftrightarrow> xs = drop i actual"
  by (induction xs arbitrary: i) (auto simp flip: Cons_nth_drop_Suc)

lemma versioned_hashes_ok:
  "is_valid_versioned_hashes expected blk = Inr () \<longleftrightarrow> expected = blob_hashes (bk_transactions blk)"
  by (auto simp: is_valid_versioned_hashes_def Let_def check_hashes_ok)

text \<open>
  A sealed block: the header commits to the body, the requests and the access list, as a block
  after the merge does, and its transactions survive their encoding.
\<close>

definition sealed :: "packages \<Rightarrow> eth_block \<Rightarrow> execution_requests \<Rightarrow> byte list \<Rightarrow> bool" where
  "sealed pk blk reqs balBytes \<longleftrightarrow>
     (let hdr = bk_header blk in
      bk_uncles blk = [] \<and> ommersHash hdr = no_uncles_hash pk \<and> difficulty hdr = 0 \<and> nonce hdr = 0 \<and>
      transactionsRoot hdr = txs_root pk (bk_transactions blk) \<and>
      withdrawalsRoot hdr = map_option (wds_root pk) (bk_withdrawals blk) \<and>
      requestsHash hdr = Some (request_hash pk reqs) \<and> blockAccessListHash hdr = Some (keccak pk balBytes) \<and>
      list_all (\<lambda>tx. rlp_decode_tx pk (rlp_encode_tx pk tx) = Inr tx) (bk_transactions blk))"

lemma build_stateless_input_ok:
  assumes "build_stateless_input pk blk w reqs balBytes cid = Inr input"
  shows "\<exists>wds baseFee blobGas excess slot beaconRoot.
    bk_withdrawals blk = Some wds \<and> baseFeePerGas (bk_header blk) = Some baseFee \<and>
    blobGasUsed (bk_header blk) = Some blobGas \<and> excessBlobGas (bk_header blk) = Some excess \<and>
    slotNumber (bk_header blk) = Some slot \<and> parentBeaconBlockRoot (bk_header blk) = Some beaconRoot \<and>
    input = \<lparr>si_new_payload_request =
        \<lparr>executionPayload = block_payload pk blk wds balBytes baseFee blobGas excess slot,
         npr_versionedHashes = blob_hashes (bk_transactions blk),
         npr_parentBeaconBlockRoot = beaconRoot, executionRequests = reqs\<rparr>,
      si_witness = w, si_chain_id = cid\<rparr>"
  using assms by (auto simp: build_stateless_input_def Let_def split: option.splits)

lemma built_payload:
  assumes "build_stateless_input pk blk w reqs balBytes cid = Inr input" and "sealed pk blk reqs balBytes"
  shows "toBlock pk (executionPayload (si_new_payload_request input))
      (Some (npr_parentBeaconBlockRoot (si_new_payload_request input)))
      (Some (request_hash pk (executionRequests (si_new_payload_request input)))) = Inr blk"
    and "npr_versionedHashes (si_new_payload_request input) = blob_hashes (bk_transactions blk)"
    and "block_hash (executionPayload (si_new_payload_request input)) = header_hash pk (bk_header blk)"
    and "payload_block_access_list (executionPayload (si_new_payload_request input)) = balBytes"
    and "si_witness input = w" and "si_chain_id input = cid"
proof -
  from build_stateless_input_ok [OF assms(1)] obtain wds baseFee blobGas excess slot beaconRoot where
    fields: "bk_withdrawals blk = Some wds" "baseFeePerGas (bk_header blk) = Some baseFee"
      "blobGasUsed (bk_header blk) = Some blobGas" "excessBlobGas (bk_header blk) = Some excess"
      "slotNumber (bk_header blk) = Some slot" "parentBeaconBlockRoot (bk_header blk) = Some beaconRoot"
    and input: "input = \<lparr>si_new_payload_request =
        \<lparr>executionPayload = block_payload pk blk wds balBytes baseFee blobGas excess slot,
         npr_versionedHashes = blob_hashes (bk_transactions blk),
         npr_parentBeaconBlockRoot = beaconRoot, executionRequests = reqs\<rparr>,
      si_witness = w, si_chain_id = cid\<rparr>" by blast
  have txs: "decode_txs pk (map (rlp_encode_tx pk) (bk_transactions blk)) = Inr (bk_transactions blk)"
    using assms(2) by (intro decode_txs_encoded) (simp add: sealed_def Let_def list_all_iff)
  obtain hdr uncles txs' w' where blk: "blk =
      \<lparr>bk_header = hdr, bk_uncles = uncles, bk_transactions = txs', bk_withdrawals = w'\<rparr>" by (cases blk)
  show "toBlock pk (executionPayload (si_new_payload_request input))
      (Some (npr_parentBeaconBlockRoot (si_new_payload_request input)))
      (Some (request_hash pk (executionRequests (si_new_payload_request input)))) = Inr blk"
    using txs fields assms(2)
    by (auto simp: input toBlock_def block_payload_def payload_header_def sealed_def blk Let_def
        intro!: header.equality)
qed (use build_stateless_input_ok [OF assms(1)] in \<open>auto simp: block_payload_def Let_def\<close>)

lemma built_input_executes:
  assumes "build_stateless_input pk blk w reqs balBytes cid = Inr input" and "sealed pk blk reqs balBytes"
  shows "executeNewPayload pk pow dbs dep input =
    (case check_payload_bal pk (statelessCommon dep cid) (executionPayload (si_new_payload_request input)) (bk_header blk) of
       Inl e \<Rightarrow> Fail e
     | Inr _ \<Rightarrow> statelessProcessBlock pk pow dbs w (statelessCommon dep cid) blk)"
proof -
  have "is_valid_versioned_hashes (blob_hashes (bk_transactions blk)) blk = Inr ()"
    by (simp add: versioned_hashes_ok)
  then show ?thesis
    unfolding executeNewPayload_def Let_def using built_payload [OF assms] by (simp split: sum.split)
qed

lemma amsterdam_everywhere: "isAmsterdamOrLater (statelessCommon dep cid) t"
  by (simp add: less_eq_hard_fork_def)

lemma check_Done: "(case r of Inl e \<Rightarrow> Fail e | Inr _ \<Rightarrow> k) = Done x \<longleftrightarrow> r = Inr () \<and> k = Done x"
  by (cases r) simp_all

lemma executeNewPayload_Done:
  "executeNewPayload pk pow dbs dep input = Done () \<longleftrightarrow>
     (\<exists>blk bal. let req = si_new_payload_request input in
       toBlock pk (executionPayload req) (Some (npr_parentBeaconBlockRoot req))
         (Some (request_hash pk (executionRequests req))) = Inr blk \<and>
       header_hash pk (bk_header blk) = block_hash (executionPayload req) \<and>
       npr_versionedHashes req = blob_hashes (bk_transactions blk) \<and>
       bal_decode pk (payload_block_access_list (executionPayload req)) = Inr bal \<and>
       validateBal pk bal (keccak pk (payload_block_access_list (executionPayload req)))
         (gasLimit (bk_header blk)) = Inr () \<and>
       statelessProcessBlock pk pow dbs (si_witness input) (statelessCommon dep (si_chain_id input)) blk = Done ())"
proof (cases "toBlock pk (executionPayload (si_new_payload_request input))
    (Some (npr_parentBeaconBlockRoot (si_new_payload_request input)))
    (Some (request_hash pk (executionRequests (si_new_payload_request input))))")
  case (Inr blk)
  then have "blockAccessListHash (bk_header blk) =
      Some (keccak pk (payload_block_access_list (executionPayload (si_new_payload_request input))))"
    by (auto simp: toBlock_def payload_header_def split: sum.splits)
  with Inr show ?thesis
    by (auto simp: executeNewPayload_def Let_def check_Done check_payload_bal_def amsterdam_everywhere versioned_hashes_ok
        split: sum.splits if_splits)
qed (simp add: executeNewPayload_def Let_def)

lemma statelessProcessBlock_Done:
  assumes "statelessProcessBlock pk pow dbs w com blk = Done ()"
  shows "\<exists>v db1 db2. verifyHeaders pk w (bk_header blk) = Inr v \<and>
    putSubtrie dbs (stateRoot (last (vh_headers v))) (node_table pk (ew_state w)) (newMemoryDb dbs) = Inr db1 \<and>
    getStateRoot dbs db1 = Some (stateRoot (last (vh_headers v))) \<and>
    persist_codes pk dbs (ew_codes w) db1 = Done db2 \<and>
    validateHeader pk pow com blk None True (last (vh_headers v)) = Done () \<and>
    processBlock dbs com (last (vh_headers v)) (isAmsterdamOrLater com (timestamp (bk_header blk))) blk
      (put_block_hashes dbs v db2) = Done (stateRoot (bk_header blk))"
  using assms
  by (auto simp: statelessProcessBlock_def Let_def bind_outcome_Done split: sum.splits option.splits if_splits)

lemma verified_parent_hash:
  assumes "verifyHeaders pk w hdr = Inr v"
  shows "ew_headers w \<noteq> [] \<and> keccak pk (last (ew_headers w)) = parentHash hdr \<and>
    rlp_decode_header pk (last (ew_headers w)) = Inr (last (vh_headers v))"
proof -
  from assms have "ew_headers w \<noteq> []" and len: "length (ew_headers w) = length (vh_headers v)"
    and nth: "\<And>i. i < length (ew_headers w) \<Longrightarrow> rlp_decode_header pk (ew_headers w ! i) = Inr (vh_headers v ! i)"
    and "last (map (keccak pk) (ew_headers w)) = parentHash hdr"
    by (auto simp: verifyHeaders_ok list_all2_conv_all_nth)
  moreover from this have "vh_headers v \<noteq> []" by auto
  ultimately show ?thesis
    using nth [of "length (ew_headers w) - 1"] by (simp add: last_map last_conv_nth)
qed

text \<open>What answers: a check whose result is a verdict, good or bad.\<close>

definition answers :: "('e, 'a) outcome \<Rightarrow> bool" where
  "answers r \<longleftrightarrow> (\<exists>x. r = Done x) \<or> (\<exists>e. r = Fail e)"

lemma answers_simps [simp]: "answers (Done x)" "answers (Fail e)"
  by (simp_all add: answers_def)

lemma answers_bind: "answers r \<Longrightarrow> (\<And>x. r = Done x \<Longrightarrow> answers (f x)) \<Longrightarrow> answers (bind_outcome r f)"
  by (auto simp: answers_def)

lemma guest_blob_fee: "\<exists>fee. getBlobBaseFee excess (statelessCommon dep cid) Amsterdam = Done fee"
proof -
  have u64: "unat x < 2 ^ 64" for x :: u64 using uint_bounded [of x] by (simp add: nat_less_iff flip: nat_uint_eq)
  have "getBlobBaseFee excess (statelessCommon dep cid) Amsterdam =
      fakeExponential (2 * (unat excess div unat (11684671 :: u64)) + 260) 1 (ucast excess) (ucast (11684671 :: u64))"
    by (rule getBlobBaseFee_Cancun) (simp_all add: less_eq_hard_fork_def)
  with fakeExponential_sum [of "ucast (11684671 :: u64)" "ucast excess"] u64 [of excess] show ?thesis
    by auto
qed

lemma guest_excess_blob_gas: "\<exists>x. calcExcessBlobGas (statelessCommon dep cid) parent Amsterdam = Done x"
  using guest_blob_fee [of "orDefault (excessBlobGas parent) 0" dep cid]
  by (auto simp: calcExcessBlobGas_def Let_def)

lemma guest_header_check_answers:
  "answers (validateHeader pk pow (statelessCommon dep cid) blk bal skip parent)"
proof -
  let ?com = "statelessCommon dep cid" and ?hdr = "bk_header blk"
  have "answers (checkDaoExtra ?com ?hdr)" by (simp add: checkDaoExtra_def)
  moreover have "answers (checkConsensus pk pow ?com ?hdr parent)" by (simp add: checkConsensus_def)
  moreover have "answers (validateWithdrawals pk ?com ?hdr (bk_withdrawals blk))"
    by (simp add: validateWithdrawals_def split: option.split)
  moreover have "answers (validateEip4844Header ?com ?hdr parent (bk_transactions blk))"
    using guest_excess_blob_gas [of dep cid parent]
    by (auto simp: validateEip4844Header_def stateless_fork getMaxBlobGasPerBlock_def Let_def split: option.split)
  moreover have "answers (validateGasLimitOrBaseFee pk ?com ?hdr parent)"
    by (auto simp: validateGasLimitOrBaseFee_def verifyEip1559Header_def calcEip1599BaseFee_def
        validateGasLimit_def Let_def)
  moreover have "answers (validateBlockAccessList pk ?com ?hdr bal skip)"
    by (auto simp: validateBlockAccessList_def split: option.split sum.split)
  ultimately show ?thesis
    by (auto simp: validateHeader_def Let_def intro!: answers_bind)
qed

section \<open>Properties\<close>

definition honest_ssz :: "ssz \<Rightarrow> stateless_input \<Rightarrow> bool" where
  "honest_ssz z input \<longleftrightarrow>
     ssz_decode_input z (ssz_encode_input z input) = Inr input \<and>
     (\<forall>res. ssz_decode_result z (ssz_encode_result z res) = Inr res)"

lemma schema_bytes: "toBytesBE 2 STATELESS_INPUT_SCHEMA_ID = [0x15, 0x01]"
  by code_simp

lemma deserialize_serialized:
  assumes "honest_ssz z input"
  shows "deserialize_stateless_input (ssz_decode_input z) (serialize_stateless_input z input) = Inr input"
proof -
  have "uint16_fromBytesBE 0x15 0x01 = STATELESS_INPUT_SCHEMA_ID" by code_simp
  with assms show ?thesis
    by (simp add: deserialize_stateless_input_def serialize_stateless_input_def schema_bytes
        STATELESS_INPUT_SCHEMA_ID_SIZE_def honest_ssz_def)
qed

lemma built_verdict:
  assumes "build_stateless_input pk blk w reqs balBytes cid = Inr input" and "sealed pk blk reqs balBytes"
    and "bal_decode pk balBytes = Inr bal"
    and "validateBal pk bal (keccak pk balBytes) (gasLimit (bk_header blk)) = Inr ()"
  shows "executeNewPayload pk pow dbs dep input = statelessProcessBlock pk pow dbs w (statelessCommon dep cid) blk"
proof -
  have "check_payload_bal pk (statelessCommon dep cid) (executionPayload (si_new_payload_request input)) (bk_header blk) =
      Inr ()"
    using assms(2-4) built_payload(4) [OF assms(1,2)]
    by (simp add: check_payload_bal_def amsterdam_everywhere sealed_def Let_def)
  then show ?thesis by (simp add: built_input_executes [OF assms(1,2)])
qed

text \<open>
  C3: a host that builds its input from a block learns what the block deserves. For a sealed
  block with a valid access list the guest, started on the serialized input, decodes the same
  block, runs it on the witness, and writes a result that the host reads back: its verdict is
  that of \<open>statelessProcessBlock\<close>, it names the chain, and its root passes the host's check.
\<close>

theorem host_and_guest_agree:
  assumes "build_stateless_input pk blk w reqs balBytes cid = Inr input" and "sealed pk blk reqs balBytes"
    and "bal_decode pk balBytes = Inr bal"
    and "validateBal pk bal (keccak pk balBytes) (gasLimit (bk_header blk)) = Inr ()"
    and "isOk (statelessProcessBlock pk pow dbs w (statelessCommon dep cid) blk) = Done verdict"
    and "honest_ssz z input"
    and "heap_sane host"
    and "\<forall>n \<le> max initial_cap (2 * length (serialize_stateless_input z input)). heap_grants host n"
    and "\<forall>out. fwrite_takes host [] out = length out" and "\<forall>out. fflush_ok host out"
  shows "\<exists>s res.
    guest_main (readInput host) (writeOutput host) (guest_program pk pow dbs dep z)
      (stdio_start (serialize_stateless_input z input) False) = (Done (), s) \<and>
    deserialize_stateless_output z (stdout_data s) = Inr res \<and> successful_validation res = verdict \<and>
    chain_id res = cid \<and> verify_new_payload_request_root pk input res = Inr ()"
proof -
  let ?res = "\<lparr>new_payload_request_root = request_root pk (si_new_payload_request input),
      successful_validation = verdict, chain_id = cid, schema_id = STATELESS_INPUT_SCHEMA_ID\<rparr>"
  have "verify_stateless_new_payload pk pow dbs dep input = Done ?res"
    using built_verdict [OF assms(1-4), of pow dbs dep] assms(5) built_payload(6) [OF assms(1,2)]
    by (simp add: verify_stateless_new_payload_def)
  then have "guest_program pk pow dbs dep z (serialize_stateless_input z input) = Done (ssz_encode_result z ?res)"
    by (simp add: guest_program_def run_stateless_guest_def deserialize_serialized [OF assms(6)])
  from guest_runs_to_the_end [where run = "guest_program pk pow dbs dep z", OF assms(7-10) this] obtain s where
    "guest_main (readInput host) (writeOutput host) (guest_program pk pow dbs dep z)
      (stdio_start (serialize_stateless_input z input) False) = (Done (), s)"
    "stdout_data s = ssz_encode_result z ?res" by blast
  moreover have "deserialize_stateless_output z (ssz_encode_result z ?res) = Inr ?res"
    using assms(6) by (simp add: deserialize_stateless_output_def honest_ssz_def)
  ultimately show ?thesis by (auto simp: verify_new_payload_request_root_def)
qed

text \<open>A host, a guest and a database, to evaluate them on.\<close>

definition demo_database :: "hash32 database" where
  "demo_database =
     \<lparr>newMemoryDb = 0, putSubtrie = (\<lambda>rt nodes db. Inr rt), getStateRoot = (\<lambda>db. Some db),
      persistCodeByHash = (\<lambda>h c db. Inr db), addBlockNumberToHashLookup = (\<lambda>n h db. db),
      processBlock = (\<lambda>com parent tracked blk db.
        if db = stateRoot parent then Done (stateRoot (bk_header blk)) else Fail ''a foreign state'')\<rparr>"

definition demo_pow :: pow_chain where
  "demo_pow = \<lparr>isBlockAfterTtd = (\<lambda>_. True), calcDifficulty = (\<lambda>_ _. 0)\<rparr>"

definition demo_input :: stateless_input where
  "demo_input =
     \<lparr>si_new_payload_request =
        \<lparr>executionPayload = block_payload demo_packages demo_block [] [12] 7 0 0 10,
         npr_versionedHashes = [], npr_parentBeaconBlockRoot = 6, executionRequests = no_requests\<rparr>,
      si_witness = \<lparr>ew_state = [[2], [3]], ew_codes = [[77]], ew_headers = [[8], [9]]\<rparr>, si_chain_id = 1\<rparr>"

definition demo_ssz :: ssz where
  "demo_ssz =
     \<lparr>ssz_encode_input = (\<lambda>_. [1]), ssz_decode_input = (\<lambda>_. Inr demo_input),
      ssz_encode_result = (\<lambda>res. toBytesBE 32 (new_payload_request_root res) @
        [if successful_validation res then 1 else 0] @ toBytesBE 8 (chain_id res) @ toBytesBE 2 (schema_id res)),
      ssz_decode_result = (\<lambda>bs. Inr
        \<lparr>new_payload_request_root = fromBytesBE (take 32 bs), successful_validation = (bs ! 32 \<noteq> 0),
         chain_id = fromBytesBE (take 8 (drop 33 bs)), schema_id = fromBytesBE (drop 41 bs)\<rparr>)\<rparr>"

definition demo_host :: host where
  "demo_host = \<lparr>heap_grants = (\<lambda>n. n < 100000), fwrite_takes = (\<lambda>_. length), fflush_ok = (\<lambda>_. True)\<rparr>"

lemma demo_built:
  "build_stateless_input demo_packages demo_block (si_witness demo_input) no_requests [12] 1 = Inr demo_input"
  by code_simp

lemma demo_sealed: "sealed demo_packages demo_block no_requests [12]"
  by code_simp

lemma demo_bal:
  "bal_decode demo_packages [12] = Inr []"
  "validateBal demo_packages [] (keccak demo_packages [12]) (gasLimit (bk_header demo_block)) = Inr ()"
  by code_simp+

lemma demo_database_fields:
  "newMemoryDb demo_database = 0" "putSubtrie demo_database rt nodes db = Inr rt" "getStateRoot demo_database db = Some db"
  "persistCodeByHash demo_database h c db = Inr db"
  "processBlock demo_database com parent tracked blk db =
     (if db = stateRoot parent then Done (stateRoot (bk_header blk)) else Fail ''a foreign state'')"
  by (simp_all add: demo_database_def)

lemma demo_put_block_hashes: "put_block_hashes demo_database verified db = db"
proof -
  have "foldl (\<lambda>d (h, hash). d) db xs = db" for xs :: "(header \<times> hash32) list"
    by (induction xs) auto
  then show ?thesis by (simp add: put_block_hashes_def demo_database_def)
qed

lemma demo_run:
  "statelessProcessBlock demo_packages demo_pow demo_database (si_witness demo_input)
     (statelessCommon dep cid) demo_block = Done ()"
proof -
  have "verifyHeaders demo_packages (si_witness demo_input) (bk_header demo_block) =
      Inr \<lparr>vh_headers = [demo_header 8 1007, demo_header 9 1008], vh_hashes = [1008, 1009]\<rparr>"
    by code_simp
  moreover have "persist_codes demo_packages demo_database (ew_codes (si_witness demo_input)) db = Done db" for db
    by (simp add: demo_input_def demo_database_def)
  moreover note demo_block_valid [of demo_pow dep cid]
  ultimately show ?thesis
    by (simp add: statelessProcessBlock_def demo_database_fields demo_put_block_hashes Let_def)
qed

lemma demo_accepted: "executeNewPayload demo_packages demo_pow demo_database dep demo_input = Done ()"
  by (simp add: built_verdict [OF demo_built demo_sealed demo_bal] demo_run)

lemma build_other_chain:
  "build_stateless_input pk blk w reqs balBytes cid = Inr input \<Longrightarrow>
   build_stateless_input pk blk w reqs balBytes cid' = Inr (input\<lparr>si_chain_id := cid'\<rparr>)"
  by (auto simp: build_stateless_input_def Let_def split: option.splits)

lemma demo_accepted_chain:
  "executeNewPayload demo_packages demo_pow demo_database dep (demo_input\<lparr>si_chain_id := cid\<rparr>) = Done ()"
proof -
  have "build_stateless_input demo_packages demo_block (si_witness demo_input) no_requests [12] cid =
      Inr (demo_input\<lparr>si_chain_id := cid\<rparr>)"
    using demo_built by (rule build_other_chain)
  then show ?thesis by (simp add: built_verdict [OF _ demo_sealed demo_bal] demo_run)
qed

lemma demo_honest: "honest_ssz demo_ssz demo_input"
  by (simp add: honest_ssz_def demo_ssz_def nth_append toBytesBE_roundtrip del: toBytesBE.simps)

theorem host_and_guest_agree_witness:
  "\<exists>s res.
    guest_main (readInput demo_host) (writeOutput demo_host)
      (guest_program demo_packages demo_pow demo_database (\<lambda>_. None) demo_ssz)
      (stdio_start (serialize_stateless_input demo_ssz demo_input) False) = (Done (), s) \<and>
    deserialize_stateless_output demo_ssz (stdout_data s) = Inr res \<and> successful_validation res = True \<and>
    chain_id res = 1 \<and> verify_new_payload_request_root demo_packages demo_input res = Inr ()"
proof (rule host_and_guest_agree [OF demo_built demo_sealed demo_bal _ demo_honest])
  have "length (serialize_stateless_input demo_ssz demo_input) = 3" by code_simp
  then show "\<forall>n \<le> max initial_cap (2 * length (serialize_stateless_input demo_ssz demo_input)). heap_grants demo_host n"
    by (simp add: demo_host_def initial_cap_def)
qed (simp_all add: demo_run demo_host_def heap_sane_def)

text \<open>
  The database a block is executed on: the witness's trie nodes under the state root of the parent,
  then its codes, each under its hash, then the hashes of the parent and its ancestors by number.
\<close>

definition executed_on :: "packages \<Rightarrow> 'db database \<Rightarrow> execution_witness \<Rightarrow> verified_headers \<Rightarrow> 'db \<Rightarrow> bool" where
  "executed_on pk dbs w verified db \<longleftrightarrow>
     (\<exists>loaded coded.
        putSubtrie dbs (stateRoot (last (vh_headers verified))) (node_table pk (ew_state w)) (newMemoryDb dbs) = Inr loaded \<and>
        getStateRoot dbs loaded = Some (stateRoot (last (vh_headers verified))) \<and>
        persist_codes pk dbs (ew_codes w) loaded = Done coded \<and>
        db = put_block_hashes dbs verified coded)"

text \<open>
  C4: what an accepted payload has been held against. Its hash is that of the header rebuilt from
  it, its versioned hashes are those of its transactions, its access list is the one committed to
  and well-formed: in strict order, each account in order, within the size the gas limit allows. It
  was executed on the database made of its witness and of nothing else, whose trie is loaded under
  the state root of its parent; the parent is the last header of the witness, whose hash is the
  payload's parent hash; the header is valid after that parent, and execution on that database ended
  in the payload's state root.
\<close>

theorem accepted_payload:
  assumes "executeNewPayload pk pow dbs dep input = Done ()"
  shows "\<exists>blk verified bal db.
    let req = si_new_payload_request input; p = executionPayload req; w = si_witness input;
        com = statelessCommon dep (si_chain_id input); parent = last (vh_headers verified) in
    toBlock pk p (Some (npr_parentBeaconBlockRoot req)) (Some (request_hash pk (executionRequests req))) = Inr blk \<and>
    header_hash pk (bk_header blk) = block_hash p \<and>
    npr_versionedHashes req = blob_hashes (bk_transactions blk) \<and>
    bal_decode pk (payload_block_access_list p) = Inr bal \<and> bal_hash pk bal = keccak pk (payload_block_access_list p) \<and>
    strictly_by ac_address bal \<and> list_all account_ok bal \<and> 2000 * balItemCount bal \<le> unat (gas_limit p) \<and>
    verifyHeaders pk w (bk_header blk) = Inr verified \<and> ew_headers w \<noteq> [] \<and>
    rlp_decode_header pk (last (ew_headers w)) = Inr parent \<and>
    keccak pk (last (ew_headers w)) = parent_hash p \<and>
    validateHeader pk pow com blk None True parent = Done () \<and>
    executed_on pk dbs w verified db \<and>
    processBlock dbs com parent True blk db = Done (state_root p)"
proof -
  let ?req = "si_new_payload_request input"
  let ?p = "executionPayload ?req" and ?com = "statelessCommon dep (si_chain_id input)" and ?w = "si_witness input"
  from assms obtain blk bal where
    blk: "toBlock pk ?p (Some (npr_parentBeaconBlockRoot ?req)) (Some (request_hash pk (executionRequests ?req))) = Inr blk"
    and pre: "header_hash pk (bk_header blk) = block_hash ?p" "npr_versionedHashes ?req = blob_hashes (bk_transactions blk)"
      "bal_decode pk (payload_block_access_list ?p) = Inr bal"
    and bal: "validateBal pk bal (keccak pk (payload_block_access_list ?p)) (gasLimit (bk_header blk)) = Inr ()"
    and run: "statelessProcessBlock pk pow dbs ?w ?com blk = Done ()"
    unfolding executeNewPayload_Done Let_def by blast
  from statelessProcessBlock_Done [OF run] obtain v db1 db2 where
    v: "verifyHeaders pk ?w (bk_header blk) = Inr v"
    and valid: "validateHeader pk pow ?com blk None True (last (vh_headers v)) = Done ()"
    and db: "executed_on pk dbs ?w v (put_block_hashes dbs v db2)"
    and ran: "processBlock dbs ?com (last (vh_headers v)) True blk (put_block_hashes dbs v db2) = Done (stateRoot (bk_header blk))"
    by (auto simp: amsterdam_everywhere executed_on_def)
  have fields: "parentHash (bk_header blk) = parent_hash ?p" "stateRoot (bk_header blk) = state_root ?p"
    "gasLimit (bk_header blk) = gas_limit ?p"
    using blk by (auto simp: toBlock_def payload_header_def split: sum.splits)
  note wf = bal [unfolded validateBal_accepts fields(3)]
  note parent = verified_parent_hash [OF v, unfolded fields(1)]
  show ?thesis
    unfolding Let_def
    using blk pre wf v parent valid db ran [unfolded fields(2)] by blast
qed

theorem accepted_payload_witness:
  "\<exists>verified db. executed_on demo_packages demo_database (si_witness demo_input) verified db \<and>
     keccak demo_packages [9] = parent_hash (executionPayload (si_new_payload_request demo_input)) \<and>
     db = stateRoot (last (vh_headers verified))"
  using accepted_payload [OF demo_accepted, of "\<lambda>_. None"]
  by (auto simp: Let_def demo_input_def demo_database_def split: if_splits)

text \<open>The block a request stands for, and that hashes do not collide on two requests.\<close>

definition request_block :: "packages \<Rightarrow> stateless_input \<Rightarrow> string + eth_block" where
  "request_block pk input =
     (let req = si_new_payload_request input
      in toBlock pk (executionPayload req) (Some (npr_parentBeaconBlockRoot req))
           (Some (request_hash pk (executionRequests req))))"

definition requests_of :: "packages \<Rightarrow> stateless_input \<Rightarrow> (byte \<times> byte list) list" where
  "requests_of pk input =
     payloadRequests (request_type_bytes pk) (executionRequests (si_new_payload_request input))"

definition bal_bytes :: "stateless_input \<Rightarrow> byte list" where
  "bal_bytes input = payload_block_access_list (executionPayload (si_new_payload_request input))"

definition no_collision :: "packages \<Rightarrow> stateless_input \<Rightarrow> stateless_input \<Rightarrow> bool" where
  "no_collision pk i i' \<longleftrightarrow>
     (\<forall>b b'. request_block pk i = Inr b \<and> request_block pk i' = Inr b' \<longrightarrow>
       inj_on (header_hash pk) {bk_header b, bk_header b'} \<and>
       inj_on (txs_root pk) {bk_transactions b, bk_transactions b'} \<and>
       inj_on (wds_root pk) {the (bk_withdrawals b), the (bk_withdrawals b')}) \<and>
     inj_on (keccak pk) ({bal_bytes i, bal_bytes i'} \<union>
       set (ew_headers (si_witness i)) \<union> set (ew_headers (si_witness i'))) \<and>
     distinct_types (request_type_bytes pk) \<and>
     collision_free (sha256 pk)
       (request_preimages (sha256 pk) (requests_of pk i) \<union> request_preimages (sha256 pk) (requests_of pk i'))"

lemma toHash32_inject:
  "length bs = 32 \<Longrightarrow> length bs' = 32 \<Longrightarrow> toHash32 bs = toHash32 bs' \<longleftrightarrow> bs = bs'"
  by (simp add: toHash32_def fromBytesBE_inject)

lemma request_hash_binds:
  assumes "no_collision pk i i'"
    and "request_hash pk (executionRequests (si_new_payload_request i)) =
      request_hash pk (executionRequests (si_new_payload_request i'))"
  shows "executionRequests (si_new_payload_request i) = executionRequests (si_new_payload_request i')"
proof -
  have sha: "collision_free (sha256 pk)
      (request_preimages (sha256 pk) (requests_of pk i) \<union> request_preimages (sha256 pk) (requests_of pk i'))"
    and ty: "distinct_types (request_type_bytes pk)"
    using assms(1) by (simp_all add: no_collision_def)
  then have "length (calcRequestsHash (sha256 pk) rs) = 32" for rs
    by (simp add: calcRequestsHash_def collision_free_def)
  with assms(2) have "calcRequestsHash (sha256 pk) (requests_of pk i) = calcRequestsHash (sha256 pk) (requests_of pk i')"
    by (simp add: request_hash_def requests_of_def toHash32_inject)
  with requests_hash_binds [OF ty] sha show ?thesis unfolding requests_of_def by blast
qed

text \<open>The fields of a payload that its header repeats, the two lists apart.\<close>

lemma toBlock_fields:
  assumes "toBlock pk p (Some r) (Some h) = Inr b" and "toBlock pk p' (Some r') (Some h') = Inr b'"
    and "bk_header b = bk_header b'"
  shows "p\<lparr>block_hash := x, payload_transactions := [], payload_withdrawals := [], payload_block_access_list := []\<rparr> =
      p'\<lparr>block_hash := x, payload_transactions := [], payload_withdrawals := [], payload_block_access_list := []\<rparr>"
    and "r = r'" and "h = h'"
    and "txs_root pk (bk_transactions b) = txs_root pk (bk_transactions b')"
    and "wds_root pk (the (bk_withdrawals b)) = wds_root pk (the (bk_withdrawals b'))"
    and "keccak pk (payload_block_access_list p) = keccak pk (payload_block_access_list p')"
    and "bk_uncles b = bk_uncles b'" and "bk_withdrawals b = Some (payload_withdrawals p)"
    and "bk_withdrawals b' = Some (payload_withdrawals p')"
  using assms by (auto simp: toBlock_def payload_header_def split: sum.splits)

lemma payload_restore:
  fixes p p' :: execution_payload
  shows "p\<lparr>block_hash := x, payload_transactions := [], payload_withdrawals := [], payload_block_access_list := []\<rparr> =
      p'\<lparr>block_hash := x, payload_transactions := [], payload_withdrawals := [], payload_block_access_list := []\<rparr> \<Longrightarrow>
    block_hash p = block_hash p' \<Longrightarrow> payload_withdrawals p = payload_withdrawals p' \<Longrightarrow>
    payload_block_access_list p = payload_block_access_list p' \<Longrightarrow>
    p\<lparr>payload_transactions := []\<rparr> = p'\<lparr>payload_transactions := []\<rparr>"
  by (cases p; cases p') simp

text \<open>
  C5: the block hash pins the run. Two inputs that the guest accepts with the same block hash
  stand for the same block, with the same execution requests, versioned hashes and access list;
  their payloads can only differ in how transactions are encoded, their witnesses end in the
  same parent header. So nobody can get a block accepted with other requests, or on another
  state, than those its hash commits to.
\<close>

theorem block_hash_pins_input:
  assumes "executeNewPayload pk pow dbs dep i = Done ()" and "executeNewPayload pk pow' dbs' dep' i' = Done ()"
    and "block_hash (executionPayload (si_new_payload_request i)) = block_hash (executionPayload (si_new_payload_request i'))"
    and "no_collision pk i i'"
  shows "\<exists>blk. request_block pk i = Inr blk \<and> request_block pk i' = Inr blk \<and>
    (let req = si_new_payload_request i; req' = si_new_payload_request i' in
     (executionPayload req)\<lparr>payload_transactions := []\<rparr> = (executionPayload req')\<lparr>payload_transactions := []\<rparr> \<and>
     npr_versionedHashes req = npr_versionedHashes req' \<and>
     npr_parentBeaconBlockRoot req = npr_parentBeaconBlockRoot req' \<and>
     executionRequests req = executionRequests req' \<and>
     last (ew_headers (si_witness i)) = last (ew_headers (si_witness i')))"
proof -
  let ?req = "si_new_payload_request i" and ?req' = "si_new_payload_request i'"
  let ?p = "executionPayload ?req" and ?p' = "executionPayload ?req'"
  from assms(1) obtain b where b: "request_block pk i = Inr b" "header_hash pk (bk_header b) = block_hash ?p"
    "npr_versionedHashes ?req = blob_hashes (bk_transactions b)"
    "statelessProcessBlock pk pow dbs (si_witness i) (statelessCommon dep (si_chain_id i)) b = Done ()"
    unfolding executeNewPayload_Done request_block_def Let_def by blast
  from assms(2) obtain b' where b': "request_block pk i' = Inr b'" "header_hash pk (bk_header b') = block_hash ?p'"
    "npr_versionedHashes ?req' = blob_hashes (bk_transactions b')"
    "statelessProcessBlock pk pow' dbs' (si_witness i') (statelessCommon dep' (si_chain_id i')) b' = Done ()"
    unfolding executeNewPayload_Done request_block_def Let_def by blast
  from b(1) b'(1) assms(4) have inj: "inj_on (header_hash pk) {bk_header b, bk_header b'}"
      "inj_on (txs_root pk) {bk_transactions b, bk_transactions b'}"
      "inj_on (wds_root pk) {the (bk_withdrawals b), the (bk_withdrawals b')}"
    and kec: "inj_on (keccak pk) ({bal_bytes i, bal_bytes i'} \<union>
       set (ew_headers (si_witness i)) \<union> set (ew_headers (si_witness i')))"
    unfolding no_collision_def by blast+
  have hdr: "bk_header b = bk_header b'"
    by (rule inj_onD [OF inj(1)]) (simp_all add: b(2) b'(2) assms(3))
  note fields = toBlock_fields [OF b(1) [unfolded request_block_def Let_def]
      b'(1) [unfolded request_block_def Let_def] hdr]
  have txs: "bk_transactions b = bk_transactions b'" by (rule inj_onD [OF inj(2) fields(4)]) simp_all
  have wds: "payload_withdrawals ?p = payload_withdrawals ?p'"
    using inj_onD [OF inj(3) fields(5)] by (simp add: fields(8,9))
  have bal: "payload_block_access_list ?p = payload_block_access_list ?p'"
    by (rule inj_onD [OF kec fields(6)]) (simp_all add: bal_bytes_def)
  have "b = b'" using hdr txs fields(7) wds fields(8,9) by (simp add: eth_block.equality)
  moreover have "executionRequests ?req = executionRequests ?req'"
    using fields(3) by (intro request_hash_binds [OF assms(4)])
  moreover have "?p\<lparr>payload_transactions := []\<rparr> = ?p'\<lparr>payload_transactions := []\<rparr>"
    using fields(1) [of "0"] assms(3) wds bal by (rule payload_restore)
  moreover have "last (ew_headers (si_witness i)) = last (ew_headers (si_witness i'))"
  proof -
    from statelessProcessBlock_Done [OF b(4)] statelessProcessBlock_Done [OF b'(4)]
    obtain v v' where "verifyHeaders pk (si_witness i) (bk_header b) = Inr v"
      "verifyHeaders pk (si_witness i') (bk_header b') = Inr v'" by blast
    from this [THEN verified_parent_hash] hdr
    have "keccak pk (last (ew_headers (si_witness i))) = keccak pk (last (ew_headers (si_witness i')))"
      and "ew_headers (si_witness i) \<noteq> []" "ew_headers (si_witness i') \<noteq> []" by auto
    then show ?thesis by (intro inj_onD [OF kec]) auto
  qed
  ultimately show ?thesis
    unfolding Let_def using b(1,3) b'(1,3) txs fields(2) by auto
qed

lemma demo_no_collision:
  "no_collision demo_packages demo_input (demo_input\<lparr>si_chain_id := 5\<rparr>)"
proof -
  have "request_block demo_packages (demo_input\<lparr>si_chain_id := 5\<rparr>) = request_block demo_packages demo_input"
    by (simp add: request_block_def)
  moreover have "inj_on (keccak demo_packages) (set [[12], [8], [9]])"
  proof -
    have "distinct (map (keccak demo_packages) [[12], [8], [9]])" by code_simp
    then show ?thesis by (simp only: distinct_map)
  qed
  moreover have "distinct_types demo_types" by code_simp
  moreover have "collision_free demo_sha256 (request_preimages demo_sha256 (payloadRequests demo_types no_requests))"
    using demo_collision_free by (auto simp: collision_free_def intro: inj_on_subset)
  moreover have "bal_bytes (demo_input\<lparr>si_chain_id := cid\<rparr>) = [12]" "bal_bytes demo_input = [12]"
    "ew_headers (si_witness demo_input) = [[8], [9]]"
    "requests_of demo_packages (demo_input\<lparr>si_chain_id := cid\<rparr>) = payloadRequests demo_types no_requests"
    "requests_of demo_packages demo_input = payloadRequests demo_types no_requests"
    "request_type_bytes demo_packages = demo_types" "sha256 demo_packages = demo_sha256" for cid
    by (simp_all add: bal_bytes_def requests_of_def demo_input_def demo_packages_def block_payload_def Let_def)
  ultimately show ?thesis
    unfolding no_collision_def by (auto simp: insert_commute)
qed

theorem block_hash_pins_input_witness:
  "last (ew_headers (si_witness demo_input)) = last (ew_headers (si_witness (demo_input\<lparr>si_chain_id := 5\<rparr>)))"
proof -
  have "executeNewPayload demo_packages demo_pow demo_database (\<lambda>_. None) (demo_input\<lparr>si_chain_id := 5\<rparr>) = Done ()"
    by (simp add: demo_accepted_chain)
  from block_hash_pins_input [OF demo_accepted [of "\<lambda>_. None"] this _ demo_no_collision] show ?thesis
    by (auto simp: Let_def)
qed

text \<open>
  Where a run on the witness crashes: the database does not know the root of what it has loaded, or
  does not store a code; the executor of the block crashes, never ends or is cancelled, or ends well
  with another state root than the one of the header.
\<close>

definition stores_all :: "packages \<Rightarrow> 'db database \<Rightarrow> byte list list \<Rightarrow> 'db \<Rightarrow> 'db option" where
  "stores_all pk dbs codes db =
     foldl (\<lambda>d c. case d of None \<Rightarrow> None
        | Some d' \<Rightarrow> (case persistCodeByHash dbs (keccak pk c) c d' of Inl _ \<Rightarrow> None | Inr d'' \<Rightarrow> Some d''))
       (Some db) codes"

definition run_crashes ::
    "packages \<Rightarrow> pow_chain \<Rightarrow> 'db database \<Rightarrow> common \<Rightarrow> execution_witness \<Rightarrow> eth_block \<Rightarrow> bool" where
  "run_crashes pk pow dbs com w blk \<longleftrightarrow>
     (\<exists>verified loaded.
        verifyHeaders pk w (bk_header blk) = Inr verified \<and>
        putSubtrie dbs (stateRoot (last (vh_headers verified))) (node_table pk (ew_state w)) (newMemoryDb dbs) = Inr loaded \<and>
        (getStateRoot dbs loaded = None \<or>
         getStateRoot dbs loaded = Some (stateRoot (last (vh_headers verified))) \<and>
         (stores_all pk dbs (ew_codes w) loaded = None \<or>
          (\<exists>coded. stores_all pk dbs (ew_codes w) loaded = Some coded \<and>
             validateHeader pk pow com blk None True (last (vh_headers verified)) = Done () \<and>
             (case processBlock dbs com (last (vh_headers verified)) True blk (put_block_hashes dbs verified coded) of
                Done root' \<Rightarrow> root' \<noteq> stateRoot (bk_header blk)
              | Fail _ \<Rightarrow> False
              | _ \<Rightarrow> True)))))"

definition payload_crashes ::
    "packages \<Rightarrow> pow_chain \<Rightarrow> 'db database \<Rightarrow> (u256 \<Rightarrow> address option) \<Rightarrow> stateless_input \<Rightarrow> bool" where
  "payload_crashes pk pow dbs dep input \<longleftrightarrow>
     (\<exists>blk bal. let req = si_new_payload_request input; p = executionPayload req in
        toBlock pk p (Some (npr_parentBeaconBlockRoot req)) (Some (request_hash pk (executionRequests req))) = Inr blk \<and>
        header_hash pk (bk_header blk) = block_hash p \<and>
        npr_versionedHashes req = blob_hashes (bk_transactions blk) \<and>
        bal_decode pk (payload_block_access_list p) = Inr bal \<and>
        validateBal pk bal (keccak pk (payload_block_access_list p)) (gasLimit (bk_header blk)) = Inr () \<and>
        run_crashes pk pow dbs (statelessCommon dep (si_chain_id input)) (si_witness input) blk)"

lemma stores_all_None: "foldl (\<lambda>d c. case d of None \<Rightarrow> None | Some d' \<Rightarrow> f d' c) None cs = None"
  by (induction cs) simp_all

lemma persist_codes_outcome:
  "persist_codes pk dbs cs db = (case stores_all pk dbs cs db of None \<Rightarrow> Defect | Some db' \<Rightarrow> Done db')"
  by (induction cs arbitrary: db) (auto simp: stores_all_def stores_all_None split: sum.split)

lemma statelessProcessBlock_answers:
  "answers (statelessProcessBlock pk pow dbs w (statelessCommon dep cid) blk) \<longleftrightarrow>
     \<not> run_crashes pk pow dbs (statelessCommon dep cid) w blk"
proof (cases "verifyHeaders pk w (bk_header blk)")
  case (Inl e)
  then show ?thesis by (simp add: statelessProcessBlock_def run_crashes_def)
next
  case (Inr v)
  let ?parent = "last (vh_headers v)" and ?com = "statelessCommon dep cid"
  show ?thesis
  proof (cases "putSubtrie dbs (stateRoot ?parent) (node_table pk (ew_state w)) (newMemoryDb dbs)")
    case (Inl e)
    with Inr show ?thesis by (simp add: statelessProcessBlock_def run_crashes_def Let_def)
  next
    case loaded: (Inr db1)
    let ?valid = "validateHeader pk pow ?com blk None True ?parent"
    have end_of_run: "answers (bind_outcome ?valid (\<lambda>_. bind_outcome r
          (\<lambda>root'. if root' \<noteq> stateRoot (bk_header blk) then Defect else Done ()))) \<longleftrightarrow>
        \<not> (?valid = Done () \<and> (case r of Done root' \<Rightarrow> root' \<noteq> stateRoot (bk_header blk) | Fail _ \<Rightarrow> False | _ \<Rightarrow> True))"
      for r :: "(string, hash32) outcome"
      using guest_header_check_answers [of pk pow dep cid blk None True ?parent]
      by (cases r) (auto simp: answers_def)
    show ?thesis
      using Inr loaded end_of_run
      by (cases "getStateRoot dbs db1"; cases "stores_all pk dbs (ew_codes w) db1")
        (simp_all add: statelessProcessBlock_def run_crashes_def Let_def persist_codes_outcome amsterdam_everywhere
          answers_def [of Defect])
  qed
qed

lemma answers_check: "answers (case r of Inl e \<Rightarrow> Fail e | Inr _ \<Rightarrow> k) \<longleftrightarrow> (\<exists>u. r = Inr u) \<longrightarrow> answers k"
  by (cases r) simp_all

lemma executeNewPayload_answers:
  "answers (executeNewPayload pk pow dbs dep input) \<longleftrightarrow> \<not> payload_crashes pk pow dbs dep input"
proof (cases "toBlock pk (executionPayload (si_new_payload_request input))
    (Some (npr_parentBeaconBlockRoot (si_new_payload_request input)))
    (Some (request_hash pk (executionRequests (si_new_payload_request input))))")
  case (Inl e)
  then show ?thesis by (simp add: executeNewPayload_def payload_crashes_def Let_def)
next
  case (Inr blk)
  then have "blockAccessListHash (bk_header blk) =
      Some (keccak pk (payload_block_access_list (executionPayload (si_new_payload_request input))))"
    by (auto simp: toBlock_def payload_header_def split: sum.splits)
  with Inr show ?thesis
    by (auto simp: executeNewPayload_def payload_crashes_def Let_def answers_check check_payload_bal_def
        amsterdam_everywhere versioned_hashes_ok statelessProcessBlock_answers split: sum.splits)
qed

text \<open>
  C8: for which inputs the guest has a result. Whatever bytes it is given, no check of the header, of
  the payload or of the witness crashes or runs out of fuel: the guest ends without a result exactly
  if the input decodes, its payload passes every check that comes before the execution, and the
  database or the executor of the block crashes there, in one of the ways listed. In every other case
  the result is the constant for an input that does not decode, or the one for the request, with
  its root, chain and schema, and the verdict. Nothing is assumed of the database or the executor.
\<close>

theorem guest_answers_exactly:
  "if (\<exists>input. deserialize_stateless_input (ssz_decode_input z) data = Inr input \<and>
        payload_crashes pk pow dbs dep input)
   then \<forall>out. guest_program pk pow dbs dep z data \<noteq> Done out
   else \<exists>res. guest_program pk pow dbs dep z data = Done (ssz_encode_result z res) \<and>
    (case deserialize_stateless_input (ssz_decode_input z) data of
       Inl _ \<Rightarrow> res = FAILED_STATELESS_OUTPUT
     | Inr input \<Rightarrow>
         new_payload_request_root res = request_root pk (si_new_payload_request input) \<and>
         chain_id res = si_chain_id input \<and> schema_id res = STATELESS_INPUT_SCHEMA_ID \<and>
         (successful_validation res \<longleftrightarrow> executeNewPayload pk pow dbs dep input = Done ()))"
proof (cases "deserialize_stateless_input (ssz_decode_input z) data")
  case (Inl e)
  then show ?thesis by (simp add: guest_program_def run_stateless_guest_def)
next
  case (Inr input)
  show ?thesis
  proof (cases "payload_crashes pk pow dbs dep input")
    case True
    then have "\<not> answers (executeNewPayload pk pow dbs dep input)" by (simp add: executeNewPayload_answers)
    then have "guest_program pk pow dbs dep z data \<noteq> Done out" for out
      using Inr
      by (cases "executeNewPayload pk pow dbs dep input")
        (auto simp: guest_program_def run_stateless_guest_def verify_stateless_new_payload_def)
    with True Inr show ?thesis by simp
  next
    case False
    then have "answers (executeNewPayload pk pow dbs dep input)" by (simp add: executeNewPayload_answers)
    with False Inr show ?thesis
      by (auto simp: answers_def guest_program_def run_stateless_guest_def verify_stateless_new_payload_def)
  qed
qed

theorem guest_answers_exactly_witness:
  "(\<exists>res. guest_program demo_packages demo_pow demo_database (\<lambda>_. None) demo_ssz [0x15, 0x01, 1] =
       Done (ssz_encode_result demo_ssz res) \<and> successful_validation res) \<and>
   (\<forall>out. guest_program demo_packages demo_pow (demo_database\<lparr>persistCodeByHash := \<lambda>_ _ _. Inl ''full''\<rparr>)
       (\<lambda>_. None) demo_ssz [0x15, 0x01, 1] \<noteq> Done out)"
proof
  have input: "deserialize_stateless_input (ssz_decode_input demo_ssz) [0x15, 0x01, 1] = Inr demo_input" by code_simp
  have "\<not> payload_crashes demo_packages demo_pow demo_database (\<lambda>_. None) demo_input"
    using demo_accepted [of "\<lambda>_. None"] by (simp flip: executeNewPayload_answers)
  with input show "\<exists>res. guest_program demo_packages demo_pow demo_database (\<lambda>_. None) demo_ssz [0x15, 0x01, 1] =
       Done (ssz_encode_result demo_ssz res) \<and> successful_validation res"
    using guest_answers_exactly [of demo_ssz "[0x15, 0x01, 1]" demo_packages demo_pow demo_database "\<lambda>_. None"]
      demo_accepted [of "\<lambda>_. None"] by auto
  let ?full = "demo_database\<lparr>persistCodeByHash := \<lambda>_ _ _. Inl ''full''\<rparr>"
  have "payload_crashes demo_packages demo_pow ?full (\<lambda>_. None) demo_input"
  proof -
    have "verifyHeaders demo_packages (si_witness demo_input) (bk_header demo_block) =
        Inr \<lparr>vh_headers = [demo_header 8 1007, demo_header 9 1008], vh_hashes = [1008, 1009]\<rparr>"
      by code_simp
    then have "statelessProcessBlock demo_packages demo_pow ?full (si_witness demo_input)
        (statelessCommon (\<lambda>_. None) 1) demo_block = Defect"
      by (simp add: statelessProcessBlock_def Let_def) (simp add: demo_database_def demo_input_def)
    then have "executeNewPayload demo_packages demo_pow ?full (\<lambda>_. None) demo_input = Defect"
      by (simp add: built_verdict [OF demo_built demo_sealed demo_bal])
    then show ?thesis
      using executeNewPayload_answers [of demo_packages demo_pow ?full "\<lambda>_. None" demo_input] by (simp add: answers_def)
  qed
  with input show "\<forall>out. guest_program demo_packages demo_pow ?full (\<lambda>_. None) demo_ssz [0x15, 0x01, 1] \<noteq> Done out"
    using guest_answers_exactly [of demo_ssz "[0x15, 0x01, 1]" demo_packages demo_pow ?full "\<lambda>_. None"] by auto
qed

end
