(* ===== verification/Light_Client.thy ===== *)
theory Light_Client
  imports Engine_State
begin

text \<open>
  The synchronisation of the engine with the beacon chain (\<open>syncOnce\<close> of \<open>engine/engine.nim\<close>):
  which light client objects are asked for, of whom, in which state, what a refused object
  becomes, and how the verified headers become the anchors of the header store.

  The light client itself, its store and the verification of objects, is nimbus-eth2's: the
  argument \<open>lc_package\<close>.
\<close>

section \<open>The light client and its objects\<close>

datatype lc_verifier_error = MissingParent | Duplicate | UnviableFork | Invalid

datatype lc_event = StoreInitialized | FinalizedHeader | OptimisticHeader

text \<open>
  Of a store \<open>'st\<close>: whether it is initialized, the slots of its headers, whether the next sync
  committee is known, and the execution block hashes of its headers, if they have any (\<open>altair\<close>
  headers have not). \<open>addObject\<close> is the processor: the store after it, which callbacks it makes,
  and its verdict on the object.
\<close>

record ('st, 'obj) lc_package =
  store_initialized :: "'st \<Rightarrow> bool"
  store_finalized_slot :: "'st \<Rightarrow> u64"
  store_optimistic_slot :: "'st \<Rightarrow> u64"
  store_next_committee_known :: "'st \<Rightarrow> bool"
  finalized_block_hash :: "'st \<Rightarrow> hash32 option"
  optimistic_block_hash :: "'st \<Rightarrow> hash32 option"
  addObject :: "nat \<Rightarrow> 'obj \<Rightarrow> 'st \<Rightarrow> 'st \<times> lc_event list \<times> (lc_verifier_error + unit)"
  checkLightClientUpdates :: "'obj list \<Rightarrow> u64 \<Rightarrow> u64 \<Rightarrow> string + unit"
  epoch_of :: "u64 \<Rightarrow> u64"
  at_lock :: "nat \<Rightarrow> 'st \<Rightarrow> 'st"

text \<open>The operations of a beacon backend.\<close>

record 'obj beacon_api =
  bb_getLightClientBootstrap :: "hash32 \<Rightarrow> 'obj reply"
  bb_getLightClientUpdatesByRange :: "u64 \<Rightarrow> u64 \<Rightarrow> 'obj list reply"
  bb_getLightClientOptimisticUpdate :: "'obj reply"
  bb_getLightClientFinalityUpdate :: "'obj reply"

text \<open>The beacon fields of an engine. A store is only there once the engine is initialized.\<close>

record 'st lc_fields =
  lcStore :: 'st
  lcProcessor :: bool
  lc_trustedBlockRoot :: "hash32 option"
  lc_maxLightClientUpdates :: u64
  lc_syncHeaderStore :: bool

type_synonym ('st, 'obj) synced_engine = "'obj beacon_api engine \<times> 'st lc_fields"
type_synonym ('st, 'obj, 'a) sync_proc = "(('st, 'obj) synced_engine, error_tuple, 'a) proc"

definition on_engine :: "('obj beacon_api, 'a) engine_proc \<Rightarrow> ('st, 'obj, 'a) sync_proc" where
  "on_engine m = (\<lambda>(e, c). case m e of (out, e') \<Rightarrow> (out, (e', c)))"

section \<open>The callbacks\<close>

definition isLCStoreInitialized :: "('st, 'obj) lc_package \<Rightarrow> 'st lc_fields \<Rightarrow> bool" where
  "isLCStoreInitialized pk c \<longleftrightarrow> store_initialized pk (lcStore c)"

text \<open>\<open>GENESIS_SLOT\<close> of a store that is not initialized is slot 0.\<close>

definition getLCFinalizedSlot :: "('st, 'obj) lc_package \<Rightarrow> 'st lc_fields \<Rightarrow> u64" where
  "getLCFinalizedSlot pk c = (if store_initialized pk (lcStore c) then store_finalized_slot pk (lcStore c) else 0)"

definition getLCOptimisticSlot :: "('st, 'obj) lc_package \<Rightarrow> 'st lc_fields \<Rightarrow> u64" where
  "getLCOptimisticSlot pk c = (if store_initialized pk (lcStore c) then store_optimistic_slot pk (lcStore c) else 0)"

definition isLCNextSyncCommitteeKnown :: "('st, 'obj) lc_package \<Rightarrow> 'st lc_fields \<Rightarrow> bool" where
  "isLCNextSyncCommitteeKnown pk c \<longleftrightarrow>
     store_initialized pk (lcStore c) \<and> store_next_committee_known pk (lcStore c)"

definition put_anchor :: "hash32 option \<Rightarrow> header_trust \<Rightarrow> 'b engine \<Rightarrow> 'b engine" where
  "put_anchor h t e =
     (case h of None \<Rightarrow> e | Some hash \<Rightarrow> e\<lparr>headerStore := putHash hash t (headerStore e)\<rparr>)"

fun on_event :: "('st, 'obj) lc_package \<Rightarrow> 'st lc_fields \<Rightarrow> lc_event \<Rightarrow> 'b engine \<Rightarrow> 'b engine" where
  "on_event pk c StoreInitialized e = e"
| "on_event pk c FinalizedHeader e =
     (if \<not> lc_syncHeaderStore c then e
      else put_anchor (finalized_block_hash pk (lcStore c)) Finalized e)"
| "on_event pk c OptimisticHeader e =
     (if \<not> lc_syncHeaderStore c then e
      else put_anchor (optimistic_block_hash pk (lcStore c)) Optimistic e)"

section \<open>One object\<close>

text \<open>While the verdict is awaited other tasks may run, but none of them synchronises.\<close>

definition processObject ::
    "'obj beacon_api env \<Rightarrow> ('st, 'obj) lc_package \<Rightarrow> 'obj \<Rightarrow> ('st, 'obj, unit) sync_proc" where
  "processObject env pk obj = (\<lambda>(e, c).
     let (st, events, res) = addObject pk (clock e) obj (lcStore c);
         c' = c\<lparr>lcStore := st\<rparr>;
         e' = interfere env (clock e) (tick (fold (on_event pk c') events e))
     in (if cancels env (clock e) then Cancelled
         else case res of
           Inr _ \<Rightarrow> Done ()
         | Inl MissingParent \<Rightarrow> Fail (engine_err UnavailableDataError ''missing parent'')
         | Inl Duplicate \<Rightarrow> Done ()
         | Inl UnviableFork \<Rightarrow> Fail (engine_err VerificationError ''unviable fork'')
         | Inl Invalid \<Rightarrow> Fail (engine_err VerificationError ''invalid LC value''),
         (e', c')))"

definition blamed :: "nat \<Rightarrow> ('s, error_tuple, 'a) proc \<Rightarrow> ('s, error_tuple, 'a) proc" where
  "blamed idx m = (\<lambda>s. case m s of (Fail err, s') \<Rightarrow> (Fail (tag_error idx err), s') | r \<Rightarrow> r)"

definition ask_beacon ::
    "'obj beacon_api env \<Rightarrow> capability \<Rightarrow> ('obj beacon_api \<Rightarrow> 'a reply) \<Rightarrow> ('st, 'obj, 'a \<times> nat) sync_proc" where
  "ask_beacon env cap call =
     andThen (on_engine (\<lambda>e. beaconBackendFor (draw env (clock e)) cap (tick e))) (\<lambda>(backend, idx).
       andThen (on_engine (tagged idx (await env (call backend)))) (\<lambda>x. ret (x, idx)))"

text \<open>One object from a backend, verified on its account.\<close>

definition fetch_object ::
    "'obj beacon_api env \<Rightarrow> ('st, 'obj) lc_package \<Rightarrow> capability \<Rightarrow> ('obj beacon_api \<Rightarrow> 'obj reply) \<Rightarrow>
     ('st, 'obj, unit) sync_proc" where
  "fetch_object env pk cap call =
     andThen (ask_beacon env cap call) (\<lambda>(obj, idx). blamed idx (processObject env pk obj))"

section \<open>Synchronisation\<close>

text \<open>The range of sync committee updates to ask for, if any.\<close>

definition updates_count :: "u64 \<Rightarrow> u64 \<Rightarrow> u64 \<Rightarrow> u64" where
  "updates_count finalizedPeriod currentPeriod maxUpdates =
     (if currentPeriod \<le> finalizedPeriod then 1 else min (currentPeriod - finalizedPeriod) maxUpdates)"

fun process_updates ::
    "'obj beacon_api env \<Rightarrow> ('st, 'obj) lc_package \<Rightarrow> nat \<Rightarrow> 'obj list \<Rightarrow> ('st, 'obj, unit) sync_proc" where
  "process_updates env pk idx [] = ret ()"
| "process_updates env pk idx (obj # objs) =
     andThen (blamed idx (processObject env pk obj)) (\<lambda>_. process_updates env pk idx objs)"

definition sync_updates ::
    "'obj beacon_api env \<Rightarrow> ('st, 'obj) lc_package \<Rightarrow> u64 \<Rightarrow> u64 \<Rightarrow> ('st, 'obj, unit) sync_proc" where
  "sync_updates env pk period count =
     andThen (ask_beacon env BeaconUpdates (\<lambda>b. bb_getLightClientUpdatesByRange b period count)) (\<lambda>(objs, idx).
       case checkLightClientUpdates pk objs period count of
         Inl e \<Rightarrow> fail \<lparr>errType = VerificationError,
           errMsg = ''light client updates checking failed: '' @ e, backendIdx = int idx\<rparr>
       | Inr _ \<Rightarrow> process_updates env pk idx objs)"

definition bootstrap :: "'obj beacon_api env \<Rightarrow> ('st, 'obj) lc_package \<Rightarrow> ('st, 'obj, unit) sync_proc" where
  "bootstrap env pk =
     andThen (gets snd) (\<lambda>c.
       if isLCStoreInitialized pk c then ret ()
       else case lc_trustedBlockRoot c of
          None \<Rightarrow> fail (engine_err UnavailableDataError ''trusted block root not set'')
        | Some block_root \<Rightarrow> fetch_object env pk BeaconBootstrap (\<lambda>b. bb_getLightClientBootstrap b block_root))"

text \<open>The slot now; reading a clock that is not there is a crash.\<close>

definition beacon_now :: "'obj beacon_api env \<Rightarrow> ('st, 'obj, u64) sync_proc" where
  "beacon_now env =
     andThen (gets (\<lambda>(e, c). beaconSlot (light_client_at env (clock e)))) (\<lambda>slot.
       case slot of None \<Rightarrow> defect | Some s \<Rightarrow> ret s)"

definition sync_from ::
    "'obj beacon_api env \<Rightarrow> ('st, 'obj) lc_package \<Rightarrow> u64 \<Rightarrow> 'st lc_fields \<Rightarrow> ('st, 'obj, unit) sync_proc" where
  "sync_from env pk current c =
     (let finalized = getLCFinalizedSlot pk c;
          optimistic = getLCOptimisticSlot pk c;
          period = sync_committee_period env
      in andThen
           (if period finalized = period optimistic \<and> \<not> isLCNextSyncCommitteeKnown pk c
            then sync_updates env pk (period finalized)
                   (updates_count (period finalized) (period current) (lc_maxLightClientUpdates c))
            else ret ()) (\<lambda>_.
         andThen
           (if optimistic + 1 < current
            then fetch_object env pk BeaconOptimistic bb_getLightClientOptimisticUpdate
            else ret ()) (\<lambda>_.
         if epoch_of pk finalized + 2 < epoch_of pk current
         then fetch_object env pk BeaconFinality bb_getLightClientFinalityUpdate
         else ret ())))"

text \<open>While the lock is waited for another synchronisation may run.\<close>

definition acquire_lock :: "'obj beacon_api env \<Rightarrow> ('st, 'obj) lc_package \<Rightarrow> ('st, 'obj, unit) sync_proc" where
  "acquire_lock env pk = (\<lambda>(e, c).
     (if cancels env (clock e) then Cancelled else Done (),
      (interfere env (clock e) (tick e), c\<lparr>lcStore := at_lock pk (clock e) (lcStore c)\<rparr>)))"

definition syncOnce :: "'obj beacon_api env \<Rightarrow> ('st, 'obj) lc_package \<Rightarrow> ('st, 'obj, unit) sync_proc" where
  "syncOnce env pk =
     andThen (acquire_lock env pk) (\<lambda>_.
     andThen (gets (lcProcessor \<circ> snd)) (\<lambda>ready.
       if \<not> ready then fail (engine_err UnavailableDataError ''beacon not initialized'')
       else andThen (bootstrap env pk) (\<lambda>_.
            andThen (beacon_now env) (\<lambda>current.
            andThen (gets snd) (\<lambda>c. sync_from env pk current c)))))"

section \<open>Invariants of a synchronisation\<close>

text \<open>
  What keeps an invariant through a synchronisation, whatever the backends answer: it survives
  the selection of a backend, the other tasks, the processor with its callbacks, and the wait for
  the lock.
\<close>

locale sync_invariant =
  fixes env :: "'obj beacon_api env"
    and pk :: "('st, 'obj) lc_package"
    and I :: "('st, 'obj) synced_engine \<Rightarrow> bool"
  assumes keeps_select: "I (e, c) \<Longrightarrow> I (snd (beaconBackendFor d cap (tick e)), c)"
    and keeps_others: "I (e, c) \<Longrightarrow> I (interfere env n (tick e), c)"
    and keeps_verify: "I (e, c) \<Longrightarrow> addObject pk n obj (lcStore c) = (st, events, res) \<Longrightarrow>
      I (fold (on_event pk (c\<lparr>lcStore := st\<rparr>)) events e, c\<lparr>lcStore := st\<rparr>)"
    and keeps_lock: "I (e, c) \<Longrightarrow> I (e, c\<lparr>lcStore := at_lock pk n (lcStore c)\<rparr>)"
begin

lemma yieldsI: "(\<And>s. I s \<Longrightarrow> I (snd (m s)) \<and> fst (m s) \<noteq> Stuck) \<Longrightarrow> yields I m (\<lambda>_. True)"
  unfolding yields_def
proof (rule hoareI)
  fix s assume "\<And>s. I s \<Longrightarrow> I (snd (m s)) \<and> fst (m s) \<noteq> Stuck" "I s"
  then have "I (snd (m s)) \<and> fst (m s) \<noteq> Stuck" by blast
  then show "ends (\<lambda>x s. I s \<and> True) I (m s)" by (cases "m s"; cases "fst (m s)") auto
qed

lemma beaconBackendFor_not_stuck: "fst (beaconBackendFor d cap e) \<noteq> Stuck"
  by (simp add: beaconBackendFor_def andThen_def selectBackend_def Let_def
      split: prod.splits outcome.splits option.splits sum.splits)

lemma yields_select:
  "yields I (on_engine (\<lambda>e. beaconBackendFor (draw env (clock e)) cap (tick e))) (\<lambda>_. True)"
proof (rule yieldsI)
  fix s assume "I s"
  moreover obtain e c where "s = (e, c)" by (cases s)
  ultimately show "I (snd (on_engine (\<lambda>e. beaconBackendFor (draw env (clock e)) cap (tick e)) s)) \<and>
      fst (on_engine (\<lambda>e. beaconBackendFor (draw env (clock e)) cap (tick e)) s) \<noteq> Stuck"
    using keeps_select [of e c "draw env (clock e)" cap]
      beaconBackendFor_not_stuck [of "draw env (clock e)" cap "tick e"]
    by (auto simp: on_engine_def split: prod.split)
qed

lemma yields_reply: "yields I (on_engine (tagged idx (await env reply))) (\<lambda>_. True)"
proof (rule yieldsI)
  fix s assume "I s"
  moreover obtain e c where "s = (e, c)" by (cases s)
  ultimately show "I (snd (on_engine (tagged idx (await env reply)) s)) \<and>
      fst (on_engine (tagged idx (await env reply)) s) \<noteq> Stuck"
    using keeps_others [of e c "clock e"]
    by (auto simp: on_engine_def tagged_def await_def split: option.split sum.split)
qed

lemma yields_ask_beacon: "yields I (ask_beacon env cap call) (\<lambda>_. True)"
  unfolding ask_beacon_def
  by (rule yields_bind [OF yields_select], rule yields_case_prod, rule yields_bind [OF yields_reply])
    (simp add: yields_rules)

lemma yields_processObject: "yields I (blamed idx (processObject env pk obj)) (\<lambda>_. True)"
proof (rule yieldsI)
  fix s assume I: "I s"
  obtain e c where s: "s = (e, c)" by (cases s)
  obtain st events res where add: "addObject pk (clock e) obj (lcStore c) = (st, events, res)"
    by (cases "addObject pk (clock e) obj (lcStore c)")
  from keeps_others [OF keeps_verify [OF I [unfolded s] add], of "clock e"]
  show "I (snd (blamed idx (processObject env pk obj) s)) \<and> fst (blamed idx (processObject env pk obj) s) \<noteq> Stuck"
    by (auto simp: blamed_def processObject_def s add Let_def split: sum.split lc_verifier_error.split)
qed

lemma yields_fetch_object: "yields I (fetch_object env pk cap call) (\<lambda>_. True)"
  unfolding fetch_object_def
  by (rule yields_bind [OF yields_ask_beacon], rule yields_case_prod, rule yields_processObject)

lemma yields_process_updates: "yields I (process_updates env pk idx objs) (\<lambda>_. True)"
  by (induction objs) (auto simp: yields_rules intro: yields_bind [OF yields_processObject])

lemma yields_sync_updates: "yields I (sync_updates env pk period count) (\<lambda>_. True)"
  unfolding sync_updates_def
  by (rule yields_bind [OF yields_ask_beacon], rule yields_case_prod)
    (auto simp: yields_rules yields_process_updates split: sum.split)

lemma yields_look: "yields I (gets f) (\<lambda>_. True)"
  by (rule yields_gets) simp

lemma yields_syncOnce: "yields I (syncOnce env pk) (\<lambda>_. True)"
proof -
  have lock: "yields I (acquire_lock env pk) (\<lambda>_. True)"
  proof (rule yieldsI)
    fix s assume "I s"
    moreover obtain e c where "s = (e, c)" by (cases s)
    ultimately show "I (snd (acquire_lock env pk s)) \<and> fst (acquire_lock env pk s) \<noteq> Stuck"
      using keeps_others [OF keeps_lock, of e c "clock e" "clock e"] by (simp add: acquire_lock_def)
  qed
  have boot: "yields I (bootstrap env pk) (\<lambda>_. True)"
    unfolding bootstrap_def
    by (rule yields_bind [OF yields_look]) (intro yields_rules yields_fetch_object TrueI)
  have now: "yields I (beacon_now env) (\<lambda>_. True)"
    unfolding beacon_now_def by (rule yields_bind [OF yields_look]) (intro yields_rules TrueI)
  have "yields I (sync_from env pk current c) (\<lambda>_. True)" for current c
    unfolding sync_from_def Let_def
    by (intro yields_bind [where A = "\<lambda>_. True"] yields_rules yields_sync_updates yields_fetch_object TrueI)
  then show ?thesis
    unfolding syncOnce_def
    by (intro yields_bind [OF lock] yields_bind [OF yields_look] yields_bind [OF boot] yields_bind [OF now] yields_rules)
qed

end

section \<open>The anchors\<close>

text \<open>
  What is relied on of the light client: from a good store it only reaches good ones, whatever
  objects it is given, and the headers of a good store are what they claim to be.
\<close>

definition lc_sound ::
    "'b env \<Rightarrow> truth \<Rightarrow> ('st, 'obj) lc_package \<Rightarrow> ('st \<Rightarrow> bool) \<Rightarrow> bool" where
  "lc_sound env w pk good \<longleftrightarrow>
     (\<forall>n obj st. good st \<longrightarrow> good (fst (addObject pk n obj st))) \<and>
     (\<forall>n st. good st \<longrightarrow> good (at_lock pk n st)) \<and>
     (\<forall>st h. good st \<and> finalized_block_hash pk st = Some h \<longrightarrow>
        (\<exists>hdr \<in> trusted w Finalized. computeBlockHash env hdr = h)) \<and>
     (\<forall>st h. good st \<and> optimistic_block_hash pk st = Some h \<longrightarrow>
        (\<exists>hdr \<in> trusted w Optimistic. computeBlockHash env hdr = h))"

definition anchored ::
    "'obj beacon_api env \<Rightarrow> truth \<Rightarrow> ('st, 'obj) lc_package \<Rightarrow> ('st \<Rightarrow> bool) \<Rightarrow> ('st, 'obj) synced_engine \<Rightarrow> bool" where
  "anchored env w pk good = (\<lambda>(e, c). calm env w \<and> lc_sound env w pk good \<and> engine_ok env w e \<and> good (lcStore c))"

lemma engine_ok_put_anchor:
  assumes "engine_ok env w e" and "\<And>h. hash = Some h \<Longrightarrow> \<exists>hdr \<in> trusted w t. computeBlockHash env hdr = h"
  shows "engine_ok env w (put_anchor hash t e)"
proof (cases hash)
  case (Some h)
  with assms(2) obtain hdr where "hdr \<in> trusted w t" "computeBlockHash env hdr = h" by blast
  from store_ok_putHash [OF engine_okD(2) [OF assms(1)] this] assms(1) Some show ?thesis
    by (simp add: put_anchor_def engine_ok_def)
qed (simp add: put_anchor_def assms(1))

lemma engine_ok_on_event:
  assumes "lc_sound env w pk good" and "good (lcStore c)" and "engine_ok env w e"
  shows "engine_ok env w (on_event pk c ev e)"
  using assms
  by (cases ev) (auto simp: lc_sound_def intro!: engine_ok_put_anchor)

lemma engine_ok_on_events:
  assumes "lc_sound env w pk good" and "good (lcStore c)" and "engine_ok env w e"
  shows "engine_ok env w (fold (on_event pk c) events e)"
  using assms(3) by (induction events arbitrary: e) (auto intro: engine_ok_on_event [OF assms(1,2)])

lemma beaconBackendFor_state: "snd (beaconBackendFor d cap e) = snd (selectBackend d cap e)"
  by (auto simp: beaconBackendFor_def andThen_def split: prod.splits outcome.splits option.splits)

lemma engine_ok_select:
  assumes "engine_ok env w e"
  shows "engine_ok env w (snd (selectBackend d cap e))"
proof -
  obtain sc where sc: "snd (selectBackend d cap e) = e\<lparr>scores := sc\<rparr>"
    using selectBackend_only_scores by blast
  have "pool_ok (snd (selectBackend d cap e))" using assms by (intro pool_ok_select engine_okD(1))
  with assms show ?thesis unfolding sc by (rule engine_ok_scores)
qed

interpretation anchors: sync_invariant env pk "anchored env w pk good" for env w pk good
proof unfold_locales
  fix e c d cap
  show "anchored env w pk good (e, c) \<Longrightarrow> anchored env w pk good (snd (beaconBackendFor d cap (tick e)), c)"
    by (simp add: anchored_def beaconBackendFor_state engine_ok_select)
next
  fix e c n
  show "anchored env w pk good (e, c) \<Longrightarrow> anchored env w pk good (interfere env n (tick e), c)"
    by (simp add: anchored_def calm_def)
next
  fix e c n obj st events res
  assume "anchored env w pk good (e, c)" "addObject pk n obj (lcStore c) = (st, events, res)"
  then have "lc_sound env w pk good" "good st" "engine_ok env w e" "calm env w"
    unfolding anchored_def lc_sound_def by (auto, metis fst_conv)
  then show "anchored env w pk good (fold (on_event pk (c\<lparr>lcStore := st\<rparr>)) events e, c\<lparr>lcStore := st\<rparr>)"
    by (simp add: anchored_def engine_ok_on_events)
next
  fix e c n
  show "anchored env w pk good (e, c) \<Longrightarrow> anchored env w pk good (e, c\<lparr>lcStore := at_lock pk n (lcStore c)\<rparr>)"
    by (auto simp: anchored_def lc_sound_def)
qed

section \<open>The scores\<close>





section \<open>The blame\<close>

text \<open>What the errors of a procedure satisfy.\<close>

definition fails_with :: "(error_tuple \<Rightarrow> bool) \<Rightarrow> ('s, error_tuple, 'a) proc \<Rightarrow> bool" where
  "fails_with P m \<longleftrightarrow> (\<forall>s err s'. m s = (Fail err, s') \<longrightarrow> P err)"

named_theorems fails_rules \<comment> \<open>introduction rules for \<open>fails_with\<close>\<close>

lemma fails_andThen [fails_rules]:
  "fails_with P m \<Longrightarrow> (\<And>x. fails_with P (f x)) \<Longrightarrow> fails_with P (andThen m f)"
  unfolding fails_with_def andThen_def by (auto split: prod.splits outcome.splits)

lemma fails_basic [fails_rules]:
  "fails_with P (ret x)" "P err \<Longrightarrow> fails_with P (fail err)" "fails_with P defect" "fails_with P (gets f)"
  "(b \<Longrightarrow> fails_with P m) \<Longrightarrow> (\<not> b \<Longrightarrow> fails_with P n) \<Longrightarrow> fails_with P (if b then m else n)"
  by (auto simp: fails_with_def ret_def fail_def defect_def gets_def)

lemma fails_cases [fails_rules]:
  "fails_with P m \<Longrightarrow> (\<And>y. fails_with P (f y)) \<Longrightarrow> fails_with P (case x of None \<Rightarrow> m | Some y \<Rightarrow> f y)"
  "(\<And>a b. fails_with P (g a b)) \<Longrightarrow> fails_with P (case p of (a, b) \<Rightarrow> g a b)"
  by (simp_all split: option.split prod.split)









section \<open>A concrete light client\<close>

text \<open>A light client that knows one header, of slot 7, and takes anything else for invalid.\<close>

definition demo_lc :: "(u64 option, u64) lc_package" where
  "demo_lc =
     \<lparr>store_initialized = (\<lambda>st. st \<noteq> None), store_finalized_slot = the, store_optimistic_slot = the,
      store_next_committee_known = (\<lambda>_. True),
      finalized_block_hash = map_option (\<lambda>n. ucast n + 1000),
      optimistic_block_hash = map_option (\<lambda>n. ucast n + 1000),
      addObject = (\<lambda>_ obj st. if obj = 7 then (Some 7, [StoreInitialized, FinalizedHeader, OptimisticHeader], Inr ())
        else (st, [], Inl Invalid)),
      checkLightClientUpdates = (\<lambda>_ _ _. Inr ()), epoch_of = (\<lambda>slot. slot div 32), at_lock = (\<lambda>_ st. st)\<rparr>"

definition demo_sync_env :: "u64 \<Rightarrow> u64 beacon_api env" where
  "demo_sync_env slot =
     \<lparr>interfere = (\<lambda>_ e. e), draw = (\<lambda>_. 0), evicts = (\<lambda>_ _. False), evicts_account = (\<lambda>_ _. False),
      evicts_slot = (\<lambda>_ _. False), computeBlockHash = number_hash, keccak256 = (\<lambda>_. 3),
      rlp_account = (\<lambda>_. []), rlp_u256 = (\<lambda>_. []), verifyMptProof = (\<lambda>_ _ _ _. InvalidProof ''bad proof''),
      EMPTY_ROOT_HASH = 1, EMPTY_CODE_HASH = 2, txTrieRoot = (\<lambda>_. 4), withdrawalsTrieRoot = (\<lambda>_. 5),
      computeRlpHash = (\<lambda>_. 6), cancels = (\<lambda>_. False), tag_text = (\<lambda>_. ''a tag''), receiptsTrieRoot = (\<lambda>_. 7),
      light_client_at = (\<lambda>_. \<lparr>beaconSlot = Some slot, lcStoreInitialized = True,
        nextSyncCommitteeKnown = True, finalizedSlot = 0, optimisticSlot = 0\<rparr>),
      sync_committee_period = (\<lambda>s. s div 8192), randomBytes = (\<lambda>_. []), toHex = (\<lambda>_. [])\<rparr>"

definition demo_beacon :: "u64 \<Rightarrow> u64 beacon_api" where
  "demo_beacon obj =
     \<lparr>bb_getLightClientBootstrap = (\<lambda>_ _. Some (Inr 7)), bb_getLightClientUpdatesByRange = (\<lambda>_ _ _. Some (Inr [])),
      bb_getLightClientOptimisticUpdate = (\<lambda>_. Some (Inr obj)),
      bb_getLightClientFinalityUpdate = (\<lambda>_. Some (Inr obj))\<rparr>"

definition demo_sync_engine :: "u64 \<Rightarrow> u64 beacon_api engine" where
  "demo_sync_engine obj =
     \<lparr>numBackends = 1, executionBackends = Map.empty, beaconBackends = [0 \<mapsto> demo_beacon obj],
      scores = [0 \<mapsto> \<lparr>availability = 0, quality = 0\<rparr>],
      capabilityIndex = (\<lambda>cap. if cap \<in> fullBeaconCapabilities then [0] else []),
      availabilityScoreFunc = defaultAvailabilityScoreFunc, qualityScoreFunc = defaultQualityScoreFunc,
      headerStore = new_store, filterStore = [], accountsCache = Map.empty, codeCache = Map.empty,
      storageCache = Map.empty, engine_chainId = 1, maxBlockWalk = 1000, maxWindowJumps = 500,
      parallelBlockDownloads = 10, eip2935ForkTime = None, archive = False, clock = 0\<rparr>"

definition demo_fields :: "u64 option lc_fields" where
  "demo_fields =
     \<lparr>lcStore = None, lcProcessor = True, lc_trustedBlockRoot = Some 3, lc_maxLightClientUpdates = 128,
      lc_syncHeaderStore = True\<rparr>"

lemma demo_sync_pool: "pool_ok (demo_sync_engine obj)"
  by (auto simp: pool_ok_def demo_sync_engine_def score_ok_def dest: capability_kinds split: if_splits)

definition demo_sync_truth :: truth where
  "demo_sync_truth =
     \<lparr>trusted = (\<lambda>t. if t = NoTrust then UNIV else range (\<lambda>n. empty_header\<lparr>number := n\<rparr>)), state_roots = UNIV,
      account_at = (\<lambda>_ _. \<lparr>acc_nonce = 0, acc_balance = 0, acc_storageRoot = 1, acc_codeHash = 2\<rparr>), slot_at = (\<lambda>_ _. 0)\<rparr>"

lemma demo_lc_sound: "lc_sound (demo_sync_env slot) demo_sync_truth demo_lc (\<lambda>_. True)"
  by (auto simp: lc_sound_def demo_sync_truth_def demo_sync_env_def demo_lc_def number_hash_def empty_header_def)

section \<open>Properties\<close>

text \<open>
  Whatever the beacon backends send, and however a synchronisation ends, the hashes it leaves
  as anchors in the header store are those of headers that deserve the trust they stand for, if
  the light client is sound.
\<close>

theorem sync_keeps_anchors_true:
  assumes "calm env w" and "lc_sound env w pk good" and "engine_ok env w e" and "good (lcStore c)"
    and "syncOnce env pk (e, c) = (out, (e', c'))"
  shows "engine_ok env w e' \<and> good (lcStore c') \<and> out \<noteq> Stuck \<and>
    (\<forall>t h. getHash (headerStore e') t = Some h \<longrightarrow> (\<exists>hdr \<in> trusted w t. computeBlockHash env hdr = h))"
proof -
  have "anchored env w pk good (e, c)" using assms(1-4) by (simp add: anchored_def)
  with anchors.yields_syncOnce [of env w pk good] have "ends (\<lambda>_ s. anchored env w pk good s)
      (anchored env w pk good) (syncOnce env pk (e, c))"
    by (auto simp: yields_def dest: hoareD)
  then have "anchored env w pk good (e', c') \<and> out \<noteq> Stuck"
    unfolding assms(5) by (cases out) auto
  then have "engine_ok env w e'" "good (lcStore c')" "out \<noteq> Stuck" by (auto simp: anchored_def)
  with store_okD(4) [OF engine_okD(2) [OF this(1)]] show ?thesis by blast
qed



lemma demo_sync_anchor:
  "getHash (headerStore (fst (snd (syncOnce (demo_sync_env 8) demo_lc (demo_sync_engine 99, demo_fields))))) Finalized =
     Some 1007"
  by code_simp

theorem sync_keeps_anchors_true_witness:
  "\<exists>out e' c'. syncOnce (demo_sync_env 8) demo_lc (demo_sync_engine 99, demo_fields) = (out, (e', c')) \<and>
     getHash (headerStore e') Finalized = Some 1007 \<and>
     (\<exists>hdr \<in> trusted demo_sync_truth Finalized. number_hash hdr = 1007)"
proof -
  obtain out e' c' where run:
    "syncOnce (demo_sync_env 8) demo_lc (demo_sync_engine 99, demo_fields) = (out, (e', c'))"
    by (metis prod_cases3)
  have ok: "engine_ok (demo_sync_env 8) demo_sync_truth (demo_sync_engine 99)"
    unfolding engine_ok_def
    by (intro conjI demo_sync_pool) (auto simp: demo_sync_engine_def filters_ok_def store_ok_new)
  have "calm (demo_sync_env 8) demo_sync_truth" by (rule calm_quiet) (simp add: demo_sync_env_def)
  from sync_keeps_anchors_true [OF this demo_lc_sound ok _ run] demo_sync_anchor run
  show ?thesis by (simp add: demo_sync_env_def)
qed


end
