(* ===== verification/Proxy_Main.thy ===== *)
theory Proxy_Main
  imports Light_Client Op_Engine Proxy_Config
begin

text \<open>
  The proxy as a program: what a network name denotes (\<open>engine/genesis_params.nim\<close>,
  \<open>engine/utils.nim\<close>), how the engines are made (\<open>initCore\<close> and \<open>init\<close> of \<open>engine/engine.nim\<close>), how
  \<open>run\<close> of \<open>nimbus_verified_proxy.nim\<close> starts them from a configuration, and the loop in which it
  synchronises the light client and the OP engine for as long as the program lives.
\<close>

section \<open>Networks\<close>

record genesis_params =
  genesisTime :: u64
  genesisValidatorsRoot :: hash32
  genesisBlockRoot :: hash32
  gp_eip2935ForkTime :: "u64 option"

definition mainnetGenesis :: genesis_params where
  "mainnetGenesis =
     \<lparr>genesisTime = 1606824023,
      genesisValidatorsRoot = 0x4b363db94e286120d76eb905340fdd4e54bfe9f06bf33ff6cf5ad27f511bfe95,
      genesisBlockRoot = 0xd4e56740f876aef8c010b86a40d5f56745a118d0906a34e69aec8c0db1cb8fa3,
      gp_eip2935ForkTime = Some 1746612311\<rparr>"

definition sepoliaGenesis :: genesis_params where
  "sepoliaGenesis =
     \<lparr>genesisTime = 1655733600,
      genesisValidatorsRoot = 0xd8ea171f3c94aea21ebc42a1ed61052acf3f9209c00e4efbaaddac09ed9b8078,
      genesisBlockRoot = 0x25a5cc106eea7138acab33231d7160d69cb777ee0c2c553fcddf5138993e6dd9,
      gp_eip2935ForkTime = Some 1741159776\<rparr>"

definition hoodiGenesis :: genesis_params where
  "hoodiGenesis =
     \<lparr>genesisTime = 1742213400,
      genesisValidatorsRoot = 0x212f13fc4df078b6cb7db228f1c8307566dcecf900867401a92023d7ba99cb5f,
      genesisBlockRoot = 0xbbe312868b376a3001692a646dd2d7d1e4406380dfd86b98aa8a34d1557c971b,
      gp_eip2935ForkTime = Some 1742999832\<rparr>"

definition genesisParamsForNetwork :: "string \<Rightarrow> genesis_params" where
  "genesisParamsForNetwork network =
     (if network = ''sepolia'' then sepoliaGenesis
      else if network = ''hoodi'' then hoodiGenesis
      else mainnetGenesis)"

definition chainIdToNetworkId :: "u256 \<Rightarrow> error_tuple + u256" where
  "chainIdToNetworkId chainId =
     (if chainId = 1 then Inr 1
      else if chainId = 11155111 then Inr 11155111
      else if chainId = 560048 then Inr 560048
      else Inl (engine_err InvalidDataError ''Unknown chainId''))"

text \<open>The L1 network of a configured name, with its chain id, and the OP chain on it, if it names one.\<close>

definition op_chain :: "string option \<Rightarrow> op_params option" where
  "op_chain name =
     (case opChainParamsForNetwork (case name of None \<Rightarrow> ''mainnet'' | Some n \<Rightarrow> n) of
        Inl _ \<Rightarrow> None | Inr p \<Rightarrow> Some p)"

definition l1_chain :: "string option \<Rightarrow> string \<times> u256" where
  "l1_chain name =
     (case op_chain name of
        Some p \<Rightarrow> (l1Network p, l1ChainId p)
      | None \<Rightarrow> (case name of None \<Rightarrow> ''mainnet'' | Some n \<Rightarrow> n, getConfiguredChainId name))"

section \<open>Making an engine\<close>

text \<open>The sizes of the store and the caches show in what the environment evicts.\<close>

definition initCore :: "u256 \<Rightarrow> u64 \<Rightarrow> u64 \<Rightarrow> u64 \<Rightarrow> 'b engine" where
  "initCore chainId walk jumps downloads =
     \<lparr>numBackends = 0, executionBackends = Map.empty, beaconBackends = Map.empty, scores = Map.empty,
      capabilityIndex = (\<lambda>_. []), availabilityScoreFunc = defaultAvailabilityScoreFunc,
      qualityScoreFunc = defaultQualityScoreFunc, headerStore = new_store, filterStore = [],
      accountsCache = Map.empty, codeCache = Map.empty, storageCache = Map.empty,
      engine_chainId = chainId, maxBlockWalk = walk, maxWindowJumps = jumps,
      parallelBlockDownloads = downloads, eip2935ForkTime = None, archive = False, clock = 0\<rparr>"

definition conf_core :: "u256 \<Rightarrow> ('r, 'z) proxy_conf_scheme \<Rightarrow> 'b engine" where
  "conf_core chainId conf =
     initCore chainId (conf_maxBlockWalk conf) (conf_maxWindowJumps conf) (conf_parallelBlockDownloads conf)"

text \<open>
  What making an engine asks of nimbus-eth2: the metadata of the network of a name, of which only
  the configuration is used, or the message with which it ends the process when it knows no such
  network; and whether a beacon clock can be made for that configuration and genesis time.
\<close>

record 'cfg eth2_package =
  getMetadataForNetwork :: "string \<Rightarrow> string + 'cfg"
  beaconClock_init :: "'cfg \<Rightarrow> u64 \<Rightarrow> bool"

text \<open>An engine, an error that is returned, or the end of the process with a message.\<close>

datatype 'a init_result = Inited 'a | Init_error error_tuple | Quit string

text \<open>
  \<open>init\<close>: the metadata and the clock, the core, the history fork of the network, and the fields of
  the light client, whose store is empty (\<open>none\<close>).
\<close>

definition engine_init ::
    "'cfg eth2_package \<Rightarrow> 'st \<Rightarrow> string \<Rightarrow> u256 \<Rightarrow> (hash32, 'z) proxy_conf_scheme \<Rightarrow>
     ('b engine \<times> 'st lc_fields) init_result" where
  "engine_init eth2 none network chainId conf =
     (case getMetadataForNetwork eth2 network of
        Inl msg \<Rightarrow> Quit msg
      | Inr cfg \<Rightarrow>
          let genesis = genesisParamsForNetwork network in
          if \<not> beaconClock_init eth2 cfg (genesisTime genesis) then Quit ''Invalid genesis time in state''
          else case chainIdToNetworkId chainId of
             Inl e \<Rightarrow> Init_error e
           | Inr _ \<Rightarrow> Inited
               ((conf_core chainId conf)\<lparr>eip2935ForkTime := gp_eip2935ForkTime genesis\<rparr>,
                \<lparr>lcStore = none, lcProcessor = True, lc_trustedBlockRoot = Some (trustedBlockRoot conf),
                 lc_maxLightClientUpdates = maxLightClientUpdates conf, lc_syncHeaderStore = syncHeaderStore conf\<rparr>))"

section \<open>Starting\<close>

record 'r cli_conf = "'r proxy_conf" +
  frontendUrls :: "string list"
  opFrontendUrls :: "string list"
  p2pEnabled :: bool

datatype stage = Private_stage | Archive_stage | Execution_stage | Beacon_stage | Op_stage

text \<open>
  What the network gives: which URL connects at which stage, the backends behind the URLs, the
  peer-to-peer backend if it starts, and which URL can be listened on.
\<close>

record 'b network =
  connects :: "stage \<Rightarrow> string \<Rightarrow> bool"
  execution_at :: "string \<Rightarrow> execution_api"
  beacon_at :: "string \<Rightarrow> 'b"
  p2p_backend :: "'b option"
  listens :: "string \<Rightarrow> bool"

text \<open>Going on after a step, unless it raised a \<open>ProxyError\<close>.\<close>

fun proceed :: "string + 'a \<Rightarrow> ('a \<Rightarrow> string + 'c) \<Rightarrow> string + 'c" where
  "proceed (Inl msg) k = Inl msg"
| "proceed (Inr x) k = k x"

definition startBackends ::
    "'b network \<Rightarrow> stage \<Rightarrow> string \<Rightarrow> capability set \<Rightarrow> string list \<Rightarrow> 'b engine \<Rightarrow> string + 'b engine" where
  "startBackends nw st msg caps urls e =
     (if filter (connects nw st) urls = [] then Inl msg
      else Inr (register_executions (connects nw st) (execution_at nw) caps urls e))"

definition startExecutionBackends ::
    "'b network \<Rightarrow> stage \<Rightarrow> capability set \<Rightarrow> string list \<Rightarrow> 'b engine \<Rightarrow> string + 'b engine" where
  "startExecutionBackends nw st = startBackends nw st ''Couldn't connect to any execution API backend''"

definition startPrivateTxBackends :: "'b network \<Rightarrow> string list \<Rightarrow> 'b engine \<Rightarrow> string + 'b engine" where
  "startPrivateTxBackends nw =
     startBackends nw Private_stage ''Couldn't connect to any private mempool backend'' {SendRawTransaction}"

definition startBeaconBackends :: "'b network \<Rightarrow> string list \<Rightarrow> 'b engine \<Rightarrow> string + 'b engine" where
  "startBeaconBackends nw urls e =
     (if filter (connects nw Beacon_stage) urls = [] then Inl ''Couldn't connect to any beacon API backend''
      else Inr (register_beacons (connects nw Beacon_stage) (beacon_at nw) urls e))"

definition startP2PBeaconBackend :: "'b network \<Rightarrow> 'b engine \<Rightarrow> 'b engine" where
  "startP2PBeaconBackend nw e =
     (case p2p_backend nw of None \<Rightarrow> e | Some b \<Rightarrow> registerBeaconBackend b fullBeaconCapabilities e)"

definition startFrontends :: "'b network \<Rightarrow> string list \<Rightarrow> string + unit" where
  "startFrontends nw urls =
     (if filter (listens nw) urls = [] then Inl ''Couldn't start any frontends for verified proxy'' else Inr ())"

definition start_l1 :: "'b network \<Rightarrow> (hash32, 'z) cli_conf_scheme \<Rightarrow> 'b engine \<Rightarrow> string + 'b engine" where
  "start_l1 nw conf e =
     (if executionApiUrls conf = [] then Inl ''Need atleast one execution api url to be specified''
      else if beaconApiUrls conf = [] \<and> \<not> p2pEnabled conf then Inl ''Need atleast one beacon url or p2p enabled''
      else
        proceed (if privateTxUrls conf \<noteq> [] then startPrivateTxBackends nw (privateTxUrls conf) e else Inr e) (\<lambda>e.
        proceed (if archiveUrls conf \<noteq> []
                 then startExecutionBackends nw Archive_stage {GetProof} (archiveUrls conf) e else Inr e) (\<lambda>e.
        proceed (startExecutionBackends nw Execution_stage (regularCaps conf)
                   (executionApiUrls conf) e) (\<lambda>e.
        let e = e\<lparr>archive := archiveUrls conf \<noteq> []\<rparr> in
        proceed (if beaconApiUrls conf \<noteq> [] then startBeaconBackends nw (beaconApiUrls conf) e else Inr e) (\<lambda>e.
        let e = (if p2pEnabled conf then startP2PBeaconBackend nw e else e) in
        proceed (startFrontends nw (frontendUrls conf)) (\<lambda>_. Inr e))))))"

definition start_l2 :: "'b network \<Rightarrow> (hash32, 'z) cli_conf_scheme \<Rightarrow> op_params \<Rightarrow> string + 'b engine" where
  "start_l2 nw conf p =
     (if opExecutionApiUrls conf = [] then Inl ''Need at least one L2 execution api url (--op-execution-api-url)''
      else case chainIdToNetworkId (l1ChainId p) of
        Inl _ \<Rightarrow> Inl ''Couldn't derive the L2 network id from the L1 chain id''
      | Inr _ \<Rightarrow>
          proceed (startExecutionBackends nw Op_stage fullExecutionCapabilities (opExecutionApiUrls conf)
                     ((conf_core (l2ChainId p) conf)\<lparr>eip2935ForkTime := op_eip2935ForkTime p\<rparr>)) (\<lambda>op.
          proceed (startFrontends nw (opFrontendUrls conf)) (\<lambda>_. Inr op)))"

type_synonym ('st, 'obj) proxy_state = "('st, 'obj) synced_engine \<times> 'obj beacon_api engine option"

text \<open>
  The program is started, or ends with a message: that of a \<open>ProxyError\<close>, or of the process being
  ended while the engine is made.
\<close>

definition proxy_start ::
    "'cfg eth2_package \<Rightarrow> 'st \<Rightarrow> 'obj beacon_api network \<Rightarrow> (hash32, 'z) cli_conf_scheme \<Rightarrow>
     string + ('st, 'obj) proxy_state" where
  "proxy_start eth2 none nw conf =
     (let (l1Name, l1Id) = l1_chain (eth2Network conf) in
      case engine_init eth2 none l1Name l1Id conf of
        Quit msg \<Rightarrow> Inl msg
      | Init_error _ \<Rightarrow> Inl ''Couldn't initialize verification engine''
      | Inited (e, c) \<Rightarrow>
          proceed (start_l1 nw conf e) (\<lambda>e.
          case op_chain (eth2Network conf) of
            None \<Rightarrow> Inr ((e, c), None)
          | Some p \<Rightarrow> proceed (start_l2 nw conf p) (\<lambda>op. Inr ((e, c), Some op))))"

section \<open>The loop\<close>

text \<open>
  A synchronisation of the light client: its error is logged. While it awaits, other tasks
  may use the OP engine.
\<close>

definition rest :: "'b env \<Rightarrow> 'b engine option \<Rightarrow> 'b engine option" where
  "rest env2 = map_option (\<lambda>op. interfere env2 (clock op) (tick op))"

fun logged :: "('e, 'a) outcome \<Rightarrow> ('x, unit) outcome" where
  "logged (Done _) = Done ()"
| "logged (Fail _) = Done ()"
| "logged Cancelled = Cancelled"
| "logged Defect = Defect"
| "logged Stuck = Stuck"

definition sync_l1 ::
    "'obj beacon_api env \<Rightarrow> 'obj beacon_api env \<Rightarrow> ('st, 'obj) lc_package \<Rightarrow>
     (('st, 'obj) proxy_state, error_tuple, unit) proc" where
  "sync_l1 env1 env2 pk = (\<lambda>(l1, op).
     case syncOnce env1 pk l1 of (out, l1') \<Rightarrow> (logged out, (l1', rest env2 op)))"

definition sync_l2 ::
    "'obj beacon_api env \<Rightarrow> 'obj beacon_api env \<Rightarrow> evm_call \<Rightarrow> abi \<Rightarrow>
     (('st, 'obj) proxy_state, error_tuple, unit) proc" where
  "sync_l2 env1 env2 evm c = (\<lambda>((e, f), op).
     case op of
       None \<Rightarrow> (Done (), ((e, f), None))
     | Some o2 \<Rightarrow> (case opSyncOnce env1 env2 evm c (o2, e) of (out, o2', e') \<Rightarrow> (logged out, ((e', f), Some o2'))))"

text \<open>\<open>sleepAsync\<close>: everything else runs, and the program may be told to stop.\<close>

definition sleep ::
    "'obj beacon_api env \<Rightarrow> 'obj beacon_api env \<Rightarrow> (('st, 'obj) proxy_state, error_tuple, unit) proc" where
  "sleep env1 env2 = (\<lambda>((e, f), op).
     (if cancels env1 (clock e) then Cancelled else Done (),
      ((interfere env1 (clock e) (tick e), f), rest env2 op)))"

definition proxy_round ::
    "'obj beacon_api env \<Rightarrow> 'obj beacon_api env \<Rightarrow> ('st, 'obj) lc_package \<Rightarrow> evm_call \<Rightarrow> abi \<Rightarrow>
     (('st, 'obj) proxy_state, error_tuple, unit) proc" where
  "proxy_round env1 env2 pk evm c =
     andThen (sync_l1 env1 env2 pk) (\<lambda>_.
     andThen (sync_l2 env1 env2 evm c) (\<lambda>_.
     sleep env1 env2))"

text \<open>
  The states at the head of the loop: it goes on for as long as no round is cancelled, when the
  servers and clients are stopped, and none crashes.
\<close>

inductive running ::
    "'obj beacon_api env \<Rightarrow> 'obj beacon_api env \<Rightarrow> ('st, 'obj) lc_package \<Rightarrow> evm_call \<Rightarrow> abi \<Rightarrow>
     ('st, 'obj) proxy_state \<Rightarrow> ('st, 'obj) proxy_state \<Rightarrow> bool" for env1 env2 pk evm c s0 where
  started: "running env1 env2 pk evm c s0 s0"
| again: "running env1 env2 pk evm c s0 s \<Longrightarrow> proxy_round env1 env2 pk evm c s = (Done (), s') \<Longrightarrow>
    running env1 env2 pk evm c s0 s'"

section \<open>Starting establishes the invariant\<close>

lemma engine_ok_initCore: "engine_ok env w (initCore chainId walk jumps downloads)"
proof -
  have "pool_ok (initCore chainId walk jumps downloads)"
    by (simp add: pool_ok_def initCore_def)
  then show ?thesis
    by (simp add: engine_ok_def initCore_def filters_ok_def store_ok_new)
qed

lemma engine_ok_registerExecution:
  assumes "engine_ok env w e" and "caps \<subseteq> fullExecutionCapabilities"
  shows "engine_ok env w (registerExecutionBackend b caps e)"
  using assms pool_ok_registerExecution [OF engine_okD(1) [OF assms(1)] assms(2), of b]
  by (simp add: engine_ok_def) (simp add: registerExecutionBackend_def Let_def)

lemma engine_ok_registerBeacon:
  assumes "engine_ok env w e"
  shows "engine_ok env w (registerBeaconBackend b fullBeaconCapabilities e)"
  using assms pool_ok_registerBeacon [OF engine_okD(1) [OF assms], of fullBeaconCapabilities b]
  by (simp add: engine_ok_def) (simp add: registerBeaconBackend_def Let_def)

lemma engine_ok_registrations:
  "engine_ok env w e \<Longrightarrow> caps \<subseteq> fullExecutionCapabilities \<Longrightarrow>
     engine_ok env w (register_executions usable exec caps urls e)"
  "engine_ok env w e \<Longrightarrow> engine_ok env w (register_beacons usable bcn urls e)"
  by (induction urls arbitrary: e) (simp_all add: engine_ok_registerExecution engine_ok_registerBeacon)

lemma engine_ok_fields [simp]:
  "engine_ok env w (e\<lparr>archive := a\<rparr>) = engine_ok env w e"
  "engine_ok env w (e\<lparr>eip2935ForkTime := t\<rparr>) = engine_ok env w e"
  by (simp_all add: engine_ok_def pool_ok_def)

lemma proceed_Inr: "proceed r k = Inr y \<longleftrightarrow> (\<exists>x. r = Inr x \<and> k x = Inr y)"
  by (cases r) simp_all

lemmas start_defs = startExecutionBackends_def startPrivateTxBackends_def startBackends_def
  startBeaconBackends_def startP2PBeaconBackend_def startFrontends_def

lemma regularCaps_execution: "regularCaps conf \<subseteq> fullExecutionCapabilities"
  by (auto simp: regularCaps_def)

lemma full_has: "SendRawTransaction \<in> fullExecutionCapabilities" "GetProof \<in> fullExecutionCapabilities"
  by (simp_all add: fullExecutionCapabilities_def)

text \<open>What starting keeps: it is one registration after the other, each of the URLs of its stage.\<close>

lemma start_l1_keeps:
  fixes e :: "'b engine"
  assumes "start_l1 nw conf e = Inr e'" and "I e"
    and execs: "\<And>st caps urls e. (st, caps, urls) \<in> {(Private_stage, {SendRawTransaction}, privateTxUrls conf),
        (Archive_stage, {GetProof}, archiveUrls conf), (Execution_stage, regularCaps conf, executionApiUrls conf)} \<Longrightarrow>
      I e \<Longrightarrow> I (register_executions (connects nw st) (execution_at nw) caps urls e)"
    and beacons: "\<And>e. I e \<Longrightarrow> I (register_beacons (connects nw Beacon_stage) (beacon_at nw) (beaconApiUrls conf) e)"
    and beacon: "\<And>e b. I e \<Longrightarrow> I (registerBeaconBackend b fullBeaconCapabilities e)"
    and field: "\<And>e a. I e \<Longrightarrow> I (e\<lparr>archive := a\<rparr>)"
  shows "I e'"
proof -
  let ?go = "\<lambda>r. \<forall>x. r = Inr x \<longrightarrow> I x"
  have step: "?go (proceed r k)" if "?go r" "\<And>x. I x \<Longrightarrow> ?go (k x)" for r :: "string + 'b engine" and k
    using that by (cases r) simp_all
  have group: "?go (if b then startBackends nw st msg caps urls e else Inr e)"
    if "I e" "(st, caps, urls) \<in> {(Private_stage, {SendRawTransaction}, privateTxUrls conf),
        (Archive_stage, {GetProof}, archiveUrls conf), (Execution_stage, regularCaps conf, executionApiUrls conf)}"
    for b st msg caps urls e
    using execs [OF that(2,1)] that(1) by (simp add: startBackends_def)
  have bcn: "?go (if b then startBeaconBackends nw (beaconApiUrls conf) e else Inr e)" if "I e" for b e
    using beacons [OF that] that by (simp add: startBeaconBackends_def)
  have p2p: "I (if b then startP2PBeaconBackend nw e else e)" if "I e" for b e
    using beacon [OF that] that by (simp add: startP2PBeaconBackend_def split: option.split)
  have last: "?go (proceed (startFrontends nw (frontendUrls conf)) (\<lambda>_. Inr e))" if "I e" for e
    using that by (simp add: startFrontends_def)
  have "?go (start_l1 nw conf e)"
  proof (cases "executionApiUrls conf = [] \<or> beaconApiUrls conf = [] \<and> \<not> p2pEnabled conf")
    case True
    then show ?thesis by (auto simp: start_l1_def)
  next
    case False
    then have "start_l1 nw conf e =
        proceed (if privateTxUrls conf \<noteq> [] then startPrivateTxBackends nw (privateTxUrls conf) e else Inr e) (\<lambda>e.
        proceed (if archiveUrls conf \<noteq> []
                 then startExecutionBackends nw Archive_stage {GetProof} (archiveUrls conf) e else Inr e) (\<lambda>e.
        proceed (if True then startExecutionBackends nw Execution_stage (regularCaps conf) (executionApiUrls conf) e
                 else Inr e) (\<lambda>e.
        proceed (if beaconApiUrls conf \<noteq> [] then startBeaconBackends nw (beaconApiUrls conf)
                   (e\<lparr>archive := archiveUrls conf \<noteq> []\<rparr>) else Inr (e\<lparr>archive := archiveUrls conf \<noteq> []\<rparr>)) (\<lambda>e.
        proceed (startFrontends nw (frontendUrls conf))
          (\<lambda>_. Inr (if p2pEnabled conf then startP2PBeaconBackend nw e else e))))))"
      by (auto simp: start_l1_def Let_def)
    then show ?thesis
      unfolding startExecutionBackends_def startPrivateTxBackends_def
      by (simp only:) (intro step group bcn last p2p field assms(2) insertI1 insertI2)
  qed
  with assms(1) show ?thesis by blast
qed

lemma engine_ok_start_l1:
  assumes "start_l1 nw conf e = Inr e'" and "engine_ok env w e"
  shows "engine_ok env w e'"
  by (rule start_l1_keeps [where I = "engine_ok env w", OF assms])
    (auto simp: full_has regularCaps_execution intro: engine_ok_registrations engine_ok_registerBeacon
      dest: regularCaps_execution [THEN subsetD])

lemma engine_ok_start_l2:
  assumes "start_l2 nw conf p = Inr op"
  shows "engine_ok env w op"
  using assms
  by (auto simp: start_l2_def proceed_Inr start_defs conf_core_def engine_ok_initCore
      intro!: engine_ok_registrations split: if_splits sum.splits)

text \<open>The invariant of the program: both engines are in order, and so is the light client's store.\<close>

definition proxy_ok ::
    "'obj beacon_api env \<Rightarrow> truth \<Rightarrow> 'obj beacon_api env \<Rightarrow> truth \<Rightarrow> ('st \<Rightarrow> bool) \<Rightarrow> ('st, 'obj) proxy_state \<Rightarrow> bool" where
  "proxy_ok env1 w1 env2 w2 good = (\<lambda>((e, f), op).
     engine_ok env1 w1 e \<and> good (lcStore f) \<and> (\<forall>o2. op = Some o2 \<longrightarrow> engine_ok env2 w2 o2))"

lemma proxy_ok_start:
  assumes "proxy_start eth2 none nw conf = Inr s" and "good none"
  shows "proxy_ok env1 w1 env2 w2 good s"
  using assms
  by (auto simp: proxy_start_def proxy_ok_def engine_init_def proceed_Inr conf_core_def split_def Let_def
      engine_ok_initCore elim!: engine_ok_start_l1 engine_ok_start_l2
      split: sum.splits option.splits init_result.splits if_splits)

section \<open>The loop keeps it\<close>

text \<open>A procedure that ends, not in an error, and keeps an invariant.\<close>

definition endures :: "('s \<Rightarrow> bool) \<Rightarrow> ('s, 'e, 'a) proc \<Rightarrow> bool" where
  "endures I m \<longleftrightarrow> (\<forall>s. I s \<longrightarrow> I (snd (m s)) \<and> fst (m s) \<noteq> Stuck \<and> (\<forall>e. fst (m s) \<noteq> Fail e))"

lemma endures_andThen:
  assumes "endures I m" and "\<And>x. endures I (f x)"
  shows "endures I (andThen m f)"
  unfolding endures_def
proof (intro allI impI)
  fix s assume "I s"
  then have "I (snd (m s)) \<and> fst (m s) \<noteq> Stuck \<and> (\<forall>e. fst (m s) \<noteq> Fail e)"
    using assms(1) by (simp add: endures_def)
  with assms(2) show "I (snd (andThen m f s)) \<and> fst (andThen m f s) \<noteq> Stuck \<and> (\<forall>e. fst (andThen m f s) \<noteq> Fail e)"
    by (cases "m s"; cases "fst (m s)") (auto simp: andThen_def endures_def)
qed

lemma logged_ends: "out \<noteq> Stuck \<Longrightarrow> logged out \<noteq> Stuck" "logged out \<noteq> Fail e"
  by (cases out; simp)+

lemma endures_sync_l1:
  assumes "calm env1 w1" and "calm env2 w2" and "lc_sound env1 w1 pk good"
  shows "endures (proxy_ok env1 w1 env2 w2 good) (sync_l1 env1 env2 pk)"
  unfolding endures_def
proof (intro allI impI)
  fix s assume ok: "proxy_ok env1 w1 env2 w2 good s"
  obtain e f op where s: "s = ((e, f), op)" by (cases s) auto
  have "anchored env1 w1 pk good (e, f)" using ok assms by (simp add: s proxy_ok_def anchored_def)
  from yieldsD(1,2) [OF anchors.yields_syncOnce this]
  have "anchored env1 w1 pk good (snd (syncOnce env1 pk (e, f)))" "fst (syncOnce env1 pk (e, f)) \<noteq> Stuck"
    by blast+
  with ok assms(2)
  show "proxy_ok env1 w1 env2 w2 good (snd (sync_l1 env1 env2 pk s)) \<and>
      fst (sync_l1 env1 env2 pk s) \<noteq> Stuck \<and> (\<forall>e. fst (sync_l1 env1 env2 pk s) \<noteq> Fail e)"
    by (auto simp: s sync_l1_def proxy_ok_def anchored_def rest_def calm_def logged_ends split: prod.splits)
qed

lemma endures_sync_l2:
  assumes "sound env1 w1" and "sound env2 w2" and "posts_genuine env1 w1 env2 w2 evm c"
  shows "endures (proxy_ok env1 w1 env2 w2 good) (sync_l2 env1 env2 evm c)"
  unfolding endures_def
proof (intro allI impI)
  fix s assume ok: "proxy_ok env1 w1 env2 w2 good s"
  obtain e f op where s: "s = ((e, f), op)" by (cases s) auto
  show "proxy_ok env1 w1 env2 w2 good (snd (sync_l2 env1 env2 evm c s)) \<and>
      fst (sync_l2 env1 env2 evm c s) \<noteq> Stuck \<and> (\<forall>e. fst (sync_l2 env1 env2 evm c s) \<noteq> Fail e)"
  proof (cases op)
    case None
    with ok show ?thesis by (simp add: s sync_l2_def)
  next
    case (Some o2)
    with ok have "both_ok env1 w1 env2 w2 (o2, e)" by (simp add: s proxy_ok_def both_ok_def)
    from yieldsD(1,2) [OF yields_opSyncOnce [OF assms] this]
    have "both_ok env1 w1 env2 w2 (snd (opSyncOnce env1 env2 evm c (o2, e)))"
      "fst (opSyncOnce env1 env2 evm c (o2, e)) \<noteq> Stuck" by blast+
    with ok Some show ?thesis
      by (auto simp: s sync_l2_def proxy_ok_def both_ok_def logged_ends split: prod.splits)
  qed
qed

lemma endures_sleep:
  assumes "calm env1 w1" and "calm env2 w2"
  shows "endures (proxy_ok env1 w1 env2 w2 good) (sleep env1 env2)"
  using assms by (auto simp: endures_def sleep_def proxy_ok_def rest_def calm_def)

lemma endures_round:
  assumes "sound env1 w1" and "sound env2 w2" and "lc_sound env1 w1 pk good"
    and "posts_genuine env1 w1 env2 w2 evm c"
  shows "endures (proxy_ok env1 w1 env2 w2 good) (proxy_round env1 env2 pk evm c)"
  unfolding proxy_round_def
  by (intro endures_andThen endures_sync_l1 endures_sync_l2 endures_sleep soundD(1) assms)

lemma running_ok:
  assumes "running env1 env2 pk evm c s0 s" and "endures I (proxy_round env1 env2 pk evm c)" and "I s0"
  shows "I s"
  using assms
proof (induction rule: running.induct)
  case (again s s')
  then have "I s" by simp
  with again.prems(1) have "I (snd (proxy_round env1 env2 pk evm c s))" unfolding endures_def by blast
  with again.hyps(2) show ?case by simp
qed

section \<open>What starting needs\<close>









section \<open>Who serves a capability\<close>

lemma serves_core: "serves S (initCore chainId walk jumps downloads)"
  by (simp add: serves_def initCore_def pool_ok_def)

lemma serves_fields [simp]:
  "serves S (e\<lparr>archive := a\<rparr>) = serves S e" "serves S (e\<lparr>eip2935ForkTime := t\<rparr>) = serves S e"
  by (simp_all add: serves_def pool_ok_def)

text \<open>
  The program, too, keeps private transactions and state proofs to the endpoints configured for
  them, whatever is selected and penalised after its start.
\<close>

theorem started_endpoints_are_kept:
  assumes "proxy_start eth2 none nw conf = Inr ((e, c), op)" and "used_pool e e'"
    and "executionBackendFor d cap e' = (Done (x, i), e'')"
  shows "x \<in> execution_at nw ` endpoints conf cap"
proof -
  let ?S = "\<lambda>cap. execution_at nw ` endpoints conf cap"
  obtain e0 where e0: "start_l1 nw conf e0 = Inr e" "serves ?S e0"
    using assms(1)
    by (auto simp: proxy_start_def engine_init_def proceed_Inr conf_core_def serves_core
        Let_def split: prod.splits sum.splits option.splits init_result.splits if_splits)
  have "serves ?S e"
  proof (rule start_l1_keeps [where I = "serves ?S", OF e0])
    fix st caps urls e
    assume g: "(st, caps, urls) \<in> {(Private_stage, {SendRawTransaction}, privateTxUrls conf),
        (Archive_stage, {GetProof}, archiveUrls conf), (Execution_stage, regularCaps conf, executionApiUrls conf)}"
      and s: "serves ?S e"
    have "caps \<subseteq> fullExecutionCapabilities" "\<forall>cap \<in> caps. execution_at nw ` set urls \<subseteq> ?S cap"
      using g full_has regularCaps_execution [of conf]
      by (auto simp: endpoints_def regularCaps_def split: if_splits)
    from serves_register_executions [OF s this]
    show "serves ?S (register_executions (connects nw st) (execution_at nw) caps urls e)" .
  qed (simp_all add: serves_register_beacons serves_registerBeacon)
  from serves_selected [OF serves_used [OF assms(2) this] assms(3)] show ?thesis .
qed

section \<open>A program to try things on\<close>

definition demo_cli :: "hash32 cli_conf" where
  "demo_cli =
     \<lparr>eth2Network = Some ''op-mainnet'', trustedBlockRoot = 3, executionApiUrls = [''http://a''],
      beaconApiUrls = [''https://c''], logLevel = ''INFO'', logFormat = Auto, conf_maxBlockWalk = 1000,
      conf_maxWindowJumps = 500, headerStoreLen = 256, storageCacheLen = 256, codeCacheLen = 64,
      accountCacheLen = 128, conf_parallelBlockDownloads = 10, maxLightClientUpdates = 128,
      privateTxUrls = [''https://p''], archiveUrls = [], opExecutionApiUrls = [''http://l2''],
      syncHeaderStore = True, freezeAtSlot = 0, frontendUrls = [''http://f''], opFrontendUrls = [''http://g''],
      p2pEnabled = False\<rparr>"

definition demo_network :: "u64 beacon_api network" where
  "demo_network =
     \<lparr>connects = (\<lambda>_ _. True), execution_at = (\<lambda>_. chain_api), beacon_at = (\<lambda>_. demo_beacon 99),
      p2p_backend = None, listens = (\<lambda>_. True)\<rparr>"

text \<open>A package that knows the names of three networks, in lower case, and has a clock from 2020 on.\<close>

definition demo_eth2 :: "string eth2_package" where
  "demo_eth2 =
     \<lparr>getMetadataForNetwork = (\<lambda>name.
        if name \<in> {''mainnet'', ''sepolia'', ''hoodi''} then Inr name else Inl (''Unknown network: '' @ name)),
      beaconClock_init = (\<lambda>cfg t. t \<ge> 1577836800)\<rparr>"

definition main_env :: "u64 beacon_api env" where
  "main_env = (demo_sync_env 8)\<lparr>computeBlockHash := chain_hash\<rparr>"

text \<open>An EVM that answers no call: the OP engine starts but finds no anchor.\<close>

definition mute_evm :: evm_call where
  "mute_evm = (\<lambda>hdr to data t. Some (Inl (engine_err BackendError ''no EVM'')))"

definition known :: "u64 option \<Rightarrow> bool" where
  "known st \<longleftrightarrow> (case st of None \<Rightarrow> True | Some n \<Rightarrow> n = 7)"

lemma sound_main: "sound main_env chain_truth"
  unfolding sound_def
proof (intro conjI)
  show "calm main_env chain_truth" by (rule calm_quiet) (simp add: main_env_def demo_sync_env_def)
  show "proofs_sound main_env chain_truth"
    by (simp add: proofs_sound_def main_env_def demo_sync_env_def chain_truth_def)
  show "chain_sound main_env chain_truth"
    using soundD(3) [OF sound_chain]
    by (auto simp: chain_sound_def genuine_at_def chain_truth_def chain_env_def main_env_def history_slot_def
        chain_hdr_def [of _, THEN arg_cong [where f = parentHash]])
qed

lemma lc_sound_main: "lc_sound main_env chain_truth demo_lc known"
proof -
  have "chain_hdr 1007 \<in> trusted chain_truth t \<and> computeBlockHash main_env (chain_hdr 1007) = 1007" for t
    by (auto simp: chain_truth_def main_env_def chain_hash_def)
  then have "\<exists>hdr \<in> trusted chain_truth t. computeBlockHash main_env hdr = 1007" for t by blast
  then show ?thesis
    by (auto simp: lc_sound_def demo_lc_def known_def split: option.splits)
qed

lemma posts_genuine_mute: "posts_genuine main_env chain_truth main_env chain_truth mute_evm demo_abi"
proof -
  have "returns (makeCall main_env mute_evm to data hdr) (\<lambda>_. False)" for to data hdr
    by (auto simp: returns_def makeCall_def andThen_def await_def mute_evm_def split: prod.splits if_splits)
  then have "returns (callAndDecode main_env mute_evm dec to data hdr) (\<lambda>_. False)" for dec to data hdr
    unfolding callAndDecode_def by (rule returns_bind) simp
  then have "returns (resolveContracts main_env mute_evm demo_abi sc hdr) P" for sc hdr P
    unfolding resolveContracts_def by (rule returns_bind) simp
  then show ?thesis by (simp add: posts_genuine_def)
qed

section \<open>Properties\<close>

text \<open>What the network of a chain id is.\<close>

definition params_of_chain :: "u256 \<Rightarrow> genesis_params" where
  "params_of_chain chainId =
     (if chainId = 11155111 then sepoliaGenesis else if chainId = 560048 then hoodiGenesis else mainnetGenesis)"

text \<open>
  C32: the chain id and the genesis data that an engine is made with belong to the same network
  exactly if the configured name, where it denotes sepolia or hoodi up to upper case, is written in
  lower case: the chain id is found by the lower-cased name, the genesis data by the name as
  it is.
\<close>

theorem network_identity:
  "genesisParamsForNetwork (fst (l1_chain name)) = params_of_chain (snd (l1_chain name)) \<longleftrightarrow>
     (\<forall>n. name = Some n \<longrightarrow> toLowerAscii n \<in> {''sepolia'', ''hoodi''} \<longrightarrow> n = toLowerAscii n)"
proof (cases "op_chain name")
  case None
  have ne: "sepoliaGenesis \<noteq> mainnetGenesis" "hoodiGenesis \<noteq> mainnetGenesis" "hoodiGenesis \<noteq> sepoliaGenesis"
    by (simp_all add: sepoliaGenesis_def mainnetGenesis_def hoodiGenesis_def)
  have low: "toLowerAscii ''sepolia'' = ''sepolia''" "toLowerAscii ''hoodi'' = ''hoodi''"
    "toLowerAscii ''mainnet'' = ''mainnet''"
    by (simp_all add: toLowerAscii_def)
  show ?thesis
  proof (cases name)
    case None
    with \<open>op_chain name = None\<close> show ?thesis
      by (simp add: l1_chain_def genesisParamsForNetwork_def params_of_chain_def getConfiguredChainId_def low)
  next
    case (Some n)
    with \<open>op_chain name = None\<close> ne low show ?thesis
      by (auto simp: l1_chain_def genesisParamsForNetwork_def params_of_chain_def getConfiguredChainId_def Let_def
          split: if_splits)
  qed
next
  case (Some p)
  then show ?thesis
    by (auto simp: op_chain_def l1_chain_def opChainParamsForNetwork_def opMainnet_def baseMainnet_def
        opSepolia_def genesisParamsForNetwork_def params_of_chain_def toLowerAscii_def
        split: sum.splits if_splits option.splits)
qed

theorem network_identity_witness:
  "l1_chain (Some ''Sepolia'') = (''Sepolia'', 11155111) \<and>
   genesisParamsForNetwork ''Sepolia'' \<noteq> params_of_chain 11155111 \<and>
   genesisParamsForNetwork ''sepolia'' = params_of_chain 11155111"
proof -
  have a: "l1_chain (Some ''Sepolia'') = (''Sepolia'', 11155111)" "l1_chain (Some ''sepolia'') = (''sepolia'', 11155111)"
    "toLowerAscii ''Sepolia'' = ''sepolia''" "toLowerAscii ''sepolia'' = ''sepolia''"
    by code_simp+
  with network_identity [of "Some ''Sepolia''"] network_identity [of "Some ''sepolia''"] show ?thesis by simp
qed



text \<open>
  C2: the program as a whole. Started from a configuration, after any number of rounds of its
  loop, whatever the backends of both chains answer and whatever other tasks do in between that
  keeps the engines in order, every anchor of either engine is a header that deserves its trust;
  and the next round ends, in nothing but going on, a cancellation or a crash: a failed
  synchronisation does not stop the program.
\<close>

theorem proxy_keeps_trust:
  assumes "sound env1 w1" and "sound env2 w2" and "lc_sound env1 w1 pk good"
    and "posts_genuine env1 w1 env2 w2 evm c" and "good none"
    and "proxy_start eth2 none nw conf = Inr s0" and "running env1 env2 pk evm c s0 ((e, f), op)"
  shows "engine_ok env1 w1 e \<and>
    (\<forall>t h. getHash (headerStore e) t = Some h \<longrightarrow> (\<exists>hdr \<in> trusted w1 t. computeBlockHash env1 hdr = h)) \<and>
    (\<forall>o2. op = Some o2 \<longrightarrow> engine_ok env2 w2 o2 \<and>
       (\<forall>t h. getHash (headerStore o2) t = Some h \<longrightarrow> (\<exists>hdr \<in> trusted w2 t. computeBlockHash env2 hdr = h))) \<and>
    fst (proxy_round env1 env2 pk evm c ((e, f), op)) \<in> {Done (), Cancelled, Defect}"
proof -
  note round = endures_round [OF assms(1-4)]
  have anchors: "\<exists>hdr \<in> trusted w t. computeBlockHash env hdr = h"
    if "engine_ok env w e" "getHash (headerStore e) t = Some h" for env w t h e
    using store_okD(4) [OF engine_okD(2) [OF that(1)] that(2)] .
  from running_ok [OF assms(7) round proxy_ok_start [where good = good and none = none, OF assms(6,5)]]
  have ok: "proxy_ok env1 w1 env2 w2 good ((e, f), op)" .
  then have "fst (proxy_round env1 env2 pk evm c ((e, f), op)) \<in> {Done (), Cancelled, Defect}"
    using round unfolding endures_def by (cases "fst (proxy_round env1 env2 pk evm c ((e, f), op))") auto
  with ok anchors show ?thesis unfolding proxy_ok_def by auto
qed

theorem proxy_keeps_trust_witness:
  "\<exists>s0 e f o2. proxy_start demo_eth2 None demo_network demo_cli = Inr s0 \<and>
     proxy_round main_env main_env demo_lc mute_evm demo_abi s0 = (Done (), ((e, f), Some o2)) \<and>
     getHash (headerStore e) Finalized = Some 1007 \<and> engine_ok main_env chain_truth e \<and>
     engine_ok main_env chain_truth o2"
proof -
  let ?run = "case proxy_start demo_eth2 (None :: u64 option) demo_network demo_cli of
      Inr s \<Rightarrow> proxy_round main_env main_env demo_lc mute_evm demo_abi s | Inl _ \<Rightarrow> (Stuck, undefined)"
  have "case ?run of (out, ((e, f), op)) \<Rightarrow>
      out = Done () \<and> getHash (headerStore e) Finalized = Some 1007 \<and> op \<noteq> None"
    by code_simp
  then obtain s0 e f o2 where s0: "proxy_start demo_eth2 (None :: u64 option) demo_network demo_cli = Inr s0"
    and run: "proxy_round main_env main_env demo_lc mute_evm demo_abi s0 = (Done (), ((e, f), Some o2))"
    and a: "getHash (headerStore e) Finalized = Some 1007"
    by (auto split: prod.splits sum.splits)
  have "running main_env main_env demo_lc mute_evm demo_abi s0 ((e, f), Some o2)"
    by (rule running.again [OF running.started run])
  from proxy_keeps_trust [OF sound_main sound_main lc_sound_main posts_genuine_mute _ s0 this]
  have "engine_ok main_env chain_truth e \<and> engine_ok main_env chain_truth o2" by (simp add: known_def)
  with s0 run a show ?thesis by blast
qed

end
