(* ===== verification/C_Session.thy ===== *)
theory C_Session
  imports C_Api
begin

text \<open>
  Sessions of a C program with the library: the calls of \<open>library/verifproxy.h\<close> in any order, over
  any number of contexts, what the header's program has to respect, and what it then can rely
  on. Here the life cycle of contexts meets the API procedures.
\<close>

section \<open>The calls\<close>

text \<open>
  The prototypes that manage contexts, and the methods on a context. What the environment chooses
  stands beside the arguments: whether a context can be started and with which configuration,
  the calls the event loop completes while one of these waits or runs, and the result of a
  method that ends before it has to wait.
\<close>

datatype header_call =
    H_startVerifProxy proxy_context bool "(nat \<times> fut_result) list"
  | H_freeContext ptr
  | H_stopVerifProxy ptr
  | H_processVerifProxyTasks ptr "(nat \<times> fut_result) list"
  | H_method ptr c_call nat "fut_result option"

datatype header_result = H_void | H_ptr ptr | H_int int

text \<open>How values and intervals are written.\<close>

record ('tx, 'flt, 'pct) texts =
  decoders_of :: "('tx, 'flt, 'pct) decoders"
  msg_text :: "string \<Rightarrow> string"
  ms_text :: "u64 \<Rightarrow> string"

fun header_do ::
    "('tx, 'flt, 'pct) texts \<Rightarrow> header_call \<Rightarrow> (('tx, 'flt, 'pct) frontend_call, header_result) ctx_proc" where
  "header_do t (H_startVerifProxy conf run_ok turns) =
     andThen (startVerifProxy (msg_text t) conf run_ok turns) (\<lambda>p. ret (H_ptr p))"
| "header_do t (H_freeContext p) = andThen (freeContext p) (\<lambda>_. ret H_void)"
| "header_do t (H_stopVerifProxy p) = andThen (stopVerifProxy p) (\<lambda>_. ret H_void)"
| "header_do t (H_processVerifProxyTasks p turns) =
     andThen (processVerifProxyTasks (msg_text t) p turns) (\<lambda>n. ret (H_int n))"
| "header_do t (H_method p c userData finished) =
     andThen (perform (msg_text t) p userData finished (invoke (decoders_of t) (ms_text t) c)) (\<lambda>_. ret H_void)"

fun session ::
    "('tx, 'flt, 'pct) texts \<Rightarrow> header_call list \<Rightarrow> (('tx, 'flt, 'pct) frontend_call, header_result list) ctx_proc" where
  "session t [] = ret []"
| "session t (c # cs) = andThen (header_do t c) (\<lambda>r. andThen (session t cs) (\<lambda>rs. ret (r # rs)))"

section \<open>Orderly programs\<close>

text \<open>
  A program is orderly if it passes pointers of contexts that were started and not freed, and frees
  a context only when none of its calls is owed a callback.
\<close>

definition live :: "ptr \<Rightarrow> 'c process \<Rightarrow> bool" where
  "live p s \<longleftrightarrow> (case p of None \<Rightarrow> False | Some i \<Rightarrow> contexts s i \<noteq> None)"

definition settled :: "ptr \<Rightarrow> 'c process \<Rightarrow> bool" where
  "settled p s \<longleftrightarrow> (case p of None \<Rightarrow> True | Some i \<Rightarrow> owed_by i (inflight s) = 0)"

fun permitted :: "header_call \<Rightarrow> 'c process \<Rightarrow> bool" where
  "permitted (H_startVerifProxy conf run_ok turns) s = True"
| "permitted (H_freeContext p) s = (live p s \<and> settled p s)"
| "permitted (H_stopVerifProxy p) s = live p s"
| "permitted (H_processVerifProxyTasks p turns) s = live p s"
| "permitted (H_method p c userData finished) s = live p s"

fun well_behaved ::
    "('tx, 'flt, 'pct) texts \<Rightarrow> header_call list \<Rightarrow> ('tx, 'flt, 'pct) frontend_call process \<Rightarrow> bool" where
  "well_behaved t [] s = True"
| "well_behaved t (c # cs) s = (permitted c s \<and> well_behaved t cs (snd (header_do t c s)))"

fun asked :: "header_call \<Rightarrow> nat multiset" where
  "asked (H_method p c userData finished) = {#userData#}"
| "asked _ = {#}"

lemma well_behaved_append:
  "well_behaved t (cs @ ds) s \<Longrightarrow>
   well_behaved t cs s \<and> (\<forall>rs s'. session t cs s = (Done rs, s') \<longrightarrow> well_behaved t ds s')"
proof (induction cs arbitrary: s)
  case (Cons c cs)
  let ?s = "snd (header_do t c s)"
  have first: "permitted c s" "well_behaved t (cs @ ds) ?s" using Cons.prems by simp_all
  note IH = Cons.IH [OF first(2)]
  have "\<exists>qs. session t cs ?s = (Done qs, s')" if "session t (c # cs) s = (Done rs, s')" for rs s'
    using that by (auto simp: andThen_def ret_def split: prod.splits outcome.splits)
  with IH have "well_behaved t ds s'" if "session t (c # cs) s = (Done rs, s')" for rs s'
    using that by blast
  with IH first(1) show ?case by (simp del: session.simps)
qed (simp add: ret_def)

text \<open>The invariant of a session: the accounts are in order, and the shim's variable is not in use.\<close>

definition in_session :: "'c process \<Rightarrow> bool" where
  "in_session s \<longleftrightarrow> consistent s \<and> g_ctx s = None"

lemma callbackToC_g_ctx: "g_ctx (snd (callbackToC enc p u call fin s)) = g_ctx s"
  by (auto simp: callbackToC_def deref_def sendResult_def set_context_def call_back_def Let_def
      split: option.splits prod.splits)

lemma perform_g_ctx: "g_ctx (snd (perform enc p u fin action s)) = g_ctx s"
proof (induction action)
  case (Inspect f)
  then show ?case by (auto simp: deref_def split: option.splits)
qed (simp_all add: callbackToC_g_ctx call_back_def)

lemma header_do_keeps:
  assumes "in_session s" and "permitted c s"
  shows "\<exists>r s'. header_do t c s = (Done r, s') \<and> in_session s' \<and>
    answered s' + owed s' = answered s + owed s + asked c"
proof (cases c)
  case (H_startVerifProxy conf run_ok turns)
  with startVerifProxy_consistent [of s "msg_text t" conf run_ok turns] assms show ?thesis
    by (auto simp: in_session_def andThen_def ret_def)
next
  case (H_freeContext p)
  with assms freeContext_consistent [of s] show ?thesis
    by (cases p) (fastforce simp: in_session_def live_def settled_def andThen_def ret_def)+
next
  case (H_stopVerifProxy p)
  with assms stopVerifProxy_consistent [of s] show ?thesis
    by (cases p) (fastforce simp: in_session_def live_def andThen_def ret_def)+
next
  case (H_processVerifProxyTasks p turns)
  with assms obtain i where i: "p = Some i" "contexts s i \<noteq> None"
    by (cases p) (auto simp: live_def)
  with processVerifProxyTasks_consistent [of s i "msg_text t" turns] H_processVerifProxyTasks assms show ?thesis
    by (auto simp: in_session_def andThen_def ret_def)
next
  case (H_method p m u fin)
  with assms obtain i c' where i: "p = Some i" "contexts s i = Some c'"
    by (cases p) (auto simp: live_def)
  let ?a = "invoke (decoders_of t) (ms_text t) m"
  from perform_consistent [of s i c' "msg_text t" u fin ?a] perform_g_ctx [of "msg_text t" p u fin ?a s]
    H_method i assms
  show ?thesis by (auto simp: in_session_def andThen_def ret_def)
qed

lemma session_keeps:
  assumes "in_session s" and "well_behaved t cs s"
  shows "\<exists>rs s'. session t cs s = (Done rs, s') \<and> length rs = length cs \<and> in_session s' \<and>
    answered s' + owed s' = answered s + owed s + sum_list (map asked cs)"
  using assms
proof (induction cs arbitrary: s)
  case Nil
  then show ?case by (simp add: ret_def)
next
  case (Cons c cs)
  then obtain r s1 where s1: "header_do t c s = (Done r, s1)" "in_session s1"
    "answered s1 + owed s1 = answered s + owed s + asked c"
    using header_do_keeps [of s c t] by auto
  with Cons.prems have "well_behaved t cs s1" by simp
  with Cons.IH [OF s1(2)] obtain rs s2 where s2: "session t cs s1 = (Done rs, s2)" "length rs = length cs"
    "in_session s2" "answered s2 + owed s2 = answered s1 + owed s1 + sum_list (map asked cs)" by blast
  have "session t (c # cs) s = (Done (r # rs), s2)" by (simp add: andThen_def ret_def s1(1) s2(1))
  moreover have "answered s2 + owed s2 = answered s + owed s + sum_list (map asked (c # cs))"
    unfolding s2(4) s1(3) by (simp add: add.assoc)
  ultimately show ?case using s2(2,3) by simp
qed

section \<open>Stopping\<close>

definition stopped :: "nat \<Rightarrow> 'c process \<Rightarrow> bool" where
  "stopped i s \<longleftrightarrow> (\<exists>c. contexts s i = Some c \<and> ctx_stop c)"

lemma process_stopped:
  "stopped i s \<Longrightarrow> processVerifProxyTasks enc (Some i) turns s = (Done RET_CANCELLED, s)"
  by (auto simp: stopped_def processVerifProxyTasks_def deref_def)

text \<open>
  The calls that concern one context that there is: no other context is started, stopped, freed or
  has its tasks run.
\<close>

fun alone :: "nat \<Rightarrow> header_call \<Rightarrow> bool" where
  "alone i (H_startVerifProxy conf run_ok turns) \<longleftrightarrow> False"
| "alone i (H_freeContext p) \<longleftrightarrow> p = Some i"
| "alone i (H_stopVerifProxy p) \<longleftrightarrow> p = Some i"
| "alone i (H_processVerifProxyTasks p turns) \<longleftrightarrow> p = Some i"
| "alone i (H_method p m userData finished) \<longleftrightarrow> p = Some i"

lemma owed_by_nonneg: "0 \<le> owed_by i calls"
  by (simp add: owed_by_def)

lemma perform_stopped:
  assumes "stopped i s"
  shows "\<exists>s' new. perform enc (Some i) u fin action s = (Done (), s') \<and> stopped i s' \<and> inflight s' = inflight s @ new"
  using assms
proof (induction action)
  case (Reply status response)
  then show ?case by (auto simp: stopped_def call_back_def)
next
  case (Start call)
  then show ?case
    by (cases fin) (auto simp: stopped_def callbackToC_def sendResult_def deref_def set_context_def call_back_def Let_def
        split: prod.split)
next
  case (Inspect f)
  then show ?case by (auto simp: stopped_def deref_def)
qed

lemma alone_step:
  assumes "stopped i s" and "0 < owed_by i (inflight s)" and "alone i c" and "permitted c s"
  shows "\<exists>r s' new. header_do t c s = (Done r, s') \<and> stopped i s' \<and> inflight s' = inflight s @ new"
proof (cases c)
  case (H_freeContext p)
  with assms show ?thesis by (simp add: settled_def)
next
  case (H_stopVerifProxy p)
  with assms(1,3) show ?thesis
    by (auto simp: stopped_def stopVerifProxy_def deref_def andThen_def ret_def set_context_def)
next
  case (H_processVerifProxyTasks p turns)
  with assms(1,3) show ?thesis by (auto simp: andThen_def ret_def process_stopped)
next
  case (H_method p m u fin)
  with assms(3) perform_stopped [OF assms(1), of "msg_text t" u fin "invoke (decoders_of t) (ms_text t) m"]
  show ?thesis by (fastforce simp: andThen_def ret_def)
qed (use assms(3) in simp)

lemma alone_session:
  assumes "stopped i s" and "0 < owed_by i (inflight s)" and "list_all (alone i) cs" and "well_behaved t cs s"
  shows "\<exists>rs s' new. session t cs s = (Done rs, s') \<and> stopped i s' \<and> inflight s' = inflight s @ new"
  using assms
proof (induction cs arbitrary: s)
  case Nil
  then show ?case by (simp add: ret_def)
next
  case (Cons c cs)
  then have "permitted c s" "alone i c" by simp_all
  from alone_step [OF Cons.prems(1,2) this(2,1), of t] obtain r s1 new where
    s1: "header_do t c s = (Done r, s1)" "stopped i s1" "inflight s1 = inflight s @ new" by blast
  have "0 < owed_by i (inflight s1)" using Cons.prems(2) owed_by_nonneg [of i new] by (simp add: s1(3))
  moreover have "well_behaved t cs s1" using Cons.prems(4) by (simp add: s1(1))
  moreover have "list_all (alone i) cs" using Cons.prems(3) by simp
  ultimately obtain rs s2 more where
    s2: "session t cs s1 = (Done rs, s2)" "stopped i s2" "inflight s2 = inflight s1 @ more"
    using Cons.IH [OF s1(2)] by blast
  have "session t (c # cs) s = (Done (r # rs), s2)" by (simp add: andThen_def ret_def s1(1) s2(1))
  moreover have "inflight s2 = inflight s @ (new @ more)" by (simp add: s2(3) s1(3))
  ultimately show ?case using s2(2) by blast
qed

section \<open>Properties\<close>

text \<open>
  C27: an orderly C program is safe with any number of contexts: no call touches a freed or null
  context, whatever the network answers and when, each call returns, and each method's callback is
  made exactly once: the user data passed are those called back and those still owed, with
  multiplicity.
\<close>

theorem header_sessions_are_safe:
  assumes "well_behaved t cs process_start"
  shows "\<exists>rs s. session t cs process_start = (Done rs, s) \<and> length rs = length cs \<and> consistent s \<and>
    answered s + owed s = sum_list (map asked cs)"
proof -
  have "in_session (process_start :: ('a, 'b, 'c) frontend_call process)"
    using process_start_consistent by (simp add: in_session_def process_start_def)
  from session_keeps [OF this assms] show ?thesis
    by (auto simp: in_session_def answered_def owed_def process_start_def)
qed

definition demo_context :: proxy_context where
  "demo_context = \<lparr>ctx_stop = True, pendingCalls = 3, ctx_op = False, ctx_interval = 12000\<rparr>"

definition demo_texts :: "(string, string, string) texts" where
  "demo_texts = \<lparr>decoders_of = text_decoders, msg_text = (\<lambda>m. m), ms_text = (\<lambda>_. [])\<rparr>"

text \<open>Two contexts; a method of each; the second one's event loop completes both.\<close>

definition demo_session :: "header_call list" where
  "demo_session =
     [H_startVerifProxy demo_context True [], H_startVerifProxy demo_context True [],
      H_method (Some 0) (Basic_api (C_blockNumber Eth)) 7 None,
      H_method (Some 1) (Basic_api (C_chainId Eth)) 8 None,
      H_processVerifProxyTasks (Some 1) [(0, Fut_value ''0x1''), (0, Fut_value ''0x2'')],
      H_stopVerifProxy (Some 0), H_freeContext (Some 0), H_stopVerifProxy (Some 1), H_freeContext (Some 1)]"

theorem header_sessions_are_safe_witness:
  "\<exists>rs s. session demo_texts demo_session process_start = (Done rs, s) \<and> consistent s \<and>
     answered s + owed s = {#7, 8#}"
proof -
  have "well_behaved demo_texts demo_session process_start" by code_simp
  from header_sessions_are_safe [OF this] show ?thesis
    by (auto simp: demo_session_def add_mset_commute)
qed

text \<open>
  C33: a stopped context strands its calls. If a context is stopped with calls in flight, then in
  whatever way an orderly program goes on with this context alone, running its tasks, calling more
  methods on it or stopping it again, for as long as it likes: every call that was in flight stays in
  flight, unanswered, in its place, and freeing the context is never permitted. (The event loop of
  another live context, which shares the process, would complete them.)
\<close>

theorem stopping_strands_calls:
  assumes "contexts s i = Some c" and "0 < owed_by i (inflight s)"
    and "header_do t (H_stopVerifProxy (Some i)) s = (out, s1)"
    and "list_all (alone i) cs" and "well_behaved t cs s1"
  shows "\<exists>rs s2 new. session t cs s1 = (Done rs, s2) \<and> inflight s2 = inflight s @ new \<and>
    \<not> permitted (H_freeContext (Some i)) s2 \<and> (\<forall>p. H_freeContext p \<notin> set cs)"
proof -
  have s1: "s1 = set_context i (c\<lparr>ctx_stop := True\<rparr>) s"
    using assms(1,3) by (simp add: stopVerifProxy_def deref_def andThen_def ret_def)
  have run: "\<exists>rs s2 new. session t ds s1 = (Done rs, s2) \<and> stopped i s2 \<and> inflight s2 = inflight s @ new"
    if "list_all (alone i) ds" "well_behaved t ds s1" for ds
    using alone_session [of i s1 ds t] that assms(2) by (simp add: s1 stopped_def set_context_def)
  have stuck: "\<not> permitted (H_freeContext (Some i)) s2" if "inflight s2 = inflight s @ new" for s2 new
    using assms(2) owed_by_nonneg [of i new] by (simp add: settled_def that)
  have "H_freeContext p \<notin> set cs" for p
  proof
    assume "H_freeContext p \<in> set cs"
    then obtain ds es where cs: "cs = ds @ H_freeContext p # es" by (auto simp: in_set_conv_decomp)
    with assms(4) have p: "p = Some i" and ds: "list_all (alone i) ds" by simp_all
    note wb = well_behaved_append [OF assms(5) [unfolded cs]]
    with run [OF ds] obtain rs s2 new where s2: "session t ds s1 = (Done rs, s2)" "inflight s2 = inflight s @ new" by blast
    with wb have "permitted (H_freeContext (Some i)) s2" by (simp add: p)
    with stuck [OF s2(2)] show False by blast
  qed
  with run [OF assms(4,5)] stuck show ?thesis by blast
qed

text \<open>Two contexts with a call each; the first is stopped, polled, called and polled again.\<close>

theorem stopping_strands_calls_witness:
  "\<exists>s s1 rs s2 new. session demo_texts (take 4 demo_session) process_start = (Done [H_ptr (Some 0), H_ptr (Some 1), H_void, H_void], s) \<and>
     header_do demo_texts (H_stopVerifProxy (Some 0)) s = (Done H_void, s1) \<and>
     session demo_texts [H_processVerifProxyTasks (Some 0) [(0, Fut_void)],
       H_method (Some 0) (Basic_api (C_chainId Eth)) 9 None, H_processVerifProxyTasks (Some 0) [(0, Fut_void)]] s1 = (Done rs, s2) \<and>
     inflight s2 = inflight s @ new \<and> length (inflight s) = 2 \<and> \<not> permitted (H_freeContext (Some 0)) s2"
proof -
  let ?cs = "[H_processVerifProxyTasks (Some 0) [(0, Fut_void)],
       H_method (Some 0) (Basic_api (C_chainId Eth)) 9 None, H_processVerifProxyTasks (Some 0) [(0, Fut_void)]]"
  let ?run = "session demo_texts (take 4 demo_session) process_start"
  have run: "(case ?run of (out, s) \<Rightarrow> out = Done [H_ptr (Some 0), H_ptr (Some 1), H_void, H_void] \<and>
      contexts s 0 \<noteq> None \<and> 0 < owed_by 0 (inflight s) \<and> length (inflight s) = 2 \<and>
      (case header_do demo_texts (H_stopVerifProxy (Some 0)) s of (out', s1) \<Rightarrow>
        out' = Done H_void \<and> well_behaved demo_texts ?cs s1))"
    by code_simp
  obtain out s where os: "?run = (out, s)" by (cases ?run)
  obtain out' s1 where s1: "header_do demo_texts (H_stopVerifProxy (Some 0)) s = (out', s1)"
    by (cases "header_do demo_texts (H_stopVerifProxy (Some 0)) s")
  from run os s1 obtain c where c: "contexts s 0 = Some c" and o: "0 < owed_by 0 (inflight s)" "length (inflight s) = 2"
    and out: "out = Done [H_ptr (Some 0), H_ptr (Some 1), H_void, H_void]" "out' = Done H_void"
    and wb: "well_behaved demo_texts ?cs s1" by auto
  have "list_all (alone 0) ?cs" by simp
  from stopping_strands_calls [OF c o(1) s1 this wb] obtain rs s2 new where
    "session demo_texts ?cs s1 = (Done rs, s2)" "inflight s2 = inflight s @ new"
    "\<not> permitted (H_freeContext (Some 0)) s2" by blast
  with os s1 out o(2) show ?thesis by blast
qed

end
