(* ===== verification/Spec2Isabelle.thy ===== *)
theory Spec2Isabelle
  imports Zkvm_Platform Zkvm_Io Proxy_Context Blocks C_Api C_Transport Example_Client Proxy_Config
    Evm_Backend Op_Engine Served Stateless_Execution Light_Client Proxy_Main C_Session Blob_Fees
begin

text \<open>
  A verification library for two programs of the Nimbus execution client's repository whose outer
  layers are written in C: the stateless guest, which validates a block inside a zkVM
  (\<open>src/execution_chain/stateless\<close>), and the verified proxy, which answers Ethereum JSON-RPC queries
  from untrusted servers and checks every answer against a light client
  (\<open>src/nimbus_verified_proxy\<close>).

  The programs and their parts.

  The guest is \<open>stateless_guest.nim\<close>: it reads its whole input with \<open>read_input\<close>, decodes and
  validates it, and writes the result with \<open>write_output\<close>. \<open>Stateless_Execution\<close> models what it does
  with the input (\<open>stateless/stateless_execution.nim\<close>): a payload is turned back into a block, its
  hash, versioned hashes and access list are checked, and the block runs on the state that the
  witness carries; and the host that builds the input and checks the output
  (\<open>stateless/stateless_host.nim\<close>). Its parts: \<open>Stateless_Types\<close>, the data; \<open>Word_Bytes\<close>, words as
  bytes, with the contract of an encoder of fixed length as a locale; \<open>Execution_Requests\<close>, the
  requests and their hash; \<open>Stateless_Witness\<close>, how the accesses of a block are recorded
  (\<open>db/ledger.nim\<close>), how a witness is built from them (\<open>stateless/witness_generation.nim\<close>) and
  checked (\<open>stateless/witness_verification.nim\<close>); \<open>Hard_Forks\<close>, the fork schedule and the guest's
  configuration (\<open>common/hardforks.nim\<close>, \<open>common/chain_config.nim\<close>, \<open>common/common.nim\<close>);
  \<open>Bal_Validation\<close>, block access lists (\<open>block_access_list/bal_validation.nim\<close>, \<open>bal_utils.nim\<close>);
  \<open>Block_Validation\<close>, the check of a header against its parent (\<open>core/validate.nim\<close>, \<open>gaslimit.nim\<close>,
  \<open>withdrawals.nim\<close>, \<open>eip4844.nim\<close>, \<open>eip7691.nim\<close>).

  The two calls of the guest are the zkVM input and output interface; under them and under newlib
  lie C platform layers. Theory \<open>Zkvm_Platform\<close> models \<open>zkvm/zisk/newlib_glue.c\<close> and
  \<open>zkvm/sp1/newlib_glue.c\<close> (\<open>_sbrk\<close>, \<open>_write\<close>, the exit calls, atomics and mutex stubs), with the
  contract of a program break as a locale. Theory \<open>Zkvm_Io\<close> models \<open>zkvm/native/zkvm_io_stdio.c\<close>,
  its Nim binding \<open>zkvm_io.nim\<close> and the guest over it, with the contract of the interface as a
  locale.

  The proxy has an engine, which decides what to believe, and a C library around it.

  The engine (\<open>engine/*.nim\<close>). \<open>Engine_Types\<close>: the errors, the pool of backends, their scores,
  selection and penalties (\<open>types.nim\<close>, \<open>applyPenalty\<close> of \<open>engine.nim\<close>), with the contract of a
  score function as a locale. \<open>Chain_Data\<close>: headers, blocks, transactions, accounts, proofs and
  their conversions. \<open>Header_Store\<close>: the store of headers by trust (\<open>header_store.nim\<close>).
  \<open>Engine_State\<close>: the state of an engine as a record that extends the pool by the store and the
  caches, and the environment. \<open>Accounts\<close>: accounts, code and slots from trie proofs
  (\<open>accounts.nim\<close>). \<open>Transactions\<close>: the check of a block's transactions (\<open>transactions.nim\<close>).
  \<open>Blocks\<close>: which header or block a tag, a number or a hash denotes, by the anchors of the light
  client, the walk along parent hashes and the history contract of EIP-2935 (\<open>blocks.nim\<close>), with the
  contract of the generic \<open>getVerified\<close> as a locale. \<open>Receipts\<close>: receipts, and logs looked up in
  them (\<open>receipts.nim\<close>, \<open>match\<close> of \<open>execution_chain/rpc/filters.nim\<close>). \<open>Fees\<close>: the price suggestions
  (\<open>fees.nim\<close>). \<open>Rpc_Frontend\<close>: the \<open>eth_\<close> methods over them, with the gate on the light client, the
  penalties and the filter store (\<open>rpc_frontend.nim\<close>). \<open>Evm_Backend\<close>: the state the EVM is given
  (\<open>evm.nim\<close>). \<open>Blob_Fees\<close>: the blob base fee of both frontends, with the configurations of the
  public networks (\<open>execution_chain/common/chain_config.nim\<close>). \<open>Op_Engine\<close>: the anchors of an OP
  chain from output roots on L1, over two engines (\<open>op/op_anchor.nim\<close>, \<open>op/op_anchor_utils.nim\<close>,
  \<open>op/op_chain_params.nim\<close>). \<open>Light_Client\<close>: the synchronisation with the beacon chain that sets the
  anchors (\<open>syncOnce\<close> of \<open>engine.nim\<close>), with the contract of an invariant of it as a locale.
  \<open>Proxy_Main\<close>: the command line program, from the network's name (\<open>genesis_params.nim\<close>,
  \<open>utils.nim\<close>) and the making of the engines (\<open>engine.nim\<close>) to the start and the loop of \<open>run\<close>
  (\<open>nimbus_verified_proxy.nim\<close>), over the light client and the OP engine.

  The C library (\<open>library/*\<close>). \<open>Library_Utils\<close>: arguments and replies as text (\<open>utils.nim\<close>).
  \<open>Proxy_Context\<close>: the life cycle of a context, calls in flight and their callbacks
  (\<open>verifproxy.nim\<close>, \<open>types.nim\<close>, \<open>callbackToC\<close> of \<open>c_frontend.nim\<close>) and the shim
  \<open>bindings/wasm/wasm_wrapper.c\<close>. \<open>C_Frontend\<close>: every exported procedure and the dispatcher
  \<open>proxyCall\<close> (\<open>c_frontend.nim\<close>). \<open>C_Api\<close>: the prototypes of \<open>verifproxy.h\<close>. \<open>C_Session\<close>: programs
  of header calls over any number of contexts. \<open>C_Transport\<close>: the requests of both backends through
  transports written in C (\<open>c_execution_backend.nim\<close>, \<open>c_beacon_backend.nim\<close>), with the contract of
  a delivery callback as a locale. \<open>Proxy_Config\<close>: the JSON configuration and the registration of
  backends (\<open>load\<close> and \<open>run\<close> of \<open>verifproxy.nim\<close>). \<open>Example_Client\<close>: the program
  \<open>examples/example_client.c\<close> over the models of the calls it makes.

  \<open>Served\<close> joins the two: which method of the frontend serves a call that the C library starts, for
  all calls but the four that are not modelled (\<open>unmodelled\<close>).

  \<open>Prelude\<close> holds what they share: words, numbers and lists as text, the outcome of a procedure,
  state-passing procedures and a small Hoare calculus for invariants and for what a normal return
  yields.

  How code becomes definitions. A procedure that may fail, be cancelled or hit a Nim \<open>Defect\<close> is a
  function from a state to an outcome and a state (\<open>proc\<close>). Integers have the width of the code. A
  pointer is an optional address; an access through a null or dangling one is a \<open>Defect\<close>. An
  asynchronous call is one step: at an \<open>await\<close> the environment \<open>env\<close> gives the answer and then
  changes the engine as it likes (\<open>interfere\<close>), which stands for all other tasks of the process; the
  theorems assume only that these keep the engine's invariant (\<open>calm\<close>). The environment also decides
  which backend the random generator draws and what full caches drop. The event loop of the C
  library is a list of completions in any order.

  In the guest the packages are the record \<open>packages\<close>, SSZ the record \<open>ssz\<close>, and the in-memory
  database with the EVM on it the record \<open>database\<close>.

  Packages outside the repository are parameters, with hypotheses that say what is relied on:
  hashing is injective where that is needed, \<open>verifyMptProof\<close> accepts only true values
  (\<open>proofs_sound\<close>), the header hashes of the chain determine their headers (\<open>chain_sound\<close>), the
  arguments of a call decode to the same after the JSON package has read and printed them
  (\<open>faithful\<close>), an output root on L1 commits to its block (\<open>posts\<close>), the light client only reaches
  good stores, whose headers are what they claim to be (\<open>lc_sound\<close>), hashes do not collide on the
  values that are compared (\<open>no_collision\<close>, \<open>collision_free\<close>). The metadata and the beacon clock of
  nimbus-eth2, which the start of an engine asks for, are the argument \<open>eth2_package\<close>, and so are
  their failures. The \<open>truth\<close> a theorem speaks of is the set of headers that deserve each trust and
  the accounts and slots under genuine state roots. What answers a block tag is fixed by \<open>answers\<close>,
  independently of the code: the name of an alias says which anchor it asks for and which trust that
  deserves (\<open>block_names\<close>).

  What is shown. Of the guest: from a sealed block on the host to the result the host reads back,
  the verdict is that of \<open>statelessProcessBlock\<close> on that block; an accepted payload has passed every
  check and ran on the database made of its witness alone, at the state root of its parent; the
  block hash pins the block, its requests and the parent; every input gets an answer but those that
  crash the database or the executor, at the sites that are listed. What \<open>validateHeader\<close> accepts
  lies within its bounds, the price of blob gas is computed in time and, up to an excess of 100
  update fractions, as the EIP defines it (far beyond, the words of 256 bits wrap around); access
  lists are accepted exactly if they are well-formed, and searched for the right change; the
  requests hash commits to the requests, the fork predicates agree with the fork table. A witness
  that is built has its form and passes the checks of the verifier, with the one exception that an
  empty record of accesses fails; what passes them is pinned by the block. Of the engine: every
  header, block, account, slot and code it returns is true to the anchors, whatever the backends
  answer, except that a header asked for by a hash that need not be canonical is only known to have
  that hash; transactions (if asked for in full) and withdrawals (if list and root are there) match
  the block's roots, receipts match the receipts root, and the answers of the \<open>eth_\<close> methods about
  the state are those of the state, from the text of the call on; the EVM is given the true state,
  the blob base fee is the expansion the EIP defines at a trusted header, with the fork schedule of
  the network, the anchors of an OP chain are the blocks its posted roots commit to; the walk and
  the jumps through the history contract end; the header store, the filter store and the pool keep
  their invariants, a backend caught with bad data is out for nine selections and everyone recovers
  in nine, while a synchronisation excludes no backend, whatever it sends. Of the program: when it
  starts, given what the package knows of the network, that after any number of rounds every anchor
  of both engines deserves its trust, and that no failed synchronisation stops it. Of the C library:
  no call is lost or answered twice and no dead context is touched as long as the embedder is
  orderly, through the header or the shim, and the calls of a stopped context are stranded, however
  its program goes on with it; the dispatcher, the prototypes and the two namespaces agree with each
  other; each delivery reaches its own request; private endpoints are not bypassed; configurations
  are read back. Of the platform layers: the blocks of the heap are disjoint and inside their
  region, the guest reads all its input once and writes nothing but its result, and returns if
  memory suffices. Where the code does not do what it means to, the theorem shows what it does: the
  findings of the manifest name them.

  Loops. \<open>walk_loop\<close> and \<open>windowJumps\<close> have fuel: the distance of the block numbers, by which every
  iteration comes closer to the target; the theorems say that it suffices. \<open>fakeExp_loop\<close> has fuel
  \<open>expansion_fuel\<close>: from twice the quotient of its arguments on every term at most halves the one
  before, so the digits of a word are enough rounds more. The other loops are structural recursions
  or have termination proofs. \<open>Stuck\<close> is the outcome of a loop out of fuel and of a program that has
  not returned, as the example client's main loop.

  Not modelled: of the frontend, the methods that run the EVM (\<open>eth_call\<close>, \<open>eth_createAccessList\<close>,
  \<open>eth_estimateGas\<close>), and \<open>eth_feeHistory\<close>, which is passed on; the EVM (what it returns for a call
  of an L1 contract is an argument of the OP engine's reads); the light client itself, which is
  nimbus-eth2, a submodule (its store and its processor are the argument \<open>lc_package\<close>, what the
  frontend asks of it \<open>light_client_at\<close>); the network back ends, the peer-to-peer one included; of
  \<open>run\<close>, logging, the command line reader, the stopping of the servers, and the set-up of the fork
  digests and the processor; of stateless execution, the database, the trie and \<open>processBlock\<close>,
  which runs the EVM, and the helpers that read witnesses from files. The rest of the repository,
  the execution client proper with its database, chain core, EVM and networking, and the portal
  client, is a program of its own and is left out.
\<close>

end
